(* ===== verification/Prelude.thy ===== *)
theory Prelude
  imports Main "HOL-Library.Sublist" "HOL-Library.State_Monad" "HOL-Library.Word"
begin

text \<open>
  The C library as the daemon uses it, and the lemmas every component shares.

  A C string is a \<^typ>\<open>string\<close> without its terminating NUL; a pointer into a string
  (the result of \<open>strstr\<close>, \<open>strrchr\<close>) is the suffix it points to, and a null pointer is
  \<^const>\<open>None\<close>. A fixed-size buffer shows up as the truncation the call performs
  (\<open>snprintf\<close>, \<open>strncpy\<close>, \<open>fgets\<close>). Formatted input is an interpreter for
  the conversions the source uses.
\<close>

named_theorems clib "unfolding rules of the C library model"
named_theorems frames "frame rules: what an operation leaves alone"
named_theorems privconst "numeric constants of privconfig.h"

section \<open>Constants of privconfig.h and of the platform\<close>

definition EPERM :: int where "EPERM = 1"
definition ENOENT :: int where "ENOENT = 2"
definition EBADF :: int where "EBADF = 9"
definition ENOMEM :: int where "ENOMEM = 12"
definition EACCES :: int where "EACCES = 13"
definition EFAULT :: int where "EFAULT = 14"
definition EEXIST :: int where "EEXIST = 17"
definition ENOTDIR :: int where "ENOTDIR = 20"
definition EISDIR :: int where "EISDIR = 21"
definition EINVAL :: int where "EINVAL = 22"
definition ENOSPC :: int where "ENOSPC = 28"
definition ERANGE :: int where "ERANGE = 34"
definition ENOTEMPTY :: int where "ENOTEMPTY = 39"

lemmas errno_defs = EPERM_def ENOENT_def EBADF_def ENOMEM_def EACCES_def EFAULT_def EEXIST_def
  ENOTDIR_def EISDIR_def EINVAL_def ENOSPC_def ERANGE_def ENOTEMPTY_def

definition PROPERTY_VALUE_MAX :: nat where "PROPERTY_VALUE_MAX = 92"
definition PATHMAX :: nat where "PATHMAX = 512"
definition MAXLINESIZE :: nat where "MAXLINESIZE = max (2 * PROPERTY_VALUE_MAX) (4 * 1024)"
definition CPBUFFERSIZE :: nat where "CPBUFFERSIZE = 4 * 1024"
definition MAX_RECORDS :: nat where "MAX_RECORDS = 5000"
definition MAX_RECORDS_HIST_FILE :: nat where "MAX_RECORDS_HIST_FILE = MAX_RECORDS + 1000"
definition HIST_FILE_HEADER_SIZE :: nat where "HIST_FILE_HEADER_SIZE = 2"

lemma MAXLINESIZE_eq [privconst]: "MAXLINESIZE = 4096"
  by (simp add: MAXLINESIZE_def PROPERTY_VALUE_MAX_def)

lemma MAX_RECORDS_pos [simp]: "0 < MAX_RECORDS" "MAX_RECORDS \<noteq> 0"
  by (simp_all add: MAX_RECORDS_def)

lemma MAX_RECORDS_less_file: "MAX_RECORDS < MAX_RECORDS_HIST_FILE"
  by (simp add: MAX_RECORDS_HIST_FILE_def)

lemmas [privconst] = PROPERTY_VALUE_MAX_def PATHMAX_def CPBUFFERSIZE_def MAX_RECORDS_def
  MAX_RECORDS_HIST_FILE_def HIST_FILE_HEADER_SIZE_def

abbreviation NL :: char where "NL \<equiv> CHR 0x0A"
abbreviation NUL :: char where "NUL \<equiv> CHR 0x00"

section \<open>Strings\<close>

text \<open>The C string held in a buffer: everything before the first NUL.\<close>

definition cstr :: "string \<Rightarrow> string" where
  "cstr buf = takeWhile (\<lambda>c. c \<noteq> NUL) buf"

lemma cstr_id [simp]: "NUL \<notin> set s \<Longrightarrow> cstr s = s"
  by (simp add: cstr_def takeWhile_eq_all_conv) metis

lemma cstr_no_NUL [simp]: "NUL \<notin> set (cstr s)"
  by (auto simp: cstr_def dest: set_takeWhileD)

definition isspace :: "char \<Rightarrow> bool" where
  "isspace c \<longleftrightarrow> c \<in> {CHR 0x20, CHR 0x09, CHR 0x0A, CHR 0x0B, CHR 0x0C, CHR 0x0D}"

definition isdigit :: "char \<Rightarrow> bool" where
  "isdigit c \<longleftrightarrow> 48 \<le> (of_char c :: nat) \<and> (of_char c :: nat) \<le> 57"

definition isalpha :: "char \<Rightarrow> bool" where
  "isalpha c \<longleftrightarrow> (65 \<le> (of_char c :: nat) \<and> (of_char c :: nat) \<le> 90) \<or>
                (97 \<le> (of_char c :: nat) \<and> (of_char c :: nat) \<le> 122)"

definition toupper :: "char \<Rightarrow> char" where
  "toupper c = (if 97 \<le> (of_char c :: nat) \<and> (of_char c :: nat) \<le> 122
                then char_of ((of_char c :: nat) - 32) else c)"

fun strstr :: "string \<Rightarrow> string \<Rightarrow> string option" where
  "strstr [] n = (if n = [] then Some [] else None)"
| "strstr (c # h) n = (if prefix n (c # h) then Some (c # h) else strstr h n)"

definition contains :: "string \<Rightarrow> string \<Rightarrow> bool" where
  "contains h n \<longleftrightarrow> strstr h n \<noteq> None"

lemma strstr_None: "strstr h n = None \<longleftrightarrow> \<not> sublist n h"
  by (induction h) (auto simp: sublist_Cons_right)

lemma contains_sublist: "contains h n \<longleftrightarrow> sublist n h"
  by (simp add: contains_def strstr_None)

lemma strstr_Some_prefix: "strstr h n = Some t \<Longrightarrow> prefix n t \<and> suffix t h"
  by (induction h) (auto split: if_splits simp: suffix_Cons)

lemma contains_append: "contains a n \<Longrightarrow> contains (a @ b) n"
  by (auto simp: contains_sublist sublist_append)

fun strrchr :: "string \<Rightarrow> char \<Rightarrow> string option" where
  "strrchr [] c = None"
| "strrchr (x # xs) c =
     (case strrchr xs c of Some t \<Rightarrow> Some t | None \<Rightarrow> if x = c then Some (x # xs) else None)"

lemma strrchr_None: "strrchr s c = None \<longleftrightarrow> c \<notin> set s"
  by (induction s) (auto split: option.splits)

lemma strrchr_Some:
  "strrchr s c = Some t \<Longrightarrow> \<exists>u v. t = c # v \<and> s = u @ c # v \<and> c \<notin> set v"
proof (induction s)
  case (Cons x xs)
  show ?case
  proof (cases "strrchr xs c")
    case None
    with Cons.prems show ?thesis by (auto simp: strrchr_None split: if_splits)
  next
    case (Some a)
    with Cons obtain u v where "t = c # v" "xs = u @ c # v" "c \<notin> set v" by auto
    then have "t = c # v \<and> x # xs = (x # u) @ c # v \<and> c \<notin> set v" by simp
    then show ?thesis by blast
  qed
qed simp

lemma strrchr_append [simp]: "c \<notin> set v \<Longrightarrow> strrchr (u @ c # v) c = Some (c # v)"
proof (induction u)
  case Nil
  then have "strrchr v c = None" by (simp add: strrchr_None)
  then show ?case by simp
qed simp

text \<open>\<open>snprintf(buf, n, ...)\<close> and the bounded copies keep at most \<open>n - 1\<close> characters.\<close>

definition snprintf :: "nat \<Rightarrow> string \<Rightarrow> string" where
  "snprintf n s = take (n - 1) s"

lemma snprintf_id [simp]: "length s < n \<Longrightarrow> snprintf n s = s"
  by (simp add: snprintf_def)

lemma length_snprintf: "0 < n \<Longrightarrow> length (snprintf n s) < n"
  by (auto simp: snprintf_def)

text \<open>\<open>%-<n>s\<close>: left-justified in a field of width \<open>n\<close>.\<close>

definition pad_right :: "nat \<Rightarrow> string \<Rightarrow> string" where
  "pad_right n s = s @ replicate (n - length s) (CHR '' '')"

definition pad_left :: "char \<Rightarrow> nat \<Rightarrow> string \<Rightarrow> string" where
  "pad_left c n s = replicate (n - length s) c @ s"

lemma length_pad_right: "length (pad_right n s) = max n (length s)"
  by (simp add: pad_right_def)

lemma length_pad_left: "length (pad_left c n s) = max n (length s)"
  by (simp add: pad_left_def)

section \<open>Numbers in text\<close>

definition digit :: "nat \<Rightarrow> char" where
  "digit d = char_of (48 + d)"

definition digit_val :: "char \<Rightarrow> nat" where
  "digit_val c = of_char c - 48"

lemma of_char_digit: "d < 10 \<Longrightarrow> (of_char (digit d) :: nat) = 48 + d"
  by (simp add: digit_def)

lemma isdigit_digit [simp]: "d < 10 \<Longrightarrow> isdigit (digit d)"
  by (simp add: isdigit_def of_char_digit)

lemma digit_val_digit [simp]: "d < 10 \<Longrightarrow> digit_val (digit d) = d"
  by (simp add: digit_val_def of_char_digit)

fun show_nat :: "nat \<Rightarrow> string" where
  "show_nat n = (if n < 10 then [digit n] else show_nat (n div 10) @ [digit (n mod 10)])"

declare show_nat.simps [simp del]

fun read_nat :: "nat \<Rightarrow> string \<Rightarrow> nat" where
  "read_nat acc [] = acc"
| "read_nat acc (c # cs) = read_nat (10 * acc + digit_val c) cs"

lemma read_nat_append: "read_nat acc (xs @ ys) = read_nat (read_nat acc xs) ys"
  by (induction xs arbitrary: acc) auto

lemma read_show_nat [simp]: "read_nat 0 (show_nat n) = n"
proof (induction n rule: show_nat.induct)
  case (1 n)
  then show ?case
    by (cases "n < 10") (simp_all add: show_nat.simps [of n] read_nat_append)
qed

lemma show_nat_digits: "\<forall>c \<in> set (show_nat n). isdigit c"
proof (induction n rule: show_nat.induct)
  case (1 n)
  then show ?case
    by (cases "n < 10") (auto simp: show_nat.simps [of n])
qed

lemma show_nat_nonempty [simp]: "show_nat n \<noteq> []"
  by (subst show_nat.simps) simp

lemma length_show_nat: "n < 10 ^ k \<Longrightarrow> 0 < k \<Longrightarrow> length (show_nat n) \<le> k"
proof (induction n arbitrary: k rule: show_nat.induct)
  case (1 n)
  show ?case
  proof (cases "n < 10")
    case True
    with 1 show ?thesis by (simp add: show_nat.simps [of n])
  next
    case False
    with 1 obtain j where k: "k = Suc j" "0 < j"
      by (cases k; cases "k - 1") auto
    with 1 False have "length (show_nat (n div 10)) \<le> j"
      by (simp add: less_mult_imp_div_less)
    with k False show ?thesis by (simp add: show_nat.simps [of n])
  qed
qed

definition show_int :: "int \<Rightarrow> string" where
  "show_int i = (if i < 0 then CHR ''-'' # show_nat (nat (- i)) else show_nat (nat i))"

text \<open>Conversion to a 32-bit \<open>int\<close> and to an \<open>unsigned int\<close>.\<close>

definition to_int32 :: "int \<Rightarrow> int" where
  "to_int32 i = (i + 2 ^ 31) mod 2 ^ 32 - 2 ^ 31"

definition to_uint32 :: "int \<Rightarrow> int" where
  "to_uint32 i = i mod 2 ^ 32"

lemma to_int32_id [simp]: "- (2 ^ 31) \<le> i \<Longrightarrow> i < 2 ^ 31 \<Longrightarrow> to_int32 i = i"
  by (simp add: to_int32_def)

lemma to_uint32_id [simp]: "0 \<le> i \<Longrightarrow> i < 2 ^ 32 \<Longrightarrow> to_uint32 i = i"
  by (simp add: to_uint32_def)

text \<open>C's division and remainder truncate towards zero.\<close>

definition cdiv :: "int \<Rightarrow> int \<Rightarrow> int" where
  "cdiv a b = sgn a * sgn b * (\<bar>a\<bar> div \<bar>b\<bar>)"

definition cmod :: "int \<Rightarrow> int \<Rightarrow> int" where
  "cmod a b = a - cdiv a b * b"

lemma cdiv_nonneg [simp]: "0 \<le> a \<Longrightarrow> 0 < b \<Longrightarrow> cdiv a b = a div b"
  by (cases "a = 0") (simp_all add: cdiv_def)

lemma cmod_nonneg [simp]: "0 \<le> a \<Longrightarrow> 0 < b \<Longrightarrow> cmod a b = a mod b"
  by (simp add: cmod_def minus_div_mult_eq_mod)

text \<open>
  \<open>strtol(s, NULL, 10)\<close>, \<open>atoi\<close> and \<open>atol\<close>: leading white space, an optional
  sign, then digits; 0 when there is no digit. The result is not clamped here: callers
  convert it to the type they store.
\<close>

definition strtol10 :: "string \<Rightarrow> int" where
  "strtol10 s =
     (let t = dropWhile isspace s;
          neg = (t \<noteq> [] \<and> hd t = CHR ''-'');
          u = (if t \<noteq> [] \<and> (hd t = CHR ''-'' \<or> hd t = CHR ''+'') then tl t else t);
          v = int (read_nat 0 (takeWhile isdigit u))
      in if neg then - v else v)"

lemma isdigit_not_isspace: "isdigit c \<Longrightarrow> \<not> isspace c"
  by (auto simp: isdigit_def isspace_def)

lemma strtol10_show_nat [simp]: "strtol10 (show_nat n) = int n"
proof -
  have d: "\<forall>c \<in> set (show_nat n). isdigit c" by (rule show_nat_digits)
  obtain c cs where c: "show_nat n = c # cs" by (cases "show_nat n") simp_all
  with d have "isdigit c" by simp
  then have "\<not> isspace c" "c \<noteq> CHR ''-''" "c \<noteq> CHR ''+''"
    by (auto simp: isdigit_not_isspace isdigit_def)
  moreover have "takeWhile isdigit (show_nat n) = show_nat n"
    using d by (simp add: takeWhile_eq_all_conv)
  ultimately show ?thesis
    using c read_show_nat [of n] by (simp add: strtol10_def Let_def)
qed

section \<open>Formatted input\<close>

text \<open>
  The conversions of \<open>scanf\<close> formats the source uses: a literal character, a run of
  white space, \<open>%<w>s\<close> and \<open>%*s\<close> (a word, stored or skipped), \<open>%<w>u\<close>
  (digits, stored as text).
\<close>

datatype sfmt = SLit char | SWs | SWord "nat option" bool | SNum "nat option"

definition upto_width :: "nat option \<Rightarrow> string \<Rightarrow> string" where
  "upto_width w s = (case w of None \<Rightarrow> s | Some n \<Rightarrow> take n s)"

text \<open>The values stored, in order, and whether input ran out before a conversion.\<close>

fun scanf :: "sfmt list \<Rightarrow> string \<Rightarrow> string list \<times> bool" where
  "scanf [] s = ([], False)"
| "scanf (SLit c # f) s =
     (case s of [] \<Rightarrow> ([], True) | x # t \<Rightarrow> if x = c then scanf f t else ([], False))"
| "scanf (SWs # f) s = scanf f (dropWhile isspace s)"
| "scanf (SWord w store # f) s =
     (let t = dropWhile isspace s;
          v = upto_width w (takeWhile (\<lambda>c. \<not> isspace c) t)
      in if t = [] then ([], True)
         else if store then (case scanf f (drop (length v) t) of (vs, e) \<Rightarrow> (v # vs, e))
         else scanf f (drop (length v) t))"
| "scanf (SNum w # f) s =
     (let t = dropWhile isspace s;
          v = upto_width w (takeWhile isdigit t)
      in if t = [] then ([], True)
         else if v = [] then ([], False)
         else (case scanf f (drop (length v) t) of (vs, e) \<Rightarrow> (v # vs, e)))"

text \<open>The return value: the number of conversions stored, \<open>EOF\<close> (-1) if input ended first.\<close>

definition scanf_ret :: "string list \<times> bool \<Rightarrow> int" where
  "scanf_ret r = (if fst r = [] \<and> snd r then -1 else int (length (fst r)))"

definition slit :: "string \<Rightarrow> sfmt list" where
  "slit s = map SLit s"

section \<open>Lists\<close>

lemma rotate_add_drop_take: "n \<le> length xs \<Longrightarrow> rotate n xs = drop n xs @ take n xs"
  by (cases "n = length xs") (simp_all add: rotate_drop_take)

text \<open>The last \<open>n\<close> elements of a list.\<close>

definition lastn :: "nat \<Rightarrow> 'a list \<Rightarrow> 'a list" where
  "lastn n xs = drop (length xs - n) xs"

lemma length_lastn [simp]: "length (lastn n xs) = min n (length xs)"
  by (simp add: lastn_def)

lemma lastn_all [simp]: "length xs \<le> n \<Longrightarrow> lastn n xs = xs"
  by (simp add: lastn_def)

lemma lastn_append: "length ys \<le> n \<Longrightarrow> lastn n (xs @ ys) = lastn (n - length ys) xs @ ys"
  by (simp add: lastn_def)

lemma lastn_snoc: "0 < n \<Longrightarrow> lastn n (xs @ [x]) = lastn (n - 1) xs @ [x]"
  by (simp add: lastn_def Suc_diff_le)

lemma lastn_lastn_snoc: "lastn n (lastn n xs @ [x]) = lastn n (xs @ [x])"
proof (cases "length xs \<le> n")
  case False
  then show ?thesis
    by (cases n) (simp_all add: lastn_def Suc_diff_le Suc_diff_Suc flip: drop_Suc)
qed simp

end
