(* ===== verification/Ring.thy ===== *)
theory Ring
  imports Prelude
begin

text \<open>
  The circular buffer that \<open>cache_file\<close> fills and \<open>history.c\<close> keeps: an array of
  pointers, null where nothing was stored, and the index of the next slot. The interface
  \<open>bounded_log\<close> says what its clients rely on: storing an entry appends it to the
  entries held and forgets the oldest when the buffer is full.
\<close>

section \<open>The interface\<close>

locale bounded_log =
  fixes cap :: nat
    and push :: "'x \<Rightarrow> 'r \<Rightarrow> 'r"
    and items :: "'r \<Rightarrow> 'x list"
    and inv :: "'r \<Rightarrow> bool"
  assumes items_push: "inv r \<Longrightarrow> items (push x r) = lastn cap (items r @ [x])"
    and inv_push: "inv r \<Longrightarrow> inv (push x r)"
    and items_bounded: "inv r \<Longrightarrow> length (items r) \<le> cap"
begin

lemma inv_fold_push: "inv r \<Longrightarrow> inv (fold push xs r)"
  by (induction xs arbitrary: r) (auto simp: inv_push)

lemma items_fold_push: "inv r \<Longrightarrow> items (fold push xs r) = lastn cap (items r @ xs)"
proof (induction xs rule: rev_induct)
  case Nil
  then show ?case by (simp add: items_bounded)
next
  case (snoc x xs)
  then have "inv (fold push xs r)" by (simp add: inv_fold_push)
  with snoc show ?case
    by (simp add: items_push lastn_lastn_snoc [of cap "items r @ xs" x, simplified])
qed

lemma items_push_last: "inv r \<Longrightarrow> 0 < cap \<Longrightarrow> last (items (push x r)) = x"
  by (simp add: items_push lastn_snoc)

end

section \<open>The array\<close>

type_synonym 'a ring = "'a option list \<times> nat"

definition ring_push :: "'a \<Rightarrow> 'a ring \<Rightarrow> 'a ring" where
  "ring_push x r = ((fst r)[snd r := Some x], (snd r + 1) mod length (fst r))"

text \<open>The slots from the oldest to the newest, and the entries among them.\<close>

definition ring_view :: "'a ring \<Rightarrow> 'a option list" where
  "ring_view r = rotate (snd r) (fst r)"

definition ring_items :: "'a ring \<Rightarrow> 'a list" where
  "ring_items r = map the (filter (\<lambda>x. x \<noteq> None) (ring_view r))"

text \<open>Empty slots come before the entries, and the index is in range.\<close>

definition ring_inv :: "nat \<Rightarrow> 'a ring \<Rightarrow> bool" where
  "ring_inv cap r \<longleftrightarrow>
     length (fst r) = cap \<and> snd r < cap \<and>
     (\<exists>n xs. ring_view r = replicate n None @ map Some xs)"

lemma filter_view [simp]:
  "map the (filter (\<lambda>x. x \<noteq> None) (replicate n None @ map Some xs)) = xs"
  by (simp add: comp_def)

lemma ring_view_items:
  assumes "ring_inv cap r"
  shows "ring_view r = replicate (cap - length (ring_items r)) None @ map Some (ring_items r)"
    and "length (ring_items r) \<le> cap"
proof -
  from assms obtain n xs where v: "ring_view r = replicate n None @ map Some xs"
    by (auto simp: ring_inv_def)
  then have "ring_items r = xs" by (simp add: ring_items_def)
  moreover have "length (ring_view r) = cap"
    using assms by (simp add: ring_inv_def ring_view_def)
  ultimately show "ring_view r = replicate (cap - length (ring_items r)) None @ map Some (ring_items r)"
    and "length (ring_items r) \<le> cap"
    using v by auto
qed

lemma rotate_Suc_update:
  assumes "i < length rs"
  shows "rotate (Suc i mod length rs) (rs[i := x]) = tl (rotate i rs) @ [x]"
proof -
  have "rotate (Suc i mod length rs) (rs[i := x]) = rotate (Suc i) (rs[i := x])"
    by (metis length_list_update rotate_conv_mod)
  also have "\<dots> = drop (Suc i) rs @ take i rs @ [x]"
    using assms rotate_add_drop_take [of "Suc i" "rs[i := x]"]
    by (simp add: take_Suc_conv_app_nth del: rotate_Suc)
  also have "\<dots> = tl (rotate i rs) @ [x]"
    using assms by (simp add: rotate_add_drop_take drop_Suc tl_drop)
  finally show ?thesis .
qed

lemma ring_view_push:
  "snd r < length (fst r) \<Longrightarrow> ring_view (ring_push x r) = tl (ring_view r) @ [Some x]"
  by (simp add: ring_view_def ring_push_def rotate_Suc_update)

lemma tl_view:
  "tl (replicate n None @ map Some xs) = replicate (n - 1) None @ map Some (drop (1 - n) xs)"
  by (cases n) (simp_all add: drop_Suc map_tl)

lemma ring_push_correct:
  assumes "ring_inv cap r"
  shows "ring_inv cap (ring_push x r)"
    and "ring_items (ring_push x r) = lastn cap (ring_items r @ [x])"
proof -
  let ?n = "cap - length (ring_items r)" and ?xs = "ring_items r"
  have r: "length (fst r) = cap" "snd r < cap" using assms by (auto simp: ring_inv_def)
  have v: "ring_view (ring_push x r) =
      replicate (?n - 1) None @ map Some (drop (1 - ?n) ?xs @ [x])"
    using ring_view_items [OF assms] r by (simp add: ring_view_push tl_view)
  have "length (fst (ring_push x r)) = cap" "snd (ring_push x r) < cap"
    using r by (simp_all add: ring_push_def)
  with v show "ring_inv cap (ring_push x r)"
    unfolding ring_inv_def by blast
  have "ring_items (ring_push x r) = drop (1 - ?n) ?xs @ [x]"
    unfolding ring_items_def [of "ring_push x r"] v by (rule filter_view)
  also have "\<dots> = lastn cap (?xs @ [x])"
    using ring_view_items(2) [OF assms] r by (cases "?n") (auto simp: lastn_def)
  finally show "ring_items (ring_push x r) = lastn cap (?xs @ [x])" .
qed

interpretation slots: bounded_log cap "ring_push :: 'a \<Rightarrow> 'a ring \<Rightarrow> 'a ring" ring_items "ring_inv cap"
  for cap
  by unfold_locales (auto simp: ring_push_correct ring_view_items(2))

definition ring_empty :: "nat \<Rightarrow> 'a ring" where
  "ring_empty cap = (replicate cap None, 0)"

lemma ring_empty_correct:
  "0 < cap \<Longrightarrow> ring_inv cap (ring_empty cap)" "ring_items (ring_empty cap) = []"
proof -
  show "ring_items (ring_empty cap) = []"
    by (simp add: ring_items_def ring_view_def ring_empty_def)
  show "ring_inv cap (ring_empty cap)" if "0 < cap"
    unfolding ring_inv_def using that
    by (auto simp: ring_view_def ring_empty_def intro: exI [of _ cap] exI [of _ "[]"])
qed

lemma length_fold_push: "length (fst (fold ring_push xs r)) = length (fst r)"
  by (induction xs arbitrary: r) (auto simp: ring_push_def)

lemma ring_fold_index:
  "snd r < length (fst r) \<Longrightarrow>
   snd (fold ring_push xs r) = (snd r + length xs) mod length (fst r)"
proof (induction xs rule: rev_induct)
  case (snoc x xs)
  then show ?case
    by (simp add: ring_push_def [of x "fold ring_push xs r"] length_fold_push mod_Suc_eq)
qed simp

text \<open>
  The array itself: a full ring is its entries rotated, a ring that was filled from empty and
  never wrapped holds its entries from slot 0 on.
\<close>

lemma ring_full_rotate:
  "ring_inv cap r \<Longrightarrow> length (ring_items r) = cap \<Longrightarrow>
   rotate (snd r) (fst r) = map Some (ring_items r)"
  using ring_view_items(1) [of cap r] by (simp add: ring_view_def)

lemma ring_partial_slots:
  assumes "ring_inv cap r" "length (ring_items r) = snd r"
  shows "fst r = map Some (ring_items r) @ replicate (cap - snd r) None"
proof -
  have "drop (snd r) (fst r) @ take (snd r) (fst r) =
      replicate (cap - snd r) None @ map Some (ring_items r)"
    using assms ring_view_items(1) [OF assms(1)]
    by (simp add: ring_view_def ring_inv_def rotate_add_drop_take)
  moreover have "length (drop (snd r) (fst r)) = cap - snd r"
    using assms by (simp add: ring_inv_def)
  ultimately have "drop (snd r) (fst r) = replicate (cap - snd r) None"
    "take (snd r) (fst r) = map Some (ring_items r)"
    by (metis append_eq_append_conv length_replicate)+
  then show ?thesis by (metis append_take_drop_id)
qed

text \<open>An array filled from slot 0 on, with the index behind the last entry.\<close>

lemma ring_of_list:
  assumes "0 < cap" "length ws \<le> cap"
  defines "r \<equiv> (map Some ws @ replicate (cap - length ws) None, length ws mod cap)"
  shows "ring_inv cap r" and "ring_items r = ws"
proof -
  have v: "ring_view r = replicate (cap - length ws) None @ map Some ws"
  proof (cases "length ws = cap")
    case False
    with assms show ?thesis by (simp add: ring_view_def rotate_add_drop_take)
  qed (use assms in \<open>simp add: ring_view_def\<close>)
  then show "ring_items r = ws" unfolding ring_items_def by (simp only: filter_view)
  have "length (fst r) = cap" "snd r < cap" using assms by (simp_all add: r_def)
  with v show "ring_inv cap r" unfolding ring_inv_def by blast
qed

text \<open>Nulling the next slot: it was empty already, or the ring was full and loses its oldest entry.\<close>

lemma ring_clear_next:
  assumes "ring_inv cap r"
  defines "r' \<equiv> ((fst r)[snd r := None], snd r)"
  shows "ring_inv cap r'"
    and "ring_items r' = ring_items r \<or> length (ring_items r) = cap \<and> length (ring_items r') = cap - 1"
proof -
  have i: "snd r < length (fst r)" "length (fst r) = cap" using assms(1) by (auto simp: ring_inv_def)
  then have v: "ring_view r' = None # tl (ring_view r)"
    by (cases "drop (snd r) (fst r)") (simp_all add: r'_def ring_view_def rotate_add_drop_take drop_update_swap)
  let ?n = "cap - length (ring_items r)" and ?xs = "ring_items r"
  note V = ring_view_items [OF assms(1)]
  have v': "ring_view r' = replicate (if ?n = 0 then 1 else ?n) None @ map Some (drop (1 - ?n) ?xs)"
    unfolding v V(1) tl_view by (cases ?n) simp_all
  have "ring_items r' = drop (1 - ?n) ?xs"
    unfolding ring_items_def [of r'] v' by (rule filter_view)
  then show "ring_items r' = ring_items r \<or> length (ring_items r) = cap \<and> length (ring_items r') = cap - 1"
    using V(2) by (cases ?n) auto
  have "length (fst r') = cap" "snd r' < cap" using i by (simp_all add: r'_def)
  with v' show "ring_inv cap r'" unfolding ring_inv_def by blast
qed

end
