(* ===== verification/Posix.thy ===== *)
theory Posix
  imports Prelude "HOL-Library.AList"
begin

text \<open>
  The operating system as the daemon sees it: a tree of files, the Android properties,
  the clock, and system calls that may fail.

  A path is its list of components, so \<open>a//b\<close> and \<open>a/b\<close> are one path. The file
  system is an association list from paths to nodes; the order of the list is the order in
  which \<open>readdir\<close> and \<open>scandir\<close> report entries, and theorems hold for every order.
  Failures come from an oracle: the \<open>n\<close>-th fallible call consults \<open>fault n\<close>, which
  lets it work, makes it fail with an error number, or cuts a write short. Allocation
  failures use the same oracle. \<open>stat\<close> fails exactly on missing entries. Symbolic links,
  permissions and the components \<open>.\<close> and \<open>..\<close> are not modelled.
\<close>

section \<open>Paths\<close>

fun split_slash :: "string \<Rightarrow> string list" where
  "split_slash [] = [[]]"
| "split_slash (c # s) =
     (if c = CHR ''/'' then [] # split_slash s
      else (case split_slash s of [] \<Rightarrow> [[c]] | w # ws \<Rightarrow> (c # w) # ws))"

definition comps :: "string \<Rightarrow> string list" where
  "comps p = filter (\<lambda>w. w \<noteq> []) (split_slash p)"

lemma split_slash_nonempty [simp]: "split_slash p \<noteq> []"
  by (induction p) (auto split: list.splits)

lemma split_slash_append:
  "split_slash (a @ CHR ''/'' # b) = split_slash a @ split_slash b"
proof (induction a)
  case (Cons c a)
  then show ?case
    by (cases "split_slash a") auto
qed simp

lemma comps_append [simp]: "comps (a @ CHR ''/'' # b) = comps a @ comps b"
  by (simp add: comps_def split_slash_append)

lemma split_slash_word: "CHR ''/'' \<notin> set n \<Longrightarrow> split_slash n = [n]"
  by (induction n) auto

lemma comps_word [simp]: "CHR ''/'' \<notin> set n \<Longrightarrow> n \<noteq> [] \<Longrightarrow> comps n = [n]"
  by (simp add: comps_def split_slash_word)

lemma comps_Nil [simp]: "comps [] = []"
  by (simp add: comps_def)

section \<open>The world\<close>

datatype node = File string | Dir

datatype fault = Works | Fails int | Short nat

type_synonym tree = "(string list \<times> node) list"

datatype effect =
    StartDaemon string
  | Command string
  | Notify
  | Warn string
  | NullDeref string
  | BadRead string
  | BadWrite string
  | DivByZero string
  | Exit int

record world =
  fs :: tree
  props :: "(string \<times> string) list"
  errno :: int
  fault :: "nat \<Rightarrow> fault"
  calls :: nat
  clock :: "nat \<Rightarrow> int"
  fmt_time :: "int \<Rightarrow> string"
  effects :: "effect list"

type_synonym ('w, 'a) op = "('w world_scheme, 'a) state"

abbreviation ret :: "'a \<Rightarrow> ('s, 'a) state" where
  "ret \<equiv> State_Monad.return"

definition gets :: "('s \<Rightarrow> 'a) \<Rightarrow> ('s, 'a) state" where
  "gets f = State (\<lambda>s. (f s, s))"

definition modify :: "('s \<Rightarrow> 's) \<Rightarrow> ('s, unit) state" where
  "modify f = State (\<lambda>s. ((), f s))"

lemma run_gets [simp]: "run_state (gets f) s = (f s, s)"
  by (simp add: gets_def)

lemma run_modify [simp]: "run_state (modify f) s = ((), f s)"
  by (simp add: modify_def)

lemma run_bind [simp]:
  "run_state (State_Monad.bind m f) s = (case run_state m s of (x, t) \<Rightarrow> run_state (f x) t)"
  by (simp add: State_Monad.bind_def)

lemma run_if [simp]:
  "run_state (if b then m else n) s = (if b then run_state m s else run_state n s)"
  by simp

text \<open>No call fails; no write is cut short.\<close>

definition reliable :: "'w world_scheme \<Rightarrow> bool" where
  "reliable s \<longleftrightarrow> (\<forall>n. fault s n = Works)"

definition no_short :: "'w world_scheme \<Rightarrow> bool" where
  "no_short s \<longleftrightarrow> (\<forall>n k. fault s n \<noteq> Short k)"

lemma reliable_fault [simp]: "reliable s \<Longrightarrow> fault s n = Works"
  by (simp add: reliable_def)

lemma faulty_unreliable: "fault s n = Fails e \<Longrightarrow> \<not> reliable s" "fault s n = Short k \<Longrightarrow> \<not> reliable s"
  by (auto simp: reliable_def intro: exI [of _ n])

lemma reliable_no_short [simp]: "reliable s \<Longrightarrow> no_short s"
  by (simp add: reliable_def no_short_def)

lemma reliable_updates [simp]:
  "reliable (s\<lparr>fs := x\<rparr>) = reliable s" "reliable (s\<lparr>props := p\<rparr>) = reliable s"
  "reliable (s\<lparr>errno := e\<rparr>) = reliable s" "reliable (s\<lparr>calls := n\<rparr>) = reliable s"
  "reliable (s\<lparr>effects := es\<rparr>) = reliable s"
  by (simp_all add: reliable_def)

lemma no_short_updates [simp]:
  "no_short (s\<lparr>fs := x\<rparr>) = no_short s" "no_short (s\<lparr>props := p\<rparr>) = no_short s"
  "no_short (s\<lparr>errno := e\<rparr>) = no_short s" "no_short (s\<lparr>calls := n\<rparr>) = no_short s"
  "no_short (s\<lparr>effects := es\<rparr>) = no_short s"
  by (simp_all add: no_short_def)

section \<open>Files\<close>

definition node_at :: "'w world_scheme \<Rightarrow> string \<Rightarrow> node option" where
  "node_at s p = map_of (fs s) (comps p)"

definition is_dir :: "tree \<Rightarrow> string list \<Rightarrow> bool" where
  "is_dir t k \<longleftrightarrow> k = [] \<or> map_of t k = Some Dir"

definition children :: "tree \<Rightarrow> string list \<Rightarrow> string list" where
  "children t d = map last (filter (\<lambda>k. k \<noteq> [] \<and> butlast k = d) (map fst t))"

definition content :: "'w world_scheme \<Rightarrow> string \<Rightarrow> string" where
  "content s p = (case node_at s p of Some (File d) \<Rightarrow> d | _ \<Rightarrow> [])"

definition put :: "string \<Rightarrow> node \<Rightarrow> 'w world_scheme \<Rightarrow> 'w world_scheme" where
  "put p n s = s\<lparr>fs := AList.update (comps p) n (fs s)\<rparr>"

definition del :: "string \<Rightarrow> 'w world_scheme \<Rightarrow> 'w world_scheme" where
  "del p s = s\<lparr>fs := AList.delete (comps p) (fs s)\<rparr>"

lemma node_at_put [simp]:
  "node_at (put p n s) q = (if comps q = comps p then Some n else node_at s q)"
  by (simp add: node_at_def put_def update_conv')

lemma node_at_del [simp]:
  "node_at (del p s) q = (if comps q = comps p then None else node_at s q)"
  by (simp add: node_at_def del_def delete_conv')

lemma node_at_updates [simp]:
  "node_at (s\<lparr>props := x1\<rparr>) p = node_at s p" "node_at (s\<lparr>errno := x2\<rparr>) p = node_at s p"
  "node_at (s\<lparr>calls := x3\<rparr>) p = node_at s p" "node_at (s\<lparr>effects := x4\<rparr>) p = node_at s p"
  by (simp_all add: node_at_def)

lemma content_updates [simp]:
  "content (s\<lparr>props := x1\<rparr>) p = content s p" "content (s\<lparr>errno := x2\<rparr>) p = content s p"
  "content (s\<lparr>calls := x3\<rparr>) p = content s p" "content (s\<lparr>effects := x4\<rparr>) p = content s p"
  by (simp_all add: content_def)

lemma content_put_File [simp]:
  "content (put p (File d) s) q = (if comps q = comps p then d else content s q)"
  by (simp add: content_def)

lemma put_fields [simp]:
  "props (put p n s) = props s" "errno (put p n s) = errno s" "fault (put p n s) = fault s"
  "calls (put p n s) = calls s" "clock (put p n s) = clock s" "fmt_time (put p n s) = fmt_time s"
  "effects (put p n s) = effects s"
  by (simp_all add: put_def)

lemma del_fields [simp]:
  "props (del p s) = props s" "errno (del p s) = errno s" "fault (del p s) = fault s"
  "calls (del p s) = calls s" "clock (del p s) = clock s" "fmt_time (del p s) = fmt_time s"
  "effects (del p s) = effects s"
  by (simp_all add: del_def)

lemma reliable_put_del [simp]:
  "reliable (put p n s) = reliable s" "reliable (del p s) = reliable s"
  "no_short (put p n s) = no_short s" "no_short (del p s) = no_short s"
  by (simp_all add: reliable_def no_short_def)

section \<open>System calls\<close>

definition syscall :: "('w, fault) op" where
  "syscall = State (\<lambda>s. (fault s (calls s), s\<lparr>calls := Suc (calls s)\<rparr>))"

lemma run_syscall [simp]:
  "run_state syscall s = (fault s (calls s), s\<lparr>calls := Suc (calls s)\<rparr>)"
  by (simp add: syscall_def)

definition set_errno :: "int \<Rightarrow> ('w, unit) op" where
  "set_errno e = modify (\<lambda>s. s\<lparr>errno := e\<rparr>)"

lemma run_set_errno [simp]: "run_state (set_errno e) s = ((), s\<lparr>errno := e\<rparr>)"
  by (simp add: set_errno_def)

text \<open>\<open>malloc\<close> and \<open>strdup\<close>: whether memory was available.\<close>

definition alloc :: "('w, bool) op" where
  "alloc = do {
     f \<leftarrow> syscall;
     (case f of Works \<Rightarrow> ret True | _ \<Rightarrow> do { set_errno ENOMEM; ret False }) }"

definition file_exists :: "string \<Rightarrow> 'w world_scheme \<Rightarrow> bool" where
  "file_exists p s \<longleftrightarrow> node_at s p \<noteq> None \<or> comps p = []"

definition directory_exists :: "string \<Rightarrow> 'w world_scheme \<Rightarrow> bool" where
  "directory_exists p s \<longleftrightarrow> is_dir (fs s) (comps p)"

text \<open>\<open>open(p, O_RDONLY)\<close> and \<open>fopen(p, "r")\<close>: the bytes that can be read.\<close>

definition open_read :: "string \<Rightarrow> ('w, string option) op" where
  "open_read p = do {
     f \<leftarrow> syscall;
     n \<leftarrow> gets (\<lambda>s. node_at s p);
     (case f of
        Fails e \<Rightarrow> do { set_errno e; ret None }
      | _ \<Rightarrow> (case n of
                 Some (File d) \<Rightarrow> ret (Some d)
               | Some Dir \<Rightarrow> do { set_errno EISDIR; ret None }
               | None \<Rightarrow> do { set_errno ENOENT; ret None })) }"

text \<open>\<open>open(p, O_CREAT | O_TRUNC)\<close> and \<open>fopen(p, "w")\<close>: the file exists and is empty.\<close>

definition open_trunc :: "string \<Rightarrow> ('w, bool) op" where
  "open_trunc p = do {
     f \<leftarrow> syscall;
     n \<leftarrow> gets (\<lambda>s. node_at s p);
     up \<leftarrow> gets (\<lambda>s. is_dir (fs s) (butlast (comps p)));
     (case f of
        Fails e \<Rightarrow> do { set_errno e; ret False }
      | _ \<Rightarrow> if n = Some Dir \<or> comps p = [] then do { set_errno EISDIR; ret False }
              else if \<not> up then do { set_errno ENOENT; ret False }
              else do { modify (put p (File [])); ret True }) }"

text \<open>\<open>open(p, O_RDWR)\<close> and \<open>fopen(p, "r+")\<close>: an existing file, content kept.\<close>

definition open_update :: "string \<Rightarrow> ('w, bool) op" where
  "open_update p = do {
     d \<leftarrow> open_read p;
     ret (d \<noteq> None) }"

text \<open>Writes at the end of file and at an offset; the result is the number of bytes written.\<close>

definition write_at :: "string \<Rightarrow> nat \<Rightarrow> string \<Rightarrow> ('w, int) op" where
  "write_at p off d = do {
     f \<leftarrow> syscall;
     old \<leftarrow> gets (\<lambda>s. content s p);
     (case f of
        Fails e \<Rightarrow> do { set_errno e; ret (-1) }
      | Short k \<Rightarrow>
          (let w = take k d in do {
             modify (put p (File (take off old @ w @ drop (off + length w) old)));
             ret (int (length w)) })
      | Works \<Rightarrow> do {
             modify (put p (File (take off old @ d @ drop (off + length d) old)));
             ret (int (length d)) }) }"

definition write_end :: "string \<Rightarrow> string \<Rightarrow> ('w, int) op" where
  "write_end p d = do {
     old \<leftarrow> gets (\<lambda>s. content s p);
     write_at p (length old) d }"

definition sys_unlink :: "string \<Rightarrow> ('w, bool) op" where
  "sys_unlink p = do {
     f \<leftarrow> syscall;
     n \<leftarrow> gets (\<lambda>s. node_at s p);
     (case f of
        Fails e \<Rightarrow> do { set_errno e; ret False }
      | _ \<Rightarrow> (case n of
                 Some (File d) \<Rightarrow> do { modify (del p); ret True }
               | Some Dir \<Rightarrow> do { set_errno EISDIR; ret False }
               | None \<Rightarrow> do { set_errno (if comps p = [] then EISDIR else ENOENT); ret False })) }"

definition sys_rmdir :: "string \<Rightarrow> ('w, bool) op" where
  "sys_rmdir p = do {
     f \<leftarrow> syscall;
     n \<leftarrow> gets (\<lambda>s. node_at s p);
     ch \<leftarrow> gets (\<lambda>s. children (fs s) (comps p));
     (case f of
        Fails e \<Rightarrow> do { set_errno e; ret False }
      | _ \<Rightarrow> (case n of
                 Some Dir \<Rightarrow> if ch = [] then do { modify (del p); ret True }
                             else do { set_errno ENOTEMPTY; ret False }
               | Some (File d) \<Rightarrow> do { set_errno ENOTDIR; ret False }
               | None \<Rightarrow> do { set_errno ENOENT; ret False })) }"

definition sys_mkdir :: "string \<Rightarrow> ('w, bool) op" where
  "sys_mkdir p = do {
     f \<leftarrow> syscall;
     n \<leftarrow> gets (\<lambda>s. node_at s p);
     up \<leftarrow> gets (\<lambda>s. is_dir (fs s) (butlast (comps p)));
     (case f of
        Fails e \<Rightarrow> do { set_errno e; ret False }
      | _ \<Rightarrow> if n \<noteq> None \<or> comps p = [] then do { set_errno EEXIST; ret False }
              else if \<not> up then do { set_errno ENOENT; ret False }
              else do { modify (put p Dir); ret True }) }"

text \<open>\<open>opendir\<close> with the names \<open>readdir\<close> will return, in order.\<close>

definition sys_opendir :: "string \<Rightarrow> ('w, string list option) op" where
  "sys_opendir p = do {
     f \<leftarrow> syscall;
     d \<leftarrow> gets (\<lambda>s. is_dir (fs s) (comps p));
     ch \<leftarrow> gets (\<lambda>s. children (fs s) (comps p));
     n \<leftarrow> gets (\<lambda>s. node_at s p);
     (case f of
        Fails e \<Rightarrow> do { set_errno e; ret None }
      | _ \<Rightarrow> if d then ret (Some ch)
              else do { set_errno (if n = None then ENOENT else ENOTDIR); ret None }) }"

text \<open>\<open>rename\<close> of a file, or of a directory with everything below it.\<close>

definition move_key :: "string list \<Rightarrow> string list \<Rightarrow> string list \<Rightarrow> string list" where
  "move_key a b k = (if prefix a k then b @ drop (length a) k else k)"

definition sys_rename :: "string \<Rightarrow> string \<Rightarrow> ('w, bool) op" where
  "sys_rename a b = do {
     f \<leftarrow> syscall;
     na \<leftarrow> gets (\<lambda>s. node_at s a);
     nb \<leftarrow> gets (\<lambda>s. node_at s b);
     up \<leftarrow> gets (\<lambda>s. is_dir (fs s) (butlast (comps b)));
     ch \<leftarrow> gets (\<lambda>s. children (fs s) (comps b));
     (case f of
        Fails e \<Rightarrow> do { set_errno e; ret False }
      | _ \<Rightarrow>
        if na = None \<or> \<not> up then do { set_errno ENOENT; ret False }
        else if comps a = comps b then ret True
        else if strict_prefix (comps a) (comps b) \<or> comps b = [] then do { set_errno EINVAL; ret False }
        else if nb = Some Dir \<and> na \<noteq> Some Dir then do { set_errno EISDIR; ret False }
        else if na = Some Dir \<and> nb \<noteq> None \<and> nb \<noteq> Some Dir then do { set_errno ENOTDIR; ret False }
        else if nb = Some Dir \<and> ch \<noteq> [] then do { set_errno ENOTEMPTY; ret False }
        else do {
          modify (\<lambda>s. s\<lparr>fs := map (\<lambda>(k, n). (move_key (comps a) (comps b) k, n))
                               (AList.delete (comps b) (fs s))\<rparr>);
          ret True }) }"

text \<open>\<open>chmod\<close> and \<open>chown\<close> fail on missing files; owners and modes are not kept.\<close>

definition sys_chattr :: "string \<Rightarrow> ('w, bool) op" where
  "sys_chattr p = do {
     f \<leftarrow> syscall;
     n \<leftarrow> gets (\<lambda>s. node_at s p);
     (case f of
        Fails e \<Rightarrow> do { set_errno e; ret False }
      | _ \<Rightarrow> if n = None then do { set_errno ENOENT; ret False } else ret True) }"

definition effect :: "effect \<Rightarrow> ('w, unit) op" where
  "effect e = modify (\<lambda>s. s\<lparr>effects := effects s @ [e]\<rparr>)"

lemma run_effect [simp]: "run_state (effect e) s = ((), s\<lparr>effects := effects s @ [e]\<rparr>)"
  by (simp add: effect_def)

lemmas posix_defs = alloc_def open_read_def open_trunc_def open_update_def write_at_def
  write_end_def sys_unlink_def sys_rmdir_def sys_mkdir_def sys_opendir_def sys_rename_def
  sys_chattr_def

section \<open>Android properties\<close>

definition prop_get :: "'w world_scheme \<Rightarrow> string \<Rightarrow> string \<Rightarrow> string" where
  "prop_get s k d = (case map_of (props s) k of Some v \<Rightarrow> if v = [] then d else v | None \<Rightarrow> d)"

definition property_set :: "string \<Rightarrow> string \<Rightarrow> ('w, unit) op" where
  "property_set k v = modify (\<lambda>s. if length v < PROPERTY_VALUE_MAX
                                  then s\<lparr>props := AList.update k v (props s)\<rparr> else s)"

lemma run_property_set [simp]:
  "run_state (property_set k v) s =
     ((), if length v < PROPERTY_VALUE_MAX then s\<lparr>props := AList.update k v (props s)\<rparr> else s)"
  by (simp add: property_set_def)

lemma prop_get_set:
  "prop_get (s\<lparr>props := AList.update k v (props s)\<rparr>) q d =
     (if q = k then (if v = [] then d else v) else prop_get s q d)"
  by (simp add: prop_get_def update_conv')

section \<open>Quiet operations\<close>

text \<open>
  Operations that at most spend calls and set \<open>errno\<close>. \<open>sane_faults\<close> says that a
  failing call sets a positive error number, as POSIX has it.
\<close>

definition quiet :: "'w world_scheme \<Rightarrow> 'w world_scheme \<Rightarrow> bool" where
  "quiet s t \<longleftrightarrow> (\<exists>k e. t = s\<lparr>calls := k, errno := e\<rparr>)"

definition sane_faults :: "'w world_scheme \<Rightarrow> bool" where
  "sane_faults s \<longleftrightarrow> (\<forall>n e. fault s n = Fails e \<longrightarrow> 0 < e)"

lemma quietE:
  assumes "quiet s t"
  obtains k e where "t = s\<lparr>calls := k, errno := e\<rparr>"
  using assms by (auto simp: quiet_def)

lemma quiet_refl [simp]: "quiet s s"
  unfolding quiet_def by (rule exI [of _ "calls s"], rule exI [of _ "errno s"]) simp

lemma quiet_trans: "quiet s t \<Longrightarrow> quiet t u \<Longrightarrow> quiet s u"
  by (elim quietE) (simp add: quiet_def, blast)

lemma quiet_calls [simp]: "quiet s (s\<lparr>calls := k\<rparr>)"
  by (auto simp: quiet_def intro!: exI [of _ k] exI [of _ "errno s"])

lemma quiet_errno [simp]: "quiet s (s\<lparr>errno := e\<rparr>)"
  by (auto simp: quiet_def intro!: exI [of _ "calls s"] exI [of _ e])

lemma quiet_both [simp]: "quiet s (s\<lparr>calls := k, errno := e\<rparr>)"
  by (auto simp: quiet_def)

lemma quiet_fields:
  assumes "quiet s t"
  shows "fs t = fs s" "props t = props s" "fault t = fault s" "effects t = effects s"
    "clock t = clock s" "fmt_time t = fmt_time s" "reliable t = reliable s" "sane_faults t = sane_faults s"
    "node_at t p = node_at s p" "content t p = content s p" "file_exists p t = file_exists p s"
    "directory_exists p t = directory_exists p s"
  using assms by (auto simp: quiet_def reliable_def sane_faults_def node_at_def file_exists_def
      content_def directory_exists_def)

lemma alloc_cases:
  obtains t where "run_state alloc s = (True, t)" "quiet s t" "errno t = errno s"
  | t where "run_state alloc s = (False, t)" "quiet s t" "errno t = ENOMEM" "\<not> reliable s"
proof (cases "fault s (calls s)")
  case Works
  then show ?thesis using that(1) by (simp add: alloc_def)
next
  case (Fails e)
  then have "\<not> reliable s" by (rule faulty_unreliable)
  with Fails show ?thesis using that(2) by (simp add: alloc_def)
next
  case (Short k)
  then have "\<not> reliable s" by (rule faulty_unreliable)
  with Short show ?thesis using that(2) by (simp add: alloc_def)
qed

lemma open_read_cases:
  obtains d t where "run_state (open_read p) s = (Some d, t)" "quiet s t" "node_at s p = Some (File d)"
  | t where "run_state (open_read p) s = (None, t)" "quiet s t"
      "sane_faults s \<Longrightarrow> 0 < errno t" "reliable s \<Longrightarrow> \<forall>d. node_at s p \<noteq> Some (File d)"
proof (cases "fault s (calls s)")
  case Works
  then show ?thesis using that
    by (cases "node_at s p"; cases "the (node_at s p)") (auto simp: open_read_def errno_defs)
next
  case (Fails e)
  then have "\<not> reliable s" by (rule faulty_unreliable)
  with Fails show ?thesis using that(2)
    by (auto simp: open_read_def sane_faults_def)
next
  case (Short k)
  then show ?thesis using that
    by (cases "node_at s p"; cases "the (node_at s p)") (auto simp: open_read_def errno_defs)
qed

section \<open>Operations on files only\<close>

text \<open>Operations that change the file system but nothing else of the program or its surroundings.\<close>

definition fsonly :: "'w world_scheme \<Rightarrow> 'w world_scheme \<Rightarrow> bool" where
  "fsonly s t \<longleftrightarrow> (\<exists>x k e. t = s\<lparr>fs := x, calls := k, errno := e\<rparr>)"

lemma fsonlyE:
  assumes "fsonly s t"
  obtains x k e where "t = s\<lparr>fs := x, calls := k, errno := e\<rparr>"
  using assms by (auto simp: fsonly_def)

lemma fsonlyI: "t = s\<lparr>fs := x, calls := k, errno := e\<rparr> \<Longrightarrow> fsonly s t"
  by (auto simp: fsonly_def)

lemma quiet_fsonly: "quiet s t \<Longrightarrow> fsonly s t"
  by (elim quietE) (rule fsonlyI [where x = "fs s"], simp)

lemma fsonly_refl [simp]: "fsonly s s"
  by (rule quiet_fsonly) simp

lemma fsonly_trans: "fsonly s t \<Longrightarrow> fsonly t u \<Longrightarrow> fsonly s u"
  by (elim fsonlyE) (rule fsonlyI, simp)

lemma fsonly_put [simp]: "fsonly s (put p n s)" "fsonly s (del p s)"
  by (rule fsonlyI [where k = "calls s" and e = "errno s"], simp add: put_def del_def)+

lemma fsonly_fields:
  assumes "fsonly s t"
  shows "props t = props s" "fault t = fault s" "effects t = effects s" "clock t = clock s"
    "fmt_time t = fmt_time s" "reliable t = reliable s" "sane_faults t = sane_faults s"
  using assms by (auto simp: fsonly_def reliable_def sane_faults_def)

lemma open_trunc_fsonly: "run_state (open_trunc p) s = (r, t) \<Longrightarrow> fsonly s t"
  by (cases "fault s (calls s)")
     (auto simp: open_trunc_def split: if_splits
       intro: quiet_fsonly fsonly_trans [OF quiet_fsonly [OF quiet_calls] fsonly_put(1)])

lemma write_at_fsonly: "run_state (write_at p off d) s = (r, t) \<Longrightarrow> fsonly s t"
  by (cases "fault s (calls s)")
     (auto simp: write_at_def Let_def
       intro: quiet_fsonly fsonly_trans [OF quiet_fsonly [OF quiet_calls] fsonly_put(1)])

lemma write_end_fsonly: "run_state (write_end p d) s = (r, t) \<Longrightarrow> fsonly s t"
  by (auto simp: write_end_def dest: write_at_fsonly)

lemma open_trunc_cases:
  obtains t where "run_state (open_trunc p) s = (True, t)" "fsonly s t"
  | t where "run_state (open_trunc p) s = (False, t)" "quiet s t" "sane_faults s \<Longrightarrow> 0 < errno t"
proof (cases "fault s (calls s)")
  case (Fails e)
  then show ?thesis using that(2) by (auto simp: open_trunc_def sane_faults_def)
next
  case Works
  then show ?thesis
    using that open_trunc_fsonly [of p s]
    by (cases "node_at s p = Some Dir \<or> comps p = []"; cases "is_dir (fs s) (butlast (comps p))")
       (auto simp: open_trunc_def errno_defs)
next
  case (Short k)
  then show ?thesis
    using that open_trunc_fsonly [of p s]
    by (cases "node_at s p = Some Dir \<or> comps p = []"; cases "is_dir (fs s) (butlast (comps p))")
       (auto simp: open_trunc_def errno_defs)
qed

section \<open>Frames\<close>

text \<open>
  \<open>keeps f m\<close>: the operation \<open>m\<close> does not change the part \<open>f\<close> of the state. The rules follow
  the structure of an operation, so that a frame is proved by unfolding it.
\<close>

definition keeps :: "('s \<Rightarrow> 'x) \<Rightarrow> ('s, 'a) state \<Rightarrow> bool" where
  "keeps f m \<longleftrightarrow> (\<forall>s. f (snd (run_state m s)) = f s)"

lemma keepsD: "keeps f m \<Longrightarrow> run_state m s = (r, t) \<Longrightarrow> f t = f s"
  unfolding keeps_def by (metis snd_conv)

lemma keeps_ret [frames]: "keeps f (ret x)"
  by (simp add: keeps_def)

lemma keeps_gets [frames]: "keeps f (gets g)"
  by (simp add: keeps_def)

lemma keeps_bind [frames]: "keeps f m \<Longrightarrow> (\<And>x. keeps f (k x)) \<Longrightarrow> keeps f (State_Monad.bind m k)"
  by (simp add: keeps_def case_prod_beta)

lemma keeps_modify: "(\<And>s. f (g s) = f s) \<Longrightarrow> keeps f (modify g)"
  by (simp add: keeps_def)

lemma keeps_if [frames]: "(b \<Longrightarrow> keeps f m) \<Longrightarrow> (\<not> b \<Longrightarrow> keeps f n) \<Longrightarrow> keeps f (if b then m else n)"
  by simp

lemma keeps_case_option [frames]:
  "(x = None \<Longrightarrow> keeps f m) \<Longrightarrow> (\<And>y. x = Some y \<Longrightarrow> keeps f (k y)) \<Longrightarrow> keeps f (case x of None \<Rightarrow> m | Some y \<Rightarrow> k y)"
  by (cases x) auto

lemma keeps_case_prod [frames]: "(\<And>a b. x = (a, b) \<Longrightarrow> keeps f (k a b)) \<Longrightarrow> keeps f (case x of (a, b) \<Rightarrow> k a b)"
  by (cases x) auto

lemma keeps_case_prod_app [frames]:
  "(\<And>a b. x = (a, b) \<Longrightarrow> keeps f (k a b y)) \<Longrightarrow> keeps f ((case x of (a, b) \<Rightarrow> k a b) y)"
  by (cases x) auto

lemma keeps_case_sum [frames]:
  "(\<And>a. x = Inl a \<Longrightarrow> keeps f (k a)) \<Longrightarrow> (\<And>b. x = Inr b \<Longrightarrow> keeps f (l b)) \<Longrightarrow>
   keeps f (case x of Inl a \<Rightarrow> k a | Inr b \<Rightarrow> l b)"
  by (cases x) auto

lemma keeps_case_fault [frames]:
  "(x = Works \<Longrightarrow> keeps f a) \<Longrightarrow> (\<And>e. x = Fails e \<Longrightarrow> keeps f (b e)) \<Longrightarrow> (\<And>k. x = Short k \<Longrightarrow> keeps f (c k)) \<Longrightarrow>
   keeps f (case x of Works \<Rightarrow> a | Fails e \<Rightarrow> b e | Short k \<Rightarrow> c k)"
  by (cases x) auto

lemma keeps_case_list [frames]:
  "(x = [] \<Longrightarrow> keeps f m) \<Longrightarrow> (\<And>y ys. x = y # ys \<Longrightarrow> keeps f (k y ys)) \<Longrightarrow>
   keeps f (case x of [] \<Rightarrow> m | y # ys \<Rightarrow> k y ys)"
  by (cases x) auto

lemma keeps_case_node [frames]:
  "(\<And>d. x = File d \<Longrightarrow> keeps f (k d)) \<Longrightarrow> (x = Dir \<Longrightarrow> keeps f m) \<Longrightarrow>
   keeps f (case x of File d \<Rightarrow> k d | Dir \<Rightarrow> m)"
  by (cases x) auto

lemma keeps_Let [frames]: "(\<And>x. x = e \<Longrightarrow> keeps f (k x)) \<Longrightarrow> keeps f (Let e k)"
  by simp

text \<open>
  A part \<open>f\<close> of the state that depends on no path with \<open>P\<close> and on no effect with \<open>E\<close>. Everything
  that only touches such paths and has such effects keeps it.
\<close>

locale frame =
  fixes f :: "'w world_scheme \<Rightarrow> 'x" and P :: "string list \<Rightarrow> bool" and E :: "effect \<Rightarrow> bool"
  assumes f_calls: "f (s\<lparr>calls := k\<rparr>) = f s"
    and f_errno: "f (s\<lparr>errno := e\<rparr>) = f s"
    and f_put: "P (comps p) \<Longrightarrow> f (put p n s) = f s"
    and f_del: "P (comps p) \<Longrightarrow> f (del p s) = f s"
    and f_effect: "E ev \<Longrightarrow> f (s\<lparr>effects := effects s @ [ev]\<rparr>) = f s"
begin

lemma keeps_prims [frames]:
  "keeps f syscall" "keeps f (set_errno e)" "P (comps p) \<Longrightarrow> keeps f (modify (put p n))"
  "P (comps p) \<Longrightarrow> keeps f (modify (del p))" "E ev \<Longrightarrow> keeps f (effect ev)"
  by (simp_all add: keeps_def f_calls f_errno f_put f_del f_effect)

lemma keeps_reads [frames]:
  "keeps f alloc" "keeps f (open_read p)" "keeps f (open_update p)" "keeps f (sys_opendir p)"
  "keeps f (sys_chattr p)"
  unfolding posix_defs by (intro frames)+

lemma keeps_writes [frames]:
  assumes "P (comps p)"
  shows "keeps f (open_trunc p)" "keeps f (write_at p off d)" "keeps f (write_end p d)"
    "keeps f (sys_unlink p)" "keeps f (sys_rmdir p)" "keeps f (sys_mkdir p)"
  unfolding posix_defs by (intro frames assms)+

end

end
