(* ===== verification/Fsutils_Text.thy ===== *)
theory Fsutils_Text
  imports Posix
begin

text \<open>
  The text half of crashlog/fsutils.c: reading lines, counting them, searching them, and the
  small string helpers. \<open>readline\<close> issues one \<open>read\<close> per byte and every one may fail;
  \<open>next_line\<close> and \<open>lines\<close> are what it computes when none does.
\<close>

section \<open>readline and freadline\<close>

text \<open>The characters a buffer of \<open>MAXLINESIZE\<close> bytes can hold: \<open>MAXLINESIZE-1\<close>.\<close>

definition LINEROOM :: nat where
  "LINEROOM = MAXLINESIZE - 1"

lemma LINEROOM_eq [privconst]: "LINEROOM = 4095"
  by (simp add: LINEROOM_def MAXLINESIZE_eq)

text \<open>
  The loop of \<open>readline\<close>: \<open>acc\<close> is what the buffer holds, \<open>rest\<close> the bytes not yet
  read. The byte is read before the room in the buffer is tested.
\<close>

fun readline_loop :: "string \<Rightarrow> string \<Rightarrow> ('w, int \<times> string \<times> string) op" where
  "readline_loop [] acc = do {
     f \<leftarrow> syscall;
     (case f of
        Fails e \<Rightarrow> do { set_errno e; ret (-1, acc, []) }
      | _ \<Rightarrow> ret (int (length acc), acc, [])) }"
| "readline_loop (c # cs) acc = do {
     f \<leftarrow> syscall;
     (case f of
        Fails e \<Rightarrow> do { set_errno e; ret (-1, acc, c # cs) }
      | _ \<Rightarrow> if length acc < LINEROOM
              then (if c = NL then ret (int (Suc (length acc)), acc @ [NL], cs)
                    else readline_loop cs (acc @ [c]))
              else ret (int (length acc), acc, cs)) }"

definition readline :: "string \<Rightarrow> ('w, int \<times> string \<times> string) op" where
  "readline rest = readline_loop rest []"

text \<open>
  \<open>freadline\<close> is the same loop over \<open>fread\<close>, whose result is never negative: an input
  error looks like the end of the file.
\<close>

fun freadline_loop :: "string \<Rightarrow> string \<Rightarrow> ('w, int \<times> string \<times> string) op" where
  "freadline_loop [] acc = ret (int (length acc), acc, [])"
| "freadline_loop (c # cs) acc = do {
     f \<leftarrow> syscall;
     (case f of
        Fails e \<Rightarrow> do { set_errno e; ret (int (length acc), acc, c # cs) }
      | _ \<Rightarrow> if length acc < LINEROOM
              then (if c = NL then ret (int (Suc (length acc)), acc @ [NL], cs)
                    else freadline_loop cs (acc @ [c]))
              else ret (int (length acc), acc, cs)) }"

definition freadline :: "string \<Rightarrow> ('w, int \<times> string \<times> string) op" where
  "freadline rest = freadline_loop rest []"

text \<open>What one call yields when every \<open>read\<close> works: a line of at most \<open>n\<close> bytes.\<close>

fun next_line :: "nat \<Rightarrow> string \<Rightarrow> string \<times> string" where
  "next_line n [] = ([], [])"
| "next_line 0 (c # cs) = ([], cs)"
| "next_line (Suc n) (c # cs) =
     (if c = NL then ([NL], cs) else (case next_line n cs of (l, r) \<Rightarrow> (c # l, r)))"

lemma readline_loop_reliable:
  "reliable s \<Longrightarrow> length acc \<le> LINEROOM \<Longrightarrow>
   \<exists>k. run_state (readline_loop rest acc) s =
     (case next_line (LINEROOM - length acc) rest of (l, r) \<Rightarrow>
        ((int (length (acc @ l)), acc @ l, r), s\<lparr>calls := k\<rparr>))"
proof (induction rest arbitrary: acc s)
  case (Cons c cs)
  show ?case
  proof (cases "length acc < LINEROOM \<and> c \<noteq> NL")
    case True
    then obtain n where n: "LINEROOM - length acc = Suc n"
      "LINEROOM - length (acc @ [c]) = n"
      by (cases "LINEROOM - length acc") auto
    from True Cons.IH [of "s\<lparr>calls := Suc (calls s)\<rparr>" "acc @ [c]"] Cons.prems n show ?thesis
      by (auto split: prod.splits)
  next
    case False
    show ?thesis
    proof (cases "length acc < LINEROOM")
      case True
      with False Cons.prems show ?thesis
        by (cases "LINEROOM - length acc") auto
    next
      case full: False
      with Cons.prems have "LINEROOM - length acc = 0" by simp
      with full Cons.prems show ?thesis by auto
    qed
  qed
qed auto

lemma readline_reliable:
  assumes "reliable s"
  obtains k where "run_state (readline rest) s =
     ((int (length (fst (next_line (LINEROOM) rest))),
       fst (next_line (LINEROOM) rest), snd (next_line (LINEROOM) rest)),
      s\<lparr>calls := k\<rparr>)"
  using readline_loop_reliable [OF assms, of "[]" rest] that
  by (cases "next_line LINEROOM rest") (auto simp: readline_def)

text \<open>Every outcome of the loop: it never grows the input, and a positive result consumed some.\<close>

lemma readline_loop_consumes:
  assumes "run_state (readline_loop rest acc) s = ((res, line, rest'), t)"
  shows "length rest' \<le> length rest"
    and "int (length acc) < res \<Longrightarrow> length rest' < length rest"
proof -
  have "length rest' \<le> length rest \<and> (int (length acc) < res \<longrightarrow> length rest' < length rest)"
    using assms
  proof (induction rest arbitrary: acc s)
    case (Cons c cs)
    show ?case
    proof (cases "fault s (calls s)")
      case (Fails e)
      with Cons.prems show ?thesis by auto
    qed (use Cons in \<open>fastforce split: if_splits\<close>)+
  qed (auto split: fault.splits)
  then show "length rest' \<le> length rest"
    and "int (length acc) < res \<Longrightarrow> length rest' < length rest" by auto
qed

lemma readline_consumes:
  "run_state (readline rest) s = ((res, line, rest'), t) \<Longrightarrow> 0 < res \<Longrightarrow> length rest' < length rest"
  by (auto simp: readline_def dest: readline_loop_consumes(2))

lemma length_next_line: "length (snd (next_line n s)) \<le> length s"
  by (induction n s rule: next_line.induct) (auto split: prod.splits)

lemma next_line_shrinks: "fst (next_line n s) \<noteq> [] \<Longrightarrow> length (snd (next_line n s)) < length s"
  using length_next_line [of "n - 1" "tl s"]
  by (cases s; cases n) (auto split: prod.splits if_splits)

section \<open>The lines of a file\<close>

function lines :: "string \<Rightarrow> string list" where
  "lines s = (case next_line (LINEROOM) s of
                (l, r) \<Rightarrow> if l = [] then [] else l # lines r)"
  by pat_completeness auto
termination
proof (relation "measure length")
  fix s l r
  assume "(l, r) = next_line LINEROOM s" "l \<noteq> []"
  then show "(r, s) \<in> measure length"
    using next_line_shrinks [of LINEROOM s] by (metis fst_conv in_measure snd_conv)
qed simp

declare lines.simps [simp del]

text \<open>A line that fits the buffer of \<open>readline\<close> and ends in a newline.\<close>

definition wf_line :: "string \<Rightarrow> bool" where
  "wf_line l \<longleftrightarrow> l \<noteq> [] \<and> last l = NL \<and> NL \<notin> set (butlast l) \<and> length l \<le> LINEROOM"

lemma next_line_append_NL:
  "NL \<notin> set b \<Longrightarrow> length b < n \<Longrightarrow> next_line n (b @ NL # r) = (b @ [NL], r)"
proof (induction b arbitrary: n)
  case Nil
  then show ?case by (cases n) auto
next
  case (Cons c b)
  then show ?case by (cases n) auto
qed

lemma next_line_wf:
  assumes "wf_line l"
  shows "next_line (LINEROOM) (l @ r) = (l, r)"
proof -
  from assms have l: "l = butlast l @ [NL]"
    by (auto simp: wf_line_def) (metis append_butlast_last_id)
  moreover have "length (butlast l) < LINEROOM"
    using assms by (cases l) (auto simp: wf_line_def)
  ultimately show ?thesis
    using assms next_line_append_NL [of "butlast l" "LINEROOM" r]
    by (simp add: wf_line_def) (metis append.assoc append_Cons append_Nil)
qed

lemma lines_Nil [simp]: "lines [] = []"
  by (simp add: lines.simps)

lemma lines_wf_append: "wf_line l \<Longrightarrow> lines (l @ r) = l # lines r"
  by (subst lines.simps) (simp add: next_line_wf, simp add: wf_line_def)

lemma lines_concat: "\<forall>l \<in> set ls. wf_line l \<Longrightarrow> lines (concat ls @ r) = ls @ lines r"
  by (induction ls) (simp_all add: lines_wf_append)

text \<open>A line too long for the buffer is cut, and the byte that did not fit is dropped.\<close>

lemma next_line_overlong:
  "NL \<notin> set b \<Longrightarrow> length b = n \<Longrightarrow> next_line n (b @ c # r) = (b, r)"
  by (induction b arbitrary: n) auto

lemma lines_overlong:
  assumes "NL \<notin> set b" "length b = LINEROOM"
  shows "lines (b @ c # r) = b # lines r"
proof -
  have "b \<noteq> []" using assms by (auto simp: privconst)
  then show ?thesis
    by (subst lines.simps) (simp add: next_line_overlong assms)
qed

section \<open>Loops over the lines of a file\<close>

text \<open>
  \<open>while ((res = readline(fd, buffer)) > 0) body\<close>. The body sees the line and the loop's
  variables and may leave the loop with a result; otherwise the loop ends with the last
  value of \<open>readline\<close>. The fuel is the number of bytes left plus one: every turn of the
  loop consumes a byte, so it never runs out.
\<close>

fun while_readline :: "nat \<Rightarrow> string \<Rightarrow> 'b \<Rightarrow> (string \<Rightarrow> 'b \<Rightarrow> ('w, 'b \<times> 'r option) op) \<Rightarrow>
    ('w, 'b \<times> ('r + int)) op" where
  "while_readline 0 rest b body = ret (b, Inr 0)"
| "while_readline (Suc k) rest b body = do {
     (res, line, rest') \<leftarrow> readline rest;
     if 0 < res then do {
       (b', r) \<leftarrow> body line b;
       (case r of Some v \<Rightarrow> ret (b', Inl v) | None \<Rightarrow> while_readline k rest' b' body)
     } else ret (b, Inr res) }"

definition for_lines :: "string \<Rightarrow> 'b \<Rightarrow> (string \<Rightarrow> 'b \<Rightarrow> ('w, 'b \<times> 'r option) op) \<Rightarrow>
    ('w, 'b \<times> ('r + int)) op" where
  "for_lines rest b body = while_readline (Suc (length rest)) rest b body"

text \<open>More fuel than bytes changes nothing, whatever fails.\<close>

lemma while_readline_fuel:
  "length rest < k \<Longrightarrow> length rest < k' \<Longrightarrow>
   run_state (while_readline k rest b body) s = run_state (while_readline k' rest b body) s"
proof (induction k arbitrary: k' rest b s)
  case (Suc k)
  then obtain j where k': "k' = Suc j" by (cases k') auto
  obtain res line rest' t where rl: "run_state (readline rest) s = ((res, line, rest'), t)"
    by (metis prod.exhaust)
  have "run_state (while_readline k rest' b' body) u = run_state (while_readline j rest' b' body) u"
    if "0 < res" for b' u
  proof -
    have "length rest' < k" "length rest' < j"
      using that readline_consumes [OF rl] Suc.prems k' by auto
    then show ?thesis by (rule Suc.IH)
  qed
  with rl k' show ?case
    by (auto split: prod.splits option.splits)
qed simp

text \<open>The same loop as a fold over the lines, for bodies that do not touch the world.\<close>

fun fold_lines :: "string list \<Rightarrow> 'b \<Rightarrow> (string \<Rightarrow> 'b \<Rightarrow> 'b \<times> 'r option) \<Rightarrow> 'b \<times> ('r + int)" where
  "fold_lines [] b body = (b, Inr 0)"
| "fold_lines (l # ls) b body =
     (case body l b of (b', Some v) \<Rightarrow> (b', Inl v) | (b', None) \<Rightarrow> fold_lines ls b' body)"

lemma while_readline_pure:
  "reliable s \<Longrightarrow> length rest < k \<Longrightarrow>
   \<exists>c. run_state (while_readline k rest b (\<lambda>l b. ret (body l b))) s =
     (fold_lines (lines rest) b body, s\<lparr>calls := c\<rparr>)"
proof (induction k arbitrary: rest b s)
  case (Suc k)
  obtain c where rl: "run_state (readline rest) s =
     ((int (length (fst (next_line LINEROOM rest))), fst (next_line LINEROOM rest),
       snd (next_line LINEROOM rest)), s\<lparr>calls := c\<rparr>)"
    using readline_reliable [OF Suc.prems(1)] by blast
  obtain l r where lr: "next_line LINEROOM rest = (l, r)" by fastforce
  show ?case
  proof (cases "l = []")
    case True
    with rl lr show ?thesis
      by (auto simp: lines.simps [of rest])
  next
    case False
    with lr have "length r < length rest"
      using next_line_shrinks [of LINEROOM rest] by simp
    with Suc.prems have "length r < k" and "reliable (s\<lparr>calls := c\<rparr>)" by simp_all
    note IH = Suc.IH [OF this(2,1)]
    obtain b' o' where b: "body l b = (b', o')" by fastforce
    from IH [of b'] False rl lr b show ?thesis
      by (cases o') (auto simp: lines.simps [of rest])
  qed
qed simp

lemma for_lines_pure:
  assumes "reliable s"
  obtains c where "run_state (for_lines rest b (\<lambda>l b. ret (body l b))) s =
     (fold_lines (lines rest) b body, s\<lparr>calls := c\<rparr>)"
  using while_readline_pure [OF assms, of rest "Suc (length rest)" b body] that
  by (auto simp: for_lines_def)

section \<open>count\_lines\_in\_file and the searches\<close>

definition count_lines_in_file :: "string option \<Rightarrow> ('w, int) op" where
  "count_lines_in_file filename =
     (case filename of
        None \<Rightarrow> ret (- EINVAL)
      | Some f \<Rightarrow> do {
          fd \<leftarrow> open_read f;
          (case fd of
             None \<Rightarrow> do { e \<leftarrow> gets errno; ret (- e) }
           | Some d \<Rightarrow> do {
               (line_idx, r) \<leftarrow> for_lines d (0::int) (\<lambda>_ n. ret (n + 1, None :: unit option));
               ret line_idx }) })"

text \<open>The trailing newline, if it is there, is cut off before a line is searched.\<close>

definition chomp :: "string \<Rightarrow> string" where
  "chomp l = (if l \<noteq> [] \<and> last l = NL then butlast l else l)"

definition find_oneofstrings_in_file ::
  "string option \<Rightarrow> string list option \<Rightarrow> nat \<Rightarrow> ('w, int) op" where
  "find_oneofstrings_in_file filename keywords nbkeywords =
     (case (keywords, filename) of
        (Some ks, Some f) \<Rightarrow>
          if nbkeywords = 0 then ret (- EINVAL)
          else do {
            fd \<leftarrow> open_read f;
            (case fd of
               None \<Rightarrow> do { e \<leftarrow> gets errno; ret (- e) }
             | Some d \<Rightarrow> do {
                 (_, r) \<leftarrow> for_lines d () (\<lambda>l b. ret (b,
                   if \<exists>k \<in> set (take nbkeywords ks). contains (cstr (chomp l)) k
                   then Some (1::int) else None));
                 ret (case r of Inl v \<Rightarrow> v | Inr _ \<Rightarrow> 0) }) }
      | _ \<Rightarrow> ret (- EINVAL))"

text \<open>The same with a keyword that must stand on the line or on the one before it.\<close>

definition find_oneofstrings_in_file_with_keyword ::
  "string option \<Rightarrow> string list option \<Rightarrow> string option \<Rightarrow> nat \<Rightarrow> ('w, int) op" where
  "find_oneofstrings_in_file_with_keyword filename keywords common_keyword nbkeywords =
     (case (keywords, filename, common_keyword) of
        (Some ks, Some f, Some ck) \<Rightarrow>
          if nbkeywords = 0 then ret (- EINVAL)
          else do {
            fd \<leftarrow> open_read f;
            (case fd of
               None \<Rightarrow> do { e \<leftarrow> gets errno; ret (- e) }
             | Some d \<Rightarrow> do {
                 (_, r) \<leftarrow> for_lines d [] (\<lambda>l old. ret (cstr (chomp l),
                   if (\<exists>k \<in> set (take nbkeywords ks). contains (cstr (chomp l)) k) \<and>
                      (contains (cstr (chomp l)) ck \<or> contains old ck)
                   then Some (1::int) else None));
                 ret (case r of Inl v \<Rightarrow> v | Inr _ \<Rightarrow> 0) }) }
      | _ \<Rightarrow> ret (- EINVAL))"

text \<open>
  \<open>find_str_in_standard_file\<close> leaves its loop with \<open>linesize\<close> of the (chomped) line it
  stopped at, and reports a match when that is positive.
\<close>

definition find_str_in_standard_file ::
  "string option \<Rightarrow> string option \<Rightarrow> string option \<Rightarrow> ('w, int) op" where
  "find_str_in_standard_file filename keyword tail =
     (case (keyword, filename) of
        (Some k, Some f) \<Rightarrow> do {
            fd \<leftarrow> open_read f;
            (case fd of
               None \<Rightarrow> do { e \<leftarrow> gets errno; ret (- e) }
             | Some d \<Rightarrow> do {
                 (_, r) \<leftarrow> for_lines d () (\<lambda>l b. ret (b,
                   if \<not> contains (cstr (chomp l)) k then None
                   else (case tail of
                           None \<Rightarrow> Some (int (length (chomp l)))
                         | Some t \<Rightarrow>
                             if length t > length (chomp l) then None
                             else if cstr (drop (length (chomp l) - length t) (chomp l)) = t
                             then Some (int (length (chomp l))) else None)));
                 ret (case r of Inl linesize \<Rightarrow> if linesize > 0 then 1 else 0 | Inr _ \<Rightarrow> 0) }) }
      | _ \<Rightarrow> ret (- EINVAL))"

section \<open>fgets loops\<close>

text \<open>\<open>fgets(buffer, n, f)\<close>: at most \<open>n - 1\<close> bytes, up to and including a newline.\<close>

fun fgets_line :: "nat \<Rightarrow> string \<Rightarrow> string \<times> string" where
  "fgets_line 0 s = ([], s)"
| "fgets_line (Suc n) [] = ([], [])"
| "fgets_line (Suc n) (c # cs) =
     (if c = NL then ([NL], cs) else (case fgets_line n cs of (l, r) \<Rightarrow> (c # l, r)))"

lemma fgets_line_append: "fst (fgets_line n s) @ snd (fgets_line n s) = s"
  by (induction n s rule: fgets_line.induct) (auto split: prod.splits)

lemma fgets_line_nonempty: "s \<noteq> [] \<Longrightarrow> fst (fgets_line (Suc n) s) \<noteq> []"
  by (cases s) (auto split: prod.splits)

text \<open>The buffers a loop \<open>while (!feof(f)) if (fgets(buffer, n, f))\<close> sees.\<close>

function fgets_lines :: "nat \<Rightarrow> string \<Rightarrow> string list" where
  "fgets_lines n s =
     (if s = [] \<or> n < 2 then []
      else fst (fgets_line (n - 1) s) # fgets_lines n (snd (fgets_line (n - 1) s)))"
  by pat_completeness auto
termination
proof (relation "measure (\<lambda>(n, s). length s)")
  fix n :: nat and s :: string
  assume "\<not> (s = [] \<or> n < 2)"
  then have "fst (fgets_line (n - 1) s) \<noteq> []"
    by (cases "n - 1") (auto dest: fgets_line_nonempty)
  moreover have "length s = length (fst (fgets_line (n - 1) s)) + length (snd (fgets_line (n - 1) s))"
    by (metis fgets_line_append length_append)
  ultimately show "((n, snd (fgets_line (n - 1) s)), (n, s)) \<in> measure (\<lambda>(n, s). length s)"
    by auto
qed simp

declare fgets_lines.simps [simp del]

lemma fgets_lines_Nil [simp]: "fgets_lines n [] = []"
  by (simp add: fgets_lines.simps)

text \<open>Unlike \<open>readline\<close>, \<open>fgets\<close> loses nothing.\<close>

lemma concat_fgets_lines: "2 \<le> n \<Longrightarrow> concat (fgets_lines n s) = s"
proof (induction n s rule: fgets_lines.induct)
  case (1 n s)
  then show ?case
    by (cases "s = []") (simp_all add: fgets_lines.simps [of n s] fgets_line_append)
qed

text \<open>
  \<open>find_str_in_file\<close>: the tail is compared one character before the end of the buffer,
  where it stands when the buffer ends in a newline.
\<close>

definition tail_matches :: "string \<Rightarrow> string \<Rightarrow> bool" where
  "tail_matches buffer tail \<longleftrightarrow>
     length buffer > length tail \<and>
     take (length tail) (drop (length buffer - length tail - 1) buffer) = tail"

definition find_str_in_file ::
  "string option \<Rightarrow> string option \<Rightarrow> string option \<Rightarrow> ('w, int) op" where
  "find_str_in_file filename keyword tail =
     (case (keyword, filename) of
        (Some k, Some f) \<Rightarrow> do {
          ex \<leftarrow> gets (file_exists f);
          if \<not> ex then do { set_errno ENOENT; ret (- ENOENT) }
          else do {
            fd \<leftarrow> open_read f;
            (case fd of
               None \<Rightarrow> do { e \<leftarrow> gets errno; ret (- e) }
             | Some d \<Rightarrow> ret
                 (if \<exists>b \<in> set (map cstr (fgets_lines (4 * 1024) d)).
                       contains b k \<and> (case tail of None \<Rightarrow> True | Some t \<Rightarrow> tail_matches b t)
                  then 1 else 0)) } }
      | _ \<Rightarrow> ret (- EINVAL))"

text \<open>
  \<open>get_value_in_file\<close>: on the first buffer that contains the keyword, what follows the
  first \<open>strlen(keyword)\<close> characters of the buffer. The result is the code and the value.
\<close>

definition get_value_in_file ::
  "string option \<Rightarrow> string option \<Rightarrow> bool \<Rightarrow> nat \<Rightarrow> ('w, int \<times> string option) op" where
  "get_value_in_file file keyword value_given sizemax =
     (case (file, keyword) of
        (Some f, Some k) \<Rightarrow>
          if \<not> value_given \<or> sizemax = 0 then ret (- EINVAL, None)
          else do {
            ex \<leftarrow> gets (file_exists f);
            if \<not> ex then ret (- ENOENT, None)
            else do {
              fd \<leftarrow> open_read f;
              (case fd of
                 None \<Rightarrow> do { e \<leftarrow> gets errno; ret (- e, None) }
               | Some d \<Rightarrow>
                   (case find (\<lambda>b. contains b k) (map cstr (fgets_lines MAXLINESIZE d)) of
                      None \<Rightarrow> ret (-1, None)
                    | Some b \<Rightarrow>
                        let buf = chomp b; size = int (length buf) - int (length k)
                        in if size > int sizemax then ret (- EINVAL, None)
                           else ret (0, Some (drop (length k) buf)))) } }
      | _ \<Rightarrow> ret (- EINVAL, None))"

section \<open>Small string helpers\<close>

text \<open>\<open>str_simple_replace\<close>: the first occurrence, overwritten in place; code and string.\<close>

definition str_simple_replace :: "string \<Rightarrow> string \<Rightarrow> string \<Rightarrow> int \<times> string" where
  "str_simple_replace str search replace =
     (if length search \<noteq> length replace then (-1, str)
      else (case strstr str search of
              Some f \<Rightarrow> (0, take (length str - length f) str @ replace @ drop (length replace) f)
            | None \<Rightarrow> (-1, str)))"

text \<open>
  \<open>get_parent_dir\<close>: the path up to and including its last slash, a trailing slash set
  aside first; code and parent (when one is stored).
\<close>

definition cut_at :: "string \<Rightarrow> string \<Rightarrow> string" where
  "cut_at path ptr = take (length path - length ptr) path"

definition get_parent_dir :: "string option \<Rightarrow> bool \<Rightarrow> int \<times> string option" where
  "get_parent_dir dir parent_given =
     (case dir of
        None \<Rightarrow> (- EINVAL, None)
      | Some d \<Rightarrow>
          if \<not> parent_given then (- EINVAL, None)
          else let path = take (PATHMAX - 1) d
               in (case strrchr path (CHR ''/'') of
                     None \<Rightarrow> (-1, None)
                   | Some ptr \<Rightarrow>
                       if length path \<le> 1 then (-1, None)
                       else if length ptr = 1
                       then let path' = cut_at path ptr
                            in (case strrchr path' (CHR ''/'') of
                                  None \<Rightarrow> (-1, None)
                                | Some ptr' \<Rightarrow> (0, Some (cut_at path' ptr' @ ''/'')))
                       else (0, Some (cut_at path ptr @ ''/''))))"

section \<open>What the searches compute\<close>

lemma fold_lines_search:
  "fold_lines ls () (\<lambda>l b. ((), if P l then Some v else None)) =
     ((), if \<exists>l \<in> set ls. P l then Inl v else Inr 0)"
  by (induction ls) auto

lemma fold_lines_count:
  "fold_lines ls (n::int) (\<lambda>_ n. (n + 1, None :: unit option)) = (n + int (length ls), Inr 0)"
  by (induction ls arbitrary: n) auto

lemma open_read_File:
  "reliable s \<Longrightarrow> node_at s f = Some (File d) \<Longrightarrow>
   run_state (open_read f) s = (Some d, s\<lparr>calls := Suc (calls s)\<rparr>)"
  by (simp add: open_read_def)

text \<open>
  C24. A byte that arrives when the buffer of \<open>readline\<close> is full is read and thrown away:
  after \<open>MAXLINESIZE-1\<close> bytes without a newline the next byte belongs neither to the
  line returned nor to the input that remains.
\<close>

theorem readline_drops_byte:
  assumes "reliable s" and "NL \<notin> set b" and "length b = LINEROOM"
  shows "\<exists>k. run_state (readline (b @ c # r)) s = ((int LINEROOM, b, r), s\<lparr>calls := k\<rparr>)"
proof -
  obtain k where "run_state (readline (b @ c # r)) s =
     ((int (length (fst (next_line LINEROOM (b @ c # r)))), fst (next_line LINEROOM (b @ c # r)),
       snd (next_line LINEROOM (b @ c # r))), s\<lparr>calls := k\<rparr>)"
    using readline_reliable [OF assms(1)] by blast
  then show ?thesis
    using assms by (auto simp: next_line_overlong)
qed

text \<open>A world with the given files in which no call fails, for the witnesses.\<close>

definition calm :: "tree \<Rightarrow> world" where
  "calm t = \<lparr>fs = t, props = [], errno = 0, fault = (\<lambda>_. Works), calls = 0,
             clock = (\<lambda>_. 0), fmt_time = (\<lambda>_. ''2020-01-01/00:00:00  ''), effects = []\<rparr>"

lemma reliable_calm [simp]: "reliable (calm t)"
  by (simp add: reliable_def calm_def)

lemma node_at_calm [simp]: "node_at (calm t) p = map_of t (comps p)"
  by (simp add: node_at_def calm_def)

theorem readline_drops_byte_witness:
  "\<exists>k. run_state (readline (replicate LINEROOM (CHR ''x'') @ CHR ''y'' # ''z'')) (calm []) =
     ((int LINEROOM, replicate LINEROOM (CHR ''x''), ''z''), (calm [])\<lparr>calls := k\<rparr>)"
  by (rule readline_drops_byte) simp_all

text \<open>
  \<open>count_lines_in_file\<close> counts lines: on a file made of \<open>n\<close> lines, each ending in a
  newline and fitting the buffer, it returns \<open>n\<close> and leaves the file system alone.
\<close>

theorem count_lines_in_file_wf:
  assumes "reliable s" and "node_at s f = Some (File (concat ls))" and "\<forall>l \<in> set ls. wf_line l"
  shows "\<exists>k. run_state (count_lines_in_file (Some f)) s = (int (length ls), s\<lparr>calls := k\<rparr>)"
proof -
  let ?s = "s\<lparr>calls := Suc (calls s)\<rparr>"
  have "reliable ?s" using assms(1) by simp
  then obtain c where "run_state (for_lines (concat ls) (0::int)
      (\<lambda>l b. ret ((\<lambda>_ n. (n + 1, None :: unit option)) l b))) ?s =
      (fold_lines (lines (concat ls)) 0 (\<lambda>_ n. (n + 1, None)), ?s\<lparr>calls := c\<rparr>)"
    by (rule for_lines_pure)
  moreover have "lines (concat ls) = ls"
    using lines_concat [OF assms(3), of "[]"] by simp
  ultimately show ?thesis
    using open_read_File [OF assms(1,2)]
    by (auto simp: count_lines_in_file_def fold_lines_count)
qed

theorem count_lines_in_file_wf_witness:
  "\<exists>k. run_state (count_lines_in_file (Some ''/logs/f'')) (calm [([''logs'', ''f''], File ([CHR ''a'', NL] @ [NL] @ []))])
     = (2, (calm [([''logs'', ''f''], File [CHR ''a'', NL, NL])])\<lparr>calls := k\<rparr>)"
proof -
  have "\<forall>l \<in> set [[CHR ''a'', NL], [NL]]. wf_line l"
    by (simp add: wf_line_def privconst)
  from count_lines_in_file_wf [OF _ _ this, of "calm [([''logs'', ''f''], File [CHR ''a'', NL, NL])]" "''/logs/f''"]
  show ?thesis by (simp add: comps_def)
qed

text \<open>
  \<open>find_oneofstrings_in_file\<close> answers 1 exactly when one of the first
  \<open>nbkeywords\<close> keywords occurs on a line of the file, and 0 otherwise.
\<close>

theorem find_oneofstrings_in_file_iff:
  assumes "reliable s" and "node_at s f = Some (File d)" and "0 < nb"
  shows "fst (run_state (find_oneofstrings_in_file (Some f) (Some ks) nb) s) =
     (if \<exists>l \<in> set (lines d). \<exists>k \<in> set (take nb ks). sublist k (cstr (chomp l)) then 1 else 0)"
proof -
  let ?s = "s\<lparr>calls := Suc (calls s)\<rparr>"
  have "reliable ?s" using assms(1) by simp
  then obtain c where "run_state (for_lines d () (\<lambda>l b. ret ((\<lambda>l b. (b,
        if \<exists>k \<in> set (take nb ks). contains (cstr (chomp l)) k then Some (1::int) else None)) l b))) ?s =
      (fold_lines (lines d) () (\<lambda>l b. (b,
        if \<exists>k \<in> set (take nb ks). contains (cstr (chomp l)) k then Some (1::int) else None)), ?s\<lparr>calls := c\<rparr>)"
    by (rule for_lines_pure)
  then show ?thesis
    using open_read_File [OF assms(1,2)] assms(3)
    by (simp add: find_oneofstrings_in_file_def fold_lines_search contains_sublist)
qed

theorem find_oneofstrings_in_file_iff_witness:
  "fst (run_state (find_oneofstrings_in_file (Some ''/f'') (Some [''ab'', ''cd'']) 2)
     (calm [([''f''], File ''xcdx'')])) = 1"
proof -
  have l: "lines ''xcdx'' = [''xcdx'']"
    by (simp add: lines.simps privconst)
       (simp add: numeral_eq_Suc lines.simps)
  have "sublist ''cd'' ''xcdx''"
    unfolding contains_sublist [symmetric] contains_def by simp
  moreover have "cstr (chomp ''xcdx'') = ''xcdx''" by (simp add: chomp_def)
  ultimately show ?thesis
    using find_oneofstrings_in_file_iff [of "calm [([''f''], File ''xcdx'')]" "''/f''" "''xcdx''" 2 "[''ab'', ''cd'']"] l
    by (simp add: comps_def)
qed

end
