(* ===== verification/Ring_Sort.thy ===== *)
theory Ring_Sort
  imports Posix "HOL-Library.Multiset"
begin

text \<open>
  The quicksort of crashlog/fsutils.c. It sorts an array of pointers along with an array of
  index keys, and its one caller (\<open>cache_file\<close>) uses it to straighten a ring buffer.
  The arrays are lists of equal length; \<open>qs_pairs\<close> views them as one list of
  (key, pointer) pairs, which is what every swap really permutes. The main result is that
  \<open>quicksort(array, dim, pivot)\<close> rotates the array left by \<open>pivot\<close>.
\<close>

section \<open>The code\<close>

type_synonym 'a qs = "'a list \<times> int list"

definition swap_elems :: "'a list \<Rightarrow> nat \<Rightarrow> nat \<Rightarrow> 'a list" where
  "swap_elems xs i j = xs[i := xs ! j, j := xs ! i]"

definition qs_swap :: "'a qs \<Rightarrow> nat \<Rightarrow> nat \<Rightarrow> 'a qs" where
  "qs_swap st i j = (swap_elems (fst st) i j, swap_elems (snd st) i j)"

function qs_part_loop :: "'a qs \<Rightarrow> nat \<Rightarrow> nat \<Rightarrow> nat \<Rightarrow> 'a qs \<times> nat" where
  "qs_part_loop st j i e =
     (if i < e then
        (if snd st ! i \<le> snd st ! e then qs_part_loop (qs_swap st i j) (Suc j) (Suc i) e
         else qs_part_loop st j (Suc i) e)
      else (st, j))"
  by pat_completeness auto
termination
  by (relation "measure (\<lambda>(st, j, i, e). e - i)") auto

declare qs_part_loop.simps [simp del]

definition qs_partition :: "'a qs \<Rightarrow> nat \<Rightarrow> nat \<Rightarrow> nat \<Rightarrow> 'a qs \<times> nat" where
  "qs_partition st start e pivot =
     (let st1 = qs_swap st pivot e;
          (st2, j) = qs_part_loop st1 start start e
      in (qs_swap st2 e j, j))"

lemma qs_part_loop_bounds:
  "qs_part_loop st j i e = (st', j') \<Longrightarrow> j \<le> j' \<and> (j \<le> i \<longrightarrow> i \<le> e \<longrightarrow> j' \<le> e)"
proof (induction st j i e rule: qs_part_loop.induct)
  case (1 st j i e)
  show ?case
  proof (cases "i < e")
    case True
    with 1 show ?thesis
      by (cases "snd st ! i \<le> snd st ! e") (auto simp: qs_part_loop.simps [of st j i e])
  qed (use 1 in \<open>auto simp: qs_part_loop.simps [of st j i e]\<close>)
qed

lemma qs_partition_bounds:
  "qs_partition st start e pivot = (st', j) \<Longrightarrow> start \<le> e \<Longrightarrow> start \<le> j \<and> j \<le> e"
  by (auto simp: qs_partition_def Let_def split: prod.splits dest: qs_part_loop_bounds)

text \<open>\<open>__quicksort\<close>: the bounds are C ints, since \<open>pivot-1\<close> may be -1.\<close>

function qs_sort :: "'a qs \<Rightarrow> int \<Rightarrow> int \<Rightarrow> 'a qs" where
  "qs_sort st start e =
     (if start < e \<and> 0 \<le> start then
        (case qs_partition st (nat start) (nat e) (nat start) of (st1, pivot) \<Rightarrow>
           qs_sort (qs_sort st1 start (int pivot - 1)) (int pivot + 1) e)
      else st)"
  by pat_completeness auto
termination
proof (relation "measure (\<lambda>(st, start, e). nat (e - start + 1))", goal_cases)
  case (2 st start e st1 pivot)
  then have "nat start \<le> pivot \<and> pivot \<le> nat e"
    using qs_partition_bounds [of st "nat start" "nat e" "nat start" st1 pivot] by auto
  with 2 show ?case by auto
next
  case (3 st start e st1 pivot)
  then have "nat start \<le> pivot \<and> pivot \<le> nat e"
    using qs_partition_bounds [of st "nat start" "nat e" "nat start" st1 pivot] by auto
  with 3 show ?case by auto
qed simp

declare qs_sort.simps [simp del]

definition qs_indexes :: "nat \<Rightarrow> nat \<Rightarrow> int list" where
  "qs_indexes dim pivot =
     map (\<lambda>i. if i < pivot then (int dim - int pivot) + int i else int i - int pivot) [0..<dim]"

definition quicksort :: "'a list \<Rightarrow> nat \<Rightarrow> nat \<Rightarrow> ('w, int \<times> 'a list) op" where
  "quicksort array dim pivot = do {
     ok \<leftarrow> alloc;
     if \<not> ok then ret (- ENOMEM, array)
     else ret (0, fst (qs_sort (array, qs_indexes dim pivot) 0 (int dim - 1))) }"

section \<open>Correctness of the sort\<close>

definition qs_pairs :: "'a qs \<Rightarrow> (int \<times> 'a) list" where
  "qs_pairs st = zip (snd st) (fst st)"

definition qs_ok :: "'a qs \<Rightarrow> bool" where
  "qs_ok st \<longleftrightarrow> length (fst st) = length (snd st)"

lemma swap_elems_simps [simp]: "length (swap_elems xs i j) = length xs"
  by (simp add: swap_elems_def)

lemma nth_swap_elems:
  "i < length xs \<Longrightarrow> j < length xs \<Longrightarrow> k < length xs \<Longrightarrow>
   swap_elems xs i j ! k = (if k = j then xs ! i else if k = i then xs ! j else xs ! k)"
  by (simp add: swap_elems_def nth_list_update)

lemma mset_swap_elems:
  "i < length xs \<Longrightarrow> j < length xs \<Longrightarrow> mset (swap_elems xs i j) = mset xs"
  by (simp add: swap_elems_def mset_swap)

lemma zip_swap_elems:
  "length xs = length ys \<Longrightarrow> i < length xs \<Longrightarrow> j < length xs \<Longrightarrow>
   zip (swap_elems xs i j) (swap_elems ys i j) = swap_elems (zip xs ys) i j"
  by (rule nth_equalityI) (auto simp: nth_swap_elems)

text \<open>What a piece of the algorithm may do: permute the pairs, and only between two bounds.\<close>

definition perm_within :: "nat \<Rightarrow> nat \<Rightarrow> 'a qs \<Rightarrow> 'a qs \<Rightarrow> bool" where
  "perm_within lo hi st st' \<longleftrightarrow>
     qs_ok st' \<and> length (snd st') = length (snd st) \<and>
     mset (qs_pairs st') = mset (qs_pairs st) \<and>
     (\<forall>k < length (snd st). k < lo \<or> hi < k \<longrightarrow> qs_pairs st' ! k = qs_pairs st ! k)"

lemma perm_within_refl: "qs_ok st \<Longrightarrow> perm_within lo hi st st"
  by (simp add: perm_within_def)

lemma perm_within_trans:
  "perm_within lo hi st st' \<Longrightarrow> perm_within lo hi st' st'' \<Longrightarrow> perm_within lo hi st st''"
  by (auto simp: perm_within_def)

lemma perm_within_mono:
  "perm_within lo' hi' st st' \<Longrightarrow> lo \<le> lo' \<Longrightarrow> hi' \<le> hi \<Longrightarrow> perm_within lo hi st st'"
  by (auto simp: perm_within_def)

lemma qs_pairs_swap:
  "qs_ok st \<Longrightarrow> i < length (snd st) \<Longrightarrow> j < length (snd st) \<Longrightarrow>
   qs_pairs (qs_swap st i j) = swap_elems (qs_pairs st) i j"
  by (simp add: qs_pairs_def qs_swap_def qs_ok_def zip_swap_elems)

lemma length_qs_pairs [simp]: "qs_ok st \<Longrightarrow> length (qs_pairs st) = length (snd st)"
  by (simp add: qs_pairs_def qs_ok_def)

lemma key_qs_pairs: "qs_ok st \<Longrightarrow> k < length (snd st) \<Longrightarrow> fst (qs_pairs st ! k) = snd st ! k"
  by (simp add: qs_pairs_def qs_ok_def)

lemma qs_swap_within:
  assumes "qs_ok st" "i < length (snd st)" "j < length (snd st)"
    "lo \<le> i" "i \<le> hi" "lo \<le> j" "j \<le> hi"
  shows "perm_within lo hi st (qs_swap st i j)"
proof -
  have "qs_ok (qs_swap st i j)" "length (snd (qs_swap st i j)) = length (snd st)"
    using assms by (simp_all add: qs_ok_def qs_swap_def)
  with assms show ?thesis
    by (auto simp: perm_within_def qs_pairs_swap mset_swap_elems nth_swap_elems)
qed

text \<open>The keys left of \<open>j\<close> are at most the pivot's, those from \<open>j\<close> up to \<open>i\<close> above it.\<close>

definition split_at :: "'a qs \<Rightarrow> nat \<Rightarrow> nat \<Rightarrow> nat \<Rightarrow> nat \<Rightarrow> bool" where
  "split_at st lo j i e \<longleftrightarrow>
     (\<forall>k. lo \<le> k \<and> k < j \<longrightarrow> snd st ! k \<le> snd st ! e) \<and>
     (\<forall>k. j \<le> k \<and> k < i \<longrightarrow> snd st ! e < snd st ! k)"

lemma qs_part_loop_correct:
  "qs_part_loop st j i e = (st', j') \<Longrightarrow> qs_ok st \<Longrightarrow> e < length (snd st) \<Longrightarrow>
   lo \<le> j \<Longrightarrow> j \<le> i \<Longrightarrow> i \<le> e \<Longrightarrow> split_at st lo j i e \<Longrightarrow>
   perm_within lo e st st' \<and> snd st' ! e = snd st ! e \<and> split_at st' lo j' e e"
proof (induction st j i e rule: qs_part_loop.induct)
  case (1 st j i e)
  show ?case
  proof (cases "i < e")
    case False
    with "1.prems" show ?thesis
      by (auto simp: qs_part_loop.simps [of st j i e] perm_within_refl)
  next
    case True
    show ?thesis
    proof (cases "snd st ! i \<le> snd st ! e")
      case le: True
      let ?t = "qs_swap st i j"
      have w: "perm_within lo e st ?t"
        by (rule qs_swap_within) (use "1.prems" True in auto)
      have key: "snd ?t ! k = (if k = j then snd st ! i else if k = i then snd st ! j else snd st ! k)"
        if "k < length (snd st)" for k
        using that "1.prems" True by (simp add: qs_swap_def nth_swap_elems)
      have "split_at ?t lo (Suc j) (Suc i) e"
        using "1.prems" True le by (auto simp: split_at_def key less_Suc_eq)
      moreover have "qs_ok ?t" "length (snd ?t) = length (snd st)" "snd ?t ! e = snd st ! e"
        using w "1.prems" True by (auto simp: perm_within_def key)
      ultimately have "perm_within lo e ?t st' \<and> snd st' ! e = snd ?t ! e \<and> split_at st' lo j' e e"
        using "1.IH"(1) [OF True le] "1.prems" True le
        by (simp add: qs_part_loop.simps [of st j i e])
      with w \<open>snd ?t ! e = snd st ! e\<close> show ?thesis
        by (auto intro: perm_within_trans)
    next
      case gt: False
      have "split_at st lo j (Suc i) e"
        using "1.prems" gt by (auto simp: split_at_def less_Suc_eq)
      with "1.IH"(2) [OF True gt] "1.prems" True gt show ?thesis
        by (simp add: qs_part_loop.simps [of st j i e])
    qed
  qed
qed

lemma qs_partition_correct:
  assumes "qs_partition st lo e lo = (st', p)" "qs_ok st" "lo \<le> e" "e < length (snd st)"
  shows "perm_within lo e st st'" "lo \<le> p" "p \<le> e"
    and "\<And>k. lo \<le> k \<Longrightarrow> k < p \<Longrightarrow> snd st' ! k \<le> snd st' ! p"
    and "\<And>k. p < k \<Longrightarrow> k \<le> e \<Longrightarrow> snd st' ! p \<le> snd st' ! k"
proof -
  let ?a = "qs_swap st lo e"
  obtain b where loop: "qs_part_loop ?a lo lo e = (b, p)" and st': "st' = qs_swap b e p"
    using assms(1) by (auto simp: qs_partition_def Let_def split: prod.splits)
  have a: "perm_within lo e st ?a"
    by (rule qs_swap_within) (use assms in auto)
  then have oka: "qs_ok ?a" "length (snd ?a) = length (snd st)"
    by (auto simp: perm_within_def)
  have b: "perm_within lo e ?a b" "split_at b lo p e e"
    using qs_part_loop_correct [OF loop oka(1), of lo] assms oka by (auto simp: split_at_def)
  then have okb: "qs_ok b" "length (snd b) = length (snd st)"
    using oka by (auto simp: perm_within_def)
  show p: "lo \<le> p" "p \<le> e"
    using qs_part_loop_bounds [OF loop] assms by auto
  have c: "perm_within lo e b st'"
    unfolding st' by (rule qs_swap_within) (use okb p assms in auto)
  show "perm_within lo e st st'"
    using a b(1) c by (blast intro: perm_within_trans)
  have key: "snd st' ! k = (if k = p then snd b ! e else if k = e then snd b ! p else snd b ! k)"
    if "k < length (snd st)" for k
    using that okb p assms by (simp add: st' qs_swap_def nth_swap_elems)
  show "snd st' ! k \<le> snd st' ! p" if "lo \<le> k" "k < p" for k
    using that b(2) p assms by (auto simp: key split_at_def)
  show "snd st' ! p \<le> snd st' ! k" if "p < k" "k \<le> e" for k
    using that b(2) p assms by (cases "k = e") (auto simp: key split_at_def order.strict_implies_order)
qed

definition slice :: "nat \<Rightarrow> nat \<Rightarrow> 'a list \<Rightarrow> 'a list" where
  "slice lo hi xs = drop lo (take (Suc hi) xs)"

lemma slice_decomp:
  "lo \<le> Suc hi \<Longrightarrow> xs = take lo xs @ slice lo hi xs @ drop (Suc hi) xs"
  by (simp add: slice_def) (metis append.assoc append_take_drop_id min.absorb1 take_take)

lemma in_set_slice:
  "hi < length xs \<Longrightarrow> x \<in> set (slice lo hi xs) \<longleftrightarrow> (\<exists>k. lo \<le> k \<and> k \<le> hi \<and> x = xs ! k)"
proof
  assume "hi < length xs" "x \<in> set (slice lo hi xs)"
  then obtain i where "i < Suc hi - lo" "x = xs ! (lo + i)"
    by (auto simp: slice_def in_set_conv_nth)
  then show "\<exists>k. lo \<le> k \<and> k \<le> hi \<and> x = xs ! k"
    by (intro exI [of _ "lo + i"]) auto
next
  assume "hi < length xs" "\<exists>k. lo \<le> k \<and> k \<le> hi \<and> x = xs ! k"
  then obtain k where "lo \<le> k" "k \<le> hi" "x = xs ! k" by blast
  with \<open>hi < length xs\<close> show "x \<in> set (slice lo hi xs)"
    by (auto simp: slice_def in_set_conv_nth intro!: exI [of _ "k - lo"])
qed

text \<open>A permutation within bounds permutes the keys between the bounds.\<close>

lemma perm_within_key:
  assumes "perm_within lo hi st st'" "qs_ok st" "hi < length (snd st)" "lo \<le> k" "k \<le> hi"
  obtains k' where "lo \<le> k'" "k' \<le> hi" "snd st' ! k = snd st ! k'"
proof -
  let ?z = "qs_pairs st" and ?z' = "qs_pairs st'"
  have ok': "qs_ok st'" "length (snd st') = length (snd st)"
    and same: "\<And>k. k < length (snd st) \<Longrightarrow> k < lo \<or> hi < k \<Longrightarrow> ?z' ! k = ?z ! k"
    and ms: "mset ?z' = mset ?z"
    using assms(1) by (auto simp: perm_within_def)
  have "take lo ?z' = take lo ?z" "drop (Suc hi) ?z' = drop (Suc hi) ?z"
    using same assms ok' by (auto intro!: nth_equalityI)
  moreover have "mset ?z = mset (take lo ?z @ slice lo hi ?z @ drop (Suc hi) ?z)"
    "mset ?z' = mset (take lo ?z' @ slice lo hi ?z' @ drop (Suc hi) ?z')"
    using slice_decomp [of lo hi ?z] slice_decomp [of lo hi ?z'] assms(4,5) by (auto intro: arg_cong)
  ultimately have "mset (slice lo hi ?z') = mset (slice lo hi ?z)"
    using ms by simp
  then have "set (slice lo hi ?z') = set (slice lo hi ?z)"
    by (metis set_mset_mset)
  moreover have "?z' ! k \<in> set (slice lo hi ?z')"
    using assms ok' by (auto simp: in_set_slice)
  ultimately obtain k' where "lo \<le> k'" "k' \<le> hi" "?z' ! k = ?z ! k'"
    using assms by (auto simp: in_set_slice)
  with that [of k'] assms ok' show ?thesis
    by (metis key_qs_pairs le_less_trans)
qed

lemma perm_within_outside:
  assumes "perm_within lo hi st st'" "qs_ok st" "k < length (snd st)" "k < lo \<or> hi < k"
  shows "snd st' ! k = snd st ! k"
  using assms key_qs_pairs [of st k] key_qs_pairs [of st' k] by (auto simp: perm_within_def)

definition sorted_within :: "int \<Rightarrow> int \<Rightarrow> 'a qs \<Rightarrow> bool" where
  "sorted_within lo hi st \<longleftrightarrow>
     (\<forall>a b. lo \<le> int a \<and> a \<le> b \<and> int b \<le> hi \<longrightarrow> snd st ! a \<le> snd st ! b)"

text \<open>Putting two sorted parts together around the pivot.\<close>

lemma sorted_within_join:
  assumes "sorted_within lo (int p - 1) st" "sorted_within (int p + 1) hi st"
    and "\<And>k. lo \<le> int k \<Longrightarrow> k < p \<Longrightarrow> snd st ! k \<le> snd st ! p"
    and "\<And>k. p < k \<Longrightarrow> int k \<le> hi \<Longrightarrow> snd st ! p \<le> snd st ! k"
  shows "sorted_within lo hi st"
  unfolding sorted_within_def
proof (intro allI impI)
  fix a b assume ab: "lo \<le> int a \<and> a \<le> b \<and> int b \<le> hi"
  consider "b < p" | "p < a" | "a \<le> p" "p \<le> b" by linarith
  then show "snd st ! a \<le> snd st ! b"
  proof cases
    case 3
    then have "snd st ! a \<le> snd st ! p" "snd st ! p \<le> snd st ! b"
      using ab assms(3) [of a] assms(4) [of b] by (cases "a = p"; cases "b = p"; force)+
    then show ?thesis by linarith
  qed (use ab assms(1,2) in \<open>auto simp: sorted_within_def\<close>)
qed

lemma qs_sort_correct:
  "qs_ok st \<Longrightarrow> 0 \<le> start \<Longrightarrow> e < int (length (snd st)) \<Longrightarrow>
   perm_within (nat start) (nat e) st (qs_sort st start e) \<and>
   (e < start \<longrightarrow> qs_sort st start e = st) \<and> sorted_within start e (qs_sort st start e)"
proof (induction st start e rule: qs_sort.induct)
  case (1 st start e)
  show ?case
  proof (cases "start < e")
    case False
    then have "a = b" if "start \<le> int a" "a \<le> b" "int b \<le> e" for a b
      using that by linarith
    then have "sorted_within start e st" by (force simp: sorted_within_def)
    with False "1.prems" show ?thesis
      by (simp add: qs_sort.simps [of st start e] perm_within_refl)
  next
    case True
    let ?lo = "nat start" and ?e = "nat e"
    obtain st1 p where part: "qs_partition st ?lo ?e ?lo = (st1, p)" by fastforce
    note P = qs_partition_correct [OF part "1.prems"(1)]
    have w1: "perm_within ?lo ?e st st1" and p: "?lo \<le> p" "p \<le> ?e"
      and l1: "\<And>k. ?lo \<le> k \<Longrightarrow> k < p \<Longrightarrow> snd st1 ! k \<le> snd st1 ! p"
      and r1: "\<And>k. p < k \<Longrightarrow> k \<le> ?e \<Longrightarrow> snd st1 ! p \<le> snd st1 ! k"
      using P True "1.prems" by auto
    have ok1: "qs_ok st1" "length (snd st1) = length (snd st)"
      using w1 by (auto simp: perm_within_def)
    let ?st2 = "qs_sort st1 start (int p - 1)"
    have g: "start < e \<and> 0 \<le> start" using True "1.prems" by simp
    have IH1: "perm_within ?lo (nat (int p - 1)) st1 ?st2"
      "int p - 1 < start \<longrightarrow> ?st2 = st1" "sorted_within start (int p - 1) ?st2"
      using "1.IH"(1) [OF g part [symmetric]] ok1 "1.prems" p by auto
    have ok2: "qs_ok ?st2" "length (snd ?st2) = length (snd st)"
      using IH1(1) ok1 by (auto simp: perm_within_def)
    let ?st3 = "qs_sort ?st2 (int p + 1) e"
    have IH2: "perm_within (nat (int p + 1)) ?e ?st2 ?st3"
      "e < int p + 1 \<longrightarrow> ?st3 = ?st2" "sorted_within (int p + 1) e ?st3"
      using "1.IH"(2) [OF g part [symmetric]] ok2 "1.prems" by auto
    have res: "qs_sort st start e = ?st3"
      using g part by (simp add: qs_sort.simps [of st start e])
    have keep2: "snd ?st2 ! k = snd st1 ! k" if "p \<le> k" "k < length (snd st)" for k
    proof (cases "int p - 1 < start")
      case False
      with g that have "nat (int p - 1) < k" by linarith
      with that ok1 show ?thesis by (auto intro: perm_within_outside [OF IH1(1) ok1(1)])
    qed (use IH1(2) in simp)
    have keep3: "snd ?st3 ! k = snd ?st2 ! k" if "k \<le> p" for k
      using that IH2 ok2 p "1.prems" perm_within_outside [OF IH2(1) ok2(1), of k] by auto
    have left: "snd ?st2 ! k \<le> snd ?st2 ! p" if k: "start \<le> int k" "k < p" for k
    proof -
      obtain k' where "?lo \<le> k'" "k' \<le> nat (int p - 1)" "snd ?st2 ! k = snd st1 ! k'"
        by (rule perm_within_key [OF IH1(1) ok1(1), of k]) (use k p ok1 "1.prems" in auto)
      with k l1 [of k'] keep2 [of p] p "1.prems" show ?thesis by auto
    qed
    have right: "snd ?st3 ! p \<le> snd ?st3 ! k" if k: "p < k" "int k \<le> e" for k
    proof -
      obtain k' where "nat (int p + 1) \<le> k'" "k' \<le> ?e" "snd ?st3 ! k = snd ?st2 ! k'"
        by (rule perm_within_key [OF IH2(1) ok2(1), of k]) (use k p ok2 "1.prems" in auto)
      with k r1 [of k'] keep2 [of k'] keep2 [of p] keep3 [of p] p "1.prems" show ?thesis
        by auto
    qed
    have "sorted_within start e ?st3"
    proof (rule sorted_within_join [of _ p])
      show "sorted_within start (int p - 1) ?st3"
        using IH1(3) by (auto simp: sorted_within_def keep3)
      show "snd ?st3 ! k \<le> snd ?st3 ! p" if "start \<le> int k" "k < p" for k
        using left [OF that] that by (simp add: keep3)
    qed (use IH2(3) right in auto)
    moreover have "perm_within ?lo ?e st ?st3"
    proof -
      have "perm_within ?lo ?e st1 ?st2"
        by (rule perm_within_mono [OF IH1(1)]) (use p in auto)
      moreover have "perm_within ?lo ?e ?st2 ?st3"
        by (rule perm_within_mono [OF IH2(1)]) (use p in auto)
      ultimately show ?thesis using w1 by (blast intro: perm_within_trans)
    qed
    ultimately show ?thesis using res True by simp
  qed
qed

section \<open>Straightening a ring\<close>

lemma qs_indexes_rotate:
  assumes "pivot \<le> dim"
  shows "rotate pivot (qs_indexes dim pivot) = map int [0..<dim]"
proof (rule nth_equalityI)
  fix i assume "i < length (rotate pivot (qs_indexes dim pivot))"
  then have i: "i < dim" by (simp add: qs_indexes_def)
  then have "rotate pivot (qs_indexes dim pivot) ! i = qs_indexes dim pivot ! ((pivot + i) mod dim)"
    by (simp add: nth_rotate qs_indexes_def add.commute)
  also have "\<dots> = int i"
  proof (cases "pivot + i < dim")
    case False
    then have "(pivot + i) mod dim = pivot + i - dim"
      using assms i by (simp add: mod_if)
    moreover have "pivot + i - dim < pivot" "pivot + i - dim < dim" using assms i False by linarith+
    ultimately show ?thesis using False by (simp add: qs_indexes_def)
  qed (use i in \<open>simp add: qs_indexes_def\<close>)
  finally show "rotate pivot (qs_indexes dim pivot) ! i = map int [0..<dim] ! i"
    using i by simp
qed (simp add: qs_indexes_def)

lemma zip_upt_eqI:
  assumes "mset (zip (map int [0..<n]) xs) = mset (zip (map int [0..<n]) ys)"
    "length xs = n" "length ys = n"
  shows "xs = ys"
proof (rule nth_equalityI)
  fix i assume i: "i < length xs"
  have "(int i, xs ! i) \<in> set (zip (map int [0..<n]) xs)"
    using i assms by (auto simp: in_set_zip intro!: exI [of _ i])
  then have "(int i, xs ! i) \<in> set (zip (map int [0..<n]) ys)"
    using assms(1) by (metis set_mset_mset)
  then show "xs ! i = ys ! i"
    using assms by (auto simp: in_set_zip)
qed (use assms in simp)

lemma mset_rotate [simp]: "mset (rotate n xs) = mset xs"
  by (metis append_take_drop_id mset_append rotate_drop_take union_commute)

lemma zip_rotate: "length xs = length ys \<Longrightarrow> zip (rotate n xs) (rotate n ys) = rotate n (zip xs ys)"
proof (rule nth_equalityI)
  fix i assume "length xs = length ys" and "i < length (zip (rotate n xs) (rotate n ys))"
  moreover from this have "(n + i) mod length ys < length ys"
    by (cases ys) (auto simp del: length_Cons)
  ultimately show "zip (rotate n xs) (rotate n ys) ! i = rotate n (zip xs ys) ! i"
    by (simp add: nth_rotate)
qed simp

lemma qs_sort_rotate:
  assumes "length a = dim" "pivot \<le> dim"
  shows "fst (qs_sort (a, qs_indexes dim pivot) 0 (int dim - 1)) = rotate pivot a"
proof -
  let ?st = "(a, qs_indexes dim pivot)"
  let ?r = "qs_sort ?st 0 (int dim - 1)"
  have ok: "qs_ok ?st" and len: "length (snd ?st) = dim"
    using assms by (simp_all add: qs_ok_def qs_indexes_def)
  have C: "perm_within 0 (nat (int dim - 1)) ?st ?r" "sorted_within 0 (int dim - 1) ?r"
    using qs_sort_correct [OF ok, of 0 "int dim - 1"] len by auto
  then have okr: "qs_ok ?r" "length (snd ?r) = dim" "mset (qs_pairs ?r) = mset (qs_pairs ?st)"
    using len by (auto simp: perm_within_def)
  have ix: "mset (qs_indexes dim pivot) = mset (map int [0..<dim])"
    using qs_indexes_rotate [OF assms(2)] by (metis mset_rotate)
  have "mset (snd ?r) = mset (map fst (qs_pairs ?r))" "mset (snd ?st) = mset (map fst (qs_pairs ?st))"
    using okr(1) ok by (simp_all add: qs_pairs_def qs_ok_def)
  then have "mset (snd ?r) = mset (map int [0..<dim])"
    using okr(3) ix by (metis mset_map snd_conv)
  moreover have "sorted (snd ?r)"
    using C(2) okr(2) by (auto simp: sorted_iff_nth_mono sorted_within_def)
  moreover have "sorted (map int [0..<dim])"
    by (simp add: sorted_iff_nth_mono)
  ultimately have key: "snd ?r = map int [0..<dim]"
    by (metis properties_for_sort)
  have "mset (zip (map int [0..<dim]) (fst ?r)) = mset (zip (qs_indexes dim pivot) a)"
    using okr(3) key by (simp add: qs_pairs_def)
  also have "\<dots> = mset (rotate pivot (zip (qs_indexes dim pivot) a))"
    by simp
  also have "\<dots> = mset (zip (map int [0..<dim]) (rotate pivot a))"
    using assms qs_indexes_rotate [OF assms(2)]
    by (simp add: zip_rotate [symmetric] qs_indexes_def)
  finally show ?thesis
    by (rule zip_upt_eqI) (use okr assms in \<open>auto simp: qs_ok_def\<close>)
qed

text \<open>
  C23. \<open>quicksort(array, dim, pivot)\<close> rotates the array: the entry at \<open>pivot\<close> comes
  first and the order around the ring is kept. It fails only when its scratch array cannot be
  allocated, and then leaves the array as it was.
\<close>

theorem quicksort_rotates:
  assumes "length a = dim" and "pivot \<le> dim"
  shows "fst (run_state (quicksort a dim pivot) s) = (0, rotate pivot a) \<or>
         (fault s (calls s) \<noteq> Works \<and>
          fst (run_state (quicksort a dim pivot) s) = (- ENOMEM, a))"
  using qs_sort_rotate [OF assms]
  by (cases "fault s (calls s)") (simp_all add: quicksort_def alloc_def)

lemma quicksort_cases:
  assumes "length a = dim" "pivot \<le> dim"
  obtains t where "run_state (quicksort a dim pivot) s = ((0, rotate pivot a), t)" "quiet s t"
  | t where "run_state (quicksort a dim pivot) s = ((- ENOMEM, a), t)" "quiet s t" "\<not> reliable s"
  by (rule alloc_cases [of s]) (auto simp: quicksort_def qs_sort_rotate [OF assms] intro: that)

theorem quicksort_rotates_witness:
  "fst (run_state (quicksort ''cdab'' 4 2)
     (\<lparr>fs = [], props = [], errno = 0, fault = (\<lambda>_. Works), calls = 0,
       clock = (\<lambda>_. 0), fmt_time = (\<lambda>_. []), effects = []\<rparr> :: world)) = (0, ''abcd'')"
  using quicksort_rotates [of "''cdab''" 4 2
    "\<lparr>fs = [], props = [], errno = 0, fault = (\<lambda>_. Works), calls = 0,
      clock = (\<lambda>_. 0), fmt_time = (\<lambda>_. []), effects = []\<rparr> :: world"]
  by (simp add: eval_nat_numeral)

end
