(* ===== verification/Fsutils_Cache.thy ===== *)
theory Fsutils_Cache
  imports Fsutils_Text Ring_Sort Ring
begin

text \<open>
  \<open>cache_file\<close>, \<open>append_file\<close> and \<open>overwrite_file\<close> of crashlog/fsutils.c: how a
  text file becomes an array of lines, and how text goes back to a file. The results hold for
  every pattern of failing calls; \<open>loop_rule\<close> is the proof rule for the loops over
  \<open>readline\<close> they rest on.
\<close>

section \<open>Loops over lines when calls may fail\<close>

lemma readline_loop_cases:
  assumes "run_state (readline_loop rest acc) s = ((res, line, rest'), t)" "length acc \<le> LINEROOM"
  shows "quiet s t" and "res = -1 \<and> \<not> reliable s \<or>
     (case next_line (LINEROOM - length acc) rest of (l, r) \<Rightarrow>
        res = int (length (acc @ l)) \<and> line = acc @ l \<and> rest' = r)"
proof -
  have "quiet s t \<and> (res = -1 \<and> \<not> reliable s \<or>
     (case next_line (LINEROOM - length acc) rest of (l, r) \<Rightarrow>
        res = int (length (acc @ l)) \<and> line = acc @ l \<and> rest' = r))"
    using assms
  proof (induction rest arbitrary: acc s)
    case Nil
    then show ?case
      by (cases "fault s (calls s)") (auto dest: faulty_unreliable)
  next
    case (Cons c cs)
    show ?case
    proof (cases "(\<forall>e. fault s (calls s) \<noteq> Fails e) \<and> length acc < LINEROOM \<and> c \<noteq> NL")
      case True
      let ?s = "s\<lparr>calls := Suc (calls s)\<rparr>"
      obtain n where n: "LINEROOM - length acc = Suc n" "LINEROOM - length (acc @ [c]) = n"
        using True by (cases "LINEROOM - length acc") auto
      have run: "run_state (readline_loop cs (acc @ [c])) ?s = ((res, line, rest'), t)"
        using Cons.prems(1) True by (cases "fault s (calls s)") auto
      have "length (acc @ [c]) \<le> LINEROOM" using True by simp
      note IH = Cons.IH [OF run this]
      then have "quiet s t" using quiet_trans [OF quiet_calls] by blast
      with IH n True show ?thesis by (auto split: prod.splits)
    next
      case False
      then consider (bad) e where "fault s (calls s) = Fails e"
        | (full) "\<forall>e. fault s (calls s) \<noteq> Fails e" "length acc = LINEROOM"
        | (nl) "\<forall>e. fault s (calls s) \<noteq> Fails e" "length acc < LINEROOM" "c = NL"
        using Cons.prems(2) by (metis le_neq_implies_less)
      then show ?thesis
      proof cases
        case bad
        then have "\<not> reliable s" by (rule faulty_unreliable)
        with bad Cons.prems show ?thesis by auto
      next
        case full
        with Cons.prems show ?thesis
          by (cases "fault s (calls s)") auto
      next
        case nl
        then obtain n where "LINEROOM - length acc = Suc n"
          by (cases "LINEROOM - length acc") auto
        with nl Cons.prems show ?thesis
          by (cases "fault s (calls s)") auto
      qed
    qed
  qed
  then show "quiet s t" and "res = -1 \<and> \<not> reliable s \<or>
     (case next_line (LINEROOM - length acc) rest of (l, r) \<Rightarrow>
        res = int (length (acc @ l)) \<and> line = acc @ l \<and> rest' = r)" by auto
qed

lemma readline_cases:
  assumes "run_state (readline rest) s = ((res, line, rest'), t)"
  shows "quiet s t" and "res = -1 \<and> \<not> reliable s \<or>
     res = int (length (fst (next_line LINEROOM rest))) \<and> (line, rest') = next_line LINEROOM rest"
  using readline_loop_cases [of rest "[]" s res line rest' t] assms
  by (auto simp: readline_def split: prod.splits)

text \<open>
  The rule: \<open>I ls b\<close> says what the loop's variables hold after the lines \<open>ls\<close>;
  \<open>Q v b\<close> what holds when the body leaves the loop with \<open>v\<close>, with \<open>R\<close> true when no
  call fails. A loop that ends normally has seen every line, unless a read failed.
\<close>

lemma while_readline_rule:
  assumes body: "\<And>ls l b s b' r t. I ls b \<Longrightarrow> run_state (body l b) s = ((b', r), t) \<Longrightarrow>
      quiet s t \<and> (case r of None \<Rightarrow> I (ls @ [l]) b' | Some v \<Rightarrow> Q (reliable s) v b')"
  shows "I done b \<Longrightarrow> length rest < k \<Longrightarrow>
     run_state (while_readline k rest b body) s = ((b', r), t) \<Longrightarrow>
     quiet s t \<and>
     (case r of
        Inl v \<Rightarrow> Q (reliable s) v b'
      | Inr res \<Rightarrow> \<exists>ls. prefix ls (lines rest) \<and> I (done @ ls) b' \<and>
                    (res = 0 \<and> ls = lines rest \<or> res = -1 \<and> \<not> reliable s))"
proof (induction k arbitrary: "done" rest b s)
  case (Suc k)
  obtain res line rest' u where rl: "run_state (readline rest) s = ((res, line, rest'), u)"
    by (metis prod.exhaust)
  note q = readline_cases(1) [OF rl]
  have ru: "reliable u = reliable s" using quiet_fields(7) [OF q] .
  from readline_cases(2) [OF rl] consider
      (bad) "res = -1" "\<not> reliable s"
    | (eof) "res = 0" "lines rest = []"
    | (line) "0 < res" "lines rest = line # lines rest'" "length rest' < length rest"
  proof (elim disjE conjE)
    assume *: "res = int (length (fst (next_line LINEROOM rest)))"
      "(line, rest') = next_line LINEROOM rest"
    show ?thesis
    proof (cases "line = []")
      case True
      with * have "next_line LINEROOM rest = ([], rest')" by simp
      with * that(2) show ?thesis by (simp add: lines.simps [of rest])
    next
      case False
      with * have "0 < res" by (metis fst_conv length_greater_0_conv of_nat_0_less_iff)
      moreover have "lines rest = line # lines rest'"
        using *(2) [symmetric] False by (simp add: lines.simps [of rest])
      ultimately show ?thesis using that(3) readline_consumes [OF rl] by simp
    qed
  qed blast
  then show ?case
  proof cases
    case bad
    with rl Suc.prems q show ?thesis by (auto intro!: exI [of _ "[]"])
  next
    case eof
    with rl Suc.prems q show ?thesis by auto
  next
    case line
    obtain b1 o1 w where b1: "run_state (body line b) u = ((b1, o1), w)" by (metis prod.exhaust)
    note B = body [OF Suc.prems(1) b1]
    show ?thesis
    proof (cases o1)
      case (Some v)
      with rl line b1 Suc.prems B q ru show ?thesis
        by (auto intro: quiet_trans)
    next
      case None
      with B have I1: "I (done @ [line]) b1" and q1: "quiet u w" by auto
      have run: "run_state (while_readline k rest' b1 body) w = ((b', r), t)"
        using Suc.prems(3) rl line b1 None by simp
      have "length rest' < k" using line Suc.prems by simp
      note IH = Suc.IH [OF I1 this run]
      have q2: "quiet s w" using q q1 by (rule quiet_trans)
      have rw: "reliable w = reliable s" using quiet_fields(7) [OF q2] .
      show ?thesis
      proof (cases r)
        case (Inl v)
        with IH q2 rw show ?thesis by (auto intro: quiet_trans)
      next
        case (Inr e)
        with IH obtain ls where "prefix ls (lines rest')" "I (done @ line # ls) b'"
          "e = 0 \<and> ls = lines rest' \<or> e = -1 \<and> \<not> reliable s" using rw by auto
        with Inr IH q2 line show ?thesis
          by (auto intro: quiet_trans intro!: exI [of _ "line # ls"])
      qed
    qed
  qed
qed simp

lemma loop_rule:
  assumes "run_state (for_lines rest b body) s = ((b', r), t)" and "I [] b"
    and "\<And>ls l b s b' r t. I ls b \<Longrightarrow> run_state (body l b) s = ((b', r), t) \<Longrightarrow>
      quiet s t \<and> (case r of None \<Rightarrow> I (ls @ [l]) b' | Some v \<Rightarrow> Q (reliable s) v b')"
  shows "quiet s t \<and>
     (case r of
        Inl v \<Rightarrow> Q (reliable s) v b'
      | Inr res \<Rightarrow> \<exists>ls. prefix ls (lines rest) \<and> I ls b' \<and>
                    (res = 0 \<and> ls = lines rest \<or> res = -1 \<and> \<not> reliable s))"
proof -
  have "run_state (while_readline (Suc (length rest)) rest b body) s = ((b', r), t)"
    using assms(1) by (simp only: for_lines_def)
  then have "quiet s t \<and> (case r of Inl v \<Rightarrow> Q (reliable s) v b'
      | Inr res \<Rightarrow> \<exists>ls. prefix ls (lines rest) \<and> I ([] @ ls) b' \<and>
                    (res = 0 \<and> ls = lines rest \<or> res = -1 \<and> \<not> reliable s))"
    by (rule while_readline_rule [rotated -1]) (use assms(2,3) in auto)
  then show ?thesis by (cases r) simp_all
qed

section \<open>The code\<close>

definition CACHE_TAIL :: int where "CACHE_TAIL = 0"
definition CACHE_START :: int where "CACHE_START = 1"

text \<open>Both the initialisation and the cleanup null every slot the caller offered.\<close>

definition null_slots :: "nat \<Rightarrow> string option list \<Rightarrow> string option list" where
  "null_slots n records = replicate n None @ drop n records"

text \<open>
  The loop of \<open>CACHE_START\<close>: \<open>n\<close> turns are left, \<open>index\<close> and \<open>line_idx\<close> are
  the source's. The code and the array come back.
\<close>

fun cache_start :: "nat \<Rightarrow> nat \<Rightarrow> nat \<Rightarrow> nat \<Rightarrow> nat \<Rightarrow> string \<Rightarrow> string option list \<Rightarrow>
    ('w, int \<times> string option list) op" where
  "cache_start 0 index line_idx maxrecords offset rest records = ret (int index, records)"
| "cache_start (Suc n) index line_idx maxrecords offset rest records = do {
     (res, curline, rest') \<leftarrow> readline rest;
     if res < 0 then ret (res, null_slots maxrecords records)
     else if offset \<le> line_idx then
       (if res = 0 then ret (int (index - offset), records)
        else do {
          ok \<leftarrow> alloc;
          if \<not> ok then do { e \<leftarrow> gets errno; ret (- e, null_slots maxrecords records) }
          else cache_start n (Suc index) (Suc line_idx) maxrecords offset rest'
                 (records[index - offset := Some (cstr curline)]) })
     else cache_start n (Suc index) (Suc line_idx) maxrecords offset rest' records }"

text \<open>One turn of \<open>CACHE_TAIL\<close>; the variables are records, curindex, count (\<open>cnt\<close>), line\_idx.\<close>

type_synonym tail_vars = "string option list \<times> nat \<times> nat \<times> nat"

definition cache_tail_body :: "nat \<Rightarrow> nat \<Rightarrow> string \<Rightarrow> tail_vars \<Rightarrow> ('w, tail_vars \<times> int option) op" where
  "cache_tail_body maxrecords offset curline v =
     (case v of (records, curindex, cnt, line_idx) \<Rightarrow>
        if offset \<le> line_idx then do {
          ok \<leftarrow> alloc;
          if \<not> ok then do {
            e \<leftarrow> gets errno;
            ret ((records[curindex := None], curindex, cnt, line_idx), Some (- e)) }
          else ret ((records[curindex := Some (cstr curline)], (curindex + 1) mod maxrecords,
                     (if cnt < maxrecords then cnt + 1 else cnt), line_idx + 1), None) }
        else ret ((records, curindex, cnt, line_idx + 1), None))"

definition cache_tail :: "nat \<Rightarrow> nat \<Rightarrow> string \<Rightarrow> string option list \<Rightarrow>
    ('w, int \<times> string option list) op" where
  "cache_tail maxrecords offset d records0 = do {
     ((records, curindex, cnt, line_idx), r) \<leftarrow>
        for_lines d (records0, 0, 0, 0) (cache_tail_body maxrecords offset);
     (case r of
        Inl v \<Rightarrow> ret (v, null_slots maxrecords records)
      | Inr res \<Rightarrow>
          if res < 0 then ret (res, null_slots maxrecords records)
          else if cnt = maxrecords \<and> curindex \<noteq> 0 then do {
            (q, sorted_recs) \<leftarrow> quicksort (take cnt records) cnt curindex;
            if q < 0 then ret (q, null_slots maxrecords records)
            else ret (int cnt, sorted_recs @ drop cnt records) }
          else ret (int cnt, records)) }"

definition cache_file :: "string option \<Rightarrow> string option list option \<Rightarrow> nat \<Rightarrow> int \<Rightarrow> int \<Rightarrow>
    ('w, int \<times> string option list) op" where
  "cache_file filename records maxrecords cachemode offset =
     (let rs = (case records of None \<Rightarrow> [] | Some r \<Rightarrow> r) in
      if cachemode \<noteq> CACHE_START \<and> cachemode \<noteq> CACHE_TAIL then ret (- EINVAL, rs)
      else (case (filename, records) of
        (Some f, Some _) \<Rightarrow>
          if offset < 0 \<or> (int maxrecords \<le> offset \<and> cachemode = CACHE_START) then ret (- EINVAL, rs)
          else if maxrecords = 0 then ret (0, rs)
          else do {
            fd \<leftarrow> open_read f;
            (case fd of
               None \<Rightarrow> do { e \<leftarrow> gets errno; ret (- e, rs) }
             | Some d \<Rightarrow>
                 if cachemode = CACHE_START
                 then cache_start maxrecords 0 0 maxrecords (nat offset) d (null_slots maxrecords rs)
                 else cache_tail maxrecords (nat offset) d (null_slots maxrecords rs)) }
      | _ \<Rightarrow> ret (- EINVAL, rs)))"

definition append_file :: "string option \<Rightarrow> string option \<Rightarrow> ('w, int) op" where
  "append_file filename text =
     (case (filename, text) of
        (Some f, Some t) \<Rightarrow>
          if length t = 0 then ret 0
          else do {
            ok \<leftarrow> open_update f;
            if \<not> ok then do { e \<leftarrow> gets errno; ret (- e) }
            else do {
              res \<leftarrow> write_end f t;
              if res = -1 then do { e \<leftarrow> gets errno; ret (- e) } else ret res } }
      | _ \<Rightarrow> ret (- EINVAL))"

text \<open>
  \<open>overwrite_file\<close>: \<open>fprintf\<close> fills the stream's buffer and returns the number of
  characters, which is 0 (and counts as an error) for an empty string; the buffer reaches the
  file in \<open>fclose\<close>, whose result is not looked at.
\<close>

definition overwrite_file :: "string option \<Rightarrow> string option \<Rightarrow> ('w, int) op" where
  "overwrite_file filename v =
     (case (filename, v) of
        (Some f, Some t) \<Rightarrow> do {
            ok \<leftarrow> open_trunc f;
            if \<not> ok then do { e \<leftarrow> gets errno; ret (- e) }
            else do {
              r \<leftarrow> (if length t = 0 then gets (\<lambda>s. - errno s) else ret 0);
              _ \<leftarrow> write_end f t;
              ret r } }
      | _ \<Rightarrow> ret (- EINVAL))"

section \<open>What cache\_file computes\<close>

text \<open>The lines \<open>cache_file\<close> is asked for, as \<open>strdup\<close> copies them.\<close>

definition wanted :: "nat \<Rightarrow> string \<Rightarrow> string list" where
  "wanted offset d = drop offset (map cstr (lines d))"

definition tail_inv :: "nat \<Rightarrow> nat \<Rightarrow> string option list \<Rightarrow> string list \<Rightarrow> tail_vars \<Rightarrow> bool" where
  "tail_inv m offset rs ls v =
     (case v of (records, curindex, cnt, line_idx) \<Rightarrow>
        line_idx = length ls \<and> cnt = min m (length ls - offset) \<and>
        length (take m records) = m \<and> drop m records = drop m rs \<and>
        (take m records, curindex) = fold ring_push (drop offset (map cstr ls)) (ring_empty m))"

lemma cache_tail_body_inv:
  assumes "tail_inv m offset rs ls v" "0 < m" "run_state (cache_tail_body m offset l v) s = ((v', r), t)"
  shows "quiet s t \<and> (case r of None \<Rightarrow> tail_inv m offset rs (ls @ [l]) v'
           | Some e \<Rightarrow> \<not> reliable s \<and> e = - ENOMEM \<and>
               drop m (fst v') = drop m rs \<and> length (take m (fst v')) = m)"
proof -
  obtain recs cur c li where v: "v = (recs, cur, c, li)" by (metis prod.exhaust)
  let ?f = "fold ring_push (drop offset (map cstr ls)) (ring_empty m)"
  have I: "li = length ls" "c = min m (length ls - offset)" "m \<le> length recs"
    "drop m recs = drop m rs" "?f = (take m recs, cur)"
    using assms(1) v by (auto simp: tail_inv_def)
  have cur: "cur < m"
    using ring_fold_index [of "ring_empty m" "drop offset (map cstr ls)"] I(5) assms(2)
    by (simp add: ring_empty_def)
  show ?thesis
  proof (cases "offset \<le> li")
    case False
    with assms(3) v I show ?thesis
      by (auto simp: cache_tail_body_def tail_inv_def)
  next
    case True
    consider (ok) u where "run_state alloc s = (True, u)" "quiet s u"
      | (no) u where "run_state alloc s = (False, u)" "quiet s u" "errno u = ENOMEM" "\<not> reliable s"
      by (rule alloc_cases) auto
    then show ?thesis
    proof cases
      case ok
      have "(take m (recs[cur := Some (cstr l)]), (cur + 1) mod m) =
          ring_push (cstr l) (take m recs, cur)"
        using I cur by (simp add: ring_push_def take_update_swap)
      with ok assms(2,3) v I True cur show ?thesis
        by (auto simp: cache_tail_body_def tail_inv_def)
    next
      case no
      with assms(3) v I True cur show ?thesis
        by (auto simp: cache_tail_body_def)
    qed
  qed
qed

text \<open>A ring filled from empty, straightened: its entries first, then the empty slots.\<close>

lemma filled_ring:
  assumes "0 < m" "(rs, cur) = fold ring_push ws (ring_empty m)"
  shows "length rs = m" "cur = length ws mod m"
    and "m \<le> length ws \<Longrightarrow> rotate cur rs = map Some (lastn m ws)"
    and "length ws \<le> m \<Longrightarrow> rs = map Some ws @ replicate (m - length ws) None"
proof -
  let ?r = "fold ring_push ws (ring_empty m)"
  have inv: "ring_inv m ?r"
    using slots.inv_fold_push ring_empty_correct(1) [OF assms(1)] by blast
  have items: "ring_items ?r = lastn m ws"
    using slots.items_fold_push [OF ring_empty_correct(1) [OF assms(1)]]
    by (simp add: ring_empty_correct(2))
  have r: "fst ?r = rs" "snd ?r = cur" using assms(2) by (metis fst_conv, metis snd_conv)
  show "length rs = m" using inv r by (simp add: ring_inv_def)
  show cur: "cur = length ws mod m"
    using ring_fold_index [of "ring_empty m" ws] assms(1) r by (simp add: ring_empty_def)
  show full: "rotate cur rs = map Some (lastn m ws)" if "m \<le> length ws"
    using ring_full_rotate [OF inv] items r that by simp
  show "rs = map Some ws @ replicate (m - length ws) None" if "length ws \<le> m"
  proof (cases "length ws = m")
    case True
    with full cur show ?thesis by simp
  next
    case False
    with that cur have "cur = length ws" by simp
    with ring_partial_slots [OF inv] items r that show ?thesis by simp
  qed
qed

lemma cache_tail_result:
  assumes "0 < m" "take m rs = replicate m None" "run_state (cache_tail m offset d rs) s = ((res, recs), t)"
  defines "ws \<equiv> wanted offset d"
  shows "quiet s t \<and>
    (res = int (min m (length ws)) \<and>
       recs = map Some (lastn m ws) @ replicate (m - length ws) None @ drop m rs \<or>
     \<not> reliable s \<and> res < 0 \<and> recs = replicate m None @ drop m rs)"
proof -
  obtain records curindex cnt li r u where
    loop: "run_state (for_lines d (rs, 0, 0, 0) (cache_tail_body m offset)) s =
      (((records, curindex, cnt, li), r), u)"
    by (metis prod.exhaust)
  have init: "tail_inv m offset rs [] (rs, 0, 0, 0)"
    using assms(2) by (auto simp: tail_inv_def ring_empty_def) (metis length_replicate length_take)
  let ?Q = "\<lambda>rel v b. \<not> rel \<and> v = - ENOMEM \<and> drop m (fst b) = drop m rs \<and> length (take m (fst b)) = m"
  have L: "quiet s u \<and> (case r of Inl v \<Rightarrow> ?Q (reliable s) v (records, curindex, cnt, li)
     | Inr e \<Rightarrow> \<exists>ls. prefix ls (lines d) \<and> tail_inv m offset rs ls (records, curindex, cnt, li) \<and>
                (e = 0 \<and> ls = lines d \<or> e = -1 \<and> \<not> reliable s))"
    by (rule loop_rule [OF loop, of "tail_inv m offset rs" ?Q, OF init])
       (rule cache_tail_body_inv [OF _ assms(1)])
  show ?thesis
  proof (cases r)
    case (Inl v)
    with L loop assms(3) show ?thesis
      by (auto simp: cache_tail_def null_slots_def errno_defs)
  next
    case (Inr e)
    with L obtain ls where ls: "tail_inv m offset rs ls (records, curindex, cnt, li)"
      "e = 0 \<and> ls = lines d \<or> e = -1 \<and> \<not> reliable s" by auto
    show ?thesis
    proof (cases "e < 0")
      case True
      with Inr L ls loop assms(3) show ?thesis
        by (auto simp: cache_tail_def null_slots_def tail_inv_def)
    next
      case False
      with ls have "ls = lines d" by simp
      with ls(1) have I: "cnt = min m (length ws)" "drop m records = drop m rs"
        "(take m records, curindex) = fold ring_push ws (ring_empty m)"
        by (auto simp: tail_inv_def ws_def wanted_def drop_map)
      note F = filled_ring [OF assms(1) I(3)]
      have records: "records = take m records @ drop m rs" using I(2) by (metis append_take_drop_id)
      show ?thesis
      proof (cases "cnt = m \<and> curindex \<noteq> 0")
        case True
        with I(1) have full: "m \<le> length ws" by simp
        have len: "length (take m records) = m" "curindex \<le> m" using F(1,2) assms(1) by simp_all
        consider (ok) w where "run_state (quicksort (take m records) m curindex) u =
            ((0, rotate curindex (take m records)), w)" "quiet u w"
          | (no) w q where "run_state (quicksort (take m records) m curindex) u = ((- ENOMEM, q), w)"
              "quiet u w" "\<not> reliable u"
          by (rule quicksort_cases [OF len]) blast+
        then show ?thesis
        proof cases
          case ok
          with True False Inr L loop assms(3) I(1,2) F(3) [OF full] full show ?thesis
            by (auto simp: cache_tail_def intro: quiet_trans)
        next
          case no
          with True False Inr L loop assms(3) I(2) quiet_fields(7) [of s u] show ?thesis
            by (auto simp: cache_tail_def null_slots_def errno_defs intro: quiet_trans)
        qed
      next
        case noq: False
        have "take m records = map Some (lastn m ws) @ replicate (m - length ws) None"
        proof (cases "length ws \<le> m")
          case True
          with F(4) show ?thesis by simp
        next
          case gt: False
          with I(1) noq have "curindex = 0" by simp
          with F(3) gt show ?thesis by simp
        qed
        moreover have "res = int cnt \<and> recs = records \<and> t = u"
          using noq False Inr loop assms(3) by (simp add: cache_tail_def split: if_splits)
        ultimately show ?thesis using L I(1) records by (metis append.assoc)
      qed
    qed
  qed
qed

lemma cache_file_tail_cases:
  assumes "0 < m" and "m \<le> length rs" and "sane_faults s"
    and "run_state (cache_file (Some f) (Some rs) m CACHE_TAIL (int offset)) s = ((res, recs), t)"
  shows "quiet s t \<and> ((\<exists>d. node_at s f = Some (File d) \<and>
            res = int (min m (length (wanted offset d))) \<and>
            recs = map Some (lastn m (wanted offset d)) @
                   replicate (m - length (wanted offset d)) None @ drop m rs) \<or>
         res < 0 \<and> (recs = rs \<or> recs = replicate m None @ drop m rs) \<and>
         \<not> (reliable s \<and> (\<exists>d. node_at s f = Some (File d))))"
proof -
  have modes: "CACHE_TAIL \<noteq> CACHE_START" by (simp add: CACHE_TAIL_def CACHE_START_def)
  show ?thesis
  proof (rule open_read_cases [of f s])
    fix d u assume o: "run_state (open_read f) s = (Some d, u)" "quiet s u" "node_at s f = Some (File d)"
    then have "run_state (cache_tail m offset d (null_slots m rs)) u = ((res, recs), t)"
      using assms(1,4) modes by (simp add: cache_file_def)
    moreover have "take m (null_slots m rs) = replicate m None" "drop m (null_slots m rs) = drop m rs"
      by (simp_all add: null_slots_def)
    ultimately show ?thesis
      using cache_tail_result [OF assms(1), of "null_slots m rs" offset d u res recs t]
        o quiet_fields(7) [OF o(2)] quiet_trans [OF o(2), of t] by auto
  next
    fix u assume o: "run_state (open_read f) s = (None, u)" "quiet s u"
      "sane_faults s \<Longrightarrow> 0 < errno u" "reliable s \<Longrightarrow> \<forall>d. node_at s f \<noteq> Some (File d)"
    then show ?thesis
      using assms modes by (auto simp: cache_file_def)
  qed
qed



section \<open>The first lines of a file\<close>

text \<open>The array after \<open>i\<close> turns: what was stored, then the null slots.\<close>

definition slots_of :: "nat \<Rightarrow> string list \<Rightarrow> string option list \<Rightarrow> string option list" where
  "slots_of m ws tl_rs = map Some ws @ replicate (m - length ws) None @ tl_rs"

lemma slots_of_store:
  "length ws < m \<Longrightarrow> (slots_of m ws D)[length ws := Some x] = slots_of m (ws @ [x]) D"
proof -
  assume "length ws < m"
  then obtain k where "m - length ws = Suc k" "m - Suc (length ws) = k"
    by (metis Suc_diff_Suc)
  then show ?thesis by (simp add: slots_of_def list_update_append)
qed

lemma cache_start_reliable:
  "reliable s \<Longrightarrow> m = i + n \<Longrightarrow> offset < m \<Longrightarrow> length ws = i - offset \<Longrightarrow>
   \<exists>t. run_state (cache_start n i i m offset rest (slots_of m ws D)) s =
     ((int (if n \<le> length (lines rest) then m else i + length (lines rest) - offset),
       slots_of m (ws @ drop (offset - i) (map cstr (take n (lines rest)))) D), t)"
proof (induction n arbitrary: i rest ws s)
  case 0
  then show ?case by simp
next
  case (Suc n)
  obtain c where rl: "run_state (readline rest) s =
     ((int (length (fst (next_line LINEROOM rest))), fst (next_line LINEROOM rest),
       snd (next_line LINEROOM rest)), s\<lparr>calls := c\<rparr>)"
    using readline_reliable [OF Suc.prems(1)] by blast
  obtain l r where lr: "next_line LINEROOM rest = (l, r)" by fastforce
  have ls: "lines rest = (if l = [] then [] else l # lines r)"
    using lr by (simp add: lines.simps [of rest])
  have rnil: "lines r = []" if "l = []"
  proof -
    obtain k where "LINEROOM = Suc k" by (cases LINEROOM) (simp_all add: privconst)
    then have "rest = []" using that lr next_line.simps(3) [of k]
      by (cases rest) (auto split: if_splits prod.splits)
    with that lr show ?thesis by simp
  qed
  show ?case
  proof (cases "offset \<le> i")
    case True
    have "run_state alloc (s\<lparr>calls := c\<rparr>) = (True, s\<lparr>calls := Suc c\<rparr>)"
      using Suc.prems(1) by (simp add: alloc_def)
    moreover have "(slots_of m ws D)[i - offset := Some (cstr l)] = slots_of m (ws @ [cstr l]) D"
      using slots_of_store [of ws m D "cstr l"] Suc.prems by simp
    ultimately show ?thesis
      using True rl lr ls Suc.prems Suc.IH [of "s\<lparr>calls := Suc c\<rparr>" "Suc i" "ws @ [cstr l]" r]
      by (auto simp: Suc_diff_le)
  next
    case False
    with rl lr ls rnil Suc.prems Suc.IH [of "s\<lparr>calls := c\<rparr>" "Suc i" ws r] show ?thesis
      by (cases "l = []") (auto simp: Suc_diff_Suc drop_Cons')
  qed
qed

text \<open>
  \<open>cache_file\<close> in mode \<open>CACHE_START\<close> when no call fails: the array holds the lines
  number \<open>offset\<close> to \<open>maxrecords - 1\<close> of the file. The value returned is their number only
  when the file has fewer than \<open>maxrecords\<close> lines; on a longer file it is \<open>maxrecords\<close>, which
  is \<open>offset\<close> too many.
\<close>

theorem cache_file_start:
  assumes "reliable s" and "node_at s f = Some (File d)" and "offset < m"
  shows "fst (run_state (cache_file (Some f) (Some rs) m CACHE_START (int offset)) s) =
    (int (if m \<le> length (lines d) then m else length (lines d) - offset),
     map Some (take (m - offset) (wanted offset d)) @
     replicate (m - length (take (m - offset) (wanted offset d))) None @ drop m rs)"
proof -
  let ?u = "s\<lparr>calls := Suc (calls s)\<rparr>"
  obtain t where "run_state (cache_start m 0 0 m offset d (slots_of m [] (drop m rs))) ?u =
     ((int (if m \<le> length (lines d) then m else length (lines d) - offset),
       slots_of m (drop offset (map cstr (take m (lines d)))) (drop m rs)), t)"
    using cache_start_reliable [of ?u m 0 m offset "[]" d "drop m rs"] assms by auto
  moreover have "drop offset (map cstr (take m (lines d))) = take (m - offset) (wanted offset d)"
    by (simp add: wanted_def drop_take take_map drop_map)
  moreover have "slots_of m [] (drop m rs) = null_slots m rs"
    by (simp add: slots_of_def null_slots_def)
  ultimately show ?thesis
    using assms open_read_File [OF assms(1,2)]
    by (simp add: cache_file_def slots_of_def)
qed

theorem cache_file_start_witness:
  "fst (run_state (cache_file (Some ''/f'') (Some [None, None]) 2 CACHE_START 1)
     (calm [([''f''], File (concat [[CHR ''a'', NL], [CHR ''b'', NL], [CHR ''c'', NL]]))])) =
     (2, [Some [CHR ''b'', NL], None])"
proof -
  let ?ls = "[[CHR ''a'', NL], [CHR ''b'', NL], [CHR ''c'', NL]]"
  let ?s = "calm [([''f''], File (concat ?ls))]"
  have l: "lines (concat ?ls @ []) = ?ls @ lines []"
    by (rule lines_concat) (simp add: wf_line_def privconst)
  then have w: "wanted 1 (concat ?ls) = tl ?ls" by (simp add: wanted_def cstr_def)
  have "node_at ?s ''/f'' = Some (File (concat ?ls))" by (simp add: comps_def)
  from cache_file_start [OF reliable_calm this, of 1 2 "[None, None]"] show ?thesis
    using l w by simp
qed

section \<open>append\_file\<close>

text \<open>What \<open>append_file\<close> does for every fault: the file grows by a prefix of the text.\<close>

lemma append_file_cases:
  assumes "t \<noteq> []"
  obtains d k u where "run_state (append_file (Some f) (Some t)) s = (int (length (take k t)), u)"
      "node_at s f = Some (File d)" "\<exists>v. quiet s v \<and> u = put f (File (d @ take k t)) v"
      "reliable s \<Longrightarrow> take k t = t"
  | u e where "run_state (append_file (Some f) (Some t)) s = (- e, u)" "quiet s u"
      "sane_faults s \<Longrightarrow> 0 < e" "reliable s \<Longrightarrow> \<forall>d. node_at s f \<noteq> Some (File d)"
proof (rule open_read_cases [of f s])
  fix d v assume o: "run_state (open_read f) s = (Some d, v)" "quiet s v" "node_at s f = Some (File d)"
  have c: "content v f = d" using o quiet_fields(10) [OF o(2), of f] by (simp add: content_def)
  have q: "quiet s (v\<lparr>calls := Suc (calls v)\<rparr>)" using o(2) quiet_calls by (rule quiet_trans)
  show thesis
  proof (cases "fault v (calls v)")
    case Works
    show ?thesis
      by (rule that(1) [of "length t" _ d])
         (use Works o c assms in \<open>auto simp: append_file_def open_update_def write_end_def write_at_def
            intro!: exI [of _ "v\<lparr>calls := Suc (calls v)\<rparr>"] q\<close>)
  next
    case (Fails e)
    then have "\<not> reliable s" using quiet_fields(7) [OF o(2)] faulty_unreliable(1) by blast
    moreover have "sane_faults s \<Longrightarrow> 0 < e"
      using Fails quiet_fields(8) [OF o(2)] by (auto simp: sane_faults_def)
    ultimately show ?thesis
      by (intro that(2) [of e "v\<lparr>calls := Suc (calls v), errno := e\<rparr>"])
         (use Fails o c assms in \<open>auto simp: append_file_def open_update_def write_end_def write_at_def
            intro: quiet_trans\<close>)
  next
    case (Short k)
    then have "\<not> reliable s" using quiet_fields(7) [OF o(2)] faulty_unreliable(2) by blast
    then show ?thesis
      by (intro that(1) [of k _ d])
         (use Short o c assms in \<open>auto simp: append_file_def open_update_def write_end_def write_at_def
            Let_def intro!: exI [of _ "v\<lparr>calls := Suc (calls v)\<rparr>"] q\<close>)
  qed
next
  fix v assume "run_state (open_read f) s = (None, v)" "quiet s v"
    "sane_faults s \<Longrightarrow> 0 < errno v" "reliable s \<Longrightarrow> \<forall>d. node_at s f \<noteq> Some (File d)"
  then show thesis
    by (intro that(2)) (use assms in \<open>auto simp: append_file_def open_update_def\<close>)
qed

end
