(* ===== verification/Fsutils_Perm.thy ===== *)
theory Fsutils_Perm
  imports Fsutils_Text
begin

text \<open>
  The parts of crashlog/fsutils.c that work on directory entries: permissions and owners,
  removal of a tree, moving and finding files, small binary and one-word files. The main
  result is that \<open>rmfr\<close> removes exactly the subtree it is given.
\<close>

section \<open>Permissions and owners\<close>

text \<open>\<open>get_mode\<close>: an octal string as a 32-bit \<open>mode_t\<close>; any other character gives -1.\<close>

fun get_mode_loop :: "32 word \<Rightarrow> string \<Rightarrow> 32 word" where
  "get_mode_loop mode [] = mode"
| "get_mode_loop mode (c # s) =
     (if 48 \<le> (of_char c :: nat) \<and> (of_char c :: nat) \<le> 55
      then get_mode_loop (or (push_bit 3 mode) (of_nat (of_char c - 48))) s
      else -1)"

definition get_mode :: "string \<Rightarrow> 32 word" where
  "get_mode s = get_mode_loop 0 s"

definition do_chmod :: "string \<Rightarrow> string \<Rightarrow> ('w, int) op" where
  "do_chmod path mode = do {
     ok \<leftarrow> sys_chattr path;
     if \<not> ok then gets errno else ret 0 }"

definition crashlogd_ids :: "(string \<times> int) list" where
  "crashlogd_ids = [(''root'', 0), (''system'', 1000), (''log'', 1007)]"

text \<open>The id and the error code stored through \<open>res\<close>.\<close>

definition android_name_to_id :: "string \<Rightarrow> int \<times> int" where
  "android_name_to_id name =
     (case map_of crashlogd_ids name of
        Some aid \<Rightarrow> (aid, 0)
      | None \<Rightarrow> (2 ^ 32 - 1, EINVAL))"

text \<open>
  \<open>strtoul(s, 0, 0)\<close> for the strings that do not start with a letter: decimal text; the
  octal and hexadecimal prefixes are never used by the callers and are left out.
\<close>

definition decode_uid :: "string option \<Rightarrow> int \<times> int" where
  "decode_uid s =
     (case s of
        None \<Rightarrow> (-1, - EINVAL)
      | Some [] \<Rightarrow> (-1, - EINVAL)
      | Some (c # cs) \<Rightarrow>
          if isalpha c then android_name_to_id (c # cs)
          else (to_uint32 (strtol10 (c # cs)), 0))"

definition PERM_USER :: string where "PERM_USER = ''system''"
definition PERM_GROUP :: string where "PERM_GROUP = ''log''"
definition SDCARD_CRASH_DIR :: string where "SDCARD_CRASH_DIR = ''/mnt/sdcard/logs/crashlog''"

definition do_chown :: "string option \<Rightarrow> string option \<Rightarrow> string option \<Rightarrow> ('w, int) op" where
  "do_chown file uid gid =
     (case file of
        None \<Rightarrow> ret (- ENOENT)
      | Some f \<Rightarrow>
          if contains f SDCARD_CRASH_DIR then ret 0
          else if snd (decode_uid uid) \<noteq> 0 then ret (snd (decode_uid uid))
          else if snd (decode_uid gid) \<noteq> 0 then ret (snd (decode_uid gid))
          else do {
            ok \<leftarrow> sys_chattr f;
            if \<not> ok then do { e \<leftarrow> gets errno; ret (- e) } else ret 0 })"

abbreviation chown_log :: "string \<Rightarrow> ('w, int) op" where
  "chown_log f \<equiv> do_chown (Some f) (Some PERM_USER) (Some PERM_GROUP)"

lemma sys_chattr_quiet:
  assumes "run_state (sys_chattr p) s = (r, t)"
  shows "quiet s t"
  using assms by (cases "fault s (calls s)"; cases "node_at s p") (auto simp: sys_chattr_def)

lemma do_chmod_quiet: "run_state (do_chmod p m) s = (r, t) \<Longrightarrow> quiet s t"
  by (auto simp: do_chmod_def split: prod.splits if_splits dest: sys_chattr_quiet)

lemma do_chown_quiet: "run_state (do_chown f u g) s = (r, t) \<Longrightarrow> quiet s t"
  by (auto simp: do_chown_def split: option.splits prod.splits if_splits dest: sys_chattr_quiet)

section \<open>Removing trees\<close>

text \<open>
  The loop of \<open>rmfr_specific\<close> over the entries \<open>readdir\<close> returns, each with whether it is
  a regular file. The source calls \<open>unlink\<close> on the directory itself, not on the entry, and
  relies on the \<open>EISDIR\<close> this gives to recurse; \<open>rec\<close> is the recursive call.
\<close>

fun rm_loop :: "(string \<Rightarrow> ('w, int) op) \<Rightarrow> string \<Rightarrow> bool \<Rightarrow> (string \<times> bool) list \<Rightarrow> ('w, int) op" where
  "rm_loop rec path remove_subdirs [] = ret 0"
| "rm_loop rec path remove_subdirs ((d_name, is_file) # es) =
     (if is_file \<or> remove_subdirs then do {
        ok \<leftarrow> sys_unlink path;
        if ok then rm_loop rec path remove_subdirs es
        else do {
          e \<leftarrow> gets errno;
          subres \<leftarrow> (if e = EISDIR then rec (snprintf PATHMAX (path @ ''/'' @ d_name)) else ret 0);
          if subres \<noteq> 0 then ret (-1) else rm_loop rec path remove_subdirs es } }
      else rm_loop rec path remove_subdirs es)"

definition is_file_at :: "tree \<Rightarrow> string list \<Rightarrow> bool" where
  "is_file_at t k \<longleftrightarrow> (case map_of t k of Some (File _) \<Rightarrow> True | _ \<Rightarrow> False)"

primrec rmfr_specific :: "nat \<Rightarrow> string \<Rightarrow> bool \<Rightarrow> bool \<Rightarrow> ('w, int) op" where
  "rmfr_specific 0 path remove_entry remove_subdirs = ret (-1)"
| "rmfr_specific (Suc n) path remove_entry remove_subdirs = do {
     set_errno 0;
     gone \<leftarrow> sys_unlink path;
     if gone then ret 0
     else do {
       e \<leftarrow> gets errno;
       if e \<noteq> EISDIR \<and> e \<noteq> ENOENT then ret (-1)
       else do {
         d \<leftarrow> sys_opendir path;
         (case d of
            None \<Rightarrow> ret (-1)
          | Some names \<Rightarrow> do {
              es \<leftarrow> gets (\<lambda>s. map (\<lambda>x. (x, is_file_at (fs s) (comps path @ [x]))) names);
              r \<leftarrow> rm_loop (\<lambda>p. rmfr_specific n p True True) path (remove_entry \<or> remove_subdirs) es;
              if r \<noteq> 0 then ret (-1)
              else if remove_entry then do {
                ok \<leftarrow> sys_rmdir path;
                ret (if ok then 0 else -1) }
              else ret 0 }) } } }"

text \<open>The recursion descends the tree, so one more level than the tree has is enough fuel.\<close>

definition height :: "tree \<Rightarrow> nat" where
  "height t = Max (set (map (\<lambda>(k, _). length k) t) \<union> {0})"

definition rmfr :: "string \<Rightarrow> ('w, int) op" where
  "rmfr path = do {
     n \<leftarrow> gets (\<lambda>s. Suc (height (fs s)));
     rmfr_specific n path True True }"

fun rmfr_all :: "string \<Rightarrow> string list \<Rightarrow> ('w, unit) op" where
  "rmfr_all path [] = ret ()"
| "rmfr_all path (n # ns) = do {
     _ \<leftarrow> rmfr (snprintf PATHMAX (path @ ''/'' @ n));
     rmfr_all path ns }"

text \<open>\<open>rmfr_match\<close>: every entry of the directory whose name contains the last part of the path.\<close>

definition rmfr_match :: "string option \<Rightarrow> ('w, int) op" where
  "rmfr_match match =
     (case match of
        None \<Rightarrow> ret (- EINVAL)
      | Some m \<Rightarrow>
          (case strrchr m (CHR ''/'') of
             None \<Rightarrow> ret (- EINVAL)
           | Some filename \<Rightarrow> do {
               ok \<leftarrow> alloc;
               if \<not> ok then ret (- EFAULT)
               else do {
                 let path = take (length m - length filename) m;
                 d \<leftarrow> sys_opendir path;
                 (case d of
                    None \<Rightarrow> do { e \<leftarrow> gets errno; ret (- e) }
                  | Some names \<Rightarrow> do {
                      rmfr_all path (rev (filter (\<lambda>n. contains n (tl filename)) names));
                      ret 0 }) } }))"

text \<open>\<open>reset_log_data\<close>; \<open>matches\<close> is \<open>regexec\<close> of the rule, None when it does not compile.\<close>

definition reset_log_data :: "(string \<Rightarrow> (string \<Rightarrow> bool) option) \<Rightarrow> string option \<Rightarrow> string option \<Rightarrow>
    ('w, unit) op" where
  "reset_log_data matches path rule =
     (case (path, rule) of
        (Some p, Some r) \<Rightarrow>
          (case matches r of
             None \<Rightarrow> ret ()
           | Some m \<Rightarrow> do {
               d \<leftarrow> sys_opendir p;
               (case d of None \<Rightarrow> ret () | Some names \<Rightarrow> rmfr_all p (filter m names)) })
      | _ \<Rightarrow> ret ())"

section \<open>rmfr removes exactly the subtree\<close>

text \<open>
  A tree as a file system keeps it: one node per path, parents are directories, names are
  not empty and hold no slash.
\<close>

definition wf_tree :: "tree \<Rightarrow> bool" where
  "wf_tree t \<longleftrightarrow> distinct (map fst t) \<and>
     (\<forall>k \<in> fst ` set t. k \<noteq> [] \<and> is_dir t (butlast k) \<and> (\<forall>n \<in> set k. n \<noteq> [] \<and> CHR ''/'' \<notin> set n))"

definition without :: "string list \<Rightarrow> tree \<Rightarrow> tree" where
  "without k t = filter (\<lambda>e. \<not> prefix k (fst e)) t"

lemma map_of_filter_key: "map_of (filter (\<lambda>e. P (fst e)) t) k = (if P k then map_of t k else None)"
  by (induction t) auto

lemma map_of_without [simp]: "map_of (without k t) j = (if prefix k j then None else map_of t j)"
  using map_of_filter_key [of "\<lambda>j. \<not> prefix k j" t j] by (simp add: without_def)

lemma keys_without: "j \<in> fst ` set (without k t) \<longleftrightarrow> j \<in> fst ` set t \<and> \<not> prefix k j"
  by (auto simp: without_def)

lemma delete_filter: "AList.delete k t = filter (\<lambda>e. fst e \<noteq> k) t"
  unfolding AList.delete_eq by (rule filter_cong) auto

lemma wf_tree_parent:
  assumes "wf_tree t" "j \<in> fst ` set t" "strict_prefix k j" "k \<noteq> []"
  shows "map_of t k = Some Dir"
  using assms(2,3)
proof (induction j rule: rev_induct)
  case (snoc x j)
  from assms(1) snoc.prems(1) have "is_dir t (butlast (j @ [x]))"
    unfolding wf_tree_def by blast
  then have d: "j = [] \<or> map_of t j = Some Dir" by (simp add: is_dir_def)
  show ?case
  proof (cases "k = j")
    case False
    with snoc.prems(2) have "strict_prefix k j" by (auto simp: strict_prefix_def)
    moreover from this d have "j \<in> fst ` set t" 
      by (metis domI dom_map_of_conv_image_fst strict_prefix_simps(1))
    ultimately show ?thesis using snoc.IH by blast
  qed (use d assms(4) in auto)
qed auto

lemma wf_tree_without:
  assumes "wf_tree t"
  shows "wf_tree (without k t)"
proof -
  have "is_dir (without k t) (butlast j)" if "j \<in> fst ` set t" "\<not> prefix k j" for j
  proof -
    have "is_dir t (butlast j)" using that(1) assms by (auto simp: wf_tree_def)
    moreover have "\<not> prefix k (butlast j)"
      using that(2) prefix_order.trans [OF _ prefixeq_butlast] by blast
    ultimately show ?thesis by (auto simp: is_dir_def)
  qed
  moreover have "fst ` set (without k t) \<subseteq> fst ` set t" "\<And>j. j \<in> fst ` set (without k t) \<Longrightarrow> \<not> prefix k j"
    by (auto simp: without_def)
  moreover have "distinct (map fst (without k t))"
    using assms by (simp add: wf_tree_def without_def distinct_map_filter)
  moreover have "j \<noteq> [] \<and> (\<forall>n \<in> set j. n \<noteq> [] \<and> CHR ''/'' \<notin> set n)" if "j \<in> fst ` set t" for j
    using assms that by (auto simp only: wf_tree_def)
  ultimately show ?thesis
    unfolding wf_tree_def by (meson subsetD)
qed

lemma children_iff:
  "n \<in> set (children t k) \<longleftrightarrow> k @ [n] \<in> fst ` set t"
proof
  assume "n \<in> set (children t k)"
  then obtain j where "j \<in> fst ` set t" "j \<noteq> []" "butlast j = k" "last j = n"
    by (auto simp: children_def)
  then show "k @ [n] \<in> fst ` set t" by (metis append_butlast_last_id)
next
  assume "k @ [n] \<in> fst ` set t"
  then show "n \<in> set (children t k)"
    unfolding children_def set_map set_filter by (intro image_eqI [of _ _ "k @ [n]"]) auto
qed

lemma children_distinct:
  assumes "wf_tree t"
  shows "distinct (children t k)"
proof -
  let ?ks = "filter (\<lambda>j. j \<noteq> [] \<and> butlast j = k) (map fst t)"
  have "distinct ?ks" using assms by (simp add: wf_tree_def)
  moreover have "inj_on last (set ?ks)"
    by (rule inj_onI) (auto, metis append_butlast_last_id)
  ultimately show ?thesis by (simp add: children_def distinct_map)
qed

text \<open>Longest path string the recursion builds for an entry below \<open>p\<close>.\<close>

definition path_len :: "string \<Rightarrow> string list \<Rightarrow> nat" where
  "path_len p rel = length p + sum_list (map (\<lambda>n. Suc (length n)) rel)"

definition fits :: "nat \<Rightarrow> string \<Rightarrow> tree \<Rightarrow> bool" where
  "fits n p t \<longleftrightarrow> (\<forall>rel. comps p @ rel \<in> fst ` set t \<longrightarrow> length rel < n \<and> path_len p rel < PATHMAX)"

lemma unlink_dir:
  "reliable s \<Longrightarrow> node_at s p = Some Dir \<Longrightarrow>
   run_state (sys_unlink p) s = (False, s\<lparr>calls := Suc (calls s), errno := EISDIR\<rparr>)"
  by (simp add: sys_unlink_def)

lemma fits_child:
  assumes "fits (Suc n) p t" "wf_tree t" "comps p @ [x] \<in> fst ` set t"
  shows "comps (p @ ''/'' @ x) = comps p @ [x]" "snprintf PATHMAX (p @ ''/'' @ x) = p @ ''/'' @ x"
    and "fits n (p @ ''/'' @ x) t"
proof -
  have "\<forall>n \<in> set (comps p @ [x]). n \<noteq> [] \<and> CHR ''/'' \<notin> set n"
    using assms(2,3) unfolding wf_tree_def by blast
  then have x: "x \<noteq> []" "CHR ''/'' \<notin> set x" by simp_all
  then show c: "comps (p @ ''/'' @ x) = comps p @ [x]" by simp
  have "path_len p [x] < PATHMAX" using assms(1,3) by (auto simp: fits_def)
  then show "snprintf PATHMAX (p @ ''/'' @ x) = p @ ''/'' @ x" by (simp add: path_len_def)
  show "fits n (p @ ''/'' @ x) t"
    unfolding fits_def c
  proof (intro allI impI)
    fix rel assume "(comps p @ [x]) @ rel \<in> fst ` set t"
    then have "comps p @ (x # rel) \<in> fst ` set t" by simp
    with assms(1) have "length (x # rel) < Suc n" "path_len p (x # rel) < PATHMAX"
      unfolding fits_def by blast+
    then show "length rel < n \<and> path_len (p @ ''/'' @ x) rel < PATHMAX"
      by (simp add: path_len_def)
  qed
qed

lemma fits_mono: "fits n p t \<Longrightarrow> set t' \<subseteq> set t \<Longrightarrow> fits n p t'"
  unfolding fits_def by blast

text \<open>A loop over children whose recursive call removes the child's subtree.\<close>

lemma rm_loop_reliable:
  assumes rec: "\<And>x s. reliable s \<Longrightarrow> wf_tree (fs s) \<Longrightarrow> comps p @ [x] \<in> fst ` set (fs s) \<Longrightarrow>
      fits (Suc n) p (fs s) \<Longrightarrow>
      \<exists>k e. run_state (rec (p @ ''/'' @ x)) s =
        (0, s\<lparr>fs := without (comps p @ [x]) (fs s), calls := k, errno := e\<rparr>)"
  shows "reliable s \<Longrightarrow> wf_tree (fs s) \<Longrightarrow> fits (Suc n) p (fs s) \<Longrightarrow> node_at s p = Some Dir \<Longrightarrow>
    distinct (map fst es) \<Longrightarrow> \<forall>x \<in> set (map fst es). comps p @ [x] \<in> fst ` set (fs s) \<Longrightarrow>
    \<exists>k e. run_state (rm_loop rec p True es) s =
      (0, s\<lparr>fs := filter (\<lambda>e. \<forall>x \<in> set (map fst es). \<not> prefix (comps p @ [x]) (fst e)) (fs s),
           calls := k, errno := e\<rparr>)"
proof (induction es arbitrary: s)
  case Nil
  show ?case by (rule exI [of _ "calls s"], rule exI [of _ "errno s"]) simp
next
  case (Cons a es)
  obtain x isf where a: "a = (x, isf)" by fastforce
  let ?s1 = "s\<lparr>calls := Suc (calls s), errno := EISDIR\<rparr>"
  let ?t = "without (comps p @ [x]) (fs s)"
  have ul: "run_state (sys_unlink p) s = (False, ?s1)"
    using Cons.prems by (simp add: unlink_dir)
  have x: "comps p @ [x] \<in> fst ` set (fs s)" using Cons.prems a by simp
  obtain k e where rc: "run_state (rec (p @ ''/'' @ x)) ?s1 =
      (0, ?s1\<lparr>fs := ?t, calls := k, errno := e\<rparr>)"
    using rec [of ?s1 x] Cons.prems x by auto
  let ?s2 = "s\<lparr>fs := ?t, calls := k, errno := e\<rparr>"
  have "\<not> prefix (comps p @ [x]) (comps p @ [y])" if "y \<in> set (map fst es)" for y
    using that Cons.prems(5) a by auto
  moreover have "comps p @ [y] \<in> fst ` set (fs s)" if "y \<in> set (map fst es)" for y
    using that Cons.prems(6) by (simp only: list.map set_simps insert_iff ball_simps)
  ultimately have "\<forall>y \<in> set (map fst es). comps p @ [y] \<in> fst ` set (fs ?s2)"
    by (simp add: keys_without)
  moreover have "wf_tree (fs ?s2)" "fits (Suc n) p (fs ?s2)"
    using wf_tree_without Cons.prems(2) fits_mono [OF Cons.prems(3), of ?t]
    by (auto simp: without_def)
  moreover have "node_at ?s2 p = Some Dir"
    using Cons.prems(4) by (auto simp: node_at_def dest: prefix_length_le)
  moreover have "reliable ?s2" "distinct (map fst es)" using Cons.prems by simp_all
  ultimately obtain k' e' where
    "run_state (rm_loop rec p True es) ?s2 = (0, ?s2\<lparr>fs := filter (\<lambda>e. \<forall>x \<in> set (map fst es).
        \<not> prefix (comps p @ [x]) (fst e)) ?t, calls := k', errno := e'\<rparr>)"
    using Cons.IH [of ?s2] by auto
  moreover have "snprintf PATHMAX (p @ ''/'' @ x) = p @ ''/'' @ x"
    using fits_child(2) [OF Cons.prems(3,2) x] .
  ultimately have "run_state (rm_loop rec p True (a # es)) s = (0, s\<lparr>fs := filter (\<lambda>e. \<forall>x \<in> set (map fst (a # es)).
        \<not> prefix (comps p @ [x]) (fst e)) (fs s), calls := k', errno := e'\<rparr>)"
    using ul rc a by (simp add: without_def conj_commute)
  then show ?case by blast
qed

lemma without_children:
  assumes "wf_tree t" "k \<noteq> []"
  shows "filter (\<lambda>e. fst e \<noteq> k) (filter (\<lambda>e. \<forall>x \<in> set (children t k). \<not> prefix (k @ [x]) (fst e)) t) =
    without k t"
  unfolding without_def filter_filter
proof (rule filter_cong [OF refl])
  fix e assume e: "e \<in> set t"
  have "\<exists>x \<in> set (children t k). prefix (k @ [x]) (fst e)" if p: "prefix k (fst e)" "fst e \<noteq> k"
  proof -
    from p obtain x rel where j: "fst e = k @ x # rel"
      by (auto simp: prefix_def) (metis neq_Nil_conv)
    have "k @ [x] \<in> fst ` set t"
    proof (cases "rel = []")
      case False
      then have "strict_prefix (k @ [x]) (fst e)" using j by (auto simp: strict_prefix_def)
      with wf_tree_parent [OF assms(1), of "fst e" "k @ [x]"] e show ?thesis
        by (metis append_is_Nil_conv domI dom_map_of_conv_image_fst image_eqI list.distinct(1))
    qed (use e j in \<open>auto simp: image_iff intro: bexI [of _ e]\<close>)
    with j show ?thesis by (auto simp: children_iff intro!: bexI [of _ x])
  qed
  then show "((\<forall>x \<in> set (children t k). \<not> prefix (k @ [x]) (fst e)) \<and> fst e \<noteq> k) = (\<not> prefix k (fst e))"
    by (auto dest: append_prefixD)
qed

lemma wf_file_alone:
  assumes "wf_tree t" "map_of t k = Some (File d)" "k \<noteq> []"
  shows "filter (\<lambda>e. fst e \<noteq> k) t = without k t"
  unfolding without_def
proof (rule filter_cong [OF refl])
  fix e assume "e \<in> set t"
  then have "\<not> strict_prefix k (fst e)"
    using wf_tree_parent [OF assms(1), of "fst e" k] assms(2,3) by auto
  then show "(fst e \<noteq> k) = (\<not> prefix k (fst e))" by (auto simp: strict_prefix_def)
qed

lemma rmfr_specific_reliable:
  fixes s :: "'a world_scheme"
  shows "reliable s \<Longrightarrow> wf_tree (fs s) \<Longrightarrow> comps p \<noteq> [] \<Longrightarrow> comps p \<in> fst ` set (fs s) \<Longrightarrow> fits n p (fs s) \<Longrightarrow>
   \<exists>k e. run_state (rmfr_specific n p True True) s =
     (0, s\<lparr>fs := without (comps p) (fs s), calls := k, errno := e\<rparr>)"
proof (induction n arbitrary: p s)
  case 0
  then have "comps p @ [] \<in> fst ` set (fs s)" by simp
  with 0(5) show ?case unfolding fits_def by blast
next
  case (Suc n)
  from Suc.prems(4) obtain nd where nd: "map_of (fs s) (comps p) = Some nd"
    by (metis domD dom_map_of_conv_image_fst)
  show ?case
  proof (cases nd)
    case (File d)
    with nd Suc.prems wf_file_alone [OF Suc.prems(2), of "comps p" d] show ?thesis
      by (intro exI [of _ "Suc (calls s)"] exI [of _ 0])
         (simp add: sys_unlink_def node_at_def del_def delete_filter)
  next
    case Dir
    let ?ns = "children (fs s) (comps p)"
    let ?s1 = "s\<lparr>calls := Suc (Suc (calls s)), errno := EISDIR\<rparr>"
    let ?es = "map (\<lambda>x. (x, is_file_at (fs s) (comps p @ [x]))) ?ns"
    have es: "map fst ?es = ?ns" by (simp add: comp_def)
    have rec: "\<exists>k e. run_state (rmfr_specific n (p @ ''/'' @ x) True True) u =
        (0, u\<lparr>fs := without (comps p @ [x]) (fs u), calls := k, errno := e\<rparr>)"
      if "reliable u" "wf_tree (fs u)" "comps p @ [x] \<in> fst ` set (fs u)" "fits (Suc n) p (fs u)" for x and u :: "'a world_scheme"
      using Suc.IH [of u "p @ ''/'' @ x"] fits_child [OF that(4,2,3)] that by simp
    have "node_at ?s1 p = Some Dir" using nd Dir by (simp add: node_at_def)
    moreover have "distinct (map fst ?es)" unfolding es by (rule children_distinct [OF Suc.prems(2)])
    moreover have "\<forall>x \<in> set (map fst ?es). comps p @ [x] \<in> fst ` set (fs s)"
      unfolding es by (simp add: children_iff)
    ultimately obtain k e where loop: "run_state (rm_loop (\<lambda>p. rmfr_specific n p True True) p True ?es) ?s1 =
        (0, ?s1\<lparr>fs := filter (\<lambda>e. \<forall>x \<in> set ?ns. \<not> prefix (comps p @ [x]) (fst e)) (fs s),
            calls := k, errno := e\<rparr>)"
      using rm_loop_reliable [of p n "\<lambda>p. rmfr_specific n p True True" ?s1 ?es, OF rec] Suc.prems es by auto
    let ?t = "filter (\<lambda>e. \<forall>x \<in> set ?ns. \<not> prefix (comps p @ [x]) (fst e)) (fs s)"
    have "children ?t (comps p) = []"
    proof -
      have "set (children ?t (comps p)) = {}"
      proof (rule equals0I)
        fix x assume "x \<in> set (children ?t (comps p))"
        then have "comps p @ [x] \<in> fst ` set ?t" by (simp only: children_iff)
        then have "x \<notin> set ?ns" "comps p @ [x] \<in> fst ` set (fs s)" by auto
        then show False by (simp add: children_iff)
      qed
      then show ?thesis by (simp only: set_empty)
    qed
    moreover have "map_of ?t (comps p) = Some Dir"
      using nd Dir map_of_filter_key [of "\<lambda>j. \<forall>x \<in> set ?ns. \<not> prefix (comps p @ [x]) j" "fs s" "comps p"]
      by (auto dest: prefix_length_le)
    ultimately have "run_state (sys_rmdir p) (?s1\<lparr>fs := ?t, calls := k, errno := e\<rparr>) =
        (True, s\<lparr>fs := without (comps p) (fs s), calls := Suc k, errno := e\<rparr>)"
      using Suc.prems without_children [OF Suc.prems(2,3)]
      by (simp add: sys_rmdir_def node_at_def del_def delete_filter)
    moreover have "run_state (sys_opendir p) (s\<lparr>calls := Suc (calls s), errno := EISDIR\<rparr>) = (Some ?ns, ?s1)"
      using nd Dir Suc.prems by (simp add: sys_opendir_def is_dir_def)
    ultimately have "run_state (rmfr_specific (Suc n) p True True) s =
        (0, s\<lparr>fs := without (comps p) (fs s), calls := Suc k, errno := e\<rparr>)"
      using nd Dir Suc.prems loop by (simp add: unlink_dir node_at_def)
    then show ?thesis by blast
  qed
qed

lemma rmfr_subtree:
  assumes "reliable s" and "wf_tree (fs s)" and "comps p \<noteq> []" and "node_at s p \<noteq> None"
    and "\<forall>rel. comps p @ rel \<in> fst ` set (fs s) \<longrightarrow> path_len p rel < PATHMAX"
  shows "\<exists>k e. run_state (rmfr p) s =
    (0, s\<lparr>fs := filter (\<lambda>e. \<not> prefix (comps p) (fst e)) (fs s), calls := k, errno := e\<rparr>)"
proof -
  have "comps p \<in> fst ` set (fs s)"
    using assms(4) by (metis domIff dom_map_of_conv_image_fst node_at_def)
  moreover have "fits (Suc (height (fs s))) p (fs s)"
    unfolding fits_def
  proof (intro allI impI)
    fix rel assume rel: "comps p @ rel \<in> fst ` set (fs s)"
    then have "length (comps p @ rel) \<in> set (map (\<lambda>(k, _). length k) (fs s)) \<union> {0}" by force
    then have "length (comps p @ rel) \<le> height (fs s)"
      unfolding height_def by (intro Max_ge) auto
    with assms(5) rel show "length rel < Suc (height (fs s)) \<and> path_len p rel < PATHMAX" by simp
  qed
  ultimately show ?thesis
    using rmfr_specific_reliable [OF assms(1,2,3), of "Suc (height (fs s))"]
    by (simp add: rmfr_def without_def)
qed

text \<open>
  C18. \<open>rmfr\<close> removes a file or directory with everything below it, and nothing else: when
  no call fails and no path below it exceeds the buffer, it returns 0 and the file system is
  the old one without the entries at or below the path.
\<close>

theorem rmfr_removes_subtree:
  assumes "reliable s" and "wf_tree (fs s)" and "comps p \<noteq> []" and "node_at s p \<noteq> None"
    and "\<forall>rel. comps p @ rel \<in> fst ` set (fs s) \<longrightarrow> path_len p rel < PATHMAX"
  shows "\<exists>k e. run_state (rmfr p) s =
    (0, s\<lparr>fs := filter (\<lambda>e. \<not> prefix (comps p) (fst e)) (fs s), calls := k, errno := e\<rparr>)"
  using rmfr_subtree [OF assms] .

theorem rmfr_removes_subtree_witness:
  "\<exists>k e. run_state (rmfr ''/a'') (calm [([''a''], Dir), ([''a'', ''b''], File ''x''), ([''ab''], Dir)]) =
    (0, (calm [([''ab''], Dir)])\<lparr>calls := k, errno := e\<rparr>)"
proof -
  let ?t = "[([''a''], Dir), ([''a'', ''b''], File ''x''), ([''ab''], Dir)] :: tree"
  have "wf_tree ?t" by (simp add: wf_tree_def is_dir_def)
  moreover have "comps ''/a'' = [''a'']" by (simp add: comps_def)
  moreover have "rel = [] \<or> rel = [''b'']" if "[''a''] @ rel \<in> fst ` set ?t" for rel using that by auto
  then have "\<forall>rel. [''a''] @ rel \<in> fst ` set ?t \<longrightarrow> path_len ''/a'' rel < PATHMAX"
    by (auto simp: path_len_def privconst)
  ultimately have "\<exists>k e. run_state (rmfr ''/a'') (calm ?t) =
    (0, (calm ?t)\<lparr>fs := filter (\<lambda>e. \<not> prefix [''a''] (fst e)) ?t, calls := k, errno := e\<rparr>)"
    using rmfr_removes_subtree [of "calm ?t" "''/a''"] by (simp add: calm_def reliable_def node_at_def)
  then show ?thesis by (simp add: calm_def)
qed

section \<open>get\_mode reads octal\<close>

fun show_oct :: "nat \<Rightarrow> string" where
  "show_oct n = (if n < 8 then [digit n] else show_oct (n div 8) @ [digit (n mod 8)])"

declare show_oct.simps [simp del]

lemma get_mode_loop_append:
  "\<forall>c \<in> set u. 48 \<le> (of_char c :: nat) \<and> (of_char c :: nat) \<le> 55 \<Longrightarrow>
   get_mode_loop m (u @ v) = get_mode_loop (get_mode_loop m u) v"
  by (induction u arbitrary: m) auto

lemma get_mode_loop_bad:
  "\<exists>c \<in> set s. (of_char c :: nat) < 48 \<or> 55 < (of_char c :: nat) \<Longrightarrow> get_mode_loop m s = -1"
  by (induction s arbitrary: m) auto

lemma show_oct_digits: "\<forall>c \<in> set (show_oct n). 48 \<le> (of_char c :: nat) \<and> (of_char c :: nat) \<le> 55"
proof (induction n rule: show_oct.induct)
  case (1 n)
  have d: "\<And>m. m < 8 \<Longrightarrow> (of_char (digit m) :: nat) = 48 + m" by (simp add: of_char_digit)
  from 1 show ?case
    by (cases "n < 8") (simp_all add: show_oct.simps [of n] d)
qed

lemma shift3_or:
  fixes m :: "32 word"
  assumes "d < 8"
  shows "or (push_bit 3 m) (of_nat d) = 8 * m + of_nat d"
proof -
  have "and (push_bit 3 m) (of_nat d) = 0"
  proof (rule bit_eqI)
    fix i assume "possible_bit TYPE(32 word) i"
    have "\<not> bit (of_nat d :: 32 word) i" if "3 \<le> i"
    proof -
      have "take_bit 3 d = d" using assms by (simp add: take_bit_nat_eq_self_iff)
      then have "\<not> bit d i" using that by (metis bit_take_bit_iff not_le)
      then show ?thesis by (simp add: bit_of_nat_iff)
    qed
    then show "bit (and (push_bit 3 m) (of_nat d)) i = bit (0 :: 32 word) i"
      by (auto simp: bit_and_iff bit_push_bit_iff)
  qed
  then have "or (push_bit 3 m) (of_nat d) = push_bit 3 m + of_nat d"
    by (simp add: disjunctive_add_eq_or)
  then show ?thesis by (simp add: push_bit_eq_mult)
qed

text \<open>
  \<open>get_mode\<close> reads octal text: the octal numeral of \<open>n\<close> gives \<open>n\<close> as a \<open>mode_t\<close>
  (modulo 2 to the 32), and a string with any other character gives -1.
\<close>

theorem get_mode_octal:
  "get_mode (show_oct n) = of_nat n \<and>
   ((\<exists>c \<in> set s. (of_char c :: nat) < 48 \<or> 55 < (of_char c :: nat)) \<longrightarrow> get_mode s = -1)"
proof
  show "get_mode (show_oct n) = of_nat n"
    unfolding get_mode_def
  proof (induction n rule: show_oct.induct)
    case (1 n)
    have d: "\<And>m. m < 8 \<Longrightarrow> (of_char (digit m) :: nat) = 48 + m" by (simp add: of_char_digit)
    show ?case
    proof (cases "n < 8")
      case True
      then show ?thesis by (simp add: show_oct.simps [of n] d shift3_or)
    next
      case False
      with 1 have "get_mode_loop 0 (show_oct (n div 8)) = of_nat (n div 8)" by simp
      with False have "get_mode_loop 0 (show_oct n) = 8 * of_nat (n div 8) + of_nat (n mod 8)"
        using get_mode_loop_append [OF show_oct_digits, of 0 "n div 8" "[digit (n mod 8)]"]
        by (simp add: show_oct.simps [of n] d shift3_or del: of_nat_div of_nat_mod)
      also have "\<dots> = of_nat (8 * (n div 8) + n mod 8)"
        by (simp only: of_nat_add of_nat_mult of_nat_numeral)
      also have "8 * (n div 8) + n mod 8 = n" by simp
      finally show ?thesis .
    qed
  qed
  show "(\<exists>c \<in> set s. (of_char c :: nat) < 48 \<or> 55 < (of_char c :: nat)) \<longrightarrow> get_mode s = -1"
    by (simp add: get_mode_def get_mode_loop_bad)
qed

theorem get_mode_octal_witness: "get_mode (show_oct 416) = 416 \<and> get_mode ''64x'' = -1"
  using get_mode_octal [of 416 "''64x''"] by simp

end
