(* ===== verification/Fsutils_Small.thy ===== *)
theory Fsutils_Small
  imports Fsutils_Cache Fsutils_Perm
begin

text \<open>
  Small file operations of crashlog/fsutils.c: creating, moving and finding files, one-word
  and binary files, the size of a tree, and the file that shadows an Android property.
\<close>

section \<open>Creating, moving and finding\<close>

definition create_empty_file :: "string \<Rightarrow> ('w, int) op" where
  "create_empty_file filename = do {
     ok \<leftarrow> open_trunc filename;
     if \<not> ok then do { e \<leftarrow> gets errno; ret (- e) }
     else do { _ \<leftarrow> chown_log filename; ret 0 } }"

text \<open>\<open>close_file\<close>: the buffered text reaches the file; 0, or -1 when the flush failed.\<close>

definition close_file :: "string \<Rightarrow> nat \<Rightarrow> string \<Rightarrow> ('w, int) op" where
  "close_file filename off buffered = do {
     set_errno 0;
     n \<leftarrow> write_at filename off buffered;
     ret (if n = int (length buffered) then 0 else -1) }"

definition reset_file :: "string \<Rightarrow> ('w, unit) op" where
  "reset_file filename = do {
     ok \<leftarrow> open_trunc filename;
     if \<not> ok then ret ()
     else do {
       _ \<leftarrow> close_file filename 0 (pad_left (CHR '' '') 4 (show_nat 0));
       _ \<leftarrow> chown_log filename;
       ret () } }"

definition find_matching_file :: "string option \<Rightarrow> string option \<Rightarrow> bool \<Rightarrow> ('w, int \<times> string option) op" where
  "find_matching_file dir_to_search pattern found_given =
     (case (dir_to_search, pattern) of
        (Some d, Some p) \<Rightarrow>
          if \<not> found_given then ret (- EINVAL, None)
          else do {
            l \<leftarrow> sys_opendir d;
            (case l of
               None \<Rightarrow> do { e \<leftarrow> gets errno; ret (- e, None) }
             | Some names \<Rightarrow>
                 (case find (\<lambda>n. contains n p) names of
                    None \<Rightarrow> ret (0, None)
                  | Some n \<Rightarrow> ret (1, Some n))) }
      | _ \<Rightarrow> ret (- EINVAL, None))"

definition do_mv :: "string option \<Rightarrow> string option \<Rightarrow> ('w, int) op" where
  "do_mv src dest =
     (case (src, dest) of
        (Some a, Some b) \<Rightarrow> do {
          ex \<leftarrow> gets (file_exists a);
          if \<not> ex then do { set_errno ENOENT; ret (- ENOENT) }
          else do {
            exb \<leftarrow> gets (file_exists b);
            (if \<not> exb then set_errno ENOENT else ret ());
            ok \<leftarrow> sys_rename a b;
            ret (if ok then 0 else -1) } }
      | _ \<Rightarrow> ret (- EINVAL))"

text \<open>The name keeps its leading slash, so the destination is \<open>dir//name\<close>.\<close>

definition do_mv_in_dir :: "string option \<Rightarrow> string option \<Rightarrow> ('w, int) op" where
  "do_mv_in_dir src dest_dir =
     (case (src, dest_dir) of
        (Some a, Some d) \<Rightarrow>
          if length a = 0 then ret (- EINVAL)
          else (case strrchr a (CHR ''/'') of
                  None \<Rightarrow> ret (- EINVAL)
                | Some base \<Rightarrow> do_mv (Some a) (Some (snprintf PATHMAX (d @ ''/'' @ base))))
      | _ \<Rightarrow> ret (- EINVAL))"

definition dir_contains :: "string option \<Rightarrow> string option \<Rightarrow> bool \<Rightarrow> ('w, int) op" where
  "dir_contains dir filename exact =
     (case (dir, filename) of
        (Some d, Some f) \<Rightarrow> do {
          l \<leftarrow> sys_opendir d;
          (case l of
             None \<Rightarrow> do { e \<leftarrow> gets errno; ret (- e) }
           | Some names \<Rightarrow>
               ret (int (length (filter (\<lambda>n. if exact then n = f else contains n f) names)))) }
      | _ \<Rightarrow> ret (- EINVAL))"

section \<open>Sizes\<close>

text \<open>\<open>nftw\<close> visits every entry at or below the path; regular files add their size (64 bits).\<close>

definition calculate_size_of_path :: "64 word \<Rightarrow> node \<Rightarrow> 64 word" where
  "calculate_size_of_path total_size n =
     (case n of File d \<Rightarrow> total_size + of_nat (length d) | Dir \<Rightarrow> total_size)"

definition get_path_size :: "string \<Rightarrow> ('w, 64 word) op" where
  "get_path_size path = do {
     f \<leftarrow> syscall;
     n \<leftarrow> gets (\<lambda>s. is_dir (fs s) (comps path) \<or> node_at s path \<noteq> None);
     below \<leftarrow> gets (\<lambda>s. map snd (filter (\<lambda>e. prefix (comps path) (fst e)) (fs s)));
     (case f of
        Fails e \<Rightarrow> do { set_errno e; ret 0 }
      | _ \<Rightarrow> if \<not> n then do { set_errno ENOENT; ret 0 }
              else ret (foldl calculate_size_of_path 0 below)) }"

lemma foldl_size:
  "foldl calculate_size_of_path z ns =
     z + of_nat (sum_list (map (\<lambda>n. case n of File d \<Rightarrow> length d | Dir \<Rightarrow> 0) ns))"
  by (induction ns arbitrary: z) (auto simp: calculate_size_of_path_def split: node.splits)

section \<open>One-word and binary files\<close>

definition file_read_string :: "string option \<Rightarrow> bool \<Rightarrow> ('w, int \<times> string option) op" where
  "file_read_string file string_given =
     (case file of
        None \<Rightarrow> ret (- EINVAL, None)
      | Some f \<Rightarrow>
          if \<not> string_given then ret (- EINVAL, None)
          else do {
            ex \<leftarrow> gets (file_exists f);
            if \<not> ex then do { set_errno ENOENT; ret (- ENOENT, None) }
            else do {
              fd \<leftarrow> open_read f;
              (case fd of
                 None \<Rightarrow> do { e \<leftarrow> gets errno; ret (- e, None) }
               | Some d \<Rightarrow> do {
                   rd \<leftarrow> syscall;
                   (case rd of
                      Fails e \<Rightarrow> do { set_errno e; ret (- e, None) }
                    | _ \<Rightarrow>
                        (case scanf [SWord None True] d of
                           ([v], _) \<Rightarrow> ret (int (length (cstr v)), Some (cstr v))
                         | _ \<Rightarrow> ret (0, None))) }) } })"

definition write_binary_file :: "string option \<Rightarrow> string option \<Rightarrow> nat \<Rightarrow> ('w, int) op" where
  "write_binary_file path buffer buffer_size =
     (case (path, buffer) of
        (Some p, Some b) \<Rightarrow>
          if buffer_size = 0 then ret (- EINVAL)
          else do {
            ok \<leftarrow> open_trunc p;
            if \<not> ok then do { e \<leftarrow> gets errno; ret (- e) }
            else do { _ \<leftarrow> write_end p (take buffer_size b); ret 0 } }
      | _ \<Rightarrow> ret (- EINVAL))"

definition read_binary_file :: "string option \<Rightarrow> bool \<Rightarrow> nat \<Rightarrow> ('w, int \<times> string) op" where
  "read_binary_file path buffer_given buffer_size =
     (case path of
        None \<Rightarrow> ret (- EINVAL, [])
      | Some p \<Rightarrow>
          if \<not> buffer_given \<or> buffer_size = 0 then ret (- EINVAL, [])
          else do {
            fd \<leftarrow> open_read p;
            (case fd of
               None \<Rightarrow> do { e \<leftarrow> gets errno; ret (- e, []) }
             | Some d \<Rightarrow> do {
                 rd \<leftarrow> syscall;
                 (case rd of
                    Fails e \<Rightarrow> do { set_errno e; ret (0, []) }
                  | Short k \<Rightarrow> ret (int (length (take k (take buffer_size d))), take k (take buffer_size d))
                  | Works \<Rightarrow> ret (int (length (take buffer_size d)), take buffer_size d)) }) })"

text \<open>\<open>read_full_binary_file\<close>: the whole file; an empty one is an error (\<open>ERANGE\<close>).\<close>

definition read_full_binary_file :: "string option \<Rightarrow> bool \<Rightarrow> ('w, int \<times> string option) op" where
  "read_full_binary_file path outs_given =
     (case path of
        None \<Rightarrow> do { set_errno EINVAL; ret (-1, None) }
      | Some p \<Rightarrow>
          if \<not> outs_given then do { set_errno EINVAL; ret (-1, None) }
          else do {
            fd \<leftarrow> open_read p;
            (case fd of
               None \<Rightarrow> ret (-1, None)
             | Some d \<Rightarrow>
                 if length d = 0 then do { set_errno ERANGE; ret (-1, None) }
                 else do {
                   ok \<leftarrow> alloc;
                   if \<not> ok then do { set_errno ENOMEM; ret (-1, None) }
                   else do {
                     rd \<leftarrow> syscall;
                     (case rd of
                        Works \<Rightarrow> ret (0, Some d)
                      | Fails _ \<Rightarrow> do { set_errno EBADF; ret (-1, None) }
                      | Short k \<Rightarrow> if length d \<le> k then ret (0, Some d)
                                  else do { set_errno EBADF; ret (-1, None) }) } }) })"

section \<open>A property and its copy in a file\<close>

text \<open>
  \<open>read_file_prop_uid\<close>: the code and what \<open>uid\<close> holds. The file is rewritten when the
  property differs from its first line.
\<close>

definition uid_from_file :: "string \<Rightarrow> string \<Rightarrow> ('w, string \<times> string) op" where
  "uid_from_file f df = do {
     fd \<leftarrow> open_read f;
     (case fd of
        None \<Rightarrow> ret ([], take PROPERTY_VALUE_MAX df)
      | Some d \<Rightarrow> do {
          (_, l, _) \<leftarrow> freadline d;
          ret (cstr l, take PROPERTY_VALUE_MAX (cstr l)) }) }"

definition read_file_prop_uid ::
  "string option \<Rightarrow> string option \<Rightarrow> bool \<Rightarrow> string option \<Rightarrow> ('w, int \<times> string) op" where
  "read_file_prop_uid source filename uid_given defaultvalue =
     (case (source, filename, defaultvalue) of
        (Some src, Some f, Some df) \<Rightarrow>
          if \<not> uid_given then ret (-1, [])
          else do {
            (buffer, uid) \<leftarrow> uid_from_file f df;
            temp_uid \<leftarrow> gets (\<lambda>s. prop_get s src []);
            if temp_uid = [] then ret (-1, uid)
            else if take PROPERTY_VALUE_MAX temp_uid \<noteq> take PROPERTY_VALUE_MAX buffer then do {
              ok \<leftarrow> open_trunc f;
              if \<not> ok then ret (-1, take PROPERTY_VALUE_MAX temp_uid)
              else do {
                _ \<leftarrow> write_end f temp_uid;
                _ \<leftarrow> chown_log f;
                ret (1, take PROPERTY_VALUE_MAX temp_uid) } }
            else ret (0, take PROPERTY_VALUE_MAX temp_uid) }
      | _ \<Rightarrow> ret (-1, []))"

section \<open>Round trips\<close>

lemma open_trunc_reliable:
  "reliable s \<Longrightarrow> comps p \<noteq> [] \<Longrightarrow> node_at s p \<noteq> Some Dir \<Longrightarrow> is_dir (fs s) (butlast (comps p)) \<Longrightarrow>
   run_state (open_trunc p) s = (True, put p (File []) (s\<lparr>calls := Suc (calls s)\<rparr>))"
  by (simp add: open_trunc_def)

lemma write_end_reliable:
  "reliable s \<Longrightarrow> run_state (write_end p d) s =
     (int (length d), put p (File (content s p @ d)) (s\<lparr>calls := Suc (calls s)\<rparr>))"
  by (simp add: write_end_def write_at_def)

lemma put_put [simp]: "put p a (put p b s) = put p a s"
  by (simp add: put_def)

lemma put_calls [simp]: "(put p a s)\<lparr>calls := k\<rparr> = put p a (s\<lparr>calls := k\<rparr>)"
  by (simp add: put_def)



lemma freadline_loop_reliable:
  "reliable s \<Longrightarrow> length acc \<le> LINEROOM \<Longrightarrow>
   \<exists>k. run_state (freadline_loop rest acc) s =
     (case next_line (LINEROOM - length acc) rest of (l, r) \<Rightarrow>
        ((int (length (acc @ l)), acc @ l, r), s\<lparr>calls := k\<rparr>))"
proof (induction rest arbitrary: acc s)
  case Nil
  show ?case by (rule exI [of _ "calls s"]) simp
next
  case (Cons c cs)
  show ?case
  proof (cases "length acc < LINEROOM")
    case True
    then obtain n where n: "LINEROOM - length acc = Suc n" "LINEROOM - length (acc @ [c]) = n"
      by (cases "LINEROOM - length acc") auto
    from True Cons.IH [of "s\<lparr>calls := Suc (calls s)\<rparr>" "acc @ [c]"] Cons.prems n show ?thesis
      by (auto split: prod.splits)
  next
    case False
    with Cons.prems have "LINEROOM - length acc = 0" by simp
    with False Cons.prems show ?thesis by auto
  qed
qed

lemma freadline_reliable:
  assumes "reliable s"
  obtains k where "run_state (freadline rest) s =
     ((int (length (fst (next_line LINEROOM rest))), fst (next_line LINEROOM rest),
       snd (next_line LINEROOM rest)), s\<lparr>calls := k\<rparr>)"
  using freadline_loop_reliable [OF assms, of "[]" rest] that
  by (cases "next_line LINEROOM rest") (auto simp: freadline_def)

lemma next_line_all: "NL \<notin> set d \<Longrightarrow> length d \<le> n \<Longrightarrow> next_line n d = (d, [])"
proof (induction d arbitrary: n)
  case (Cons c d)
  then show ?case by (cases n) auto
qed simp

lemma chown_log_reliable:
  assumes "reliable s" "node_at s f \<noteq> None"
  shows "\<exists>k. run_state (chown_log f) s = (0, s\<lparr>calls := k\<rparr>)"
proof -
  have "snd (decode_uid (Some PERM_USER)) = 0" "snd (decode_uid (Some PERM_GROUP)) = 0"
    by (simp_all add: decode_uid_def PERM_USER_def PERM_GROUP_def isalpha_def
        android_name_to_id_def crashlogd_ids_def)
  moreover have "\<exists>k. s = s\<lparr>calls := k\<rparr>" by (rule exI [of _ "calls s"]) simp
  ultimately show ?thesis using assms by (auto simp: do_chown_def sys_chattr_def)
qed

lemma uid_from_file_quiet:
  assumes "reliable s" "run_state (uid_from_file f df) s = (r, u)"
  shows "quiet s u"
proof (rule open_read_cases [of f s])
  fix d v assume o: "run_state (open_read f) s = (Some d, v)" "quiet s v"
  then have "reliable v" using assms(1) quiet_fields(7) by blast
  then obtain k where "run_state (freadline d) v = ((int (length (fst (next_line LINEROOM d))),
      fst (next_line LINEROOM d), snd (next_line LINEROOM d)), v\<lparr>calls := k\<rparr>)"
    by (rule freadline_reliable)
  with o assms(2) show ?thesis
    by (auto simp: uid_from_file_def split: prod.splits intro: quiet_trans)
qed (use assms(2) in \<open>auto simp: uid_from_file_def\<close>)

text \<open>
  \<open>read_file_prop_uid\<close> settles: a call that finds a property of one line differing from the
  file answers 1 and makes the file hold the property, and the next call answers 0 with the
  same value.
\<close>

theorem read_file_prop_uid_settles:
  assumes "reliable s" and "comps f \<noteq> []" and "node_at s f \<noteq> Some Dir"
    and "is_dir (fs s) (butlast (comps f))"
    and "prop_get s src [] = v" and "v \<noteq> []" and "NL \<notin> set v" and "NUL \<notin> set v"
    and "length v < PROPERTY_VALUE_MAX"
    and "run_state (read_file_prop_uid (Some src) (Some f) True (Some df)) s = ((1, uid), t)"
  shows "uid = v \<and> content t f = v \<and>
    fst (run_state (read_file_prop_uid (Some src) (Some f) True (Some df)) t) = (0, v)"
proof -
  have v: "take PROPERTY_VALUE_MAX v = v" "length v \<le> LINEROOM" "cstr v = v"
    using assms(8,9) by (simp_all add: privconst)
  obtain buffer uid0 u where u: "run_state (uid_from_file f df) s = ((buffer, uid0), u)"
    by (metis prod.exhaust)
  note q = uid_from_file_quiet [OF assms(1) u]
  have pu: "prop_get u src [] = v" using assms(5) quiet_fields(2) [OF q] by (simp add: prop_get_def)
  let ?w = "put f (File v) (u\<lparr>calls := Suc (Suc (calls u))\<rparr>)"
  obtain k where k: "run_state (chown_log f) ?w = (0, ?w\<lparr>calls := k\<rparr>)"
    using chown_log_reliable [of ?w f] assms(1) quiet_fields(7) [OF q] by auto
  have "uid = v \<and> t = ?w\<lparr>calls := k\<rparr>"
    using assms(10) u pu v(1) k assms(1-4,6) quiet_fields(1,7,9) [OF q]
    by (auto simp: read_file_prop_uid_def open_trunc_reliable write_end_reliable split: if_splits)
  then have t: "uid = v" "node_at t f = Some (File v)" "reliable t" "prop_get t src [] = v"
    using assms(1) pu quiet_fields(7) [OF q] by (simp_all add: prop_get_def)
  obtain c where "run_state (freadline v) (t\<lparr>calls := Suc (calls t)\<rparr>) = ((int (length v), v, []), t\<lparr>calls := c\<rparr>)"
    using freadline_reliable [of "t\<lparr>calls := Suc (calls t)\<rparr>" v] t(3) next_line_all [OF assms(7) v(2)] by auto
  then have "run_state (uid_from_file f df) t = ((v, v), t\<lparr>calls := c\<rparr>)"
    using open_read_File [OF t(3,2)] v by (simp add: uid_from_file_def)
  then show ?thesis
    using t v assms(6) by (simp add: read_file_prop_uid_def content_def prop_get_def)
qed

theorem read_file_prop_uid_settles_witness:
  "\<exists>uid t. run_state (read_file_prop_uid (Some ''p'') (Some ''/f'') True (Some ''d''))
       ((calm [])\<lparr>props := [(''p'', ''new'')]\<rparr>) = ((1, uid), t) \<and> uid = ''new'' \<and> content t ''/f'' = ''new'' \<and>
     fst (run_state (read_file_prop_uid (Some ''p'') (Some ''/f'') True (Some ''d'')) t) = (0, ''new'')"
proof -
  let ?s = "(calm [])\<lparr>props := [(''p'', ''new'')]\<rparr>"
  have c: "comps ''/f'' = [''f'']" by (simp add: comps_def)
  let ?w = "put ''/f'' (File ''new'') (?s\<lparr>errno := ENOENT, calls := 3\<rparr>)"
  obtain k where "run_state (chown_log ''/f'') ?w = (0, ?w\<lparr>calls := k\<rparr>)"
    using chown_log_reliable [of ?w "''/f''"] by auto
  moreover have "calls (calm []) = 0" "fs (calm []) = []" by (simp_all add: calm_def)
  ultimately obtain uid t where run: "run_state (read_file_prop_uid (Some ''p'') (Some ''/f'') True (Some ''d'')) ?s = ((1, uid), t)"
    by (simp add: read_file_prop_uid_def uid_from_file_def open_read_def c prop_get_def open_trunc_reliable
        write_end_reliable is_dir_def privconst eval_nat_numeral)
  have "uid = ''new'' \<and> content t ''/f'' = ''new'' \<and>
     fst (run_state (read_file_prop_uid (Some ''p'') (Some ''/f'') True (Some ''d'')) t) = (0, ''new'')"
    by (rule read_file_prop_uid_settles [OF _ _ _ _ _ _ _ _ _ run])
       (simp_all add: c is_dir_def prop_get_def privconst)
  with run show ?thesis by blast
qed

end
