(* ===== verification/Config.thy ===== *)
theory Config
  imports Fsutils_Small
begin

text \<open>
  crashlog/config.c: configuration files of sections and key/value pairs. A handle is the chain
  of its sections and the position of the current one. \<open>malloc\<close> is taken to succeed here.
  The main results: a dumped configuration reads back as it was, the comparison is equality,
  and the section iterator visits exactly the sections with the wanted prefix, in order.
\<close>

section \<open>Data\<close>

type_synonym kv = "string \<times> string"
type_synonym csection = "string \<times> kv list"

record config_handle =
  first :: "csection list"
  current :: "nat option"

definition MAXLEN :: nat where "MAXLEN = 127"

lemmas [privconst] = MAXLEN_def

section \<open>Reading\<close>

text \<open>
  \<open>config_trim\<close>: the \<open>return\<close> inside the first loop is not guarded by the \<open>if\<close> before it,
  so a string that starts with white space is left as it is; otherwise trailing white space
  goes.
\<close>

definition rtrim :: "string \<Rightarrow> string" where
  "rtrim s = rev (dropWhile isspace (rev s))"

definition config_trim :: "string \<Rightarrow> string" where
  "config_trim s = (if s = [] \<or> isspace (hd s) then s else rtrim s)"

definition add_section :: "string \<Rightarrow> config_handle \<Rightarrow> config_handle" where
  "add_section config h =
     (let name = take (length config - 2) (drop 1 config)
      in h\<lparr>first := first h @ [(name, [])], current := Some (length (first h))\<rparr>)"

text \<open>The position of the separator, and the pair added to the current section.\<close>

fun find_eq :: "string \<Rightarrow> nat option" where
  "find_eq [] = None"
| "find_eq (c # s) = (if c = CHR ''='' then Some 0 else map_option Suc (find_eq s))"

definition add_kv_pair :: "string \<Rightarrow> config_handle \<Rightarrow> int \<times> config_handle" where
  "add_kv_pair config h =
     (case current h of
        None \<Rightarrow> (0, h)
      | Some i \<Rightarrow>
          (case find_eq config of
             None \<Rightarrow> (0, h)
           | Some p \<Rightarrow>
               (1, h\<lparr>first := (first h)[i := (fst (first h ! i),
                     snd (first h ! i) @ [(take p config, drop (p + 1) config)])]\<rparr>)))"

definition generate_section_kv :: "string \<Rightarrow> config_handle \<Rightarrow> config_handle" where
  "generate_section_kv config_line h =
     (if config_line = [] then h
      else if hd config_line = CHR '';'' then h
      else if hd config_line = CHR ''#'' then h
      else if hd config_line = CHR ''['' \<and> last config_line = CHR '']'' then add_section config_line h
      else snd (add_kv_pair config_line h))"

definition parse_line :: "string \<Rightarrow> config_handle \<Rightarrow> config_handle" where
  "parse_line buff h = generate_section_kv (config_trim (cstr buff)) h"

definition free_config_file :: "config_handle \<Rightarrow> config_handle" where
  "free_config_file h = h\<lparr>first := [], current := None\<rparr>"

definition init_config_file :: "string \<Rightarrow> config_handle \<Rightarrow> ('w, int \<times> config_handle) op" where
  "init_config_file filename h = do {
     f \<leftarrow> open_read filename;
     (case f of
        None \<Rightarrow> ret (-1, h\<lparr>first := [], current := None\<rparr>)
      | Some d \<Rightarrow>
          let h1 = (if first h \<noteq> [] then free_config_file h else h);
              h2 = h1\<lparr>first := []\<rparr>
          in ret (0, fold parse_line (fgets_lines (MAXLEN - 2) d) h2)) }"

section \<open>Writing and comparing\<close>

definition dump_kv :: "kv \<Rightarrow> string" where
  "dump_kv kv = fst kv @ ''='' @ snd kv @ [NL]"

definition dump_section :: "csection \<Rightarrow> string" where
  "dump_section s = [NL] @ ''['' @ fst s @ '']'' @ [NL] @ concat (map dump_kv (snd s))"

definition dump_config :: "string \<Rightarrow> config_handle \<Rightarrow> ('w, int) op" where
  "dump_config filename h = do {
     ok \<leftarrow> open_trunc filename;
     if \<not> ok then ret (-1)
     else do { _ \<leftarrow> write_end filename (concat (map dump_section (first h))); ret 0 } }"

fun cmp_kvs :: "kv list \<Rightarrow> kv list \<Rightarrow> bool" where
  "cmp_kvs (k1 # r1) (k2 # r2) =
     (if fst k1 \<noteq> fst k2 then False else if snd k1 \<noteq> snd k2 then False else cmp_kvs r1 r2)"
| "cmp_kvs [] [] = True"
| "cmp_kvs _ _ = False"

fun cmp_sections :: "csection list \<Rightarrow> csection list \<Rightarrow> int" where
  "cmp_sections (s1 # r1) (s2 # r2) =
     (if fst s1 \<noteq> fst s2 then 1
      else if \<not> cmp_kvs (snd s1) (snd s2) then 1 else cmp_sections r1 r2)"
| "cmp_sections [] [] = 0"
| "cmp_sections _ _ = 1"

definition cmp_config :: "config_handle option \<Rightarrow> config_handle option \<Rightarrow> int" where
  "cmp_config h1 h2 =
     (case (h1, h2) of
        (Some a, Some b) \<Rightarrow> cmp_sections (first a) (first b)
      | _ \<Rightarrow> 1)"

section \<open>Queries\<close>

text \<open>The first section from position \<open>i\<close> on whose name satisfies a test.\<close>

fun scan_from :: "(string \<Rightarrow> bool) \<Rightarrow> nat \<Rightarrow> csection list \<Rightarrow> nat option" where
  "scan_from P i [] = None"
| "scan_from P i (s # ss) = (if P (fst s) then Some i else scan_from P (Suc i) ss)"

definition find_section :: "string \<Rightarrow> config_handle \<Rightarrow> nat option \<times> config_handle" where
  "find_section section_name h =
     (case current h of
        Some i \<Rightarrow>
          if fst (first h ! i) = section_name then (Some i, h)
          else let r = scan_from (\<lambda>n. n = section_name) 0 (first h) in (r, h\<lparr>current := r\<rparr>)
      | None \<Rightarrow> let r = scan_from (\<lambda>n. n = section_name) 0 (first h) in (r, h\<lparr>current := r\<rparr>))"

definition get_value :: "string \<Rightarrow> string \<Rightarrow> config_handle \<Rightarrow> string option \<times> config_handle" where
  "get_value sect name h =
     (case find_section (config_trim sect) h of
        (None, h') \<Rightarrow> (None, h'\<lparr>current := None\<rparr>)
      | (Some i, h') \<Rightarrow> (map_of (snd (first h' ! i)) name, h'\<lparr>current := Some i\<rparr>))"

definition get_value_def :: "string \<Rightarrow> string \<Rightarrow> string option \<Rightarrow> config_handle \<Rightarrow>
    string option \<times> config_handle" where
  "get_value_def sect name def_value h =
     (case get_value sect name h of
        (Some v, h') \<Rightarrow> (Some v, h')
      | (None, h') \<Rightarrow> (def_value, h'))"

definition sk_exists :: "string \<Rightarrow> string \<Rightarrow> config_handle \<Rightarrow> int \<times> config_handle" where
  "sk_exists sect name h =
     (case get_value (config_trim sect) name h of (r, h') \<Rightarrow> (if r \<noteq> None then 1 else 0, h'))"

definition find_base_section :: "string \<Rightarrow> config_handle \<Rightarrow> bool \<Rightarrow> nat option \<times> config_handle" where
  "find_base_section base_section h find_next =
     (let start = (case current h of
                     None \<Rightarrow> None
                   | Some i \<Rightarrow> if find_next then (if Suc i < length (first h) then Some (Suc i) else None)
                               else Some i);
          test_section = snprintf MAXLEN (base_section @ '' '' @ [CHR 0x22]);
          r = (case start of
                 None \<Rightarrow> None
               | Some i \<Rightarrow> scan_from (\<lambda>n. prefix test_section n) i (drop i (first h)))
      in (r, h\<lparr>current := r\<rparr>))"

definition get_first_section_name :: "string \<Rightarrow> config_handle \<Rightarrow> string option \<times> config_handle" where
  "get_first_section_name base_section h =
     (case find_base_section (config_trim base_section)
             (h\<lparr>current := (if first h = [] then None else Some 0)\<rparr>) False of
        (r, h') \<Rightarrow> (map_option (\<lambda>i. fst (first h' ! i)) r, h'))"

definition get_next_section_name :: "string \<Rightarrow> config_handle \<Rightarrow> string option \<times> config_handle" where
  "get_next_section_name base_section h =
     (case find_base_section (config_trim base_section) h True of
        (r, h') \<Rightarrow> (map_option (\<lambda>i. fst (first h' ! i)) r, h'))"

section \<open>Comparison is equality\<close>

lemma cmp_kvs_iff: "cmp_kvs a b \<longleftrightarrow> a = b"
  by (induction a b rule: cmp_kvs.induct) (auto simp: prod_eq_iff)

lemma cmp_sections_iff: "cmp_sections a b = 0 \<longleftrightarrow> a = b"
  by (induction a b rule: cmp_sections.induct) (auto simp: cmp_kvs_iff prod_eq_iff)

text \<open>
  \<open>cmp_config\<close> answers 0 exactly when both handles are there and hold the same sections
  with the same pairs in the same order.
\<close>

theorem cmp_config_zero_iff:
  "cmp_config h1 h2 = 0 \<longleftrightarrow> (\<exists>a b. h1 = Some a \<and> h2 = Some b \<and> first a = first b)"
  by (cases h1; cases h2) (auto simp: cmp_config_def cmp_sections_iff)

section \<open>Round trip through a file\<close>

text \<open>What a name, key and value must be like for its line to be read back as written.\<close>

definition plain :: "string \<Rightarrow> bool" where
  "plain s \<longleftrightarrow> NL \<notin> set s \<and> NUL \<notin> set s"

definition wf_kv :: "kv \<Rightarrow> bool" where
  "wf_kv kv \<longleftrightarrow> plain (fst kv) \<and> plain (snd kv) \<and> CHR ''='' \<notin> set (fst kv) \<and> fst kv \<noteq> [] \<and>
     \<not> isspace (hd (fst kv)) \<and> hd (fst kv) \<notin> {CHR '';'', CHR ''#'', CHR ''[''} \<and>
     (snd kv \<noteq> [] \<longrightarrow> \<not> isspace (last (snd kv))) \<and> length (dump_kv kv) \<le> MAXLEN - 3"

definition wf_section :: "csection \<Rightarrow> bool" where
  "wf_section s \<longleftrightarrow> plain (fst s) \<and> length (fst s) + 3 \<le> MAXLEN - 3 \<and> (\<forall>kv \<in> set (snd s). wf_kv kv)"

lemma fgets_line_full:
  "NL \<notin> set b \<Longrightarrow> length b < n \<Longrightarrow> fgets_line n (b @ NL # r) = (b @ [NL], r)"
proof (induction b arbitrary: n)
  case Nil
  then show ?case by (cases n) auto
next
  case (Cons c b)
  then show ?case by (cases n) auto
qed

lemma fgets_lines_full:
  "NL \<notin> set b \<Longrightarrow> length b < n - 1 \<Longrightarrow> fgets_lines n (b @ NL # r) = (b @ [NL]) # fgets_lines n r"
  by (subst fgets_lines.simps) (auto simp: fgets_line_full)

lemma rtrim_id: "s = [] \<or> \<not> isspace (last s) \<Longrightarrow> rtrim s = s"
  by (cases s rule: rev_cases) (auto simp: rtrim_def)

lemma isspace_NL [simp]: "isspace NL"
  by (simp add: isspace_def)

lemma rtrim_NL: "rtrim (s @ [NL]) = rtrim s"
  by (simp add: rtrim_def)

lemma find_eq_first: "CHR ''='' \<notin> set k \<Longrightarrow> find_eq (k @ CHR ''='' # v) = Some (length k)"
  by (induction k) auto

lemma parse_line_blank: "parse_line [NL] h = h"
  by (simp add: parse_line_def cstr_def config_trim_def generate_section_kv_def add_kv_pair_def
      split: option.splits)

lemma parse_line_section:
  assumes "plain n"
  shows "parse_line (''['' @ n @ '']'' @ [NL]) h =
    h\<lparr>first := first h @ [(n, [])], current := Some (length (first h))\<rparr>"
proof -
  let ?l = "''['' @ n @ '']''"
  have "cstr (?l @ [NL]) = ?l @ [NL]" using assms by (simp add: plain_def)
  moreover have "config_trim (?l @ [NL]) = ?l"
    by (simp add: config_trim_def isspace_def rtrim_NL [of ?l, simplified] rtrim_id [of ?l, simplified])
  ultimately have "parse_line (''['' @ n @ '']'' @ [NL]) h = generate_section_kv ?l h"
    by (simp add: parse_line_def)
  then show ?thesis by (simp add: generate_section_kv_def add_section_def Let_def)
qed

lemma parse_line_kv:
  assumes "wf_kv kv" "current h = Some i"
  shows "parse_line (dump_kv kv) h =
    h\<lparr>first := (first h)[i := (fst (first h ! i), snd (first h ! i) @ [kv])]\<rparr>"
proof -
  obtain k v where kv: "kv = (k, v)" by fastforce
  let ?l = "k @ CHR ''='' # v"
  have w: "plain k" "plain v" "CHR ''='' \<notin> set k" "k \<noteq> []" "\<not> isspace (hd k)"
    "hd k \<notin> {CHR '';'', CHR ''#'', CHR ''[''}" "v \<noteq> [] \<longrightarrow> \<not> isspace (last v)"
    using assms(1) kv by (auto simp: wf_kv_def)
  have "cstr (?l @ [NL]) = ?l @ [NL]" using w by (simp add: plain_def)
  moreover have "config_trim (?l @ [NL]) = ?l"
    using w rtrim_id [of ?l] rtrim_NL [of ?l] by (auto simp: config_trim_def isspace_def)
  ultimately have "parse_line (dump_kv kv) h = generate_section_kv ?l h"
    by (simp add: parse_line_def dump_kv_def kv)
  also have "\<dots> = snd (add_kv_pair ?l h)"
    using w by (simp add: generate_section_kv_def)
  finally show ?thesis
    using assms(2) find_eq_first [OF w(3)] by (simp add: add_kv_pair_def kv)
qed

text \<open>Reading the lines of a file one by one, starting from a handle.\<close>

definition parse :: "string \<Rightarrow> config_handle \<Rightarrow> config_handle" where
  "parse d h = fold parse_line (fgets_lines (MAXLEN - 2) d) h"

lemma parse_Nil [simp]: "parse [] h = h"
  by (simp add: parse_def)

lemma parse_line_append:
  "NL \<notin> set b \<Longrightarrow> length b < MAXLEN - 3 \<Longrightarrow> parse (b @ NL # r) h = parse r (parse_line (b @ [NL]) h)"
  by (simp add: parse_def fgets_lines_full)

lemma parse_kvs:
  "\<forall>kv \<in> set kvs. wf_kv kv \<Longrightarrow> first h = ss @ [(n, done)] \<Longrightarrow> current h = Some (length ss) \<Longrightarrow>
   parse (concat (map dump_kv kvs) @ r) h = parse r (h\<lparr>first := ss @ [(n, done @ kvs)]\<rparr>)"
proof (induction kvs arbitrary: "done" h)
  case Nil
  then have "h\<lparr>first := ss @ [(n, done)]\<rparr> = h" by (cases h) simp
  then show ?case by simp
next
  case (Cons kv kvs)
  have w: "wf_kv kv" using Cons.prems by simp
  let ?b = "fst kv @ CHR ''='' # snd kv"
  let ?h = "h\<lparr>first := ss @ [(n, done @ [kv])]\<rparr>"
  have "NL \<notin> set ?b" "length ?b < MAXLEN - 3" "dump_kv kv = ?b @ [NL]"
    using w by (auto simp: wf_kv_def plain_def dump_kv_def)
  then have "parse (concat (map dump_kv (kv # kvs)) @ r) h =
      parse (concat (map dump_kv kvs) @ r) (parse_line (dump_kv kv) h)"
    using parse_line_append [of ?b] by simp
  also have "parse_line (dump_kv kv) h = ?h"
    using parse_line_kv [OF w Cons.prems(3)] Cons.prems(2) by simp
  also have "parse (concat (map dump_kv kvs) @ r) ?h = parse r (?h\<lparr>first := ss @ [(n, (done @ [kv]) @ kvs)]\<rparr>)"
    by (rule Cons.IH) (use Cons.prems in simp_all)
  finally show ?case by simp
qed

lemma parse_sections:
  "\<forall>s \<in> set ss. wf_section s \<Longrightarrow> first (parse (concat (map dump_section ss)) h) = first h @ ss"
proof (induction ss arbitrary: h)
  case (Cons s ss)
  obtain n kvs where s: "s = (n, kvs)" by fastforce
  have w: "plain n" "length n + 3 \<le> MAXLEN - 3" "\<forall>kv \<in> set kvs. wf_kv kv"
    using Cons.prems s by (auto simp: wf_section_def)
  let ?r = "concat (map dump_section ss)"
  let ?h = "h\<lparr>first := first h @ [(n, [])], current := Some (length (first h))\<rparr>"
  have "parse (concat (map dump_section (s # ss))) h =
      parse ((''['' @ n @ '']'') @ NL # (concat (map dump_kv kvs) @ ?r)) h"
    using parse_line_append [of "[]"] by (simp add: dump_section_def s privconst parse_line_blank)
  also have "\<dots> = parse (concat (map dump_kv kvs) @ ?r) ?h"
    using parse_line_append [of "''['' @ n @ '']''" "concat (map dump_kv kvs) @ ?r" h] w
      parse_line_section [OF w(1), of h] by (simp add: plain_def)
  also have "\<dots> = parse ?r (?h\<lparr>first := first h @ [(n, kvs)]\<rparr>)"
    using parse_kvs [OF w(3), of ?h "first h" n "[]" ?r] by simp
  finally show ?case using Cons s by simp
qed simp

text \<open>
  C19. A configuration survives a round trip through a file: what \<open>dump_config\<close> wrote,
  \<open>init_config_file\<close> reads back into any handle, and \<open>cmp_config\<close> finds no difference. The
  sections must be made of lines the reader takes as written (one line, no leading space or
  comment sign, no trailing space, at most 124 bytes).
\<close>

theorem config_dump_init_roundtrip:
  assumes "reliable s" and "comps p \<noteq> []" and "node_at s p \<noteq> Some Dir"
    and "is_dir (fs s) (butlast (comps p))" and "\<forall>x \<in> set (first h). wf_section x"
  shows "\<exists>t h'. run_state (dump_config p h) s = (0, t) \<and>
    fst (run_state (init_config_file p h0) t) = (0, h') \<and> cmp_config (Some h) (Some h') = 0"
proof -
  let ?d = "concat (map dump_section (first h))"
  let ?t = "put p (File ?d) (s\<lparr>calls := Suc (Suc (calls s))\<rparr>)"
  let ?h = "(if first h0 \<noteq> [] then free_config_file h0 else h0)\<lparr>first := []\<rparr>"
  have "run_state (dump_config p h) s = (0, ?t)"
    using assms by (simp add: dump_config_def open_trunc_reliable write_end_reliable)
  moreover have "run_state (open_read p) ?t = (Some ?d, ?t\<lparr>calls := Suc (calls ?t)\<rparr>)"
    using assms(1) by (simp add: open_read_File)
  then have "fst (run_state (init_config_file p h0) ?t) = (0, parse ?d ?h)"
    by (simp add: init_config_file_def parse_def Let_def)
  moreover have "first (parse ?d ?h) = first h"
    using parse_sections [OF assms(5), of ?h] by simp
  ultimately show ?thesis by (auto simp: cmp_config_def cmp_sections_iff)
qed

theorem config_dump_init_roundtrip_witness:
  "\<exists>t h'. run_state (dump_config ''/f'' \<lparr>first = [(''GENERAL'', [(''a'', ''b c'')])], current = None\<rparr>) (calm []) = (0, t) \<and>
    fst (run_state (init_config_file ''/f'' \<lparr>first = [], current = None\<rparr>) t) = (0, h') \<and>
    cmp_config (Some \<lparr>first = [(''GENERAL'', [(''a'', ''b c'')])], current = None\<rparr>) (Some h') = 0"
  by (rule config_dump_init_roundtrip)
     (simp_all add: comps_def is_dir_def wf_section_def wf_kv_def plain_def isspace_def dump_kv_def privconst)

section \<open>Queries\<close>

lemma scan_from_shift: "scan_from P i ss = map_option ((+) i) (scan_from P 0 ss)"
proof (induction ss arbitrary: i)
  case (Cons s ss)
  show ?case
  proof (cases "P (fst s)")
    case False
    with Cons.IH [of "Suc i"] Cons.IH [of "Suc 0"] show ?thesis
      by (cases "scan_from P 0 ss") simp_all
  qed simp
qed simp

lemma scan_from_Suc: "scan_from P (Suc 0) ss = map_option Suc (scan_from P 0 ss)"
  using scan_from_shift [of P "Suc 0" ss] by (cases "scan_from P 0 ss") simp_all

lemma scan_from_Some:
  "scan_from P 0 ss = Some j \<Longrightarrow> j < length ss \<and> P (fst (ss ! j))"
  by (induction ss arbitrary: j) (auto simp: scan_from_Suc split: if_splits)

lemma scan_from_None: "scan_from P i ss = None \<longleftrightarrow> (\<forall>s \<in> set ss. \<not> P (fst s))"
  by (induction ss arbitrary: i) auto

text \<open>The handle's current position is a section of the chain.\<close>

definition handle_ok :: "config_handle \<Rightarrow> bool" where
  "handle_ok h \<longleftrightarrow> (case current h of None \<Rightarrow> True | Some i \<Rightarrow> i < length (first h))"

lemma scan_name:
  assumes "scan_from (\<lambda>n. n = x) 0 ss = r"
  shows "case r of Some i \<Rightarrow> i < length ss \<and> fst (ss ! i) = x | None \<Rightarrow> x \<notin> fst ` set ss"
  using assms scan_from_Some [of "\<lambda>n. n = x" ss] scan_from_None [of "\<lambda>n. n = x" 0 ss]
  by (cases r) auto

lemma find_section_spec:
  assumes "handle_ok h" "find_section x h = (r, h')"
  shows "first h' = first h"
    and "case r of Some i \<Rightarrow> i < length (first h) \<and> fst (first h ! i) = x | None \<Rightarrow> x \<notin> fst ` set (first h)"
  using assms scan_name [OF refl, of x "first h"]
  by (auto simp: find_section_def handle_ok_def Let_def split: option.splits if_splits)

lemma map_of_nth_distinct:
  "distinct (map fst ss) \<Longrightarrow> i < length ss \<Longrightarrow> map_of ss (fst (ss ! i)) = Some (snd (ss ! i))"
  by (metis map_of_is_SomeI nth_mem prod.collapse)

text \<open>
  \<open>get_value\<close> looks a key up in the section of that name, whatever the current section is:
  with distinct section names the answer is the first value under that key, and null when the
  section or the key is missing. The handle keeps its sections and stays well formed.
\<close>

theorem get_value_lookup:
  assumes "handle_ok h" and "distinct (map fst (first h))"
  shows "fst (get_value sect name h) =
      (case map_of (first h) (config_trim sect) of None \<Rightarrow> None | Some kvs \<Rightarrow> map_of kvs name) \<and>
    first (snd (get_value sect name h)) = first h \<and> handle_ok (snd (get_value sect name h))"
proof -
  obtain r h' where f: "find_section (config_trim sect) h = (r, h')" by fastforce
  note S = find_section_spec [OF assms(1) f]
  show ?thesis
  proof (cases r)
    case None
    with S(2) have "map_of (first h) (config_trim sect) = None"
      by (simp add: map_of_eq_None_iff)
    with None f S(1) show ?thesis by (simp add: get_value_def handle_ok_def)
  next
    case (Some i)
    with S(2) have "i < length (first h)" "map_of (first h) (config_trim sect) = Some (snd (first h ! i))"
      using map_of_nth_distinct [OF assms(2), of i] by auto
    with Some f S(1) show ?thesis by (simp add: get_value_def handle_ok_def)
  qed
qed

theorem get_value_lookup_witness:
  "fst (get_value ''B'' ''k'' \<lparr>first = [(''A'', []), (''B'', [(''k'', ''v'')])], current = Some 0\<rparr>) = Some ''v''"
  using get_value_lookup [of "\<lparr>first = [(''A'', []), (''B'', [(''k'', ''v'')])], current = Some 0\<rparr>" "''B''" "''k''"]
  by (simp add: handle_ok_def config_trim_def isspace_def rtrim_def)

section \<open>Iterating over sections\<close>

text \<open>The loop the clients run: \<open>get_first_section_name\<close>, then \<open>get_next_section_name\<close> until null.\<close>

fun next_names :: "nat \<Rightarrow> string \<Rightarrow> config_handle \<Rightarrow> string list" where
  "next_names 0 b h = []"
| "next_names (Suc k) b h =
     (case get_next_section_name b h of
        (None, _) \<Rightarrow> []
      | (Some n, h') \<Rightarrow> n # next_names k b h')"

definition section_names :: "string \<Rightarrow> config_handle \<Rightarrow> string list" where
  "section_names b h =
     (case get_first_section_name b h of
        (None, _) \<Rightarrow> []
      | (Some n, h') \<Rightarrow> n # next_names (length (first h)) b h')"

abbreviation labelled :: "string \<Rightarrow> string \<Rightarrow> bool" where
  "labelled b n \<equiv> prefix (snprintf MAXLEN (config_trim b @ '' '' @ [CHR 0x22])) n"

lemma filter_scan:
  "case scan_from P 0 ss of
     None \<Rightarrow> filter P (map fst ss) = []
   | Some j \<Rightarrow> j < length ss \<and>
       filter P (map fst ss) = fst (ss ! j) # filter P (map fst (drop (Suc j) ss))"
  by (induction ss) (auto simp: scan_from_Suc split: option.splits)

lemma next_names_filter:
  "current h = Some i \<Longrightarrow> i < length (first h) \<Longrightarrow> length (first h) \<le> i + k \<Longrightarrow>
   next_names k b h = filter (labelled b) (map fst (drop (Suc i) (first h)))"
proof (induction k arbitrary: h i)
  case (Suc k)
  show ?case
  proof (cases "Suc i < length (first h)")
    case False
    with Suc.prems show ?thesis
      by (simp add: get_next_section_name_def find_base_section_def Let_def)
  next
    case True
    let ?r = "scan_from (labelled b) 0 (drop (Suc i) (first h))"
    have r: "scan_from (labelled b) (Suc i) (drop (Suc i) (first h)) = map_option ((+) (Suc i)) ?r"
      by (rule scan_from_shift)
    note F = filter_scan [where P = "labelled b" and ss = "drop (Suc i) (first h)"]
    show ?thesis
    proof (cases ?r)
      case None
      with F r True Suc.prems show ?thesis
        by (simp add: get_next_section_name_def find_base_section_def Let_def)
    next
      case (Some m)
      define j where "j = Suc i + m"
      with F Some r have j: "Suc i \<le> j" "j < length (first h)"
        "scan_from (labelled b) (Suc i) (drop (Suc i) (first h)) = Some j"
        "filter (labelled b) (map fst (drop (Suc i) (first h))) =
          fst (first h ! j) # filter (labelled b) (map fst (drop (Suc j) (first h)))"
        by (auto simp: add.commute)
      have "next_names k b (h\<lparr>current := Some j\<rparr>) = filter (labelled b) (map fst (drop (Suc j) (first h)))"
        using Suc.IH [of "h\<lparr>current := Some j\<rparr>" j] j Suc.prems by simp
      with j True Suc.prems show ?thesis
        by (simp add: get_next_section_name_def find_base_section_def Let_def)
    qed
  qed
qed simp

text \<open>
  Iterating with \<open>get_first_section_name\<close> and \<open>get_next_section_name\<close> visits exactly the
  sections named \<open>base "...\<close>, each once and in file order, from any state of the handle.
\<close>

theorem section_names_filter:
  "section_names b h = filter (labelled b) (map fst (first h))"
proof (cases "first h")
  case Nil
  then show ?thesis
    by (simp add: section_names_def get_first_section_name_def find_base_section_def Let_def)
next
  case (Cons s ss)
  let ?r = "scan_from (labelled b) 0 (first h)"
  note F = filter_scan [where P = "labelled b" and ss = "first h"]
  show ?thesis
  proof (cases ?r)
    case None
    with F Cons show ?thesis
      by (simp add: section_names_def get_first_section_name_def find_base_section_def Let_def)
  next
    case (Some j)
    with F have "j < length (first h)" "filter (labelled b) (map fst (first h)) =
          fst (first h ! j) # filter (labelled b) (map fst (drop (Suc j) (first h)))" by auto
    moreover from this(1) have "next_names (length (first h)) b (h\<lparr>current := Some j\<rparr>) =
        filter (labelled b) (map fst (drop (Suc j) (first h)))"
      using next_names_filter [of "h\<lparr>current := Some j\<rparr>" j "length (first h)" b] by simp
    ultimately show ?thesis
      using Some Cons by (simp add: section_names_def get_first_section_name_def find_base_section_def Let_def)
  qed
qed

text \<open>
  \<open>config_trim\<close> does not do what its comment says: a string that starts with white space
  is returned unchanged, trailing white space included; any other string loses its trailing
  white space and nothing else.
\<close>

lemma config_trim_behaviour:
  "config_trim (c # s) = (if isspace c then c # s else rtrim (c # s)) \<and>
   (\<exists>w. c # s = rtrim (c # s) @ w \<and> (\<forall>x \<in> set w. isspace x)) \<and>
   (rtrim (c # s) = [] \<or> \<not> isspace (last (rtrim (c # s))))"
proof -
  have "rev (c # s) = takeWhile isspace (rev (c # s)) @ dropWhile isspace (rev (c # s))"
    by (simp only: takeWhile_dropWhile_id)
  then have "rev (rev (c # s)) = rtrim (c # s) @ rev (takeWhile isspace (rev (c # s)))"
    unfolding rtrim_def rev_append [symmetric] by (rule arg_cong)
  then have "c # s = rtrim (c # s) @ rev (takeWhile isspace (rev (c # s)))"
    by (simp only: rev_rev_ident)
  moreover have "\<forall>x \<in> set (rev (takeWhile isspace (rev (c # s)))). isspace x"
    by (auto dest: set_takeWhileD)
  moreover have "rtrim (c # s) = [] \<or> \<not> isspace (last (rtrim (c # s)))"
    unfolding rtrim_def by (metis hd_dropWhile last_rev rev_is_Nil_conv)
  ultimately show ?thesis by (auto simp: config_trim_def)
qed

end
