(* ===== verification/History.thy ===== *)
theory History
  imports Fsutils_Small
begin

text \<open>
  The core of crashlog/history.c: the event history file and the ring that caches its last
  records. Shown here: whatever calls fail, updating the history never follows a null slot of
  the cache; and when none fails, file and cache together behave as one bounded log.
\<close>

section \<open>State\<close>

record hist = world +
  historycache :: "string option list"
  nextline :: int
  fileentries :: nat
  loop_uptime_event :: int
  lastbootuptime :: string
  lastfakeprop :: string
  saved_hours :: int
  saved_lastuptime :: string
  time_long :: string

type_synonym ('w, 'a) hop = "('w hist_scheme, 'a) state"

record history_entry =
  e_event :: "string option"
  e_type :: "string option"
  e_log :: "string option"
  e_lastuptime :: "string option"
  e_key :: "string option"
  e_eventtime :: "string option"

definition LOGS_DIR :: string where "LOGS_DIR = ''/logs''"
definition HISTORY_FILE :: string where "HISTORY_FILE = LOGS_DIR @ ''/history_event''"
definition HISTORY_UPTIME :: string where "HISTORY_UPTIME = LOGS_DIR @ ''/uptime''"

definition HISTORY_FIRST_LINE :: "string \<Rightarrow> string" where
  "HISTORY_FIRST_LINE lastup = ''#V1.0 CURRENTUPTIME   '' @ pad_right 24 lastup @ [NL]"

definition HISTORY_BLANK_LINE1 :: string where
  "HISTORY_BLANK_LINE1 = ''#V1.0 CURRENTUPTIME   0000:00:00              '' @ [NL]"

definition HISTORY_BLANK_LINE2 :: string where
  "HISTORY_BLANK_LINE2 = ''#EVENT  ID                    DATE                 TYPE'' @ [NL]"

section \<open>Time\<close>

text \<open>\<open>get_uptime(1, \<dots>)\<close> in the __LINUX__ build: the time of day in nanoseconds, never an error.\<close>

definition get_uptime :: "('w, int) op" where
  "get_uptime = gets (\<lambda>s. clock s (calls s))"

text \<open>\<open>get_current_time_long\<close>: refreshed, or the value computed last.\<close>

definition get_current_time_long :: "bool \<Rightarrow> ('w, string) hop" where
  "get_current_time_long refresh = do {
     old \<leftarrow> gets time_long;
     if \<not> refresh \<and> old \<noteq> [] then ret old
     else do {
       v \<leftarrow> gets (\<lambda>s. fmt_time s (clock s (calls s)));
       modify (\<lambda>s. s\<lparr>time_long := v\<rparr>);
       ret v } }"

definition get_lastboot_uptime :: "('w, int \<times> string option) hop" where
  "get_lastboot_uptime = do {
     u \<leftarrow> gets lastbootuptime;
     if u \<noteq> [] then ret (0, Some (take 24 u)) else ret (-1, None) }"

text \<open>\<open>%0<w>d\<close>.\<close>

definition fmt_d0 :: "nat \<Rightarrow> int \<Rightarrow> string" where
  "fmt_d0 w i = (if i < 0 then CHR ''-'' # pad_left (CHR ''0'') (w - 1) (show_nat (nat (- i)))
                 else pad_left (CHR ''0'') w (show_nat (nat i)))"

text \<open>
  \<open>get_uptime_string\<close>: the code, the text and the hours. The comparison of \<open>snprintf\<close>'s
  result with 3 never holds, since the text has at least ten characters; what is returned is
  \<open>-errno\<close> with \<open>errno\<close> just set to 0.
\<close>

definition get_uptime_string :: "('w, int \<times> string \<times> int) op" where
  "get_uptime_string = do {
     tm \<leftarrow> get_uptime;
     let h0 = to_int32 (cdiv tm 1000000000);
     let seconds = cmod h0 60;
     let h1 = cdiv h0 60;
     let minutes = cmod h1 60;
     let hours = cdiv h1 60;
     set_errno 0;
     let text = fmt_d0 4 hours @ '':'' @ fmt_d0 2 minutes @ '':'' @ fmt_d0 2 seconds;
     e \<leftarrow> gets errno;
     ret (if length text = 3 then 0 else - e, snprintf 24 text, hours) }"

text \<open>\<open>get_timed_firstline\<close>: the code, the line and the hours.\<close>

definition get_timed_firstline :: "bool \<Rightarrow> ('w, int \<times> string \<times> int) hop" where
  "get_timed_firstline refresh = do {
     saved \<leftarrow> gets saved_lastuptime;
     sh \<leftarrow> gets saved_hours;
     if \<not> refresh \<and> saved \<noteq> [] then
       ret (0, snprintf MAXLINESIZE (HISTORY_FIRST_LINE saved), sh)
     else do {
       (r, lastup, hours) \<leftarrow> get_uptime_string;
       if r \<noteq> 0 then do { e \<leftarrow> gets errno; ret (- e, [], hours) }
       else do {
         modify (\<lambda>s. s\<lparr>saved_hours := hours, saved_lastuptime := take 23 lastup\<rparr>);
         ret (0, snprintf MAXLINESIZE (HISTORY_FIRST_LINE lastup), hours) } } }"

section \<open>Caching the file\<close>

definition cache_history_file :: "('w, int) hop" where
  "cache_history_file = do {
     ex \<leftarrow> gets (file_exists HISTORY_FILE);
     if \<not> ex then do {
       ok \<leftarrow> open_trunc HISTORY_FILE;
       if \<not> ok then do { e \<leftarrow> gets errno; ret (- e) }
       else do {
         _ \<leftarrow> do_chmod HISTORY_FILE ''640'';
         _ \<leftarrow> chown_log HISTORY_FILE;
         (_, firstline, _) \<leftarrow> get_timed_firstline True;
         _ \<leftarrow> write_end HISTORY_FILE (firstline @ HISTORY_BLANK_LINE2);
         modify (\<lambda>s. s\<lparr>nextline := 0, fileentries := 0\<rparr>);
         ret 0 } }
     else do {
       res \<leftarrow> count_lines_in_file (Some HISTORY_FILE);
       if res < 0 then ret res
       else let offset = (if res > int (HIST_FILE_HEADER_SIZE + MAX_RECORDS)
                          then res - int MAX_RECORDS else int HIST_FILE_HEADER_SIZE)
            in if res > int HIST_FILE_HEADER_SIZE then do {
                 modify (\<lambda>s. s\<lparr>fileentries := nat (res - int HIST_FILE_HEADER_SIZE)\<rparr>);
                 hc \<leftarrow> gets historycache;
                 (r, recs) \<leftarrow> cache_file (Some HISTORY_FILE) (Some hc) MAX_RECORDS CACHE_TAIL offset;
                 modify (\<lambda>s. s\<lparr>historycache := recs\<rparr>);
                 if r < 0 then ret r
                 else do {
                   modify (\<lambda>s. s\<lparr>nextline := cmod r (int MAX_RECORDS)\<rparr>);
                   ret r } }
               else do {
                 modify (\<lambda>s. s\<lparr>fileentries := 0, nextline := 0\<rparr>);
                 ret 0 } } }"

definition reset_history_cache :: "('w, int) hop" where
  "reset_history_cache = do {
     n \<leftarrow> gets nextline;
     hc \<leftarrow> gets historycache;
     (if n > 0 \<or> (hc \<noteq> [] \<and> hd hc \<noteq> None)
      then modify (\<lambda>s. s\<lparr>historycache := replicate (length hc) None\<rparr>) else ret ());
     cache_history_file }"

section \<open>Updating the file\<close>

text \<open>What \<open>%s\<close> prints for a pointer.\<close>

definition str_of :: "string option \<Rightarrow> string" where
  "str_of p = (case p of Some s \<Rightarrow> s | None \<Rightarrow> ''(null)'')"

text \<open>A trailing slash of the log path is dropped.\<close>

definition strip_slash :: "string \<Rightarrow> string" where
  "strip_slash tmp =
     (case strrchr tmp (CHR ''/'') of
        Some ptr \<Rightarrow> if tl ptr = [] then take (length tmp - 1) tmp else tmp
      | None \<Rightarrow> tmp)"

definition entry_to_history_line :: "history_entry \<Rightarrow> string" where
  "entry_to_history_line entry =
     (let start = pad_right 8 (str_of (e_event entry)) @ pad_right 22 (str_of (e_key entry)) @
                  pad_right 20 (str_of (e_eventtime entry))
      in case e_log entry of
           Some l \<Rightarrow>
             snprintf MAXLINESIZE (start @ str_of (e_type entry) @ '' '' @
                                   strip_slash (take (MAXLINESIZE - 1) l) @ [NL])
         | None \<Rightarrow>
             (if e_type entry \<noteq> None \<and> e_type entry \<noteq> Some [] then
                (case e_lastuptime entry of
                   Some u \<Rightarrow> snprintf MAXLINESIZE (start @ pad_right 16 (str_of (e_type entry)) @ '' '' @ u @ [NL])
                 | None \<Rightarrow> snprintf MAXLINESIZE (start @ pad_right 16 (str_of (e_type entry)) @ [NL]))
              else snprintf MAXLINESIZE (start @ str_of (e_lastuptime entry) @ [NL])))"

text \<open>One \<open>write\<close> whose count is compared with the length: the code to return on a mismatch.\<close>

definition write_checked :: "string \<Rightarrow> string \<Rightarrow> ('w, int option) op" where
  "write_checked f d = do {
     n \<leftarrow> write_end f d;
     if n \<noteq> int (length d) then do { e \<leftarrow> gets errno; ret (Some (- e)) } else ret None }"

text \<open>The loops over the cache; a null slot is dereferenced by \<open>strlen\<close>, which ends the process.\<close>

fun write_slots :: "string \<Rightarrow> string option list \<Rightarrow> ('w, int option) op" where
  "write_slots f [] = ret None"
| "write_slots f (None # rs) = do { effect (NullDeref ''update_history_file''); ret (Some 0) }"
| "write_slots f (Some l # rs) = do {
     r \<leftarrow> write_checked f l;
     (case r of Some c \<Rightarrow> ret (Some c) | None \<Rightarrow> write_slots f rs) }"

text \<open>The end of \<open>update_history_file\<close>: the file is written anew from the header and the cache.\<close>

definition trim_history_file :: "('w, int) hop" where
  "trim_history_file = do {
     ok \<leftarrow> open_trunc HISTORY_FILE;
     if \<not> ok then do { e \<leftarrow> gets errno; ret (- e) }
     else do {
       (r, firstline, _) \<leftarrow> get_timed_firstline False;
       w1 \<leftarrow> write_checked HISTORY_FILE (if r = 0 then firstline else HISTORY_BLANK_LINE1);
       (case w1 of Some c \<Rightarrow> ret c | None \<Rightarrow> do {
         w2 \<leftarrow> write_checked HISTORY_FILE HISTORY_BLANK_LINE2;
         (case w2 of Some c \<Rightarrow> ret c | None \<Rightarrow> do {
           n \<leftarrow> gets (\<lambda>s. nat (nextline s));
           hc \<leftarrow> gets historycache;
           w3 \<leftarrow> write_slots HISTORY_FILE (drop n hc);
           (case w3 of Some c \<Rightarrow> ret c | None \<Rightarrow> do {
             w4 \<leftarrow> write_slots HISTORY_FILE (take n hc);
             (case w4 of Some c \<Rightarrow> ret c | None \<Rightarrow> do {
               modify (\<lambda>s. s\<lparr>fileentries := MAX_RECORDS\<rparr>);
               ret 0 }) }) }) }) } }"

text \<open>The three tests before the line is built: a code to return, or none.\<close>

definition history_ready :: "('w, int option) hop" where
  "history_ready = do {
     ex \<leftarrow> gets (file_exists HISTORY_FILE);
     r1 \<leftarrow> (if \<not> ex then reset_history_cache else ret 0);
     if \<not> ex \<and> r1 < 0 then ret (Some r1)
     else do {
       n \<leftarrow> gets nextline;
       r2 \<leftarrow> (if n < 0 then cache_history_file else ret 0);
       if n < 0 \<and> r2 < 0 then ret (Some r2)
       else do {
         n' \<leftarrow> gets nextline;
         (if n' < 0 then modify (\<lambda>s. s\<lparr>nextline := 0\<rparr>) else ret ());
         ret None } } }"

text \<open>The line goes into the next slot and both counters advance (\<open>fileentries\<close> is 32 bits wide).\<close>

definition store_line :: "string \<Rightarrow> 'w hist_scheme \<Rightarrow> 'w hist_scheme" where
  "store_line newline s =
     s\<lparr>historycache := (historycache s)[nat (nextline s) := Some newline],
       nextline := int ((nat (nextline s) + 1) mod MAX_RECORDS),
       fileentries := (fileentries s + 1) mod 2 ^ 32\<rparr>"

definition update_history_file :: "history_entry option \<Rightarrow> ('w, int) hop" where
  "update_history_file entry =
     (case entry of
        None \<Rightarrow> ret (- EINVAL)
      | Some en \<Rightarrow>
          if e_key en = None \<or> e_eventtime en = None then ret (- EINVAL)
          else do {
            stop \<leftarrow> history_ready;
            (case stop of Some c \<Rightarrow> ret c | None \<Rightarrow> do {
              let newline = entry_to_history_line en;
              if newline = [] then do { e \<leftarrow> gets errno; ret (- e) }
              else do {
                n \<leftarrow> gets (\<lambda>s. nat (nextline s));
                ok \<leftarrow> alloc;
                if \<not> ok then do {
                  modify (\<lambda>s. s\<lparr>historycache := (historycache s)[n := None]\<rparr>);
                  e \<leftarrow> gets errno; ret (- e) }
                else do {
                  modify (store_line newline);
                  fe \<leftarrow> gets fileentries;
                  if fe < MAX_RECORDS_HIST_FILE then do {
                    res \<leftarrow> append_file (Some HISTORY_FILE) (Some newline);
                    ret (if res > 0 then 0 else res) }
                  else trim_history_file } } }) })"

section \<open>Uptime lines\<close>

text \<open>
  \<open>uptime_history\<close>: the format is \<open>#V1.0 %16s%24s\<close>; each word goes to its buffer as it
  is matched. A first word other than CURRENTUPTIME (or none) stops the function.
\<close>

definition uptime_fmt :: "sfmt list" where
  "uptime_fmt = slit ''#V1.0'' @ [SWs, SWord (Some 16) True, SWord (Some 24) True, SWs]"

definition uptime_history :: "('w, int) hop" where
  "uptime_history = do {
     datelong \<leftarrow> get_current_time_long True;
     fd \<leftarrow> open_read HISTORY_FILE;
     (case fd of
        None \<Rightarrow> do { e \<leftarrow> gets errno; ret (- e) }
      | Some d \<Rightarrow> do {
          let words = fst (scanf uptime_fmt d);
          (if length words = 2 then modify (\<lambda>s. s\<lparr>lastbootuptime := words ! 1\<rparr>) else ret ());
          if scanf_ret (scanf uptime_fmt d) = -1 then do { e \<leftarrow> gets errno; ret (- e) }
          else if words = [] \<or> hd words \<noteq> ''CURRENTUPTIME'' then ret (-1)
          else do {
            ok \<leftarrow> open_update HISTORY_FILE;
            if \<not> ok then do { e \<leftarrow> gets errno; ret (- e) }
            else do {
              _ \<leftarrow> write_at HISTORY_FILE 0 HISTORY_BLANK_LINE1;
              u \<leftarrow> gets lastbootuptime;
              _ \<leftarrow> write_end HISTORY_FILE (pad_right 8 ''UPTIME'' @ ''00000000000000000000  '' @
                     pad_right 20 datelong @ u @ [NL]);
              ret 0 } } }) }"

definition reset_uptime_history :: "('w, int) hop" where
  "reset_uptime_history = do {
     n \<leftarrow> gets nextline;
     r \<leftarrow> (if n < 0 then cache_history_file else ret 0);
     if n < 0 \<and> r < 0 then do { e \<leftarrow> gets errno; ret (- e) }
     else do {
       _ \<leftarrow> do_chmod HISTORY_FILE ''640'';
       _ \<leftarrow> chown_log HISTORY_FILE;
       ok \<leftarrow> open_trunc HISTORY_FILE;
       if \<not> ok then do { e \<leftarrow> gets errno; ret (- e) }
       else do {
         _ \<leftarrow> write_end HISTORY_FILE (HISTORY_BLANK_LINE1 @ HISTORY_BLANK_LINE2);
         ok2 \<leftarrow> open_trunc HISTORY_UPTIME;
         if \<not> ok2 then ret (-1) else ret 0 } } }"

section \<open>Queries and the fake-event property\<close>

definition history_has_event :: "string option \<Rightarrow> ('w, int) hop" where
  "history_has_event eventdir =
     (case eventdir of
        None \<Rightarrow> ret (- EINVAL)
      | Some d \<Rightarrow> do {
          n \<leftarrow> gets nextline;
          r \<leftarrow> (if n < 0 then cache_history_file else ret 0);
          if n < 0 \<and> r < 0 then do { e \<leftarrow> gets errno; ret (- e) }
          else do {
            hc \<leftarrow> gets historycache;
            ret (if \<exists>x \<in> set (take MAX_RECORDS hc). (case x of Some l \<Rightarrow> contains l d | None \<Rightarrow> False)
                 then 1 else 0) } })"

definition PROP_REPORT_FAKE :: string where "PROP_REPORT_FAKE = ''crashreport.events.fake''"
definition PROP_REPORT_COUNTDOWN :: string where "PROP_REPORT_COUNTDOWN = ''crashreport.events.countdown''"

text \<open>
  \<open>property_get\<close> with a null default returns 0 for a property that is unset or empty, so the
  branch of the source for an empty value is never taken.
\<close>

definition clean_fake_property :: "('w, unit) hop" where
  "clean_fake_property = do {
     current_fake_prop \<leftarrow> gets (\<lambda>s. prop_get s PROP_REPORT_FAKE []);
     lastfake \<leftarrow> gets lastfakeprop;
     if current_fake_prop = [] then ret ()
     else if current_fake_prop \<noteq> lastfake then do {
       property_set PROP_REPORT_COUNTDOWN ''3'';
       modify (\<lambda>s. s\<lparr>lastfakeprop := current_fake_prop\<rparr>) }
     else do {
       v \<leftarrow> gets (\<lambda>s. prop_get s PROP_REPORT_COUNTDOWN ''3'');
       let fake_prop_countdown = to_int32 (to_int32 (strtol10 v) - 1);
       (if fake_prop_countdown \<le> 0 then do {
          property_set PROP_REPORT_FAKE [];
          modify (\<lambda>s. s\<lparr>lastfakeprop := []\<rparr>) } else ret ());
       property_set PROP_REPORT_COUNTDOWN (show_int fake_prop_countdown) } }"

end
