(* ===== verification/Daemon_State.thy ===== *)
theory Daemon_State
  imports Config History
begin

text \<open>
  The static variables of the components above \<open>history.c\<close>, as one record, and the utilities
  every component calls: running commands (crashlog/utils.c) and listing properties as JSON
  (crashlog/getbulkprops.c). The last fields are not variables of the program but the parts of
  its surroundings it consults: regular expressions, the SHA-1 library, what uninitialised memory
  holds, the output of a command, and the space on a partition.
\<close>

record daemon = hist +
  gbuildversion :: string
  gboardversion :: string
  guuid :: string
  gmaxfiles :: int
  gabortcleansd :: bool
  crashreport_available :: int
  modem_values :: "string list"
  ingredients_disabled :: bool
  old_values :: "config_handle option"
  footprint :: string
  imei :: string
  sha_ready :: bool
  sha_inputs :: "string list"
  partlogfull_errorset :: bool
  pytimechart_present :: bool
  gcurrent_uptime_hour_frequency :: int
  regex :: "string \<Rightarrow> (string \<Rightarrow> bool) option"
  digest :: "string list \<Rightarrow> string"
  garbage :: string
  cmd_output :: "nat \<Rightarrow> string"
  statfs :: "string \<Rightarrow> (nat \<times> nat) option"

type_synonym ('w, 'a) dop = "('w daemon_scheme, 'a) state"

section \<open>Commands\<close>

definition is_sep :: "char \<Rightarrow> bool" where
  "is_sep c \<longleftrightarrow> c \<in> {CHR '' '', CHR 0x09, NL}"

text \<open>The tokenizer of \<open>run_command\<close>: at most \<open>n\<close> words (\<open>max_args\<close> is 63).\<close>

function tokenize :: "nat \<Rightarrow> string \<Rightarrow> string list" where
  "tokenize n s =
     (if s = [] \<or> n = 0 then []
      else let t = dropWhile is_sep s
           in takeWhile (\<lambda>c. \<not> is_sep c) t # tokenize (n - 1) (dropWhile (\<lambda>c. \<not> is_sep c) t))"
  by pat_completeness auto
termination by (relation "measure fst") auto

declare tokenize.simps [simp del]

text \<open>
  \<open>run_command_array\<close>: the status \<open>waitpid\<close> reports, or -1 when the child cannot be started,
  waited for, or does not end in time. The outcome comes from the fault oracle: a child that
  works exits with 0, \<open>Short k\<close> stands for exit code \<open>k\<close>.
\<close>

definition run_command_array :: "string list \<Rightarrow> nat \<Rightarrow> ('w, int) op" where
  "run_command_array args timeout = do {
     f \<leftarrow> syscall;
     (case f of
        Fails e \<Rightarrow> ret (-1)
      | Works \<Rightarrow> do { effect (Command (concat (map (\<lambda>a. a @ '' '') args))); ret 0 }
      | Short k \<Rightarrow> do { effect (Command (concat (map (\<lambda>a. a @ '' '') args))); ret (256 * int (k mod 256)) }) }"

definition run_command :: "string \<Rightarrow> nat \<Rightarrow> ('w, int) op" where
  "run_command command timeout = do {
     ok \<leftarrow> alloc;
     if \<not> ok then ret (-1) else run_command_array (tokenize 63 command) timeout }"

definition PROP_BOOT_STATUS :: string where "PROP_BOOT_STATUS = ''sys.boot_completed''"

text \<open>
  \<open>check_package_presence\<close>: \<open>buffer\<close> is what the command wrote to the pipe; the calls on
  descriptors before it are one fallible call here.
\<close>

definition check_package_presence :: "string option \<Rightarrow> ('w, int) dop" where
  "check_package_presence package =
     (case package of
        None \<Rightarrow> ret (-1)
      | Some p \<Rightarrow>
          if p = [] then ret (-1)
          else do {
            f \<leftarrow> syscall;
            if f \<noteq> Works then ret (-1)
            else do {
              status \<leftarrow> run_command (snprintf PATHMAX (''pm list packages -f '' @ p)) 15;
              buffer \<leftarrow> gets (\<lambda>s. take MAXLINESIZE (cmd_output s (calls s)));
              if status < 0 then ret (-1)
              else if contains (cstr buffer) p then ret 1
              else if buffer \<noteq> [] then ret (-1)
              else ret 0 } })"

definition is_crashreport_available :: "('w, bool) dop" where
  "is_crashreport_available = do {
     c \<leftarrow> gets crashreport_available;
     if c \<ge> 0 then ret (c \<noteq> 0)
     else do {
       prop \<leftarrow> gets (\<lambda>s. prop_get s PROP_BOOT_STATUS []);
       if prop \<noteq> [] \<and> hd prop = CHR ''1'' then do {
         r \<leftarrow> check_package_presence (Some ''com.intel.crashreport'');
         modify (\<lambda>s. s\<lparr>crashreport_available := r\<rparr>);
         ret (r > 0) }
       else ret False } }"

section \<open>Words come through\<close>

lemma tokenize_word:
  assumes "w \<noteq> []" "\<forall>c \<in> set w. \<not> is_sep c" "0 < n"
  shows "tokenize n (w @ CHR '' '' # r) = w # tokenize (n - 1) (CHR '' '' # r)"
    and "tokenize n w = [w]"
proof -
  have d: "dropWhile is_sep (w @ u) = w @ u" for u
    using assms(1,2) by (cases w) auto
  have t: "takeWhile (\<lambda>c. \<not> is_sep c) (w @ u) = w @ takeWhile (\<lambda>c. \<not> is_sep c) u"
    "dropWhile (\<lambda>c. \<not> is_sep c) (w @ u) = dropWhile (\<lambda>c. \<not> is_sep c) u" for u
    using assms(2) by (simp_all add: takeWhile_append2 dropWhile_append2)
  have sp: "is_sep (CHR '' '')" by (simp add: is_sep_def)
  show "tokenize n (w @ CHR '' '' # r) = w # tokenize (n - 1) (CHR '' '' # r)"
    using assms(3) d [of "CHR '' '' # r"] t [of "CHR '' '' # r"] sp
    by (subst tokenize.simps) (simp add: Let_def)
  show "tokenize n w = [w]"
    using assms(1,3) d [of "[]"] t [of "[]"]
    by (subst tokenize.simps) (simp add: Let_def tokenize.simps)
qed

lemma tokenize_space: "0 < n \<Longrightarrow> r \<noteq> [] \<Longrightarrow> tokenize n (CHR '' '' # r) = tokenize n r"
  by (simp add: tokenize.simps [of n "CHR '' '' # r"] tokenize.simps [of n r] is_sep_def Let_def)

fun join_words :: "string list \<Rightarrow> string" where
  "join_words [] = []"
| "join_words [w] = w"
| "join_words (w # ws) = w @ CHR '' '' # join_words ws"

lemma join_words_nonempty: "ws \<noteq> [] \<Longrightarrow> \<forall>w \<in> set ws. w \<noteq> [] \<Longrightarrow> join_words ws \<noteq> []"
  by (induction ws rule: join_words.induct) auto

text \<open>
  \<open>run_command\<close> splits a command line into its words: words joined by single spaces come
  back as they were, up to 63 of them; a trailing blank adds an empty argument.
\<close>

theorem tokenize_join_words:
  assumes "\<forall>w \<in> set ws. w \<noteq> [] \<and> (\<forall>c \<in> set w. \<not> is_sep c)" and "length ws \<le> n"
  shows "tokenize n (join_words ws) = ws \<and>
    (ws \<noteq> [] \<and> length ws < n \<longrightarrow> tokenize n (join_words ws @ '' '') = ws @ [[]])"
  using assms
proof (induction ws arbitrary: n rule: join_words.induct)
  case 1
  then show ?case by (simp add: tokenize.simps)
next
  case (2 w)
  have "tokenize (n - 1) '' '' = [[]]" if "1 < n"
    using that by (simp add: tokenize.simps is_sep_def Let_def)
  with 2 show ?case
    using tokenize_word(1) [of w n "[]"] tokenize_word(2) [of w n] by auto
next
  case (3 w w' ws)
  let ?r = "join_words (w' # ws)"
  have r: "?r \<noteq> []" using 3(2) by (intro join_words_nonempty) auto
  have IH: "tokenize (n - 1) ?r = w' # ws \<and>
      (length (w' # ws) < n - 1 \<longrightarrow> tokenize (n - 1) (?r @ '' '') = (w' # ws) @ [[]])"
    using "3.IH" [of "n - 1"] 3(2,3) by auto
  have w: "w \<noteq> []" "\<forall>c \<in> set w. \<not> is_sep c" "0 < n" "0 < n - 1" using 3(2,3) by auto
  show ?case
    using IH r tokenize_word(1) [OF w(1,2,3), of ?r] tokenize_word(1) [OF w(1,2,3), of "?r @ '' ''"]
      tokenize_space [OF w(4) r] tokenize_space [OF w(4), of "?r @ '' ''"]
    by auto
qed

theorem tokenize_join_words_witness:
  "tokenize 63 ''am broadcast'' = [''am'', ''broadcast''] \<and>
   tokenize 63 ''am broadcast '' = [''am'', ''broadcast'', []]"
  using tokenize_join_words [of "[''am'', ''broadcast'']" 63] by (simp add: is_sep_def)

section \<open>Properties as JSON\<close>

definition is_match :: "(string \<Rightarrow> (string \<Rightarrow> bool) option) \<Rightarrow> string \<Rightarrow> string \<Rightarrow> bool" where
  "is_match rx input pattern = (case rx pattern of None \<Rightarrow> False | Some m \<Rightarrow> m input)"

definition quote :: "string \<Rightarrow> string" where
  "quote s = [CHR 0x22] @ s @ [CHR 0x22]"

text \<open>\<open>filter_properties\<close> through \<open>property_list\<close>: the items of the list, in order.\<close>

definition list_properties :: "(string \<Rightarrow> (string \<Rightarrow> bool) option) \<Rightarrow> string \<Rightarrow>
    (string \<times> string) list \<Rightarrow> string list" where
  "list_properties rx pattern ps =
     map (\<lambda>(k, v). quote k @ '':'' @ quote v) (filter (\<lambda>(k, v). is_match rx k pattern) ps)"

text \<open>\<open>strncat(dst, src, n)\<close>.\<close>

definition strncat :: "string \<Rightarrow> string \<Rightarrow> nat \<Rightarrow> string" where
  "strncat dst src n = dst @ take n src"

fun json_items :: "nat \<Rightarrow> string \<Rightarrow> string list \<Rightarrow> string" where
  "json_items sz acc [] = acc"
| "json_items sz acc [x] = strncat acc x (sz - length acc - 1)"
| "json_items sz acc (x # xs) =
     (let a = strncat acc x (sz - length acc - 1)
      in json_items sz (strncat a '','' (sz - length a - 1)) xs)"

definition json_text :: "string list \<Rightarrow> string" where
  "json_text items =
     (let sz = (max 1 (length items) - 1) * 1 + 1 + 1 + sum_list (map length items) + 1;
          body = json_items sz (take (sz - 1) ''{'') items
      in strncat body ''}'' (sz - length body - 1))"

definition retrieve_props_json :: "string option \<Rightarrow> ('w, string option) dop" where
  "retrieve_props_json pattern =
     (case pattern of
        None \<Rightarrow> ret None
      | Some f \<Rightarrow> do {
          ok \<leftarrow> alloc;
          if \<not> ok then ret None
          else do {
            ok2 \<leftarrow> alloc;
            if \<not> ok2 then ret None
            else gets (\<lambda>s. Some (json_text (list_properties (regex s) f (props s)))) } })"

fun commas :: "string list \<Rightarrow> string" where
  "commas [] = []"
| "commas [x] = x"
| "commas (x # xs) = x @ '','' @ commas xs"

lemma json_items_room:
  "length acc + length (commas xs) < sz \<Longrightarrow> json_items sz acc xs = acc @ commas xs"
proof (induction sz acc xs rule: json_items.induct)
  case (3 sz acc x y xs)
  then have "strncat acc x (sz - length acc - 1) = acc @ x" by (simp add: strncat_def)
  moreover have "strncat (acc @ x) '','' (sz - length (acc @ x) - 1) = acc @ x @ '',''"
    using 3 by (simp add: strncat_def)
  ultimately show ?case using 3 by (simp add: Let_def)
qed (simp_all add: strncat_def)

lemma length_commas: "length (commas xs) = sum_list (map length xs) + (max 1 (length xs) - 1)"
  by (induction xs rule: commas.induct) auto

text \<open>
  The buffer of \<open>retrieve_props_json\<close> is exactly large enough: no \<open>strncat\<close> cuts anything,
  and the result is the comma-separated items between braces.
\<close>

theorem json_text_exact: "json_text items = ''{'' @ commas items @ ''}''"
proof -
  let ?n = "(max 1 (length items) - 1) * 1 + 1 + 1 + sum_list (map length items) + 1"
  have "json_items ?n ''{'' items = ''{'' @ commas items"
    by (rule json_items_room) (simp add: length_commas)
  then show ?thesis
    by (simp add: json_text_def Let_def strncat_def length_commas)
qed

end
