(* ===== verification/Ingredients.thy ===== *)
theory Ingredients
  imports Daemon_State
begin

text \<open>
  crashlog/ingredients.c: the list of software versions kept in ingredients.txt, rebuilt from a
  configuration file and the Android properties and written only when it changed. The default
  build is modelled, in which \<open>fetch_dmi_properties\<close> does nothing. \<open>check_config\<close> only logs.
\<close>

definition UNDEF_INGR :: string where "UNDEF_INGR = ''unknown''"

definition INGREDIENTS_CONFIG :: string where "INGREDIENTS_CONFIG = ''/system/vendor/etc/ingredients.conf''"
definition INGREDIENTS_FILE :: string where "INGREDIENTS_FILE = LOGS_DIR @ ''/ingredients.txt''"

text \<open>The table \<open>modem_config\<close>: names and properties; the values are in the state.\<close>

definition modem_config :: "(string \<times> string) list" where
  "modem_config = [(''Modem'', ''gsm.version.baseband''), (''ModemExt'', ''gsm.version.baseband1'')]"

definition empty_handle :: config_handle where
  "empty_handle = \<lparr>first = [], current = None\<rparr>"

definition parse_ingredients_file :: "string \<Rightarrow> ('w, config_handle option) op" where
  "parse_ingredients_file file_path = do {
     ok \<leftarrow> alloc;
     if \<not> ok then ret None
     else do {
       (r, h) \<leftarrow> init_config_file file_path empty_handle;
       ret (if r < 0 then None else Some h) } }"

section \<open>Modems\<close>

definition update_modem_name :: "nat \<Rightarrow> ('w, int) dop" where
  "update_modem_name i = do {
     property \<leftarrow> gets (\<lambda>s. prop_get s (snd (modem_config ! i)) UNDEF_INGR);
     vs \<leftarrow> gets modem_values;
     if property \<noteq> UNDEF_INGR \<and> vs ! i \<noteq> property then do {
       modify (\<lambda>s. s\<lparr>modem_values := (modem_values s)[i := snprintf PROPERTY_VALUE_MAX property]\<rparr>);
       ret 1 }
     else ret 0 }"

definition get_modem_section_name :: "config_handle \<Rightarrow> ('w, string \<times> config_handle) op" where
  "get_modem_section_name h = do {
     v \<leftarrow> gets (\<lambda>s. prop_get s ''persist.radio.multisim.config'' ''UNKNOWN'');
     if v = ''UNKNOWN'' then ret (''MODEM'', h)
     else let name = snprintf PROPERTY_VALUE_MAX (''MODEM.'' @ map toupper v)
          in (case find_section name h of
                (Some _, h') \<Rightarrow> ret (name, h')
              | (None, h') \<Rightarrow> ret (''MODEM'', h')) }"

fun load_modem_values :: "nat \<Rightarrow> string \<Rightarrow> config_handle \<Rightarrow> ('w, config_handle) dop" where
  "load_modem_values 0 name h = ret h"
| "load_modem_values (Suc i) name h =
     (case get_value name (fst (modem_config ! i)) h of
        (None, h') \<Rightarrow> load_modem_values i name h'
      | (Some v, h') \<Rightarrow> do {
          modify (\<lambda>s. s\<lparr>modem_values := (modem_values s)[i := snprintf PROPERTY_VALUE_MAX v]\<rparr>);
          load_modem_values i name h' })"

definition load_modem_config :: "config_handle option \<Rightarrow> ('w, config_handle option) dop" where
  "load_modem_config handle =
     (case handle of
        None \<Rightarrow> ret None
      | Some h \<Rightarrow> do {
          (name, h1) \<leftarrow> get_modem_section_name h;
          h2 \<leftarrow> load_modem_values (length modem_config) name h1;
          ret (Some h2) })"

text \<open>\<open>get_modem_property\<close>: the loop runs from the last instance down, the last match counts.\<close>

fun modem_property_loop :: "nat \<Rightarrow> string \<Rightarrow> string \<Rightarrow> ('w, string) dop" where
  "modem_property_loop 0 property_name v = ret v"
| "modem_property_loop (Suc i) property_name v =
     (if property_name \<noteq> fst (modem_config ! i) then modem_property_loop i property_name v
      else do {
        _ \<leftarrow> update_modem_name i;
        v' \<leftarrow> gets (\<lambda>s. modem_values s ! i);
        modem_property_loop i property_name v' })"

definition get_modem_property :: "string \<Rightarrow> ('w, int \<times> string) dop" where
  "get_modem_property property_name = do {
     v \<leftarrow> modem_property_loop (length modem_config) property_name UNDEF_INGR;
     ret (if v = UNDEF_INGR then -1 else 0, v) }"

section \<open>Sections\<close>

fun fetch_android_properties :: "kv list \<Rightarrow> ('w, kv list) dop" where
  "fetch_android_properties [] = ret []"
| "fetch_android_properties ((k, v) # kvs) = do {
     b \<leftarrow> gets (\<lambda>s. prop_get s k UNDEF_INGR);
     r \<leftarrow> fetch_android_properties kvs;
     ret ((k, b) # r) }"

fun fetch_bulk_android_properties :: "kv list \<Rightarrow> ('w, int \<times> kv list) dop" where
  "fetch_bulk_android_properties [] = ret (1, [])"
| "fetch_bulk_android_properties ((k, v) # kvs) = do {
     j \<leftarrow> retrieve_props_json (Some k);
     (st, r) \<leftarrow> fetch_bulk_android_properties kvs;
     (case j of
        None \<Rightarrow> ret (0, (k, ''null'') # r)
      | Some x \<Rightarrow> ret (st, (k, x) # r)) }"

fun fetch_modem_properties :: "kv list \<Rightarrow> ('w, kv list) dop" where
  "fetch_modem_properties [] = ret []"
| "fetch_modem_properties ((k, v) # kvs) = do {
     (_, b) \<leftarrow> get_modem_property k;
     r \<leftarrow> fetch_modem_properties kvs;
     ret ((k, b) # r) }"

text \<open>One section of \<open>fetch_ingredients\<close>; a name can meet several of the tests.\<close>

definition fetch_section :: "string \<Rightarrow> csection \<Rightarrow> ('w, csection \<times> bool) dop" where
  "fetch_section modem_section s = do {
     k1 \<leftarrow> (if fst s = ''GETPROP'' then fetch_android_properties (snd s) else ret (snd s));
     (st, k2) \<leftarrow> (if fst s = ''GETBULKPROPS'' then fetch_bulk_android_properties k1 else ret (1, k1));
     k3 \<leftarrow> (if fst s = modem_section then fetch_modem_properties k2 else ret k2);
     ret ((fst s, k3), st > 0) }"

fun fetch_sections :: "string \<Rightarrow> csection list \<Rightarrow> ('w, csection list \<times> int) dop" where
  "fetch_sections m [] = ret ([], 1)"
| "fetch_sections m (s # ss) = do {
     (s', ok) \<leftarrow> fetch_section m s;
     (ss', r) \<leftarrow> fetch_sections m ss;
     ret (s' # ss', if ok then r else 0) }"

definition fetch_ingredients :: "config_handle \<Rightarrow> ('w, int \<times> config_handle) dop" where
  "fetch_ingredients h = do {
     (m, h1) \<leftarrow> get_modem_section_name h;
     (ss, r) \<leftarrow> fetch_sections m (first h1);
     ret (r, h1\<lparr>first := ss\<rparr>) }"

section \<open>The file\<close>

definition check_ingredients_file :: "('w, unit) dop" where
  "check_ingredients_file = do {
     off \<leftarrow> gets ingredients_disabled;
     if off then ret ()
     else do {
       ex \<leftarrow> gets (file_exists INGREDIENTS_CONFIG);
       if \<not> ex then modify (\<lambda>s. s\<lparr>ingredients_disabled := True\<rparr>)
       else do {
         old \<leftarrow> gets old_values;
         (if old = None then do {
            o1 \<leftarrow> parse_ingredients_file INGREDIENTS_FILE;
            o2 \<leftarrow> load_modem_config o1;
            modify (\<lambda>s. s\<lparr>old_values := o2\<rparr>) }
          else ret ());
         new \<leftarrow> parse_ingredients_file INGREDIENTS_CONFIG;
         (case new of
            None \<Rightarrow> ret ()
          | Some n0 \<Rightarrow> do {
              (_, n) \<leftarrow> fetch_ingredients n0;
              o3 \<leftarrow> gets old_values;
              if cmp_config o3 (Some n) \<noteq> 0 then do {
                r \<leftarrow> dump_config INGREDIENTS_FILE n;
                if r \<noteq> 0 then ret ()
                else do {
                  modify (\<lambda>s. s\<lparr>old_values := Some n\<rparr>);
                  _ \<leftarrow> do_chmod INGREDIENTS_FILE ''644'';
                  _ \<leftarrow> chown_log INGREDIENTS_FILE;
                  ret () } }
              else ret () }) } } }"

fun refresh_loop :: "nat \<Rightarrow> ('w, int) dop" where
  "refresh_loop 0 = ret 0"
| "refresh_loop (Suc i) = do {
     r \<leftarrow> update_modem_name i;
     if r > 0 then do { check_ingredients_file; ret 1 } else refresh_loop i }"

definition conditional_ingredients_refresh :: "('w, int) dop" where
  "conditional_ingredients_refresh = refresh_loop (length modem_config)"

definition fetch_modem_name :: "int \<Rightarrow> ('w, int \<times> string) dop" where
  "fetch_modem_name i =
     (if i \<ge> int (length modem_config) \<or> i < 0 then ret (- EINVAL, UNDEF_INGR)
      else do {
        r \<leftarrow> update_modem_name (nat i);
        (if r \<noteq> 0 then check_ingredients_file else ret ());
        name \<leftarrow> gets (\<lambda>s. modem_values s ! nat i);
        ret (if name = UNDEF_INGR then -1 else if r \<noteq> 0 then 1 else 0, name) })"

end
