(* ===== verification/Ctext.thy ===== *)
theory Ctext
  imports Prelude
begin

text \<open>
  Texts of C: \<open>strtok\<close>, numbers in any base with \<open>strtoul\<close>, and the hexadecimal conversions of printf.
\<close>

text \<open>\<open>strtok\<close> called until it returns a null pointer: the words between separators.\<close>

fun split_on :: "char \<Rightarrow> string \<Rightarrow> string list" where
  "split_on c [] = [[]]"
| "split_on c (x # xs) =
     (if x = c then [] # split_on c xs
      else (case split_on c xs of [] \<Rightarrow> [[x]] | w # ws \<Rightarrow> (x # w) # ws))"

definition strtok :: "char \<Rightarrow> string \<Rightarrow> string list" where
  "strtok c s = filter (\<lambda>w. w \<noteq> []) (split_on c s)"

definition alnum_val :: "char \<Rightarrow> nat" where
  "alnum_val c = (let n = of_char c :: nat in
     if isdigit c then n - 48
     else if 97 \<le> n \<and> n \<le> 122 then n - 87
     else if 65 \<le> n \<and> n \<le> 90 then n - 55
     else 255)"

text \<open>\<open>strtoul\<close>: the value, the rest of the string, and whether the value is out of range.\<close>

definition strtoul :: "nat \<Rightarrow> string \<Rightarrow> nat \<times> string \<times> bool" where
  "strtoul base0 s =
     (let t = dropWhile isspace s;
          u = (if t \<noteq> [] \<and> hd t \<in> {CHR ''-'', CHR ''+''} then tl t else t);
          hex = (base0 \<in> {0, 16} \<and> take 2 u \<in> {''0x'', ''0X''} \<and> drop 2 u \<noteq> [] \<and> alnum_val (hd (drop 2 u)) < 16);
          base = (if hex \<or> base0 = 16 then 16 else if base0 \<noteq> 0 then base0 else if take 1 u = ''0'' then 8 else 10);
          v = (if hex then drop 2 u else u);
          ds = takeWhile (\<lambda>c. alnum_val c < base) v;
          n = foldl (\<lambda>a c. a * base + alnum_val c) 0 ds
      in if ds = [] then (0, s, False)
         else if n \<ge> 2 ^ 64 then (2 ^ 64 - 1, drop (length ds) v, True)
         else (if take 1 t = ''-'' then (2 ^ 64 - n) mod 2 ^ 64 else n, drop (length ds) v, False))"

text \<open>\<open>%lx\<close>.\<close>

definition xdigit :: "nat \<Rightarrow> char" where
  "xdigit d = char_of (if d < 10 then 48 + d else 87 + d)"

fun show_hex :: "nat \<Rightarrow> string" where
  "show_hex n = (if n < 16 then [xdigit n] else show_hex (n div 16) @ [xdigit (n mod 16)])"

declare show_hex.simps [simp del]

lemma alnum_val_xdigit [simp]: "d < 16 \<Longrightarrow> alnum_val (xdigit d) = d"
  by (simp add: alnum_val_def xdigit_def isdigit_def Let_def)

lemma show_hex_nonempty [simp]: "show_hex n \<noteq> []"
  by (subst show_hex.simps) simp

lemma show_hex_digits: "c \<in> set (show_hex n) \<Longrightarrow> alnum_val c < 16"
  by (induction n rule: show_hex.induct) (subst (asm) (2) show_hex.simps, auto split: if_splits)

lemma foldl_show_hex: "foldl (\<lambda>a c. a * 16 + alnum_val c) 0 (show_hex n) = n"
  by (induction n rule: show_hex.induct) (subst show_hex.simps, auto)

text \<open>Characters that are no digits in base 16.\<close>

lemma alnum_val_separators [simp]:
  "alnum_val (CHR '' '') = 255" "alnum_val (CHR ''-'') = 255" "alnum_val (CHR ''x'') = 33"
  "alnum_val (CHR ''X'') = 33" "alnum_val (CHR ''+'') = 255" "alnum_val NL = 255"
  by code_simp+

lemma alnum_val_space: "isspace c \<Longrightarrow> alnum_val c = 255"
  unfolding isspace_def by (elim insertE emptyE; hypsubst; code_simp)


lemma not_prefixed:
  assumes "\<forall>c \<in> set h. alnum_val c < 16" "h \<noteq> []" "s = [] \<or> hd s \<notin> {CHR ''x'', CHR ''X''}"
  shows "take 2 (h @ s) \<notin> {''0x'', ''0X''}"
proof (cases h)
  case (Cons c cs)
  then show ?thesis using assms by (cases cs; cases s) auto
qed (use assms(2) in simp)

lemma strtoul_hex:
  assumes "\<forall>c \<in> set h. alnum_val c < 16" "h \<noteq> []" "foldl (\<lambda>a c. a * 16 + alnum_val c) 0 h < 2 ^ 64"
    and "s = [] \<or> (\<not> alnum_val (hd s) < 16 \<and> hd s \<notin> {CHR ''x'', CHR ''X''})"
  shows "strtoul 16 (h @ s) = (foldl (\<lambda>a c. a * 16 + alnum_val c) 0 h, s, False)"
proof -
  let ?u = "h @ s"
  have "alnum_val (hd h) < 16" using assms(1,2) by simp
  then have h: "\<not> isspace (hd ?u)" "hd ?u \<notin> {CHR ''-'', CHR ''+''}"
    using alnum_val_space assms(2) by (auto simp: hd_append)
  then have t: "dropWhile isspace ?u = ?u" using assms(2) by (cases h) auto
  have x: "take 2 ?u \<notin> {''0x'', ''0X''}"
    by (rule not_prefixed) (use assms in auto)
  have m: "take 1 ?u \<noteq> ''-''" using h(2) assms(2) by (cases h) auto
  have tw: "takeWhile (\<lambda>c. alnum_val c < 16) ?u = h" using assms(1,4) by (cases s) (auto simp: takeWhile_append2)
  show ?thesis using assms(2,3) h(2) x m by (auto simp: strtoul_def t Let_def tw)
qed

lemma foldl_pad_zeros:
  "foldl (\<lambda>a c. a * 16 + alnum_val c) 0 (replicate k (CHR ''0'') @ s) = foldl (\<lambda>a c. a * 16 + alnum_val c) 0 s"
proof -
  have "alnum_val (CHR ''0'') = 0" by code_simp
  then show ?thesis by (induction k) auto
qed

text \<open>\<open>%08lx\<close> is read back.\<close>

lemma strtoul_show_hex:
  assumes "n < 2 ^ 64" "s = [] \<or> (\<not> alnum_val (hd s) < 16 \<and> hd s \<notin> {CHR ''x'', CHR ''X''})"
  shows "strtoul 16 (pad_left (CHR ''0'') k (show_hex n) @ s) = (n, s, False)"
proof -
  have "alnum_val (CHR ''0'') = 0" by code_simp
  then have "\<forall>c \<in> set (pad_left (CHR ''0'') k (show_hex n)). alnum_val c < 16"
    using show_hex_digits by (auto simp: pad_left_def)
  moreover have "foldl (\<lambda>a c. a * 16 + alnum_val c) 0 (pad_left (CHR ''0'') k (show_hex n)) = n"
    unfolding pad_left_def foldl_pad_zeros by (rule foldl_show_hex)
  ultimately show ?thesis using strtoul_hex [of "pad_left (CHR ''0'') k (show_hex n)" s] assms
    by (simp add: pad_left_def)
qed

lemma length_show_hex: "n < 16 ^ k \<Longrightarrow> 0 < k \<Longrightarrow> length (show_hex n) \<le> k"
proof (induction n arbitrary: k rule: show_hex.induct)
  case (1 n)
  show ?case
  proof (cases "n < 16")
    case False
    then have "1 < k" using 1(2) by (cases "k = 1") (use 1(3) in auto)
    then obtain j where j: "k = Suc j" "0 < j" by (cases k) auto
    then have "n div 16 < 16 ^ j" using 1(2) by (simp add: less_mult_imp_div_less mult.commute)
    with 1(1) [OF False, of j] j False show ?thesis by (subst show_hex.simps) simp
  qed (use 1(3) in \<open>subst show_hex.simps, simp\<close>)
qed

end
