(* ===== verification/Crashutils.thy ===== *)
theory Crashutils
  imports Ingredients Ctext
begin

text \<open>
  crashlog/crashutils.c: keys of events, the crash files that describe them, and
  \<open>priv_raise_event\<close>, through which every event goes. The default build is modelled: no
  FULL\_REPORT, no CONFIG\_EFILINUX, no CONFIG\_FDK.
\<close>

section \<open>Event keys\<close>

text \<open>
  \<open>compute_key\<close>: the code and what the key buffer holds afterwards. The SHA-1 context is kept
  between calls, so the digest is that of all inputs so far; a buffer that was not written
  holds garbage.
\<close>

definition compute_key :: "string option \<Rightarrow> string option \<Rightarrow> ('w, int \<times> string) dop" where
  "compute_key ev ty = do {
     g \<leftarrow> gets garbage;
     ready \<leftarrow> gets sha_ready;
     ok \<leftarrow> (if ready then ret True else alloc);
     if \<not> ok then ret (-1, g)
     else do {
       modify (\<lambda>s. s\<lparr>sha_ready := True\<rparr>);
       (case (ev, ty) of
          (Some e, Some t) \<Rightarrow> do {
            ns \<leftarrow> get_uptime;
            buf \<leftarrow> gets (\<lambda>s. snprintf 256 (gbuildversion s @ guuid s @ e @ t @ show_int ns));
            modify (\<lambda>s. s\<lparr>sha_inputs := sha_inputs s @ [buf]\<rparr>);
            k \<leftarrow> gets (\<lambda>s. digest s (sha_inputs s));
            ret (0, k) }
        | _ \<Rightarrow> ret (- EINVAL, g)) } }"

definition generate_event_id :: "string option \<Rightarrow> string option \<Rightarrow> ('w, string option) dop" where
  "generate_event_id seed1 seed2 = do {
     ok \<leftarrow> alloc;
     if \<not> ok then ret None
     else do { (_, k) \<leftarrow> compute_key seed1 seed2; ret (Some k) } }"

section \<open>Lists of patterns\<close>

fun alloc_many :: "nat \<Rightarrow> ('w, bool) op" where
  "alloc_many 0 = ret True"
| "alloc_many (Suc n) = do { ok \<leftarrow> alloc; if \<not> ok then ret False else alloc_many n }"

text \<open>
  \<open>commachain_to_fixedarray\<close>: the value stored through \<open>res\<close> and the entries filled. With
  more tokens than records the value is one more than the number of records.
\<close>

definition commachain_to_fixedarray :: "string option \<Rightarrow> nat \<Rightarrow> nat \<Rightarrow> ('w, int \<times> string list option) op" where
  "commachain_to_fixedarray chain recordsize maxrecords =
     (case chain of
        None \<Rightarrow> ret (- EINVAL, None)
      | Some c \<Rightarrow>
          if recordsize = 0 then ret (- EINVAL, None)
          else if maxrecords = 0 then ret (0, None)
          else do {
            ok \<leftarrow> alloc;
            if \<not> ok then do { e \<leftarrow> gets errno; ret (- e, None) }
            else let toks = strtok (CHR '';'') c
                 in if toks = [] then ret (0, None)
                    else do {
                      ok2 \<leftarrow> alloc;
                      if \<not> ok2 then do { e \<leftarrow> gets errno; ret (- e, None) }
                      else do {
                        ok3 \<leftarrow> alloc_many maxrecords;
                        if \<not> ok3 then do { e \<leftarrow> gets errno; ret (- e, None) }
                        else ret (int (min (length toks) maxrecords) + (if length toks > maxrecords then 1 else 0),
                                  Some (map (take (recordsize - 1)) (take maxrecords toks))) } } })"

section \<open>Fake events\<close>

definition FAKE_EVENT_SUFFIX :: string where "FAKE_EVENT_SUFFIX = ''_FAKE''"
definition PROP_REPORT_GENERIC_FAKE :: string where
  "PROP_REPORT_GENERIC_FAKE = ''persist.vendor.crashlogd.events.fake''"

text \<open>
  The loop of \<open>is_event_type_fake\<close> over the filters. \<open>index\<close> is 1 when a filter other than
  the first starts, so its first character is never taken for the end of a filter; when a comma
  is the last character, the loop reads behind the string.
\<close>

function fake_loop :: "string \<Rightarrow> bool \<Rightarrow> string \<Rightarrow> bool option" where
  "fake_loop ty later s =
     (if later \<and> s = [] then None
      else let skip = (if later then 1 else 0);
               tok = take skip s @ takeWhile (\<lambda>c. c \<noteq> CHR '','') (drop skip s);
               rest = dropWhile (\<lambda>c. c \<noteq> CHR '','') (drop skip s)
           in if contains ty tok then Some True
              else if rest = [] then Some False
              else fake_loop ty True (tl rest))"
  by pat_completeness auto
termination
proof (relation "measure (\<lambda>(ty, later, s). length s)", goal_cases)
  case (2 ty later s skip tok rest)
  have "length rest \<le> length s"
    using 2 by (metis diff_le_self drop_drop le_trans length_drop length_dropWhile_le)
  moreover have "rest \<noteq> []" using 2 by simp
  ultimately show ?case by (cases rest) auto
qed simp

declare fake_loop.simps [simp del]

definition is_event_type_fake :: "string option \<Rightarrow> ('w, bool) op" where
  "is_event_type_fake ty =
     (case ty of
        None \<Rightarrow> ret False
      | Some t \<Rightarrow>
          if contains t FAKE_EVENT_SUFFIX then ret False
          else do {
            v \<leftarrow> gets (\<lambda>s. prop_get s PROP_REPORT_GENERIC_FAKE []);
            if v = [] then ret False
            else (case fake_loop t False v of
                    Some b \<Rightarrow> ret b
                  | None \<Rightarrow> do { effect (BadRead ''is_event_type_fake''); ret False }) })"

section \<open>Crash files\<close>

definition get_imei :: "('w, string) dop" where
  "get_imei = do {
     v \<leftarrow> gets imei;
     if v \<noteq> [] then ret v
     else do {
       p \<leftarrow> gets (\<lambda>s. prop_get s ''persist.radio.device.imei'' []);
       modify (\<lambda>s. s\<lparr>imei := p\<rparr>);
       ret p } }"

definition get_operator :: "('w, string) dop" where
  "get_operator = gets (\<lambda>s. prop_get s ''gsm.operator.alpha'' ''UNKNOWN'')"

text \<open>\<open>get_build_footprint\<close>: computed once; each part at most PROPERTY\_VALUE\_MAX characters.\<close>

definition get_build_footprint :: "('w, string) dop" where
  "get_build_footprint = do {
     old \<leftarrow> gets footprint;
     if old \<noteq> [] then ret old
     else do {
       let part = (\<lambda>s p. take PROPERTY_VALUE_MAX (prop_get s p []));
       a \<leftarrow> gets (\<lambda>s. gbuildversion s @ '','' @ part s ''ro.build.fingerprint'' @ '','' @
              part s ''sys.kernel.version'' @ '','' @ part s ''ro.build.user'' @ ''@'' @
              part s ''ro.build.host'' @ '','');
       (_, modem_name) \<leftarrow> fetch_modem_name 0;
       b \<leftarrow> gets (\<lambda>s. take PROPERTY_VALUE_MAX modem_name @ '','' @ part s ''sys.ifwi.version'' @ '','' @
              part s ''sys.ia32.version'' @ '','' @ part s ''sys.scu.version'' @ '','' @
              part s ''sys.punit.version'' @ '','' @ part s ''sys.valhooks.version'');
       modify (\<lambda>s. s\<lparr>footprint := a @ b\<rparr>);
       ret (a @ b) } }"

definition CRASHFILE_NAME :: string where "CRASHFILE_NAME = ''crashfile''"

definition field_line :: "string \<Rightarrow> string \<Rightarrow> string" where
  "field_line n v = n @ ''='' @ v @ [NL]"

definition opt_line :: "string \<Rightarrow> string option \<Rightarrow> string" where
  "opt_line n v = (case v of None \<Rightarrow> [] | Some x \<Rightarrow> field_line n x)"

text \<open>
  The data of a modem panic: the first word of the first file whose name contains \<open>mpanic\<close>, or
  the lines before \<open>_END\<close> of the first whose name contains \<open>_crashdata\<close>, whichever is found
  first. None when the directory cannot be opened.
\<close>

definition mpanic_data :: "string \<Rightarrow> ('w, string option) op" where
  "mpanic_data path = do {
     d \<leftarrow> sys_opendir path;
     (case d of
        None \<Rightarrow> ret None
      | Some names \<Rightarrow>
          (case find (\<lambda>n. contains n ''mpanic'' \<or> contains n ''_crashdata'') names of
             None \<Rightarrow> ret (Some [])
           | Some n \<Rightarrow> do {
               fd \<leftarrow> open_read (snprintf (PATHMAX - 1) (path @ ''/'' @ n));
               (case fd of
                  None \<Rightarrow> ret (Some [])
                | Some t \<Rightarrow>
                    if contains n ''mpanic'' then
                      (case scanf [SWord None True] t of
                         ([v], _) \<Rightarrow> ret (Some (field_line ''DATA0'' (cstr v)))
                       | _ \<Rightarrow> ret (Some []))
                    else ret (Some (concat (map (\<lambda>l. l @ [NL])
                           (takeWhile (\<lambda>l. \<not> contains l ''_END'') (map cstr (fgets_lines PATHMAX t))))))) })) }"

definition MDMCRASH_EVNAME :: string where "MDMCRASH_EVNAME = ''MPANIC''"

text \<open>\<open>create_minimal_crashfile\<close>; \<open>strcmp\<close> on a null type ends the process.\<close>

definition create_minimal_crashfile :: "string \<Rightarrow> string option \<Rightarrow> string \<Rightarrow> string option \<Rightarrow> string \<Rightarrow> string \<Rightarrow>
    int \<Rightarrow> string option \<Rightarrow> string option \<Rightarrow> string option \<Rightarrow> ('w, int) dop" where
  "create_minimal_crashfile ev ty path k uptime date data_ready data0 data1 data2 = do {
     let fullpath = snprintf (PATHMAX - 1) (path @ ''/'' @ CRASHFILE_NAME);
     set_errno 0;
     ok \<leftarrow> open_trunc fullpath;
     if \<not> ok then do { e \<leftarrow> gets errno; ret (- e) }
     else do {
       _ \<leftarrow> chown_log fullpath;
       ok2 \<leftarrow> open_trunc fullpath;
       if \<not> ok2 then do { e \<leftarrow> gets errno; ret (- e) }
       else do {
         fp \<leftarrow> get_build_footprint;
         im \<leftarrow> get_imei;
         oper \<leftarrow> get_operator;
         uuid \<leftarrow> gets guuid;
         board \<leftarrow> gets gboardversion;
         let head_lines = field_line ''EVENT'' ev @ field_line ''ID'' (str_of k) @ field_line ''SN'' uuid @
              field_line ''DATE'' date @ field_line ''UPTIME'' uptime @ field_line ''BUILD'' fp @
              field_line ''BOARD'' board @ field_line ''IMEI'' im @ field_line ''TYPE'' (str_of ty) @
              field_line ''DATA_READY'' (show_int data_ready) @ field_line ''OPERATOR'' oper;
         data \<leftarrow> (if ty = None then do { effect (NullDeref ''create_minimal_crashfile''); ret None }
                  else if ty = Some MDMCRASH_EVNAME then mpanic_data path
                  else ret (Some (opt_line ''DATA0'' data0 @ opt_line ''DATA1'' data1 @ opt_line ''DATA2'' data2)));
         (case data of
            None \<Rightarrow> do { _ \<leftarrow> write_end fullpath head_lines; ret (-1) }
          | Some dl \<Rightarrow> do {
              _ \<leftarrow> write_end fullpath (head_lines @ dl @ ''_END'' @ [NL]);
              ret 0 }) } } }"

definition TEST_INFO_LOOKUP_PATTERN :: string where
  "TEST_INFO_LOOKUP_PATTERN = ''^persist.vendor'' @ [CHR 0x5C] @ ''.crashlogd'' @ [CHR 0x5C] @
     ''.TC'' @ [CHR 0x5C] @ ''.''"

definition attach_test_info :: "string \<Rightarrow> ('w, unit) dop" where
  "attach_test_info dir = do {
     j \<leftarrow> retrieve_props_json (Some TEST_INFO_LOOKUP_PATTERN);
     (case j of
        None \<Rightarrow> ret ()
      | Some t \<Rightarrow>
          if length t \<le> 2 then ret ()
          else let path = snprintf PATHMAX (dir @ ''/'' @ ''test_case.json'')
               in do {
                 ok \<leftarrow> open_trunc path;
                 if \<not> ok then ret ()
                 else do {
                   _ \<leftarrow> write_end path t;
                   _ \<leftarrow> chown_log path;
                   ret () } }) }"

section \<open>Notifications\<close>

definition start_daemon :: "string \<Rightarrow> ('w, unit) op" where
  "start_daemon daemonname = effect (StartDaemon daemonname)"

text \<open>\<open>notify_crashreport\<close> starts the thread modelled in the theory on notifications.\<close>

definition notify_crashreport :: "('w, unit) dop" where
  "notify_crashreport = do {
     ok \<leftarrow> is_crashreport_available;
     if \<not> ok then ret () else effect Notify }"

datatype partition_error = ERROR_LOGS_MISSING | ERROR_LOGS_RO | ERROR_PARTITIONS_MISSING

definition report_cmd :: "string \<Rightarrow> string" where
  "report_cmd what = ''am broadcast -a intel.intent.action.phonedoctor.REPORT_ERROR --es '' @
     quote ''intel.intent.extra.phonedoctor.TYPE'' @ '' '' @ quote ''PARTITION'' @ '' --es '' @
     quote ''intel.intent.extra.phonedoctor.DATA0'' @ '' '' @ quote what"

definition notify_partition_error :: "partition_error \<Rightarrow> ('w, int) dop" where
  "notify_partition_error ty = do {
     boot_state \<leftarrow> gets (\<lambda>s. prop_get s PROP_BOOT_STATUS ''-1'');
     if boot_state \<noteq> ''1'' then ret 0
     else do {
       ok \<leftarrow> is_crashreport_available;
       if \<not> ok then ret 0
       else do {
         status \<leftarrow> run_command (report_cmd (case ty of
              ERROR_LOGS_MISSING \<Rightarrow> ''LOGS MISSING''
            | ERROR_LOGS_RO \<Rightarrow> ''LOGS READ ONLY''
            | ERROR_PARTITIONS_MISSING \<Rightarrow> ''PARTITION MISSING'')) 30;
         if status = -1 then ret 0
         else if status \<noteq> 0 then ret 0
         else ret 1 } } }"

section \<open>Raising events\<close>

definition LOGINFO_DIR :: string where "LOGINFO_DIR = LOGS_DIR @ ''/info''"
definition LOGRESERVED :: string where "LOGRESERVED = LOGS_DIR @ ''/reserved''"
definition EVENTS_DIR :: string where "EVENTS_DIR = LOGS_DIR @ ''/events''"

datatype uptime_mode = NO_UPTIME | UPTIME | UPTIME_BOOT

record raise_args =
  a_key :: "string option"
  a_event :: "string option"
  a_type :: "string option"
  a_subtype :: "string option"
  a_log :: "string option"
  a_uptime :: uptime_mode
  a_ready :: int
  a_data0 :: "string option"
  a_data1 :: "string option"
  a_data2 :: "string option"

text \<open>The uptime shown with the event; \<open>get_uptime_string\<close> cannot fail in this build.\<close>

definition event_uptime :: "uptime_mode \<Rightarrow> ('w, string option) hop" where
  "event_uptime m =
     (case m of
        UPTIME \<Rightarrow> do { (_, u, _) \<leftarrow> get_uptime_string; ret (Some u) }
      | UPTIME_BOOT \<Rightarrow> do {
          (r, u) \<leftarrow> get_lastboot_uptime;
          ret (if r = 0 then map_option (take 23) u else None) }
      | NO_UPTIME \<Rightarrow> ret None)"

text \<open>The suffix that marks a fake event; without memory for it the event keeps its type.\<close>

definition fake_type :: "string option \<Rightarrow> ('w, string option) op" where
  "fake_type ty = do {
     fake \<leftarrow> is_event_type_fake ty;
     (case ty of
        Some t \<Rightarrow> if fake then do {
                      ok \<leftarrow> alloc;
                      ret (Some (if ok then t @ FAKE_EVENT_SUFFIX else t)) }
                  else ret ty
      | None \<Rightarrow> ret None) }"

text \<open>The crash file, for the events that get one, and the test information.\<close>

definition event_files :: "raise_args \<Rightarrow> string option \<Rightarrow> string option \<Rightarrow> string option \<Rightarrow> string \<Rightarrow>
    string \<Rightarrow> string \<Rightarrow> ('w, int) dop" where
  "event_files a ev ty sub l up date = do {
     res \<leftarrow>
       (if ev = Some ''CRASH'' then
          create_minimal_crashfile ''CRASH'' sub l (a_key a) up date (a_ready a) (a_data0 a) (a_data1 a) (a_data2 a)
        else if ev = Some ''BZ'' then
          create_minimal_crashfile ''BZ'' (Some ''MANUAL'') l (a_key a) up date (a_ready a) (a_data0 a) (a_data1 a) (a_data2 a)
        else if ev = Some ''INFO'' \<and> ty = Some ''FIRMWARE'' then
          create_minimal_crashfile ''INFO'' ty l (a_key a) up date (a_ready a) (a_data0 a) (a_data1 a) (a_data2 a)
        else ret 0);
     attach_test_info l;
     ret res }"

definition raise_entry :: "raise_args \<Rightarrow> string option \<Rightarrow> string option \<Rightarrow> string option \<Rightarrow> string \<Rightarrow> history_entry" where
  "raise_entry a ev ty up date = \<lparr>e_event = ev, e_type = ty, e_log = a_log a, e_lastuptime = up,
     e_key = a_key a, e_eventtime = Some date\<rparr>"

definition reboot_reason_files_present :: "'w world_scheme \<Rightarrow> int" where
  "reboot_reason_files_present s =
     (if (file_exists ''/d/intel_scu_osnib/RESETSRC0'' s \<and> file_exists ''/d/intel_scu_osnib/RESETSRC1'' s) \<or>
         (file_exists ''/d/intel_scu_osnib/RESETIRQ1'' s \<and> file_exists ''/d/intel_scu_osnib/RESETIRQ2'' s)
      then 1 else 0)"

text \<open>
  \<open>priv_raise_event\<close>; \<open>reboot\<close> is \<open>create_rebootfile\<close>, which may raise an event itself.
  \<open>strncmp\<close> on a null event or type ends the process.
\<close>

definition raise_core :: "(string option \<Rightarrow> int \<Rightarrow> ('w, int) dop) \<Rightarrow> raise_args \<Rightarrow> ('w, int) dop" where
  "raise_core reboot a = do {
     datelong \<leftarrow> get_current_time_long True;
     _ \<leftarrow> conditional_ingredients_refresh;
     puptime \<leftarrow> event_uptime (a_uptime a);
     let (ev, ty0) = (case a_event a of None \<Rightarrow> (a_type a, a_subtype a) | Some e \<Rightarrow> (Some e, a_type a));
     ty \<leftarrow> fake_type ty0;
     let sub = (case a_subtype a of None \<Rightarrow> ty | Some x \<Rightarrow> Some x);
     set_errno 0;
     res \<leftarrow> update_history_file (Some (raise_entry a ev ty puptime datelong));
     if res \<noteq> 0 then do { set_errno (- res); ret 0 }
     else if ev = None \<or> (a_log a \<noteq> None \<and> ev = Some ''INFO'' \<and> ty = None) then do {
       effect (NullDeref ''priv_raise_event''); ret 0 }
     else do {
       res2 \<leftarrow> (case a_log a of
                 None \<Rightarrow> ret 0
               | Some l \<Rightarrow> event_files a ev ty sub l (case puptime of None \<Rightarrow> [] | Some u \<Rightarrow> u) datelong);
       if res2 \<noteq> 0 then do { set_errno (- res2); ret 0 }
       else do {
         (if ev = Some ''REBOOT'' then do {
            r \<leftarrow> gets reboot_reason_files_present;
            _ \<leftarrow> reboot (a_key a) r;
            ret () }
          else ret ());
         if ty = None then do { effect (NullDeref ''priv_raise_event''); ret 0 }
         else do {
           (if ty \<noteq> Some ''UIWDT'' then notify_crashreport else ret ());
           ret 1 } } } }"

definition infoerror_args :: "string option \<Rightarrow> string \<Rightarrow> string \<Rightarrow> raise_args" where
  "infoerror_args k ty sub = \<lparr>a_key = k, a_event = None, a_type = Some ty, a_subtype = Some sub,
     a_log = Some LOGINFO_DIR, a_uptime = UPTIME, a_ready = 1, a_data0 = None, a_data1 = None, a_data2 = None\<rparr>"

definition infoerror_with :: "(raise_args \<Rightarrow> ('w, int) dop) \<Rightarrow> string \<Rightarrow> string \<Rightarrow> ('w, int) dop" where
  "infoerror_with raise ty sub = do {
     k \<leftarrow> generate_event_id (Some ty) (Some sub);
     r \<leftarrow> raise (infoerror_args k ty sub);
     if r = 0 then do { e \<leftarrow> gets errno; ret (- e) }
     else do { _ \<leftarrow> sys_unlink LOGRESERVED; ret 0 } }"

text \<open>\<open>create_rebootfile\<close>; \<open>info\<close> is \<open>raise_infoerror\<close>.\<close>

definition rebootfile_with :: "(string \<Rightarrow> string \<Rightarrow> ('w, int) dop) \<Rightarrow> string option \<Rightarrow> int \<Rightarrow> ('w, int) dop" where
  "rebootfile_with info k data_ready = do {
     ex \<leftarrow> gets (file_exists EVENTS_DIR);
     made \<leftarrow> (if ex then ret True
              else do {
                set_errno 0;
                ok \<leftarrow> sys_mkdir EVENTS_DIR;
                if \<not> ok then do { _ \<leftarrow> info ''ERROR'' EVENTS_DIR; ret False }
                else do { _ \<leftarrow> chown_log EVENTS_DIR; ret True } });
     if \<not> made then do { e \<leftarrow> gets errno; ret (- e) }
     else do {
       let fullpath = snprintf (PATHMAX - 1) (EVENTS_DIR @ ''/'' @ ''eventfile'' @ ''_'' @ str_of k);
       set_errno 0;
       ok \<leftarrow> open_trunc fullpath;
       if \<not> ok then do { e \<leftarrow> gets errno; ret (- e) }
       else do {
         _ \<leftarrow> chown_log fullpath;
         set_errno 0;
         ok2 \<leftarrow> open_trunc fullpath;
         if \<not> ok2 then do { e \<leftarrow> gets errno; ret (- e) }
         else do {
           _ \<leftarrow> write_end fullpath (field_line ''DATA_READY'' (show_int data_ready) @ ''_END'' @ [NL]);
           ret 0 } } } }"

text \<open>
  The recursion: a reboot event may raise an error event, which is no reboot event. Two levels
  are enough (\<open>priv_raise_fuel\<close>).
\<close>

fun priv_raise :: "nat \<Rightarrow> raise_args \<Rightarrow> ('w, int) dop" where
  "priv_raise 0 a = ret 0"
| "priv_raise (Suc n) a = raise_core (rebootfile_with (infoerror_with (priv_raise n))) a"

definition priv_raise_event :: "raise_args \<Rightarrow> ('w, int) dop" where
  "priv_raise_event a = priv_raise 2 a"

definition raise_infoerror :: "string \<Rightarrow> string \<Rightarrow> ('w, int) dop" where
  "raise_infoerror ty sub = infoerror_with priv_raise_event ty sub"

definition create_rebootfile :: "string option \<Rightarrow> int \<Rightarrow> ('w, int) dop" where
  "create_rebootfile k data_ready = rebootfile_with raise_infoerror k data_ready"

definition event_args :: "string option \<Rightarrow> string option \<Rightarrow> string option \<Rightarrow> string option \<Rightarrow> string option \<Rightarrow>
    uptime_mode \<Rightarrow> int \<Rightarrow> string option \<Rightarrow> string option \<Rightarrow> string option \<Rightarrow> raise_args" where
  "event_args k ev ty sub l up rdy d0 d1 d2 = \<lparr>a_key = k, a_event = ev, a_type = ty, a_subtype = sub, a_log = l,
     a_uptime = up, a_ready = rdy, a_data0 = d0, a_data1 = d1, a_data2 = d2\<rparr>"

definition raise_event_nouptime where
  "raise_event_nouptime k ev ty sub l = priv_raise_event (event_args k ev ty sub l NO_UPTIME 1 None None None)"

definition raise_event_wdt where
  "raise_event_wdt k ev ty sub l = priv_raise_event (event_args k ev ty None l UPTIME 1 sub None None)"

definition raise_event where
  "raise_event k ev ty sub l = priv_raise_event (event_args k ev ty sub l UPTIME 1 None None None)"

definition raise_event_bootuptime where
  "raise_event_bootuptime k ev ty sub l = priv_raise_event (event_args k ev ty sub l UPTIME_BOOT 1 None None None)"

definition raise_event_dataready where
  "raise_event_dataready k ev ty sub l rdy = priv_raise_event (event_args k ev ty sub l UPTIME rdy None None None)"

definition raise_event_dataready012 where
  "raise_event_dataready012 k ev ty sub l rdy d0 d1 d2 =
     priv_raise_event (event_args k ev ty sub l UPTIME rdy d0 d1 d2)"

end
