(* ===== verification/Frames.thy ===== *)
theory Frames
  imports Crashutils
begin

text \<open>
  What raising an event leaves alone. The locale \<open>daemon_frame\<close> extends \<open>frame\<close> by the variables
  of the daemon that the utilities below \<open>priv_raise_event\<close> write; every part of the state that
  meets its laws is kept by them. Two parts are used: the history with the memory errors so far,
  and the notifications.
\<close>

context frame
begin

lemma keeps_attrs [frames]: "keeps f (do_chmod p m)" "keeps f (do_chown q u g)"
  unfolding do_chmod_def do_chown_def by (intro frames)+

lemma keeps_init_config_file [frames]: "keeps f (init_config_file p h)"
  unfolding init_config_file_def by (intro frames)

lemma keeps_dump_config [frames]: "P (comps p) \<Longrightarrow> keeps f (dump_config p h)"
  unfolding dump_config_def by (intro frames)

lemma keeps_parse_ingredients_file [frames]: "keeps f (parse_ingredients_file p)"
  unfolding parse_ingredients_file_def by (intro frames)

lemma keeps_get_modem_section_name [frames]: "keeps f (get_modem_section_name h)"
  unfolding get_modem_section_name_def by (intro frames)

lemma keeps_get_uptime_string [frames]: "keeps f get_uptime" "keeps f get_uptime_string"
  unfolding get_uptime_string_def get_uptime_def by (intro frames)+

lemma keeps_fake_type [frames]:
  assumes "E (BadRead ''is_event_type_fake'')"
  shows "keeps f (is_event_type_fake ty)" "keeps f (fake_type ty)"
  unfolding fake_type_def is_event_type_fake_def by (intro frames assms)+

lemma keeps_mpanic_data [frames]: "keeps f (mpanic_data p)"
  unfolding mpanic_data_def by (intro frames)

end

context frame
begin

lemma keeps_readline_loop: "keeps f (readline_loop rest acc)"
  by (induction rest acc rule: readline_loop.induct)
     (simp only: readline_loop.simps, (intro frames; assumption?))+

lemma keeps_freadline_loop: "keeps f (freadline_loop rest acc)"
  by (induction rest acc rule: freadline_loop.induct)
     (simp only: freadline_loop.simps, (intro frames; assumption?))+

lemma keeps_readline [frames]: "keeps f (readline rest)" "keeps f (freadline rest)"
  by (simp_all add: readline_def freadline_def keeps_readline_loop keeps_freadline_loop)

lemma keeps_while_readline: "(\<And>l b. keeps f (body l b)) \<Longrightarrow> keeps f (while_readline k rest b body)"
proof (induction k arbitrary: rest b)
  case (Suc k)
  then show ?case unfolding while_readline.simps by (intro frames) auto
qed (simp add: keeps_ret)

lemma keeps_for_lines [frames]: "(\<And>l b. keeps f (body l b)) \<Longrightarrow> keeps f (for_lines rest b body)"
  unfolding for_lines_def by (rule keeps_while_readline)

lemma keeps_cache_start [frames]: "keeps f (cache_start n i li m off rest rs)"
proof (induction n arbitrary: i li rest rs)
  case (Suc n)
  then show ?case unfolding cache_start.simps by (intro frames) auto
qed (simp add: keeps_ret)

lemma keeps_cache_tail_body [frames]: "keeps f (cache_tail_body m off l v)"
  unfolding cache_tail_body_def by (intro frames)

lemma keeps_quicksort [frames]: "keeps f (quicksort xs n p)"
  unfolding quicksort_def by (intro frames)

lemma keeps_cache_tail [frames]: "keeps f (cache_tail m off d rs)"
  unfolding cache_tail_def by (intro frames)

lemma keeps_cache_file [frames]: "keeps f (cache_file p rs m mode off)"
  unfolding cache_file_def by (intro frames)

lemma keeps_count_lines_in_file [frames]: "keeps f (count_lines_in_file p)"
  unfolding count_lines_in_file_def by (intro frames)

lemma keeps_append_file [frames]: "P (comps p) \<Longrightarrow> keeps f (append_file (Some p) t)"
  unfolding append_file_def by (intro frames) simp_all

lemma keeps_write_checked [frames]: "P (comps p) \<Longrightarrow> keeps f (write_checked p d)"
  unfolding write_checked_def by (intro frames)

lemma keeps_write_slots [frames]: "P (comps p) \<Longrightarrow> (\<And>w. E (NullDeref w)) \<Longrightarrow> keeps f (write_slots p rs)"
proof (induction p rs rule: write_slots.induct)
  case (3 p l rs)
  then have "keeps f (write_slots p rs)" by blast
  with 3 show ?case unfolding write_slots.simps by (intro frames)
qed (simp only: write_slots.simps, (intro frames; assumption?))+

end

text \<open>Parts of the state that do not depend on the history at all.\<close>

locale hist_frame = frame f P E
  for f :: "'w hist_scheme \<Rightarrow> 'x" and P :: "string list \<Rightarrow> bool" and E :: "effect \<Rightarrow> bool" +
  assumes f_historycache: "f (s\<lparr>historycache := t1\<rparr>) = f s"
    and f_nextline: "f (s\<lparr>nextline := t2\<rparr>) = f s"
    and f_fileentries: "f (s\<lparr>fileentries := t3\<rparr>) = f s"
    and f_saved_hours: "f (s\<lparr>saved_hours := t4\<rparr>) = f s"
    and f_saved_lastuptime: "f (s\<lparr>saved_lastuptime := t5\<rparr>) = f s"
    and f_history_file: "P (comps HISTORY_FILE)"
    and f_null_deref: "E (NullDeref w)"
begin

lemmas f_hist = f_historycache f_nextline f_fileentries f_saved_hours f_saved_lastuptime

lemma keeps_hist_vars [frames]:
  "keeps f (modify (\<lambda>s. s\<lparr>historycache := g1 s\<rparr>))" "keeps f (modify (\<lambda>s. s\<lparr>nextline := g2 s\<rparr>))"
  "keeps f (modify (\<lambda>s. s\<lparr>fileentries := g3 s\<rparr>))" "keeps f (modify (\<lambda>s. s\<lparr>nextline := g2 s, fileentries := g3 s\<rparr>))"
  "keeps f (modify (\<lambda>s. s\<lparr>fileentries := g3 s, nextline := g2 s\<rparr>))"
  "keeps f (modify (\<lambda>s. s\<lparr>saved_hours := g4 s, saved_lastuptime := g5 s\<rparr>))" "keeps f (modify (store_line l))"
  by (rule keeps_modify, simp add: f_hist store_line_def)+

lemma keeps_get_timed_firstline [frames]: "keeps f (get_timed_firstline b)"
  unfolding get_timed_firstline_def by (intro frames)

lemma keeps_cache_history_file [frames]: "keeps f cache_history_file"
  unfolding cache_history_file_def by (intro frames f_history_file)

lemma keeps_history_ready [frames]: "keeps f history_ready"
  unfolding history_ready_def reset_history_cache_def by (intro frames)

lemma keeps_trim_history_file [frames]: "keeps f trim_history_file"
  unfolding trim_history_file_def by (intro frames f_history_file f_null_deref)

lemma keeps_update_history_file [frames]: "keeps f (update_history_file en)"
  unfolding update_history_file_def by (intro frames f_history_file)

end

locale daemon_frame = frame f P E
  for f :: "'w daemon_scheme \<Rightarrow> 'x" and P :: "string list \<Rightarrow> bool" and E :: "effect \<Rightarrow> bool" +
  assumes f_time_long: "f (s\<lparr>time_long := t1\<rparr>) = f s"
    and f_modem_values: "f (s\<lparr>modem_values := t2\<rparr>) = f s"
    and f_ingredients_disabled: "f (s\<lparr>ingredients_disabled := t3\<rparr>) = f s"
    and f_old_values: "f (s\<lparr>old_values := t4\<rparr>) = f s"
    and f_footprint: "f (s\<lparr>footprint := t5\<rparr>) = f s"
    and f_imei: "f (s\<lparr>imei := t6\<rparr>) = f s"
    and f_sha_ready: "f (s\<lparr>sha_ready := t7\<rparr>) = f s"
    and f_sha_inputs: "f (s\<lparr>sha_inputs := t8\<rparr>) = f s"
    and f_crashreport_available: "f (s\<lparr>crashreport_available := t9\<rparr>) = f s"
    and f_command: "E (Command c)"
    and f_ingredients_file: "P (comps INGREDIENTS_FILE)"
begin

lemmas f_vars = f_time_long f_modem_values f_ingredients_disabled f_old_values f_footprint f_imei
  f_sha_ready f_sha_inputs f_crashreport_available

lemma keeps_vars [frames]:
  "keeps f (modify (\<lambda>s. s\<lparr>time_long := g1 s\<rparr>))" "keeps f (modify (\<lambda>s. s\<lparr>modem_values := g2 s\<rparr>))"
  "keeps f (modify (\<lambda>s. s\<lparr>ingredients_disabled := g3 s\<rparr>))" "keeps f (modify (\<lambda>s. s\<lparr>old_values := g4 s\<rparr>))"
  "keeps f (modify (\<lambda>s. s\<lparr>footprint := g5 s\<rparr>))" "keeps f (modify (\<lambda>s. s\<lparr>imei := g6 s\<rparr>))"
  "keeps f (modify (\<lambda>s. s\<lparr>sha_ready := g7 s\<rparr>))" "keeps f (modify (\<lambda>s. s\<lparr>sha_inputs := g8 s\<rparr>))"
  "keeps f (modify (\<lambda>s. s\<lparr>crashreport_available := g9 s\<rparr>))"
  by (rule keeps_modify, rule f_vars)+

lemma keeps_get_current_time_long [frames]: "keeps f (get_current_time_long b)"
  unfolding get_current_time_long_def by (intro frames)

lemma keeps_run_command [frames]: "keeps f (run_command_array as n)" "keeps f (run_command c n)"
  unfolding run_command_def run_command_array_def by (intro frames f_command)+

lemma keeps_is_crashreport_available [frames]: "keeps f (check_package_presence p)" "keeps f is_crashreport_available"
  unfolding is_crashreport_available_def check_package_presence_def by (intro frames)+

lemma keeps_retrieve_props_json [frames]: "keeps f (retrieve_props_json p)"
  unfolding retrieve_props_json_def by (intro frames)

lemma keeps_update_modem_name [frames]: "keeps f (update_modem_name i)"
  unfolding update_modem_name_def by (intro frames)

lemma keeps_load_modem_values [frames]: "keeps f (load_modem_values n name h)"
proof (induction n arbitrary: h)
  case (Suc n)
  show ?case unfolding load_modem_values.simps by (intro frames Suc)
qed (simp add: keeps_ret)

lemma keeps_load_modem_config [frames]: "keeps f (load_modem_config h)"
  unfolding load_modem_config_def by (intro frames)

lemma keeps_modem_property_loop [frames]: "keeps f (modem_property_loop n p v)"
proof (induction n arbitrary: v)
  case (Suc n)
  show ?case unfolding modem_property_loop.simps by (intro frames Suc)
qed (simp add: keeps_ret)

lemma keeps_get_modem_property [frames]: "keeps f (get_modem_property p)"
  unfolding get_modem_property_def by (intro frames)

lemma keeps_fetch_properties [frames]:
  "keeps f (fetch_android_properties kvs)" "keeps f (fetch_bulk_android_properties kvs)"
  "keeps f (fetch_modem_properties kvs)"
proof (induction kvs)
  case (Cons kv kvs)
  case 1 show ?case by (cases kv, simp only: fetch_android_properties.simps) (intro frames Cons)
  case 2 show ?case by (cases kv, simp only: fetch_bulk_android_properties.simps) (intro frames Cons)
  case 3 show ?case by (cases kv, simp only: fetch_modem_properties.simps) (intro frames Cons)
qed (simp_all add: keeps_ret)

lemma keeps_fetch_sections [frames]: "keeps f (fetch_sections m ss)"
proof (induction ss)
  case (Cons s ss)
  have "keeps f (fetch_section m s)" unfolding fetch_section_def by (intro frames)
  then show ?case unfolding fetch_sections.simps by (intro frames Cons)
qed (simp add: keeps_ret)

lemma keeps_fetch_ingredients [frames]: "keeps f (fetch_ingredients h)"
  unfolding fetch_ingredients_def by (intro frames)

lemma keeps_check_ingredients_file [frames]: "keeps f check_ingredients_file"
  unfolding check_ingredients_file_def by (intro frames f_ingredients_file)

lemma keeps_refresh_loop: "keeps f (refresh_loop n)"
proof (induction n)
  case (Suc n)
  show ?case unfolding refresh_loop.simps by (intro frames Suc)
qed (simp add: keeps_ret)

lemma keeps_conditional_ingredients_refresh [frames]: "keeps f conditional_ingredients_refresh"
  unfolding conditional_ingredients_refresh_def by (rule keeps_refresh_loop)

lemma keeps_fetch_modem_name [frames]: "keeps f (fetch_modem_name i)"
  unfolding fetch_modem_name_def by (intro frames)

lemma keeps_event_id [frames]: "keeps f (compute_key ev ty)" "keeps f (generate_event_id ev ty)"
  unfolding generate_event_id_def compute_key_def by (intro frames)+

lemma keeps_footprint [frames]: "keeps f get_imei" "keeps f get_operator" "keeps f get_build_footprint"
  unfolding get_imei_def get_operator_def get_build_footprint_def by (intro frames)+

lemma keeps_event_uptime [frames]: "keeps f (event_uptime m)"
proof (cases m)
  case UPTIME_BOOT
  then show ?thesis unfolding event_uptime_def get_lastboot_uptime_def by simp (intro frames)
qed (simp_all add: event_uptime_def keeps_ret, intro frames)

lemma keeps_crashfile [frames]:
  assumes "P (comps (snprintf (PATHMAX - 1) (path @ ''/'' @ CRASHFILE_NAME)))" "ty = None \<Longrightarrow> E (NullDeref ''create_minimal_crashfile'')"
  shows "keeps f (create_minimal_crashfile ev ty path k up date rdy d0 d1 d2)"
  unfolding create_minimal_crashfile_def Let_def using assms by (intro frames) simp_all

lemma keeps_attach_test_info [frames]:
  assumes "P (comps (snprintf PATHMAX (dir @ ''/'' @ ''test_case.json'')))"
  shows "keeps f (attach_test_info dir)"
  unfolding attach_test_info_def Let_def using assms by (intro frames)

lemma keeps_event_files [frames]:
  assumes "P (comps (snprintf (PATHMAX - 1) (l @ ''/'' @ CRASHFILE_NAME)))"
    and "P (comps (snprintf PATHMAX (l @ ''/'' @ ''test_case.json'')))"
    and "sub = None \<or> ty = None \<Longrightarrow> E (NullDeref ''create_minimal_crashfile'')"
  shows "keeps f (event_files a ev ty sub l up date)"
  unfolding event_files_def using assms by (intro frames) auto

end

end
