(* ===== verification/History_Inv.thy ===== *)
theory History_Inv
  imports History
begin

text \<open>
  The safety of \<open>update_history_file\<close> under every pattern of failing calls: the cache stays a
  ring in which only the next slot can be missing once the file is full, so the trim that
  copies all slots to the file never meets a null pointer.
\<close>

section \<open>What the parts do to the state\<close>

lemma count_lines_cases:
  assumes "run_state (count_lines_in_file (Some f)) s = (res, t)" "sane_faults s"
  shows "quiet s t \<and> (res < 0 \<and> \<not> (reliable s \<and> (\<exists>d. node_at s f = Some (File d))) \<or>
    (\<exists>d. node_at s f = Some (File d) \<and> 0 \<le> res \<and> res \<le> int (length (lines d)) \<and>
         (reliable s \<longrightarrow> res = int (length (lines d)))))"
proof (rule open_read_cases [of f s])
  fix d u assume o: "run_state (open_read f) s = (Some d, u)" "quiet s u" "node_at s f = Some (File d)"
  obtain n r w where loop: "run_state (for_lines d (0::int) (\<lambda>_ n. ret (n + 1, None :: unit option))) u = ((n, r), w)"
    by (metis prod.exhaust)
  have "quiet u w \<and> (case r of Inl v \<Rightarrow> False
     | Inr e \<Rightarrow> \<exists>ls. prefix ls (lines d) \<and> n = int (length ls) \<and> (e = 0 \<and> ls = lines d \<or> e = -1 \<and> \<not> reliable u))"
    by (rule loop_rule [OF loop, of "\<lambda>ls n. n = int (length ls)" "\<lambda>_ _ _. False"]) auto
  then obtain ls where "quiet u w" "prefix ls (lines d)" "n = int (length ls)" "reliable u \<longrightarrow> ls = lines d"
    by (cases r) auto
  moreover have "res = n" "t = w"
    using assms(1) o loop by (simp_all add: count_lines_in_file_def)
  ultimately show ?thesis
    using o quiet_fields(7) [OF o(2)] quiet_trans [OF o(2)] by (auto dest: prefix_length_le)
next
  fix u assume "run_state (open_read f) s = (None, u)" "quiet s u" "sane_faults s \<Longrightarrow> 0 < errno u"
    "reliable s \<Longrightarrow> \<forall>d. node_at s f \<noteq> Some (File d)"
  then show ?thesis using assms by (auto simp: count_lines_in_file_def)
qed

text \<open>The cache, and what may not change behind its back.\<close>

definition same_cache :: "'w hist_scheme \<Rightarrow> 'w hist_scheme \<Rightarrow> bool" where
  "same_cache s t \<longleftrightarrow> historycache t = historycache s \<and> nextline t = nextline s \<and>
     fileentries t = fileentries s \<and> effects t = effects s \<and> fault t = fault s"

lemma same_cache_trans: "same_cache s t \<Longrightarrow> same_cache t u \<Longrightarrow> same_cache s u"
  by (simp add: same_cache_def)

lemma fsonly_same_cache:
  fixes s t :: "'w hist_scheme"
  shows "fsonly s t \<Longrightarrow> same_cache s t"
  by (auto simp: fsonly_def same_cache_def)

lemma quiet_same_cache:
  fixes s t :: "'w hist_scheme"
  shows "quiet s t \<Longrightarrow> same_cache s t"
  by (rule fsonly_same_cache [OF quiet_fsonly])

lemma get_uptime_string_quiet:
  assumes "run_state get_uptime_string s = ((r, u, h), t)"
  shows "quiet s t" "r = 0"
  using assms by (auto simp: get_uptime_string_def get_uptime_def Let_def)

lemma get_timed_firstline_cache:
  assumes "run_state (get_timed_firstline b) s = ((r, l, h), t)"
  shows "same_cache s t" "r = 0" "fs t = fs s"
proof -
  obtain r' u h' w where g: "run_state get_uptime_string s = ((r', u, h'), w)" by (metis prod.exhaust)
  note q = get_uptime_string_quiet [OF g]
  have "same_cache s w" "fs w = fs s" using quiet_same_cache [OF q(1)] quiet_fields(1) [OF q(1)] by auto
  with assms g q show "same_cache s t" "r = 0" "fs t = fs s"
    by (auto simp: get_timed_firstline_def same_cache_def split: if_splits)
qed

lemma write_checked_fsonly: "run_state (write_checked f d) s = (r, t) \<Longrightarrow> fsonly s t"
  by (auto simp: write_checked_def split: prod.splits if_splits dest: write_end_fsonly)

lemma write_slots_fsonly:
  "None \<notin> set rs \<Longrightarrow> run_state (write_slots f rs) s = (r, t) \<Longrightarrow> fsonly s t"
proof (induction rs arbitrary: s)
  case (Cons x rs)
  then obtain l where x: "x = Some l" by (cases x) auto
  obtain c u where w: "run_state (write_checked f l) s = (c, u)" by fastforce
  note q = write_checked_fsonly [OF w]
  show ?case
  proof (cases c)
    case None
    with Cons x w have "fsonly u t" by simp
    with q show ?thesis by (rule fsonly_trans)
  qed (use Cons.prems x w q in simp)
qed simp

section \<open>The invariant\<close>

definition hist_ring :: "'w hist_scheme \<Rightarrow> string ring" where
  "hist_ring s = (historycache s, nat (nextline s))"

definition hist_inv :: "'w hist_scheme \<Rightarrow> bool" where
  "hist_inv s \<longleftrightarrow>
     (if nextline s < 0 then historycache s = replicate MAX_RECORDS None
      else ring_inv MAX_RECORDS (hist_ring s) \<and>
           min (fileentries s) (MAX_RECORDS - 1) \<le> length (ring_items (hist_ring s)))"

lemma same_cache_inv: "same_cache s t \<Longrightarrow> hist_inv t = hist_inv s"
  by (simp add: same_cache_def hist_inv_def hist_ring_def)

lemma ring_null: "0 < m \<Longrightarrow> ring_inv m (replicate m None, 0)"
  using ring_empty_correct(1) by (simp add: ring_empty_def)

text \<open>\<open>cache_history_file\<close> from a cache that is a ring starting at slot 0 (an empty one, usually).\<close>

lemma cache_history_file_cases:
  assumes "ring_inv MAX_RECORDS (historycache s, 0)" "sane_faults s"
    and "run_state cache_history_file s = (res, t)"
  shows "effects t = effects s \<and> fault t = fault s \<and>
    (if res < 0 then (historycache t = historycache s \<or> historycache t = replicate MAX_RECORDS None) \<and>
                     nextline t = nextline s
     else hist_inv t \<and> 0 \<le> nextline t)"
proof (cases "file_exists HISTORY_FILE s")
  case False
  show ?thesis
  proof (rule open_trunc_cases [of HISTORY_FILE s])
    fix u assume o: "run_state (open_trunc HISTORY_FILE) s = (True, u)" "fsonly s u"
    obtain a u1 where m: "run_state (do_chmod HISTORY_FILE ''640'') u = (a, u1)" by fastforce
    obtain b u2 where c: "run_state (chown_log HISTORY_FILE) u1 = (b, u2)" by fastforce
    obtain r l h u3 where g: "run_state (get_timed_firstline True) u2 = ((r, l, h), u3)" by (metis prod.exhaust)
    obtain d u4 where w: "run_state (write_end HISTORY_FILE (l @ HISTORY_BLANK_LINE2)) u3 = (d, u4)" by fastforce
    have "same_cache s u4"
      using fsonly_same_cache [OF o(2)] quiet_same_cache [OF do_chmod_quiet [OF m]]
        quiet_same_cache [OF do_chown_quiet [OF c]] get_timed_firstline_cache(1) [OF g]
        fsonly_same_cache [OF write_end_fsonly [OF w]] by (blast intro: same_cache_trans)
    moreover have "res = 0" "t = u4\<lparr>nextline := 0, fileentries := 0\<rparr>"
      using assms(3) False o m c g w by (simp_all add: cache_history_file_def)
    ultimately show ?thesis
      using assms(1) by (simp add: same_cache_def hist_inv_def hist_ring_def)
  next
    fix u assume o: "run_state (open_trunc HISTORY_FILE) s = (False, u)" "quiet s u"
      "sane_faults s \<Longrightarrow> 0 < errno u"
    then have "res = - errno u" "t = u"
      using assms(3) False by (auto simp: cache_history_file_def)
    with o assms(2) quiet_same_cache [OF o(2)] show ?thesis by (simp add: same_cache_def)
  qed
next
  case True
  obtain n u where cl: "run_state (count_lines_in_file (Some HISTORY_FILE)) s = (n, u)" by fastforce
  note C = count_lines_cases [OF cl assms(2)]
  have qu: "quiet s u" using C by blast
  note su = quiet_same_cache [OF qu]
  consider "n < 0" | "0 \<le> n" "n \<le> int HIST_FILE_HEADER_SIZE" | "int HIST_FILE_HEADER_SIZE < n" by linarith
  then show ?thesis
  proof cases
    case 1
    then have "res = n" "t = u" using assms(3) True cl by (simp_all add: cache_history_file_def)
    with 1 su show ?thesis by (simp add: same_cache_def)
  next
    case 2
    then have "res = 0" "t = u\<lparr>fileentries := 0, nextline := 0\<rparr>"
      using assms(3) True cl by (simp_all add: cache_history_file_def)
    with su assms(1) show ?thesis by (simp add: same_cache_def hist_inv_def hist_ring_def)
  next
    case 3
    then obtain d where d: "node_at s HISTORY_FILE = Some (File d)" "n \<le> int (length (lines d))"
      using C by auto
    let ?off = "nat (if n > int (HIST_FILE_HEADER_SIZE + MAX_RECORDS) then n - int MAX_RECORDS else int HIST_FILE_HEADER_SIZE)"
    let ?ws = "wanted ?off d"
    let ?u = "u\<lparr>fileentries := nat (n - int HIST_FILE_HEADER_SIZE)\<rparr>"
    obtain r recs w where cf: "run_state (cache_file (Some HISTORY_FILE) (Some (historycache u)) MAX_RECORDS
        CACHE_TAIL (int ?off)) ?u = ((r, recs), w)" by (metis prod.exhaust)
    have hc: "historycache u = historycache s" "length (historycache s) = MAX_RECORDS"
      using su assms(1) by (auto simp: same_cache_def ring_inv_def)
    have su': "sane_faults ?u" "node_at ?u HISTORY_FILE = Some (File d)"
      using assms(2) d quiet_fields(8,9) [OF qu] by (simp_all add: sane_faults_def node_at_def)
    have T: "quiet ?u w \<and> ((r = int (min MAX_RECORDS (length ?ws)) \<and>
        recs = map Some (lastn MAX_RECORDS ?ws) @ replicate (MAX_RECORDS - length ?ws) None) \<or>
        r < 0 \<and> (recs = historycache s \<or> recs = replicate MAX_RECORDS None))"
      using cache_file_tail_cases [OF MAX_RECORDS_pos(1) _ su'(1) cf] hc su'(2) by auto
    have off: "int ?off = (if n > int (HIST_FILE_HEADER_SIZE + MAX_RECORDS) then n - int MAX_RECORDS else int HIST_FILE_HEADER_SIZE)"
      using 3 by simp
    have res: "res = r" "t = (if r < 0 then w\<lparr>historycache := recs\<rparr>
        else w\<lparr>historycache := recs, nextline := cmod r (int MAX_RECORDS)\<rparr>)"
      using assms(3) True cl 3 cf off by (cases "r < 0"; simp add: cache_history_file_def Let_def; blast)+
    have sw: "historycache w = historycache s" "nextline w = nextline s" "effects w = effects s"
      "fault w = fault s" "fileentries w = nat (n - int HIST_FILE_HEADER_SIZE)"
      using T su by (auto simp: quiet_def same_cache_def)
    show ?thesis
    proof (cases "r < 0")
      case True
      with T res sw show ?thesis by auto
    next
      case False
      with T have R: "r = int (min MAX_RECORDS (length ?ws))"
        "recs = map Some (lastn MAX_RECORDS ?ws) @ replicate (MAX_RECORDS - length ?ws) None" by auto
      let ?xs = "lastn MAX_RECORDS ?ws"
      have ring: "hist_ring t = (map Some ?xs @ replicate (MAX_RECORDS - length ?xs) None, length ?xs mod MAX_RECORDS)"
        using res False R by (simp add: hist_ring_def nat_mod_distrib min_def)
      have "ring_inv MAX_RECORDS (hist_ring t)" "ring_items (hist_ring t) = ?xs"
        unfolding ring by (rule ring_of_list; simp)+
      moreover have "min (fileentries t) (MAX_RECORDS - 1) \<le> length ?xs"
        using res False sw(5) d(2) 3 by (auto simp: wanted_def min_def)
      moreover have "0 \<le> nextline t" using res False R by simp
      ultimately have "hist_inv t" "0 \<le> nextline t" by (simp_all add: hist_inv_def)
      then show ?thesis using res False sw by simp
    qed
  qed
qed

lemma hist_inv_start:
  assumes "hist_inv s" "nextline s \<le> 0"
  shows "ring_inv MAX_RECORDS (historycache s, 0)"
  using assms by (cases "nextline s < 0") (auto simp: hist_inv_def hist_ring_def ring_null)

lemma hist_inv_length: "hist_inv s \<Longrightarrow> length (historycache s) = MAX_RECORDS"
  by (auto simp: hist_inv_def hist_ring_def ring_inv_def split: if_splits)

text \<open>
  A history file that could not be created again leaves the next slot wherever it was, with an
  empty cache. What every call keeps is therefore the invariant, or this: there is no history
  file and the cache is empty.
\<close>

definition hist_safe :: "'w hist_scheme \<Rightarrow> bool" where
  "hist_safe s \<longleftrightarrow> hist_inv s \<or>
     \<not> file_exists HISTORY_FILE s \<and> historycache s = replicate MAX_RECORDS None"

lemma hist_inv_safe: "hist_inv s \<Longrightarrow> hist_safe s"
  by (simp add: hist_safe_def)

lemma hist_safe_length: "hist_safe s \<Longrightarrow> length (historycache s) = MAX_RECORDS"
  by (auto simp: hist_safe_def dest: hist_inv_length)

lemma cache_history_file_failed:
  assumes "\<not> file_exists HISTORY_FILE s" "run_state cache_history_file s = (res, t)" "res < 0"
  shows "quiet s t"
proof (rule open_trunc_cases [of HISTORY_FILE s])
  fix u assume o: "run_state (open_trunc HISTORY_FILE) s = (True, u)"
  obtain a u1 where m: "run_state (do_chmod HISTORY_FILE ''640'') u = (a, u1)" by fastforce
  obtain b u2 where c: "run_state (chown_log HISTORY_FILE) u1 = (b, u2)" by fastforce
  obtain r l h u3 where g: "run_state (get_timed_firstline True) u2 = ((r, l, h), u3)" by (metis prod.exhaust)
  obtain d u4 where w: "run_state (write_end HISTORY_FILE (l @ HISTORY_BLANK_LINE2)) u3 = (d, u4)" by fastforce
  have "res = 0" using assms o m c g w by (simp add: cache_history_file_def)
  with assms(3) show ?thesis by simp
next
  fix u assume "run_state (open_trunc HISTORY_FILE) s = (False, u)" "quiet s u"
  with assms show ?thesis by (simp add: cache_history_file_def)
qed

lemma reset_history_cache_cases:
  assumes "hist_safe s" "sane_faults s" "\<not> file_exists HISTORY_FILE s"
    and "run_state reset_history_cache s = (res, t)"
  shows "effects t = effects s \<and> fault t = fault s \<and> hist_safe t \<and>
    (0 \<le> res \<longrightarrow> hist_inv t \<and> 0 \<le> nextline t)"
proof -
  let ?clear = "nextline s > 0 \<or> (historycache s \<noteq> [] \<and> hd (historycache s) \<noteq> None)"
  let ?s = "if ?clear then s\<lparr>historycache := replicate (length (historycache s)) None\<rparr> else s"
  have r: "run_state cache_history_file ?s = (res, t)"
    using assms(4) by (auto simp: reset_history_cache_def split: if_splits)
  have ring: "ring_inv MAX_RECORDS (historycache ?s, 0)"
    using assms(1) hist_safe_length [OF assms(1)] hist_inv_start [of s]
    by (auto simp: hist_safe_def ring_null)
  have sane: "sane_faults ?s" using assms(2) by (simp add: sane_faults_def)
  have safe: "hist_safe ?s"
    using assms(1,3) hist_safe_length [OF assms(1)] by (simp add: hist_safe_def file_exists_def node_at_def)
  note C = cache_history_file_cases [OF ring sane r]
  show ?thesis
  proof (cases "res < 0")
    case True
    have "\<not> file_exists HISTORY_FILE ?s"
      using assms(3) by (simp add: file_exists_def node_at_def)
    from cache_history_file_failed [OF this r True] have q: "quiet ?s t" .
    have "file_exists HISTORY_FILE t = file_exists HISTORY_FILE ?s"
      using quiet_fields(1) [OF q] by (simp add: file_exists_def node_at_def)
    moreover have "historycache t = historycache ?s" "effects t = effects ?s" "fault t = fault ?s"
      using quiet_same_cache [OF q] by (simp_all add: same_cache_def)
    ultimately show ?thesis
      using safe same_cache_inv [OF quiet_same_cache [OF q]] True by (simp add: hist_safe_def)
  qed (use C in \<open>auto simp: hist_safe_def split: if_splits\<close>)
qed

lemma history_ready_cases:
  assumes "hist_safe s" "sane_faults s" "run_state history_ready s = (stop, t)"
  shows "effects t = effects s \<and> fault t = fault s \<and>
    (case stop of None \<Rightarrow> hist_inv t \<and> 0 \<le> nextline t
     | Some c \<Rightarrow> c < 0 \<and> hist_safe t \<and> (hist_inv t \<or> \<not> file_exists HISTORY_FILE s))"
proof -
  obtain r1 u where r1: "run_state (if \<not> file_exists HISTORY_FILE s then reset_history_cache else ret 0) s = (r1, u)"
    by fastforce
  show ?thesis
  proof (cases "\<not> file_exists HISTORY_FILE s \<and> r1 < 0")
    case True
    with r1 reset_history_cache_cases [OF assms(1,2), of r1 u] assms(3) show ?thesis
      by (auto simp: history_ready_def split: option.splits)
  next
    case False
    have U: "hist_inv u" "effects u = effects s" "fault u = fault s" "sane_faults u"
      using r1 reset_history_cache_cases [OF assms(1,2), of r1 u] assms(1,2) False
      by (auto simp: sane_faults_def hist_safe_def split: if_splits)
    show ?thesis
    proof (cases "nextline u < 0")
      case neg: True
      obtain r2 w where r2: "run_state cache_history_file u = (r2, w)" by fastforce
      have start: "ring_inv MAX_RECORDS (historycache u, 0)"
        using hist_inv_start [OF U(1)] neg by simp
      note W = cache_history_file_cases [OF start U(4) r2]
      have "hist_inv w" if "r2 < 0"
        using W that neg U(1) by (auto simp: hist_inv_def)
      with W r1 r2 neg False assms(3) U show ?thesis
        by (auto simp: history_ready_def hist_safe_def split: if_splits)
    next
      case nonneg: False
      with r1 False assms(3) U show ?thesis by (auto simp: history_ready_def)
    qed
  qed
qed

lemma trim_history_file_safe:
  assumes "None \<notin> set (historycache s)" "run_state trim_history_file s = (res, t)"
  shows "effects t = effects s \<and> fault t = fault s \<and> historycache t = historycache s \<and>
    nextline t = nextline s \<and> (fileentries t = fileentries s \<or> fileentries t = MAX_RECORDS)"
proof -
  have P: "same_cache s t \<or> (\<exists>u. same_cache s u \<and> t = u\<lparr>fileentries := MAX_RECORDS\<rparr>)"
  proof (rule open_trunc_cases [of HISTORY_FILE s])
    fix u assume o: "run_state (open_trunc HISTORY_FILE) s = (True, u)" "fsonly s u"
    obtain r l h u1 where g: "run_state (get_timed_firstline False) u = ((r, l, h), u1)" by (metis prod.exhaust)
    have s1: "same_cache s u1"
      using fsonly_same_cache [OF o(2)] get_timed_firstline_cache(1) [OF g] by (rule same_cache_trans)
    obtain c1 u2 where w1: "run_state (write_checked HISTORY_FILE (if r = 0 then l else HISTORY_BLANK_LINE1)) u1 = (c1, u2)"
      by fastforce
    have s2: "same_cache s u2"
      using s1 fsonly_same_cache [OF write_checked_fsonly [OF w1]] by (rule same_cache_trans)
    obtain c2 u3 where w2: "run_state (write_checked HISTORY_FILE HISTORY_BLANK_LINE2) u2 = (c2, u3)" by fastforce
    have s3: "same_cache s u3"
      using s2 fsonly_same_cache [OF write_checked_fsonly [OF w2]] by (rule same_cache_trans)
    let ?n = "nat (nextline u3)"
    have nn: "None \<notin> set (drop ?n (historycache u3))" "None \<notin> set (take ?n (historycache u3))"
      using assms(1) s3 by (auto simp: same_cache_def dest: in_set_dropD in_set_takeD)
    obtain c3 u4 where w3: "run_state (write_slots HISTORY_FILE (drop ?n (historycache u3))) u3 = (c3, u4)" by fastforce
    have s4: "same_cache s u4"
      using s3 fsonly_same_cache [OF write_slots_fsonly [OF nn(1) w3]] by (rule same_cache_trans)
    obtain c4 u5 where w4: "run_state (write_slots HISTORY_FILE (take ?n (historycache u3))) u4 = (c4, u5)" by fastforce
    have s5: "same_cache s u5"
      using s4 fsonly_same_cache [OF write_slots_fsonly [OF nn(2) w4]] by (rule same_cache_trans)
    show ?thesis
      using assms(2) o g w1 w2 w3 w4 s2 s3 s4 s5
      by (cases c1; cases c2; cases c3; cases c4) (auto simp: trim_history_file_def)
  next
    fix u assume "run_state (open_trunc HISTORY_FILE) s = (False, u)" "quiet s u"
    with assms(2) quiet_same_cache [of s u] show ?thesis by (auto simp: trim_history_file_def)
  qed
  then show ?thesis by (auto simp: same_cache_def)
qed

lemma ring_full_no_null:
  assumes "ring_inv cap r" "length (ring_items r) = cap"
  shows "None \<notin> set (fst r)"
proof -
  have "set (rotate (snd r) (fst r)) = set (map Some (ring_items r))"
    using ring_full_rotate [OF assms] by simp
  then show ?thesis by auto
qed

text \<open>The end of an update, once the cache is ready: the line goes into the ring and the file.\<close>

lemma store_line_safe:
  fixes l :: string
  assumes "hist_inv s" "0 \<le> nextline s"
  defines "s' \<equiv> store_line l s"
  shows "hist_inv s'" "0 \<le> nextline s'" "hist_ring s' = ring_push l (hist_ring s)"
    and "MAX_RECORDS_HIST_FILE \<le> fileentries s' \<Longrightarrow> None \<notin> set (historycache s')"
proof -
  have I: "ring_inv MAX_RECORDS (hist_ring s)"
    "min (fileentries s) (MAX_RECORDS - 1) \<le> length (ring_items (hist_ring s))"
    using assms(1,2) by (auto simp: hist_inv_def)
  have len: "length (historycache s) = MAX_RECORDS" by (rule hist_inv_length [OF assms(1)])
  then show push: "hist_ring s' = ring_push l (hist_ring s)"
    by (simp add: s'_def store_line_def hist_ring_def ring_push_def)
  have I': "ring_inv MAX_RECORDS (hist_ring s')"
    "ring_items (hist_ring s') = lastn MAX_RECORDS (ring_items (hist_ring s) @ [l])"
    unfolding push by (rule ring_push_correct [OF I(1)])+
  have le: "fileentries s' \<le> fileentries s + 1"
    by (simp add: s'_def store_line_def)
  then have "min (fileentries s') (MAX_RECORDS - 1) \<le> length (ring_items (hist_ring s'))"
    using I(2) by (simp add: I'(2)) linarith
  with I' show "hist_inv s'" "0 \<le> nextline s'" by (auto simp: hist_inv_def s'_def store_line_def)
  show "None \<notin> set (historycache s')" if "MAX_RECORDS_HIST_FILE \<le> fileentries s'"
  proof -
    have "MAX_RECORDS - 1 \<le> length (ring_items (hist_ring s))"
      using that le I(2) MAX_RECORDS_less_file by linarith
    then have "length (ring_items (hist_ring s')) = MAX_RECORDS"
      by (simp add: I'(2))
    from ring_full_no_null [OF I'(1) this] show ?thesis by (simp add: hist_ring_def)
  qed
qed

lemma append_file_fsonly:
  assumes "l \<noteq> []" "run_state (append_file (Some f) (Some l)) s = (r, t)"
  shows "fsonly s t"
proof (rule append_file_cases [OF assms(1), of f s])
  fix d k u assume "run_state (append_file (Some f) (Some l)) s = (int (length (take k l)), u)"
    "\<exists>v. quiet s v \<and> u = put f (File (d @ take k l)) v"
  with assms(2) show ?thesis by (auto intro: fsonly_trans [OF quiet_fsonly fsonly_put(1)])
next
  fix u e assume "run_state (append_file (Some f) (Some l)) s = (- e, u)" "quiet s u"
  with assms(2) show ?thesis by (auto intro: quiet_fsonly)
qed

lemma update_history_file_safe:
  assumes "hist_safe s" and "sane_faults s" and "run_state (update_history_file entry) s = (res, t)"
  shows "effects t = effects s \<and> hist_safe t \<and>
    (hist_inv t \<or> \<not> file_exists HISTORY_FILE s \<and> res < 0)"
proof (cases "\<exists>en. entry = Some en \<and> e_key en \<noteq> None \<and> e_eventtime en \<noteq> None")
  case False
  then have "res < 0" "t = s"
    using assms(3) by (auto simp: update_history_file_def Let_def EINVAL_def split: option.splits if_splits)
  with assms(1) show ?thesis by (auto simp: hist_safe_def)
next
  case True
  then obtain en where en: "entry = Some en" "e_key en \<noteq> None" "e_eventtime en \<noteq> None" by blast
  obtain stop u where r: "run_state history_ready s = (stop, u)" by fastforce
  note U = history_ready_cases [OF assms(1,2) r]
  show ?thesis
  proof (cases stop)
    case (Some c)
    with U r en assms(3) show ?thesis by (auto simp: update_history_file_def Let_def)
  next
    case None
    with U have I: "hist_inv u" "0 \<le> nextline u" by auto
    let ?l = "entry_to_history_line en"
    show ?thesis
    proof (cases "?l = []")
      case True
      with None U r en assms(3) show ?thesis by (auto simp: update_history_file_def Let_def hist_safe_def)
    next
      case l: False
      show ?thesis
      proof (rule alloc_cases [of u])
        fix w assume a: "run_state alloc u = (False, w)" "quiet u w" "errno w = ENOMEM"
        have Iw: "hist_inv w" "nextline w = nextline u" "historycache w = historycache u"
          using same_cache_inv [OF quiet_same_cache [OF a(2)]] I(1) quiet_same_cache [OF a(2)]
          by (auto simp: same_cache_def)
        let ?w = "w\<lparr>historycache := (historycache w)[nat (nextline u) := None]\<rparr>"
        have "hist_ring ?w = ((fst (hist_ring w))[snd (hist_ring w) := None], snd (hist_ring w))"
          using Iw by (simp add: hist_ring_def)
        then have "hist_inv ?w"
          using ring_clear_next [of MAX_RECORDS "hist_ring w"] Iw I(2) by (auto simp: hist_inv_def)
        with None U r en l a quiet_fields(4) [OF a(2)] assms(3) show ?thesis
          by (auto simp: update_history_file_def Let_def hist_inv_safe)
      next
        fix w assume a: "run_state alloc u = (True, w)" "quiet u w"
        have Iw: "hist_inv w" "0 \<le> nextline w" "nextline w = nextline u"
          using same_cache_inv [OF quiet_same_cache [OF a(2)]] I quiet_same_cache [OF a(2)]
          by (auto simp: same_cache_def)
        let ?w = "store_line ?l w"
        note S = store_line_safe [OF Iw(1,2), of ?l]
        have e: "effects ?w = effects s" using U quiet_fields(4) [OF a(2)] by (simp add: store_line_def)
        show ?thesis
        proof (cases "fileentries ?w < MAX_RECORDS_HIST_FILE")
          case True
          obtain ra x where ap: "run_state (append_file (Some HISTORY_FILE) (Some ?l)) ?w = (ra, x)" by fastforce
          have "same_cache ?w x" by (rule fsonly_same_cache [OF append_file_fsonly [OF l ap]])
          moreover have "t = x"
            using None r en l a True ap assms(3) by (auto simp: update_history_file_def Let_def)
          ultimately show ?thesis
            using S(1) same_cache_inv [of ?w x] e by (auto simp: same_cache_def hist_safe_def)
        next
          case False
          then have tr: "run_state trim_history_file ?w = (res, t)"
            using None r en l a assms(3) by (auto simp: update_history_file_def Let_def)
          note T = trim_history_file_safe [OF S(4) tr]
          have "hist_ring t = hist_ring ?w" using T False by (simp add: hist_ring_def)
          moreover have "min (fileentries t) (MAX_RECORDS - 1) \<le> length (ring_items (hist_ring ?w))"
            using S(1,2) T False MAX_RECORDS_less_file by (auto simp: hist_inv_def)
          ultimately show ?thesis
            using S(1,2) T False e by (auto simp: hist_inv_def hist_safe_def)
        qed
      qed
    qed
  qed
qed

text \<open>
  C1. Whatever system calls fail, \<open>update_history_file\<close> never follows a null slot of the cache
  and keeps what makes it so for the calls that come after it: the cache is a ring in which only
  the next slot can be missing once the file is full, or there is no history file and the cache
  is empty. The second is what a history file leaves that is missing and cannot be created
  again; such a call reports an error, every other call ends with the ring. (Nobody else may
  create the file before the next call: the model has no other writer.)
\<close>

theorem update_history_file_null_safe:
  assumes "hist_safe s" and "sane_faults s" and "run_state (update_history_file entry) s = (res, t)"
  shows "effects t = effects s \<and> hist_safe t \<and>
    (hist_inv t \<or> \<not> file_exists HISTORY_FILE s \<and> res < 0)"
  using update_history_file_safe [OF assms] .

text \<open>A daemon that has just started, with the given files and faults.\<close>

definition boot :: "tree \<Rightarrow> (nat \<Rightarrow> fault) \<Rightarrow> hist" where
  "boot t f = \<lparr>fs = t, props = [], errno = 0, fault = f, calls = 0, clock = (\<lambda>_. 3723000000000),
     fmt_time = (\<lambda>_. ''2020-01-01/00:00:00  ''), effects = [],
     historycache = replicate MAX_RECORDS None, nextline = -1, fileentries = 0, loop_uptime_event = 1,
     lastbootuptime = ''0000:00:00'', lastfakeprop = [], saved_hours = 0, saved_lastuptime = [], time_long = []\<rparr>"

lemma hist_inv_boot [simp]: "hist_inv (boot t f)"
  by (simp add: hist_inv_def boot_def)

theorem update_history_file_null_safe_witness:
  "\<exists>res t. run_state (update_history_file (Some \<lparr>e_event = Some ''CRASH'', e_type = Some ''T'', e_log = None,
       e_lastuptime = None, e_key = Some ''k'', e_eventtime = Some ''d''\<rparr>))
       (boot [([''logs''], Dir)] (\<lambda>n. if n = 5 then Fails 28 else Works)) = (res, t) \<and>
     effects t = [] \<and> hist_safe t \<and> (hist_inv t \<or> res < 0)"
proof -
  let ?e = "Some \<lparr>e_event = Some ''CRASH'', e_type = Some ''T'', e_log = None,
       e_lastuptime = None, e_key = Some ''k'', e_eventtime = Some ''d''\<rparr>"
  let ?s = "boot [([''logs''], Dir)] (\<lambda>n. if n = 5 then Fails 28 else Works)"
  obtain res t where "run_state (update_history_file ?e) ?s = (res, t)" by fastforce
  moreover have "sane_faults ?s" by (simp add: boot_def sane_faults_def)
  moreover have "effects ?s = []" by (simp add: boot_def)
  moreover have "hist_safe ?s" by (simp add: hist_inv_safe)
  ultimately show ?thesis
    using update_history_file_null_safe [of ?s ?e res t] by auto
qed

end
