(* ===== verification/History_Log.thy ===== *)
theory History_Log
  imports History_Inv
begin

text \<open>
  The history as its users see it: a bounded log. \<open>log_append\<close> is the specification; when no
  call fails, file and cache implement it, and a restarted daemon picks the log up from the
  file.
\<close>

section \<open>The specification and its relation to the state\<close>

definition log_append :: "string list \<Rightarrow> string \<Rightarrow> string list" where
  "log_append recs l =
     (if length recs + 1 < MAX_RECORDS_HIST_FILE then recs @ [l] else lastn MAX_RECORDS (recs @ [l]))"

definition wf_rec :: "string \<Rightarrow> bool" where
  "wf_rec l \<longleftrightarrow> wf_line l \<and> NUL \<notin> set l"

text \<open>The file holds two header lines and the records.\<close>

definition hist_file :: "'w world_scheme \<Rightarrow> string list \<Rightarrow> bool" where
  "hist_file s recs \<longleftrightarrow>
     (\<exists>h1 h2. wf_rec h1 \<and> wf_rec h2 \<and>
        node_at s HISTORY_FILE = Some (File (concat (h1 # h2 # recs)))) \<and>
     (\<forall>l \<in> set recs. wf_rec l) \<and> is_dir (fs s) (butlast (comps HISTORY_FILE))"

definition plain_uptime :: "string \<Rightarrow> bool" where
  "plain_uptime u \<longleftrightarrow> length u \<le> 23 \<and> NL \<notin> set u \<and> NUL \<notin> set u"

definition hist_sync :: "'w hist_scheme \<Rightarrow> string list \<Rightarrow> bool" where
  "hist_sync s recs \<longleftrightarrow>
     hist_file s recs \<and> 0 \<le> nextline s \<and> ring_inv MAX_RECORDS (hist_ring s) \<and>
     ring_items (hist_ring s) = lastn MAX_RECORDS recs \<and> fileentries s = length recs \<and>
     plain_uptime (saved_lastuptime s)"

section \<open>The header lines\<close>

lemma comps_HISTORY_FILE: "comps HISTORY_FILE = [''logs'', ''history_event'']"
  by (simp add: HISTORY_FILE_def LOGS_DIR_def comps_def)

lemma wf_rec_BLANK_LINE2: "wf_rec HISTORY_BLANK_LINE2"
  by (simp add: HISTORY_BLANK_LINE2_def wf_rec_def wf_line_def privconst)

lemma set_pad_right: "set (pad_right n s) \<subseteq> insert (CHR '' '') (set s)"
  by (auto simp: pad_right_def)

lemma wf_rec_first_line:
  assumes "plain_uptime u"
  shows "wf_rec (HISTORY_FIRST_LINE u)" "snprintf MAXLINESIZE (HISTORY_FIRST_LINE u) = HISTORY_FIRST_LINE u"
proof -
  have n: "NL \<notin> set (pad_right 24 u)" "NUL \<notin> set (pad_right 24 u)"
    using assms set_pad_right [of 24 u] by (auto simp: plain_uptime_def)
  have l: "length (pad_right 24 u) = 24" using assms by (simp add: length_pad_right plain_uptime_def)
  let ?b = "''#V1.0 CURRENTUPTIME   '' @ pad_right 24 u"
  have e: "HISTORY_FIRST_LINE u = ?b @ [NL]" by (simp add: HISTORY_FIRST_LINE_def)
  have "length (?b @ [NL]) = 47" using l by simp
  moreover have "NL \<notin> set ?b" "NUL \<notin> set (?b @ [NL])" using n by auto
  ultimately show "wf_rec (HISTORY_FIRST_LINE u)"
    unfolding e wf_rec_def wf_line_def by (simp add: privconst)
  show "snprintf MAXLINESIZE (HISTORY_FIRST_LINE u) = HISTORY_FIRST_LINE u"
    unfolding e using \<open>length (?b @ [NL]) = 47\<close> by (intro snprintf_id) (simp only: privconst)
qed

lemma fmt_d0_chars: "c \<in> set (fmt_d0 w i) \<Longrightarrow> isdigit c \<or> c = CHR ''-''"
proof -
  have z: "isdigit (CHR ''0'')" by (simp add: isdigit_def)
  assume "c \<in> set (fmt_d0 w i)"
  with z show ?thesis
    using show_nat_digits by (auto simp: fmt_d0_def pad_left_def split: if_splits)
qed

lemma get_uptime_string_plain:
  assumes "run_state get_uptime_string s = ((r, u, h), t)"
  shows "plain_uptime (take 23 u)"
proof -
  obtain a b c where u: "u = snprintf 24 (fmt_d0 4 a @ '':'' @ fmt_d0 2 b @ '':'' @ fmt_d0 2 c)"
    using assms by (auto simp: get_uptime_string_def get_uptime_def Let_def)
  have "c \<noteq> NL \<and> c \<noteq> NUL" if "c \<in> set u" for c
  proof -
    from that have "isdigit c \<or> c = CHR ''-'' \<or> c = CHR '':''"
      using u fmt_d0_chars by (fastforce simp: snprintf_def dest: in_set_takeD)
    then show ?thesis by (auto simp: isdigit_def)
  qed
  then show ?thesis by (auto simp: plain_uptime_def dest: in_set_takeD)
qed

lemma get_timed_firstline_wf:
  assumes "run_state (get_timed_firstline b) s = ((r, l, h), t)" "plain_uptime (saved_lastuptime s)"
  shows "wf_rec l" "plain_uptime (saved_lastuptime t)"
proof -
  obtain r' u h' w where g: "run_state get_uptime_string s = ((r', u, h'), w)" by (metis prod.exhaust)
  have u: "take 23 u = u" "r' = 0"
    using g by (auto simp: get_uptime_string_def get_uptime_def Let_def snprintf_def)
  have p: "plain_uptime u" using get_uptime_string_plain [OF g] u by simp
  show "wf_rec l" "plain_uptime (saved_lastuptime t)"
    using assms g u p wf_rec_first_line [OF p] wf_rec_first_line [OF assms(2)]
    by (auto simp: get_timed_firstline_def split: if_splits)
qed

section \<open>Writing when nothing fails\<close>

lemma write_checked_reliable:
  "reliable s \<Longrightarrow> run_state (write_checked f d) s =
     (None, put f (File (content s f @ d)) (s\<lparr>calls := Suc (calls s)\<rparr>))"
  by (simp add: write_checked_def write_end_reliable)

lemma write_slots_reliable:
  "reliable s \<Longrightarrow> \<exists>k. run_state (write_slots f (map Some ls)) s =
     (None, (if ls = [] then s else put f (File (content s f @ concat ls)) (s\<lparr>calls := k\<rparr>)))"
proof (induction ls arbitrary: s)
  case (Cons l ls)
  let ?s = "put f (File (content s f @ l)) (s\<lparr>calls := Suc (calls s)\<rparr>)"
  obtain k where "run_state (write_slots f (map Some ls)) ?s =
     (None, (if ls = [] then ?s else put f (File (content ?s f @ concat ls)) (?s\<lparr>calls := k\<rparr>)))"
    using Cons.IH [of ?s] Cons.prems by auto
  with Cons.prems show ?case
    by (cases "ls = []") (auto simp: write_checked_reliable)
qed auto

lemma ring_view_slots:
  assumes "ring_inv cap (hc, n)" "length (ring_items (hc, n)) = cap"
  shows "\<exists>a b. drop n hc = map Some a \<and> take n hc = map Some b \<and> a @ b = ring_items (hc, n)"
proof -
  have "drop n hc @ take n hc = map Some (ring_items (hc, n))"
    using ring_full_rotate [OF assms] assms(1) by (simp add: ring_inv_def rotate_add_drop_take)
  then show ?thesis by (auto simp: append_eq_map_conv)
qed

lemma trim_history_file_reliable:
  assumes "reliable s" "ring_inv MAX_RECORDS (hist_ring s)" "length (ring_items (hist_ring s)) = MAX_RECORDS"
    and "hist_file s recs" "plain_uptime (saved_lastuptime s)" "\<forall>l \<in> set (ring_items (hist_ring s)). wf_rec l"
  shows "\<exists>t. run_state trim_history_file s = (0, t) \<and> hist_file t (ring_items (hist_ring s)) \<and>
    hist_ring t = hist_ring s \<and> nextline t = nextline s \<and> fileentries t = MAX_RECORDS \<and>
    plain_uptime (saved_lastuptime t)"
proof -
  let ?f = HISTORY_FILE
  have dir: "is_dir (fs s) (butlast (comps ?f))" "comps ?f \<noteq> []" "node_at s ?f \<noteq> Some Dir"
    using assms(4) by (auto simp: hist_file_def comps_HISTORY_FILE)
  let ?u = "put ?f (File []) (s\<lparr>calls := Suc (calls s)\<rparr>)"
  have o: "run_state (open_trunc ?f) s = (True, ?u)"
    using assms(1) dir by (simp add: open_trunc_reliable)
  obtain r l h v where g: "run_state (get_timed_firstline False) ?u = ((r, l, h), v)" by (metis prod.exhaust)
  note G = get_timed_firstline_cache [OF g] and W = get_timed_firstline_wf [OF g]
  have plain: "plain_uptime (saved_lastuptime ?u)" using assms(5) by (simp add: put_def)
  have v: "historycache v = historycache s" "nextline v = nextline s" "fs v = fs ?u" "reliable v"
    "content v ?f = []"
    using G assms(1) by (auto simp: same_cache_def put_def reliable_def content_def node_at_def update_conv')
  let ?w = "put ?f (File (l @ HISTORY_BLANK_LINE2)) (v\<lparr>calls := Suc (Suc (calls v))\<rparr>)"
  let ?n = "nat (nextline s)"
  obtain a b where ab: "drop ?n (historycache s) = map Some a" "take ?n (historycache s) = map Some b"
    "a @ b = ring_items (hist_ring s)"
    using ring_view_slots assms(2,3) unfolding hist_ring_def by blast
  have w: "historycache ?w = historycache s" "nextline ?w = nextline s" "reliable ?w"
    "content ?w ?f = l @ HISTORY_BLANK_LINE2"
    using v by (simp_all add: put_def reliable_def content_def node_at_def update_conv')
  obtain k1 where k1: "run_state (write_slots ?f (map Some a)) ?w =
     (None, (if a = [] then ?w else put ?f (File (content ?w ?f @ concat a)) (?w\<lparr>calls := k1\<rparr>)))"
    using write_slots_reliable [OF w(3)] by blast
  define x where "x = (if a = [] then ?w else put ?f (File (content ?w ?f @ concat a)) (?w\<lparr>calls := k1\<rparr>))"
  have x: "reliable x" "content x ?f = l @ HISTORY_BLANK_LINE2 @ concat a" "node_at x ?f = Some (File (content x ?f))"
    using w by (simp_all add: x_def)
  obtain k2 where k2: "run_state (write_slots ?f (map Some b)) x =
     (None, (if b = [] then x else put ?f (File (content x ?f @ concat b)) (x\<lparr>calls := k2\<rparr>)))"
    using write_slots_reliable [OF x(1)] by blast
  define y where "y = (if b = [] then x else put ?f (File (content x ?f @ concat b)) (x\<lparr>calls := k2\<rparr>))"
  have y: "node_at y ?f = Some (File (concat (l # HISTORY_BLANK_LINE2 # (a @ b))))"
    using x by (simp add: y_def)
  have cache: "historycache y = historycache s" "nextline y = nextline s" "saved_lastuptime y = saved_lastuptime v"
    "is_dir (fs y) (butlast (comps ?f))"
    using w v dir by (auto simp: y_def x_def put_def is_dir_def update_conv' comps_HISTORY_FILE)
  have "run_state trim_history_file s = (0, y\<lparr>fileentries := MAX_RECORDS\<rparr>)"
    using o g G(2) v(4,5) w k1 k2 ab(1,2)
    by (simp add: trim_history_file_def write_checked_reliable x_def y_def)
  moreover have "hist_file (y\<lparr>fileentries := MAX_RECORDS\<rparr>) (ring_items (hist_ring s))"
    unfolding hist_file_def
  proof (intro conjI)
    show "\<exists>h1 h2. wf_rec h1 \<and> wf_rec h2 \<and> node_at (y\<lparr>fileentries := MAX_RECORDS\<rparr>) ?f =
        Some (File (concat (h1 # h2 # ring_items (hist_ring s))))"
      using y W(1) [OF plain] wf_rec_BLANK_LINE2 ab(3)
      by (intro exI [of _ l] exI [of _ HISTORY_BLANK_LINE2]) (simp add: node_at_def)
  qed (use assms(6) cache in simp_all)
  ultimately show ?thesis
    using cache W(2) [OF plain] by (simp add: hist_ring_def)
qed

section \<open>The update refines the log\<close>

lemma lastn_append_any: "lastn n (lastn n xs @ [l]) = lastn n (xs @ [l])"
  by (rule lastn_lastn_snoc)

lemma set_lastn: "set (lastn n xs) \<subseteq> set xs"
  by (auto simp: lastn_def dest: in_set_dropD)

text \<open>What stays true when only calls are spent.\<close>

lemma hist_sync_calls: "hist_sync (s\<lparr>calls := k\<rparr>) recs = hist_sync s recs"
  by (simp add: hist_sync_def hist_file_def hist_ring_def)

lemma store_line_sync:
  assumes "hist_sync s recs" "length recs + 1 < 2 ^ 32"
  shows "hist_file (store_line l s) recs" "0 \<le> nextline (store_line l s)"
    "ring_inv MAX_RECORDS (hist_ring (store_line l s))"
    "ring_items (hist_ring (store_line l s)) = lastn MAX_RECORDS (recs @ [l])"
    "fileentries (store_line l s) = length recs + 1"
    "plain_uptime (saved_lastuptime (store_line l s))"
    "node_at (store_line l s) p = node_at s p"
proof -
  have S: "hist_file s recs" "0 \<le> nextline s" "ring_inv MAX_RECORDS (hist_ring s)"
    "ring_items (hist_ring s) = lastn MAX_RECORDS recs" "fileentries s = length recs"
    "plain_uptime (saved_lastuptime s)"
    using assms(1) by (auto simp: hist_sync_def)
  have push: "hist_ring (store_line l s) = ring_push l (hist_ring s)"
    using S(3) by (simp add: store_line_def hist_ring_def ring_push_def ring_inv_def)
  show "ring_inv MAX_RECORDS (hist_ring (store_line l s))"
    "ring_items (hist_ring (store_line l s)) = lastn MAX_RECORDS (recs @ [l])"
    unfolding push using S(3,4) by (simp_all add: slots.inv_push slots.items_push lastn_append_any)
  show "hist_file (store_line l s) recs" "0 \<le> nextline (store_line l s)"
    "fileentries (store_line l s) = length recs + 1" "plain_uptime (saved_lastuptime (store_line l s))"
    "node_at (store_line l s) p = node_at s p"
    using S assms(2) by (simp_all add: hist_file_def store_line_def node_at_def)
qed

lemma update_history_file_sync:
  assumes "reliable s" "hist_sync s recs" "length recs + 1 < 2 ^ 32"
    and "e_key en \<noteq> None" "e_eventtime en \<noteq> None" "wf_rec (entry_to_history_line en)"
  shows "\<exists>t. run_state (update_history_file (Some en)) s = (0, t) \<and>
    hist_sync t (log_append recs (entry_to_history_line en))"
proof -
  let ?l = "entry_to_history_line en"
  let ?u = "s\<lparr>calls := Suc (calls s)\<rparr>"
  let ?v = "store_line ?l ?u"
  have ex: "file_exists HISTORY_FILE s" "0 \<le> nextline s"
    using assms(2) by (auto simp: hist_sync_def hist_file_def file_exists_def)
  have ready: "run_state history_ready s = (None, s)"
    using ex by (simp add: history_ready_def)
  have al: "run_state alloc s = (True, ?u)" using assms(1) by (simp add: alloc_def)
  have l: "?l \<noteq> []" using assms(6) by (auto simp: wf_rec_def wf_line_def)
  note V = store_line_sync [of ?u recs ?l, unfolded hist_sync_calls, OF assms(2,3)]
  have rel: "reliable ?v" using assms(1) by (simp add: store_line_def reliable_def)
  have wf: "\<forall>x \<in> set (recs @ [?l]). wf_rec x"
    using assms(2,6) by (auto simp: hist_sync_def hist_file_def)
  show ?thesis
  proof (cases "length recs + 1 < MAX_RECORDS_HIST_FILE")
    case True
    from V(1) obtain h1 h2 where h: "wf_rec h1" "wf_rec h2"
      "node_at ?v HISTORY_FILE = Some (File (concat (h1 # h2 # recs)))" by (auto simp: hist_file_def)
    obtain w v where ap: "run_state (append_file (Some HISTORY_FILE) (Some ?l)) ?v = (int (length ?l), w)"
      and v: "quiet ?v v" "w = put HISTORY_FILE (File (concat (h1 # h2 # recs @ [?l]))) v"
      by (rule append_file_cases [OF l, of HISTORY_FILE ?v]) (use h rel in auto)
    have "run_state (update_history_file (Some en)) s = (0, w)"
      using ready al l assms(4,5) ap True V(5) by (auto simp: update_history_file_def Let_def)
    moreover have "hist_file w (recs @ [?l])"
      using h wf V(1) quiet_fields(1) [OF v(1)] unfolding hist_file_def v(2)
      by (auto simp: put_def is_dir_def update_conv' node_at_def comps_HISTORY_FILE)
    moreover have "hist_ring w = hist_ring ?v" "nextline w = nextline ?v" "fileentries w = fileentries ?v"
      "saved_lastuptime w = saved_lastuptime ?v"
      using v by (auto simp: quiet_def put_def hist_ring_def)
    ultimately show ?thesis
      using V True by (auto simp: hist_sync_def log_append_def)
  next
    case False
    then have full: "length (ring_items (hist_ring ?v)) = MAX_RECORDS"
      using V(4) MAX_RECORDS_less_file by simp
    have "\<forall>x \<in> set (ring_items (hist_ring ?v)). wf_rec x"
      using V(4) wf set_lastn [of MAX_RECORDS "recs @ [?l]"] by auto
    then obtain t where t: "run_state trim_history_file ?v = (0, t)" "hist_file t (ring_items (hist_ring ?v))"
      "hist_ring t = hist_ring ?v" "nextline t = nextline ?v" "fileentries t = MAX_RECORDS"
      "plain_uptime (saved_lastuptime t)"
      using trim_history_file_reliable [OF rel V(3) full V(1,6)] by blast
    have "run_state (update_history_file (Some en)) s = (0, t)"
      using ready al l assms(4,5) t(1) False V(5) by (auto simp: update_history_file_def Let_def)
    with t V False full show ?thesis
      by (auto simp: hist_sync_def log_append_def)
  qed
qed

text \<open>
  C2. The history is a bounded log: when no call fails, \<open>update_history_file\<close> answers 0, and the
  file (below its two header lines) and the cache go from the records \<open>recs\<close> to
  \<open>log_append recs line\<close>: the new line at the end, and the oldest records dropped so that
  5000 remain once the file would reach 6000. The cache always holds the last 5000.
\<close>

theorem update_history_file_refines_log:
  assumes "reliable s" and "hist_sync s recs" and "length recs + 1 < 2 ^ 32"
    and "e_key en \<noteq> None" and "e_eventtime en \<noteq> None" and "wf_rec (entry_to_history_line en)"
  shows "\<exists>t. run_state (update_history_file (Some en)) s = (0, t) \<and>
    hist_sync t (log_append recs (entry_to_history_line en))"
  using update_history_file_sync [OF assms] .

section \<open>Restart\<close>

lemma wanted_records:
  assumes "wf_rec h1" "wf_rec h2" "\<forall>l \<in> set recs. wf_rec l"
  shows "lines (concat (h1 # h2 # recs)) = h1 # h2 # recs"
    and "wanted (2 + k) (concat (h1 # h2 # recs)) = drop k recs"
proof -
  have "\<forall>l \<in> set (h1 # h2 # recs). wf_line l" using assms by (auto simp: wf_rec_def)
  from lines_concat [OF this, of "[]"] show l: "lines (concat (h1 # h2 # recs)) = h1 # h2 # recs" by simp
  have "map cstr recs = recs" using assms(3) by (intro map_idI) (auto simp: wf_rec_def)
  then show "wanted (2 + k) (concat (h1 # h2 # recs)) = drop k recs"
    unfolding wanted_def l by (simp add: drop_map [symmetric])
qed

text \<open>
  C17. A restarted daemon finds its log again: from a null cache, \<open>cache_history_file\<close> on a file
  with two header lines and any number of records ends with the cache holding the last 5000
  of them in order and in step with the file.
\<close>

theorem cache_history_file_restores:
  assumes "reliable s" and "historycache s = replicate MAX_RECORDS None" and "hist_file s recs"
    and "plain_uptime (saved_lastuptime s)"
  shows "\<exists>res t. run_state cache_history_file s = (res, t) \<and> 0 \<le> res \<and> hist_sync t recs"
proof -
  from assms(3) obtain h1 h2 where h: "wf_rec h1" "wf_rec h2"
    "node_at s HISTORY_FILE = Some (File (concat (h1 # h2 # recs)))" "\<forall>l \<in> set recs. wf_rec l"
    by (auto simp: hist_file_def)
  let ?d = "concat (h1 # h2 # recs)"
  note L = wanted_records [OF h(1,2,4)]
  have sane: "sane_faults s" using assms(1) by (simp add: sane_faults_def)
  obtain n u where cl: "run_state (count_lines_in_file (Some HISTORY_FILE)) s = (n, u)" by fastforce
  have n: "n = int (length recs) + 2" "quiet s u"
    using count_lines_cases [OF cl sane] assms(1) h(3) L(1) by auto
  have ex: "file_exists HISTORY_FILE s" using h(3) by (simp add: file_exists_def)
  have u: "historycache u = replicate MAX_RECORDS None" "saved_lastuptime u = saved_lastuptime s"
    "hist_file u recs" "reliable u"
    using assms n(2) by (auto simp: quiet_def hist_file_def)
  show ?thesis
  proof (cases "recs = []")
    case True
    then have "run_state cache_history_file s = (0, u\<lparr>fileentries := 0, nextline := 0\<rparr>)"
      using ex cl n by (simp add: cache_history_file_def Let_def privconst)
    moreover have "hist_sync (u\<lparr>fileentries := 0, nextline := 0\<rparr>) recs"
      using u True assms(4) ring_empty_correct [of MAX_RECORDS]
      by (simp add: hist_sync_def hist_file_def hist_ring_def node_at_def ring_empty_def)
    ultimately show ?thesis by blast
  next
    case False
    let ?k = "length recs - MAX_RECORDS"
    let ?u = "u\<lparr>fileentries := length recs\<rparr>"
    obtain r rs w where cf: "run_state (cache_file (Some HISTORY_FILE) (Some (replicate MAX_RECORDS None)) MAX_RECORDS
        CACHE_TAIL (int (2 + ?k))) ?u = ((r, rs), w)" by (metis prod.exhaust)
    let ?xs = "lastn MAX_RECORDS recs"
    have "sane_faults ?u" "reliable ?u" "node_at ?u HISTORY_FILE = Some (File ?d)"
      using u(4) h(3) quiet_fields(9) [OF n(2)] by (simp_all add: sane_faults_def reliable_def node_at_def)
    then have T: "quiet ?u w" "r = int (length ?xs)" "rs = map Some ?xs @ replicate (MAX_RECORDS - length ?xs) None"
      using cache_file_tail_cases [OF MAX_RECORDS_pos(1) _ _ cf] L(2) [of ?k]
      by (auto simp: lastn_def min_def)
    define m where "m = int (length ?xs mod MAX_RECORDS)"
    have m: "cmod r (int MAX_RECORDS) = m" "\<not> r < 0"
      using T(2) by (simp_all add: m_def zmod_int del: length_lastn)
    let ?t = "w\<lparr>historycache := rs, nextline := m\<rparr>"
    have off: "(if n > int (HIST_FILE_HEADER_SIZE + MAX_RECORDS) then n - int MAX_RECORDS else int HIST_FILE_HEADER_SIZE)
        = int (2 + ?k)"
      using n by (auto simp: HIST_FILE_HEADER_SIZE_def)
    note cf' = cf [folded off u(1)]
    have "nat (n - int HIST_FILE_HEADER_SIZE) = length recs" "n > int HIST_FILE_HEADER_SIZE"
      using n False by (simp_all add: HIST_FILE_HEADER_SIZE_def)
    then have "run_state cache_history_file s = (r, ?t)"
      using ex cl cf' m
      by (simp add: cache_history_file_def Let_def)
    moreover have "hist_ring ?t = (map Some ?xs @ replicate (MAX_RECORDS - length ?xs) None, length ?xs mod MAX_RECORDS)"
      using T(3) by (simp add: hist_ring_def m_def del: length_lastn)
    then have "ring_inv MAX_RECORDS (hist_ring ?t)" "ring_items (hist_ring ?t) = ?xs"
      using ring_of_list [of MAX_RECORDS ?xs] by simp_all
    then have "hist_sync ?t recs"
      using T(1) u assms(4) by (auto simp: hist_sync_def hist_file_def node_at_def quiet_def m_def)
    ultimately show ?thesis using T(2) by auto
  qed
qed

section \<open>Concrete histories\<close>

definition sample_world :: "string list \<Rightarrow> hist" where
  "sample_world recs = boot [([''logs''], Dir), ([''logs'', ''history_event''],
      File (concat (HISTORY_BLANK_LINE2 # HISTORY_BLANK_LINE2 # recs)))] (\<lambda>_. Works)"

lemma sample_world_file: "\<forall>l \<in> set recs. wf_rec l \<Longrightarrow> hist_file (sample_world recs) recs"
  unfolding hist_file_def
  using wf_rec_BLANK_LINE2
  by (auto simp: sample_world_def boot_def node_at_def comps_HISTORY_FILE is_dir_def)

lemma sample_world_fields: "reliable (sample_world recs)" "plain_uptime (saved_lastuptime (sample_world recs))"
  "historycache (sample_world recs) = replicate MAX_RECORDS None"
  by (simp_all add: sample_world_def boot_def reliable_def plain_uptime_def)

theorem cache_history_file_restores_witness:
  "\<exists>res t. run_state cache_history_file (sample_world [[CHR ''x'', NL], [CHR ''y'', NL]]) = (res, t) \<and>
     0 \<le> res \<and> hist_sync t [[CHR ''x'', NL], [CHR ''y'', NL]]"
  by (rule cache_history_file_restores)
     (simp_all add: sample_world_fields sample_world_file wf_rec_def wf_line_def privconst)

definition sample_entry :: history_entry where
  "sample_entry = \<lparr>e_event = Some ''CRASH'', e_type = Some ''T'', e_log = Some ''/logs/crashlog0/'',
     e_lastuptime = None, e_key = Some ''k'', e_eventtime = Some ''d''\<rparr>"

lemma sample_entry_line: "wf_rec (entry_to_history_line sample_entry)"
  by (simp add: sample_entry_def entry_to_history_line_def Let_def str_of_def pad_right_def strip_slash_def
      wf_rec_def wf_line_def snprintf_def privconst eval_nat_numeral)

theorem update_history_file_refines_log_witness:
  "\<exists>t. run_state (update_history_file (Some sample_entry)) ((sample_world [])\<lparr>nextline := 0\<rparr>) = (0, t) \<and>
     hist_sync t (log_append [] (entry_to_history_line sample_entry))"
proof (rule update_history_file_refines_log)
  have "hist_file ((sample_world [])\<lparr>nextline := 0\<rparr>) []"
    using sample_world_file [of "[]"] by (simp add: hist_file_def node_at_def)
  then show "hist_sync ((sample_world [])\<lparr>nextline := 0\<rparr>) []"
    using ring_empty_correct [of MAX_RECORDS]
    by (simp add: hist_sync_def hist_ring_def sample_world_fields ring_empty_def)
       (simp add: sample_world_def boot_def)
  show "reliable ((sample_world [])\<lparr>nextline := 0\<rparr>)"
    using sample_world_fields(1) [of "[]"] by (simp add: reliable_def)
qed (simp_all add: sample_entry_line, simp_all add: sample_entry_def)

section \<open>The fake-event countdown\<close>

fun repeat_op :: "nat \<Rightarrow> ('s, unit) state \<Rightarrow> ('s, unit) state" where
  "repeat_op 0 m = ret ()"
| "repeat_op (Suc n) m = do { m; repeat_op n m }"

definition fake_state :: "'w hist_scheme \<Rightarrow> string \<Rightarrow> nat \<Rightarrow> bool" where
  "fake_state s v n \<longleftrightarrow> prop_get s PROP_REPORT_FAKE [] = v \<and> lastfakeprop s = v \<and>
     prop_get s PROP_REPORT_COUNTDOWN ''3'' = show_nat n"

lemma prop_get_set_hist:
  "prop_get (s\<lparr>props := AList.update k v (props s)\<rparr>) q d =
     (if q = k then (if v = [] then d else v) else prop_get s q d)"
  by (rule prop_get_set)

lemma prop_get_fields [simp]:
  "prop_get (s\<lparr>lastfakeprop := x\<rparr>) q d = prop_get s q d"
  by (simp add: prop_get_def)

lemma props_differ [simp]: "PROP_REPORT_FAKE \<noteq> PROP_REPORT_COUNTDOWN" "PROP_REPORT_COUNTDOWN \<noteq> PROP_REPORT_FAKE"
  by (simp_all add: PROP_REPORT_FAKE_def PROP_REPORT_COUNTDOWN_def)

lemma length_show_small: "n < 10 \<Longrightarrow> length (show_nat n) < PROPERTY_VALUE_MAX"
  by (simp add: show_nat.simps privconst)

lemma clean_fake_first:
  assumes "v \<noteq> []" "prop_get s PROP_REPORT_FAKE [] = v" "lastfakeprop s \<noteq> v"
  shows "fake_state (snd (run_state clean_fake_property s)) v 3"
proof -
  have "show_nat 3 = ''3''" by code_simp
  with assms show ?thesis
    by (simp add: clean_fake_property_def fake_state_def prop_get_def update_conv' privconst)
qed

lemma clean_fake_step:
  assumes "v \<noteq> []" "fake_state s v (Suc n)" "n < 9"
  shows "if n = 0 then prop_get (snd (run_state clean_fake_property s)) PROP_REPORT_FAKE [] = []
         else fake_state (snd (run_state clean_fake_property s)) v n"
proof -
  have c: "to_int32 (to_int32 (int (Suc n)) - 1) = int n" using assms(3) by simp
  have l: "length (show_nat n) < PROPERTY_VALUE_MAX" by (rule length_show_small) (use assms(3) in simp)
  show ?thesis
    using assms c l
    by (auto simp: clean_fake_property_def fake_state_def Let_def prop_get_def update_conv' show_int_def privconst
        split: option.splits if_splits)
qed

text \<open>
  C35. A fake-event property is cleared after its countdown: a value that
  \<open>clean_fake_property\<close> sees for the first time stays through three calls and is cleared by
  the fourth.
\<close>

theorem clean_fake_property_countdown:
  assumes "v \<noteq> []" and "prop_get s PROP_REPORT_FAKE [] = v" and "lastfakeprop s \<noteq> v"
  defines "after \<equiv> \<lambda>n. prop_get (snd (run_state (repeat_op n clean_fake_property) s)) PROP_REPORT_FAKE []"
  shows "after 1 = v \<and> after 2 = v \<and> after 3 = v \<and> after 4 = []"
proof -
  let ?c = "\<lambda>s. snd (run_state clean_fake_property s)"
  have 1: "fake_state (?c s) v 3" using clean_fake_first [OF assms(1-3)] .
  then have 2: "fake_state (?c (?c s)) v 2"
    using clean_fake_step [OF assms(1), of "?c s" 2] by (simp add: eval_nat_numeral)
  then have 3: "fake_state (?c (?c (?c s))) v 1"
    using clean_fake_step [OF assms(1), of "?c (?c s)" 1] by (simp add: eval_nat_numeral)
  then have 4: "prop_get (?c (?c (?c (?c s)))) PROP_REPORT_FAKE [] = []"
    using clean_fake_step [OF assms(1), of "?c (?c (?c s))" 0] by simp
  from 1 2 3 4 show ?thesis
    by (simp add: after_def fake_state_def eval_nat_numeral case_prod_beta)
qed

theorem clean_fake_property_countdown_witness:
  "prop_get (snd (run_state (repeat_op 4 clean_fake_property)
     ((boot [] (\<lambda>_. Works))\<lparr>props := [(PROP_REPORT_FAKE, ''ANR'')]\<rparr>))) PROP_REPORT_FAKE [] = []"
proof -
  let ?s = "(boot [] (\<lambda>_. Works))\<lparr>props := [(PROP_REPORT_FAKE, ''ANR'')]\<rparr>"
  have "prop_get ?s PROP_REPORT_FAKE [] = ''ANR''" "lastfakeprop ?s \<noteq> ''ANR''"
    by (simp_all add: prop_get_def boot_def)
  from clean_fake_property_countdown [OF _ this] show ?thesis by simp
qed

end
