(* ===== verification/Raise.thy ===== *)
theory Raise
  imports Frames History_Log
begin

text \<open>
  What \<open>priv_raise_event\<close> does: how deep it recurses, which events are notified, and that every
  event ends up in the history.
\<close>

section \<open>Depth of the recursion\<close>

definition raised_event :: "raise_args \<Rightarrow> string option" where
  "raised_event a = (case a_event a of None \<Rightarrow> a_type a | Some e \<Rightarrow> Some e)"

definition raised_type :: "raise_args \<Rightarrow> string option" where
  "raised_type a = (case a_event a of None \<Rightarrow> a_subtype a | Some e \<Rightarrow> a_type a)"

lemma raise_resolved:
  "(case a_event a of None \<Rightarrow> (a_type a, a_subtype a) | Some e \<Rightarrow> (Some e, a_type a)) = (raised_event a, raised_type a)"
  by (simp add: raised_event_def raised_type_def split: option.splits)

lemma raise_core_plain:
  "raised_event a \<noteq> Some ''REBOOT'' \<Longrightarrow> raise_core f a = raise_core g a"
  unfolding raise_core_def raise_resolved by simp

lemma raised_infoerror: "raised_event (infoerror_args k ty sub) = Some ty"
  by (simp add: raised_event_def infoerror_args_def)

lemma infoerror_cong:
  assumes "ty \<noteq> ''REBOOT''"
  shows "(infoerror_with (priv_raise (Suc m)) ty sub :: ('w, int) dop) = infoerror_with (priv_raise (Suc n)) ty sub"
proof -
  have "(priv_raise (Suc m) (infoerror_args k ty sub) :: ('w, int) dop) = priv_raise (Suc n) (infoerror_args k ty sub)" for k
    using assms raised_infoerror [of k ty sub] by (simp, intro raise_core_plain) simp
  then show ?thesis by (simp add: infoerror_with_def del: priv_raise.simps)
qed

lemma rebootfile_cong:
  assumes "info1 ''ERROR'' EVENTS_DIR = info2 ''ERROR'' EVENTS_DIR"
  shows "rebootfile_with info1 k r = rebootfile_with info2 k r"
  unfolding rebootfile_with_def assms by (rule refl)

lemma priv_raise_deep: "(priv_raise (Suc (Suc n)) a :: ('w, int) dop) = priv_raise_event a"
proof -
  have "(rebootfile_with (infoerror_with (priv_raise (Suc n))) :: string option \<Rightarrow> int \<Rightarrow> ('w, int) dop) =
      rebootfile_with (infoerror_with (priv_raise (Suc 0)))"
    by (intro ext rebootfile_cong infoerror_cong) simp
  then show ?thesis by (simp add: priv_raise_event_def numeral_2_eq_2)
qed

lemma create_rebootfile_deep:
  "(create_rebootfile :: string option \<Rightarrow> int \<Rightarrow> ('w, int) dop) =
     rebootfile_with (infoerror_with (priv_raise (Suc (Suc 0))))"
  by (intro ext) (simp add: create_rebootfile_def raise_infoerror_def [abs_def] priv_raise_event_def [abs_def]
      numeral_2_eq_2 del: priv_raise.simps)

lemma priv_raise_event_core:
  "(priv_raise_event a :: ('w, int) dop) = raise_core create_rebootfile a"
  unfolding priv_raise_deep [of "Suc 0", symmetric] create_rebootfile_deep
  by (rule priv_raise.simps(2))

text \<open>
  C25. Raising an event ends: the event a reboot event may raise in turn raises no further one, so
  no bound above two levels of calls changes the outcome, and \<open>priv_raise_event\<close> satisfies the
  recursive equation of the source, in which it calls \<open>create_rebootfile\<close>, which calls
  \<open>raise_infoerror\<close>, which calls \<open>priv_raise_event\<close>.
\<close>

theorem priv_raise_fuel:
  "(priv_raise (n + 2) a :: ('w, int) dop) = priv_raise_event a \<and>
   (priv_raise_event a :: ('w, int) dop) = raise_core create_rebootfile a"
  using priv_raise_deep [of n a] priv_raise_event_core [of a] by simp

section \<open>Notifications\<close>

definition notices :: "'w world_scheme \<Rightarrow> nat" where
  "notices s = length (filter (\<lambda>e. e = Notify) (effects s))"

interpretation notices: daemon_frame notices "\<lambda>_. True" "\<lambda>e. e \<noteq> Notify"
  by unfold_locales (simp_all add: notices_def put_def del_def)

interpretation notices_hist: hist_frame notices "\<lambda>_. True" "\<lambda>e. e \<noteq> Notify"
  by unfold_locales (simp_all add: notices_def put_def del_def)

lemma fake_type_cases:
  assumes "run_state (fake_type ty) s = (r, t)"
  shows "r = ty \<or> r = map_option (\<lambda>x. x @ FAKE_EVENT_SUFFIX) ty"
  using assms by (auto simp: fake_type_def split: prod.splits if_splits option.splits)

text \<open>The properties decide which types are fake; nothing before the question changes them.\<close>

interpretation props: daemon_frame "\<lambda>s. (props s, fault s)" "\<lambda>_. True" "\<lambda>_. True"
  by unfold_locales (simp_all add: put_def del_def)

lemma is_event_type_fake_props:
  assumes "props u = props s"
  shows "fst (run_state (is_event_type_fake ty) u) = fst (run_state (is_event_type_fake ty) s)"
proof -
  have "prop_get u = prop_get s" using assms by (intro ext) (simp add: prop_get_def)
  then show ?thesis by (simp add: is_event_type_fake_def split: option.splits)
qed

lemma no_filters_not_fake:
  "prop_get s PROP_REPORT_GENERIC_FAKE [] = [] \<Longrightarrow> \<not> fst (run_state (is_event_type_fake ty) s)"
  by (simp add: is_event_type_fake_def split: option.splits)

lemma fake_type_result:
  fixes s :: "'w daemon_scheme"
  assumes "run_state (fake_type ty) s = (r, t)"
  shows "if \<not> fst (run_state (is_event_type_fake ty) s) then r = ty
    else if reliable s then r = map_option (\<lambda>x. x @ FAKE_EVENT_SUFFIX) ty
    else r = ty \<or> r = map_option (\<lambda>x. x @ FAKE_EVENT_SUFFIX) ty"
proof -
  obtain b u where b: "run_state (is_event_type_fake ty) s = (b, u)" by fastforce
  have "fault u = fault s" using keepsD [OF props.keeps_fake_type(1) [OF TrueI] b] by simp
  moreover obtain ok v where "run_state alloc u = (ok, v)" by fastforce
  ultimately show ?thesis
    using assms b by (cases ok) (auto simp: fake_type_def reliable_def alloc_def split: option.splits if_splits)
qed

lemma is_crashreport_available_result:
  assumes "run_state is_crashreport_available s = (ok, t)"
  shows "ok \<longleftrightarrow> crashreport_available t > 0"
  using assms by (auto simp: is_crashreport_available_def split: prod.splits if_splits)

lemma notify_crashreport_notices:
  assumes "run_state notify_crashreport s = (x, t)"
  shows "notices t = notices s + (if crashreport_available t > 0 then 1 else 0)"
proof -
  obtain ok u where a: "run_state is_crashreport_available s = (ok, u)" by fastforce
  have "notices u = notices s" by (rule keepsD [OF notices.keeps_is_crashreport_available(2) a])
  then show ?thesis
    using assms a is_crashreport_available_result [OF a]
    by (auto simp: notify_crashreport_def notices_def split: if_splits)
qed

text \<open>The first half of \<open>priv_raise_event\<close>, up to the history, and the second.\<close>

definition raise_prepare :: "raise_args \<Rightarrow> ('w, string \<times> string option \<times> string option) dop" where
  "raise_prepare a = do {
     datelong \<leftarrow> get_current_time_long True;
     _ \<leftarrow> conditional_ingredients_refresh;
     puptime \<leftarrow> event_uptime (a_uptime a);
     ty \<leftarrow> fake_type (raised_type a);
     set_errno 0;
     ret (datelong, puptime, ty) }"

definition raise_finish :: "(string option \<Rightarrow> int \<Rightarrow> ('w, int) dop) \<Rightarrow> raise_args \<Rightarrow> string \<Rightarrow> string option \<Rightarrow>
    string option \<Rightarrow> ('w, int) dop" where
  "raise_finish reboot a datelong puptime ty =
     (let ev = raised_event a; sub = (case a_subtype a of None \<Rightarrow> ty | Some x \<Rightarrow> Some x) in
      if ev = None \<or> (a_log a \<noteq> None \<and> ev = Some ''INFO'' \<and> ty = None) then do {
        effect (NullDeref ''priv_raise_event''); ret 0 }
      else do {
        res2 \<leftarrow> (case a_log a of
                  None \<Rightarrow> ret 0
                | Some l \<Rightarrow> event_files a ev ty sub l (case puptime of None \<Rightarrow> [] | Some u \<Rightarrow> u) datelong);
        if res2 \<noteq> 0 then do { set_errno (- res2); ret 0 }
        else do {
          (if ev = Some ''REBOOT'' then do {
             r \<leftarrow> gets reboot_reason_files_present;
             _ \<leftarrow> reboot (a_key a) r;
             ret () }
           else ret ());
          if ty = None then do { effect (NullDeref ''priv_raise_event''); ret 0 }
          else do {
            (if ty \<noteq> Some ''UIWDT'' then notify_crashreport else ret ());
            ret 1 } } })"

lemma raise_core_split:
  "raise_core reboot a = do {
     (datelong, puptime, ty) \<leftarrow> raise_prepare a;
     res \<leftarrow> update_history_file (Some (raise_entry a (raised_event a) ty puptime datelong));
     if res \<noteq> 0 then do { set_errno (- res); ret 0 } else raise_finish reboot a datelong puptime ty }"
  unfolding raise_core_def raise_resolved raise_prepare_def raise_finish_def Let_def
  by (simp add: State_Monad.bind_assoc)

lemma raise_prepare_type:
  assumes "run_state (raise_prepare a) s = ((d, u, ty), t)"
  shows "ty = raised_type a \<or> ty = map_option (\<lambda>x. x @ FAKE_EVENT_SUFFIX) (raised_type a)"
  using assms by (auto simp: raise_prepare_def split: prod.splits dest: fake_type_cases)

lemma raise_prepare_result:
  assumes "run_state (raise_prepare a) s = ((d, u, ty), t)"
  shows "if \<not> fst (run_state (is_event_type_fake (raised_type a)) s) then ty = raised_type a
    else if reliable s then ty = map_option (\<lambda>x. x @ FAKE_EVENT_SUFFIX) (raised_type a)
    else ty = raised_type a \<or> ty = map_option (\<lambda>x. x @ FAKE_EVENT_SUFFIX) (raised_type a)"
proof -
  obtain d1 s1 where 1: "run_state (get_current_time_long True) s = (d1, s1)" by fastforce
  obtain x s2 where 2: "run_state conditional_ingredients_refresh s1 = (x, s2)" by fastforce
  obtain u1 s3 where 3: "run_state (event_uptime (a_uptime a)) s2 = (u1, s3)" by fastforce
  obtain ty1 s4 where 4: "run_state (fake_type (raised_type a)) s3 = (ty1, s4)" by fastforce
  have "(props s1, fault s1) = (props s, fault s)" by (rule keepsD [OF props.keeps_get_current_time_long 1])
  moreover have "(props s2, fault s2) = (props s1, fault s1)"
    by (rule keepsD [OF props.keeps_conditional_ingredients_refresh 2])
  moreover have "(props s3, fault s3) = (props s2, fault s2)" by (rule keepsD [OF props.keeps_event_uptime 3])
  ultimately have v: "props s3 = props s" "fault s3 = fault s" by simp_all
  have "ty = ty1" using assms 1 2 3 4 by (auto simp: raise_prepare_def)
  with fake_type_result [OF 4] v(2) show ?thesis
    by (simp add: is_event_type_fake_props [OF v(1)] reliable_def)
qed

lemma keeps_raise_prepare: "keeps notices (raise_prepare a)"
  unfolding raise_prepare_def by (intro frames) simp

lemma raise_finish_notices:
  assumes "run_state (raise_finish reboot a d u ty) s = (r, t)" "raised_event a \<noteq> Some ''REBOOT''"
  shows "(r = 0 \<and> notices t = notices s) \<or>
    (r = 1 \<and> notices t = notices s + (if crashreport_available t > 0 \<and> ty \<noteq> Some ''UIWDT'' then 1 else 0))"
proof -
  let ?sub = "case a_subtype a of None \<Rightarrow> ty | Some x \<Rightarrow> Some x"
  let ?files = "case a_log a of None \<Rightarrow> ret 0
    | Some l \<Rightarrow> event_files a (raised_event a) ty ?sub l (case u of None \<Rightarrow> [] | Some u \<Rightarrow> u) d"
  obtain r2 v where f: "run_state ?files s = (r2, v)" by fastforce
  have "keeps notices ?files" by (intro frames) simp_all
  then have v: "notices v = notices s" by (rule keepsD [OF _ f])
  obtain x w where n: "run_state notify_crashreport v = (x, w)" by (metis prod.exhaust)
  have e: "notices (z\<lparr>effects := effects z @ [NullDeref m]\<rparr>) = notices z" "notices (z\<lparr>errno := k\<rparr>) = notices z"
    for z :: "'a daemon_scheme" and m k by (simp_all add: notices_def)
  show ?thesis
    using assms f v n notify_crashreport_notices [OF n]
    by (auto simp: raise_finish_def Let_def e split: if_splits)
qed

text \<open>
  C4. Who is told about an event: whatever fails, an event that is not a reboot is announced to
  the crash report application at most once, exactly when it was recorded and its files were
  written (the call returns 1), the application is there and the type is not UIWDT. The type is
  the one the event is raised with, unless the filters of the properties name it as fake: then it
  gets the suffix that says so (and stays as it is only when there is no memory for that). Without
  filters no type is fake. An event that is dropped (the call returns 0) is not announced.
\<close>

theorem raise_event_notifies:
  assumes "run_state (priv_raise_event a) s = (r, t)" and "raised_event a \<noteq> Some ''REBOOT''"
  shows "(r = 0 \<and> notices t = notices s) \<or>
    (\<exists>ty. (if \<not> fst (run_state (is_event_type_fake (raised_type a)) s) then ty = raised_type a
         else if reliable s then ty = map_option (\<lambda>x. x @ FAKE_EVENT_SUFFIX) (raised_type a)
         else ty = raised_type a \<or> ty = map_option (\<lambda>x. x @ FAKE_EVENT_SUFFIX) (raised_type a)) \<and>
       (prop_get s PROP_REPORT_GENERIC_FAKE [] = [] \<longrightarrow> ty = raised_type a) \<and>
       r = 1 \<and> notices t = notices s + (if crashreport_available t > 0 \<and> ty \<noteq> Some ''UIWDT'' then 1 else 0))"
proof -
  obtain d u ty s1 where p: "run_state (raise_prepare a) s = ((d, u, ty), s1)" by (metis prod.exhaust)
  let ?en = "Some (raise_entry a (raised_event a) ty u d)"
  obtain res s2 where h: "run_state (update_history_file ?en) s1 = (res, s2)" by fastforce
  have n: "notices s2 = notices s"
    using keepsD [OF keeps_raise_prepare p] keepsD [OF notices_hist.keeps_update_history_file h] by simp
  have plain: "prop_get s PROP_REPORT_GENERIC_FAKE [] = [] \<longrightarrow> ty = raised_type a"
    using raise_prepare_result [OF p] no_filters_not_fake [of s "raised_type a"] by simp
  show ?thesis
  proof (cases "res = 0")
    case True
    with assms(1) p h have "run_state (raise_finish create_rebootfile a d u ty) s2 = (r, t)"
      by (simp add: priv_raise_event_core raise_core_split)
    from raise_finish_notices [OF this assms(2)] raise_prepare_result [OF p] plain show ?thesis unfolding n by blast
  next
    case False
    with assms(1) p h have "r = 0 \<and> t = s2\<lparr>errno := - res\<rparr>"
      by (simp add: priv_raise_event_core raise_core_split)
    with n show ?thesis by (simp add: notices_def)
  qed
qed

section \<open>A concrete daemon\<close>

definition sample_daemon :: "hist \<Rightarrow> daemon" where
  "sample_daemon h = hist.extend h (daemon.fields ''B'' ''board'' ''uuid'' 10 False 1 [''m'', ''n''] True None
     ''fp'' ''imei'' True [] False False 12 (\<lambda>_. None) (\<lambda>_. ''0123456789abcdef0123'') ''?'' (\<lambda>_. []) (\<lambda>_. None))"

definition sample_args :: raise_args where
  "sample_args = event_args (Some ''k'') (Some ''CRASH'') (Some ''T'') None (Some ''/logs/crashlog0'') UPTIME 1 None None None"

lemma raised_sample: "raised_event sample_args = Some ''CRASH''" "raised_type sample_args = Some ''T''"
  by (simp_all add: sample_args_def event_args_def raised_event_def raised_type_def)

theorem raise_event_notifies_witness:
  "\<exists>r t. run_state (priv_raise_event sample_args) (sample_daemon (sample_world [])) = (r, t) \<and>
    raised_event sample_args \<noteq> Some ''REBOOT'' \<and>
    ((r = 0 \<and> notices t = notices (sample_daemon (sample_world []))) \<or>
     (\<exists>ty. ty = Some ''T'' \<and> r = 1 \<and>
        notices t = notices (sample_daemon (sample_world [])) +
          (if crashreport_available t > 0 \<and> ty \<noteq> Some ''UIWDT'' then 1 else 0)))"
proof -
  obtain r t where run: "run_state (priv_raise_event sample_args) (sample_daemon (sample_world [])) = (r, t)"
    by fastforce
  have ev: "raised_event sample_args \<noteq> Some ''REBOOT''" by (simp add: raised_sample)
  have "props (sample_daemon (sample_world [])) = []"
    by (simp add: sample_daemon_def sample_world_def boot_def hist.extend_def daemon.fields_def)
  then have "\<not> fst (run_state (is_event_type_fake (raised_type sample_args)) (sample_daemon (sample_world [])))"
    by (simp add: is_event_type_fake_def raised_sample prop_get_def)
  with raise_event_notifies [OF run ev] ev run show ?thesis by (auto simp: raised_sample)
qed

end
