(* ===== verification/Raise_Log.thy ===== *)
theory Raise_Log
  imports Raise
begin

text \<open>
  Every event that is raised is recorded: \<open>priv_raise_event\<close> against the specification of the
  history as a bounded log.
\<close>

section \<open>Lines of the history are well formed\<close>

definition tame :: "nat \<Rightarrow> string option \<Rightarrow> bool" where
  "tame n x = (case x of None \<Rightarrow> True | Some y \<Rightarrow> NL \<notin> set y \<and> NUL \<notin> set y \<and> length y \<le> n)"

lemma str_of_Some: "str_of (Some x) = x"
  by (simp add: str_of_def)

lemma tame_str_of: "tame n x \<Longrightarrow> 6 \<le> n \<Longrightarrow> NL \<notin> set (str_of x) \<and> NUL \<notin> set (str_of x) \<and> length (str_of x) \<le> n"
  by (auto simp: tame_def str_of_def split: option.splits)

lemma tame_pad_right:
  "NL \<notin> set y \<and> NUL \<notin> set y \<and> length y \<le> n \<Longrightarrow> k \<le> n \<Longrightarrow>
   NL \<notin> set (pad_right k y) \<and> NUL \<notin> set (pad_right k y) \<and> length (pad_right k y) \<le> n"
  by (auto simp: pad_right_def)

lemma tame_strip_slash:
  "NL \<notin> set y \<and> NUL \<notin> set y \<and> length y \<le> n \<Longrightarrow>
   NL \<notin> set (strip_slash (take m y)) \<and> NUL \<notin> set (strip_slash (take m y)) \<and> length (strip_slash (take m y)) \<le> n"
  by (auto simp: strip_slash_def split: option.splits dest: in_set_takeD)

lemma snprintf_wf_rec:
  "NL \<notin> set b \<Longrightarrow> NUL \<notin> set b \<Longrightarrow> length b < 4095 \<Longrightarrow> wf_rec (snprintf MAXLINESIZE (b @ [NL]))"
  by (simp add: wf_rec_def wf_line_def privconst)

lemma entry_line_wf:
  assumes "tame 600 (e_event en)" "tame 600 (e_type en)" "tame 600 (e_log en)" "tame 600 (e_lastuptime en)"
    "tame 600 (e_key en)" "tame 600 (e_eventtime en)"
  shows "wf_rec (entry_to_history_line en)"
proof -
  define a where "a = pad_right 8 (str_of (e_event en))"
  define b where "b = pad_right 22 (str_of (e_key en))"
  define c where "c = pad_right 20 (str_of (e_eventtime en))"
  define d where "d = pad_right 16 (str_of (e_type en))"
  define l where "l = strip_slash (take (MAXLINESIZE - 1) (str_of (e_log en)))"
  define ok where "ok x \<longleftrightarrow> NL \<notin> set x \<and> NUL \<notin> set x \<and> length x \<le> 600" for x :: string
  have t: "ok (str_of x)" if "tame 600 x" for x
    using tame_str_of [OF that] by (simp add: ok_def)
  have p: "ok (pad_right k y)" if "ok y" "k \<le> 600" for k y
    using tame_pad_right [of y 600 k] that by (simp add: ok_def)
  have "ok a" "ok b" "ok c" "ok d" "ok (str_of (e_type en))" "ok (str_of (e_lastuptime en))"
    unfolding a_def b_def c_def d_def by (intro p t assms; simp)+
  moreover have "ok l"
    using tame_strip_slash [of "str_of (e_log en)" 600 "MAXLINESIZE - 1"] t [OF assms(3)] by (simp add: ok_def l_def)
  ultimately have "ok x" if "x \<in> {a, b, c, d, l, str_of (e_type en), str_of (e_lastuptime en)}" for x
    using that by blast
  then have T: "NL \<notin> set x" "NUL \<notin> set x" "length x \<le> 600"
    if "x \<in> {a, b, c, d, l, str_of (e_type en), str_of (e_lastuptime en)}" for x
    using that unfolding ok_def by blast+
  have W: "wf_rec (snprintf MAXLINESIZE (concat xs @ [NL]))"
    if "set xs \<subseteq> {a, b, c, d, l, str_of (e_type en), str_of (e_lastuptime en), '' ''}" "length xs \<le> 6" for xs
  proof (rule snprintf_wf_rec)
    have X: "NL \<notin> set x \<and> NUL \<notin> set x \<and> length x \<le> 600" if "x \<in> set xs" for x
    proof (cases "x = '' ''")
      case False
      with that \<open>set xs \<subseteq> _\<close> have "x \<in> {a, b, c, d, l, str_of (e_type en), str_of (e_lastuptime en)}" by blast
      with T show ?thesis by blast
    qed simp
    then show "NL \<notin> set (concat xs)" "NUL \<notin> set (concat xs)" by auto
    have "sum_list (map length xs) \<le> sum_list (map (\<lambda>_. 600) xs)"
      using X by (intro sum_list_mono) blast
    also have "\<dots> \<le> 3600" using that(2) by (simp add: sum_list_triv)
    finally show "length (concat xs) < 4095" by (simp add: length_concat)
  qed
  note W1 = W [of "[a, b, c, str_of (e_type en), '' '', l]"] and W2 = W [of "[a, b, c, d, '' '', str_of (e_lastuptime en)]"]
    and W3 = W [of "[a, b, c, d]"] and W4 = W [of "[a, b, c, str_of (e_lastuptime en)]"]
  note D = entry_to_history_line_def Let_def str_of_Some a_def [symmetric] b_def [symmetric] c_def [symmetric] d_def [symmetric]
  show ?thesis
  proof (cases "e_log en")
    case (Some x)
    then have "strip_slash (take (MAXLINESIZE - 1) x) = l" by (simp add: l_def str_of_Some)
    with Some W1 show ?thesis by (simp add: D)
  next
    case None
    show ?thesis
    proof (cases "e_type en \<noteq> None \<and> e_type en \<noteq> Some []")
      case False
      with None W4 show ?thesis by (auto simp: D)
    next
      case True
      then show ?thesis
      proof (cases "e_lastuptime en")
        case (Some u)
        with True None W2 show ?thesis by (simp add: D)
      qed (use True None W3 in \<open>simp add: D\<close>)
    qed
  qed
qed

section \<open>What the other steps leave alone\<close>

text \<open>The memory errors so far, and the part of the state the history depends on.\<close>

fun memory_error :: "effect \<Rightarrow> bool" where
  "memory_error (NullDeref w) = True"
| "memory_error (BadRead w) = True"
| "memory_error (BadWrite w) = True"
| "memory_error _ = False"

definition event_view :: "'w daemon_scheme \<Rightarrow> _" where
  "event_view s = ((historycache s, nextline s, fileentries s, saved_lastuptime s),
     (fault s, clock s, fmt_time s, props s, lastbootuptime s),
     (node_at s HISTORY_FILE, is_dir (fs s) [''logs''], filter memory_error (effects s)))"

definition other_path :: "string list \<Rightarrow> bool" where
  "other_path p \<longleftrightarrow> p \<noteq> comps HISTORY_FILE \<and> p \<noteq> [''logs'']"

lemma is_dir_put: "k \<noteq> comps p \<Longrightarrow> is_dir (fs (put p n s)) k = is_dir (fs s) k"
  "k \<noteq> comps p \<Longrightarrow> is_dir (fs (del p s)) k = is_dir (fs s) k"
  by (simp_all add: is_dir_def put_def del_def update_conv' delete_conv')

lemma put_hist_fields [simp]:
  "historycache (put p n s) = historycache s" "nextline (put p n s) = nextline s"
  "fileentries (put p n s) = fileentries s" "saved_lastuptime (put p n s) = saved_lastuptime s"
  "lastbootuptime (put p n s) = lastbootuptime s"
  "historycache (del p s) = historycache s" "nextline (del p s) = nextline s"
  "fileentries (del p s) = fileentries s" "saved_lastuptime (del p s) = saved_lastuptime s"
  "lastbootuptime (del p s) = lastbootuptime s"
  by (simp_all add: put_def del_def)

lemma other_path_INGREDIENTS: "other_path (comps INGREDIENTS_FILE)"
  by (simp add: other_path_def INGREDIENTS_FILE_def HISTORY_FILE_def LOGS_DIR_def comps_def)

interpretation events: daemon_frame event_view other_path "\<lambda>e. \<not> memory_error e"
  by unfold_locales
     (auto simp: event_view_def other_path_def is_dir_put other_path_INGREDIENTS [unfolded other_path_def],
      simp_all add: node_at_def)

lemma event_viewD:
  assumes "event_view t = event_view s"
  shows "hist_sync t recs = hist_sync s recs" "reliable t = reliable s" "fmt_time t = fmt_time s"
    "clock t = clock s" "prop_get t = prop_get s" "lastbootuptime t = lastbootuptime s"
    "is_dir (fs t) [''logs''] = is_dir (fs s) [''logs'']"
    "filter memory_error (effects t) = filter memory_error (effects s)"
  using assms by (auto simp: event_view_def hist_sync_def hist_file_def hist_ring_def reliable_def
      prop_get_def [abs_def] comps_HISTORY_FILE)

lemma other_path_below:
  assumes "length l < 400" "CHR ''/'' \<notin> set n" "n \<noteq> []" "length n < 100" "n \<noteq> ''history_event''" "n \<noteq> ''logs''"
    and "k = 511 \<or> k = 512"
  shows "other_path (comps (snprintf k (l @ ''/'' @ n)))"
proof -
  have "comps (snprintf k (l @ ''/'' @ n)) = comps l @ [n]" using assms by auto
  moreover have "comps l @ [n] \<noteq> comps HISTORY_FILE" "comps l @ [n] \<noteq> [''logs'']"
    using assms(5,6) by (auto simp: comps_HISTORY_FILE)
  ultimately show ?thesis by (simp add: other_path_def)
qed

definition filter_tok :: "bool \<Rightarrow> string \<Rightarrow> string" where
  "filter_tok later s = (let k = if later then 1 else 0 in take k s @ takeWhile (\<lambda>c. c \<noteq> CHR '','') (drop k s))"

definition filter_rest :: "bool \<Rightarrow> string \<Rightarrow> string" where
  "filter_rest later s = (let k = if later then 1 else 0 in dropWhile (\<lambda>c. c \<noteq> CHR '','') (drop k s))"

lemma fake_loop_eq:
  "fake_loop ty later s =
     (if later \<and> s = [] then None
      else if contains ty (filter_tok later s) then Some True
      else if filter_rest later s = [] then Some False
      else fake_loop ty True (tl (filter_rest later s)))"
  unfolding filter_tok_def filter_rest_def Let_def by (subst fake_loop.simps) (simp only: Let_def)

lemma filter_rest_suffix:
  assumes "filter_rest later s \<noteq> []" "last s \<noteq> CHR '',''"
  shows "tl (filter_rest later s) \<noteq> []" "last (tl (filter_rest later s)) = last s"
    "length (tl (filter_rest later s)) < length s"
proof -
  let ?r = "filter_rest later s"
  have h: "hd ?r = CHR '',''" using assms(1) hd_dropWhile unfolding filter_rest_def Let_def by blast
  have "suffix ?r s" unfolding filter_rest_def Let_def
    using suffix_dropWhile suffix_drop suffix_order.trans by blast
  then obtain u where u: "s = u @ ?r" by (auto simp: suffix_def)
  with assms(1) have l: "last s = last ?r" by (metis last_appendR)
  from u have n: "length ?r \<le> length s" by (metis length_append le_add2)
  show "tl ?r \<noteq> []" using assms h l by (cases ?r) auto
  then show "last (tl ?r) = last s" using l by (simp add: last_tl)
  show "length (tl ?r) < length s" using n assms(1) by (cases ?r) auto
qed

lemma fake_loop_ends:
  "(later \<Longrightarrow> s \<noteq> []) \<Longrightarrow> (s \<noteq> [] \<Longrightarrow> last s \<noteq> CHR '','') \<Longrightarrow> fake_loop ty later s \<noteq> None"
proof (induction "length s" arbitrary: later s rule: less_induct)
  case less
  show ?case
  proof (cases "contains ty (filter_tok later s) \<or> filter_rest later s = []")
    case True
    with less.prems(1) show ?thesis by (auto simp: fake_loop_eq [of ty later s])
  next
    case False
    then have "s \<noteq> []" by (auto simp: filter_rest_def)
    note R = filter_rest_suffix [of later s] less.prems(2) [OF this]
    have "fake_loop ty True (tl (filter_rest later s)) \<noteq> None"
      using False R less.hyps [of "tl (filter_rest later s)" True] by simp
    with False less.prems(1) show ?thesis by (auto simp: fake_loop_eq [of ty later s])
  qed
qed

lemma fake_type_view:
  assumes "prop_get s PROP_REPORT_GENERIC_FAKE [] = [] \<or> last (prop_get s PROP_REPORT_GENERIC_FAKE []) \<noteq> CHR '',''"
  shows "event_view (snd (run_state (fake_type ty) s)) = event_view s"
proof -
  let ?v = "prop_get s PROP_REPORT_GENERIC_FAKE []"
  have f: "fake_loop x False ?v \<noteq> None" if "?v \<noteq> []" for x
    using assms that by (intro fake_loop_ends) auto
  have q: "snd (run_state (is_event_type_fake ty) s) = s"
  proof (cases ty)
    case (Some x)
    then show ?thesis using f [of x] by (auto simp: is_event_type_fake_def split: option.splits)
  qed (simp add: is_event_type_fake_def)
  obtain b where b: "run_state (is_event_type_fake ty) s = (b, s)" using q by (metis prod.collapse)
  obtain ok u where u: "run_state alloc s = (ok, u)" by fastforce
  have "event_view u = event_view s" by (rule keepsD [OF events.keeps_reads(1) u])
  with b u show ?thesis by (auto simp: fake_type_def split: option.splits)
qed

section \<open>The three parts of raising an event\<close>

lemma raise_prepare_view:
  assumes "run_state (raise_prepare a) s = ((d, u, ty), t)"
    and "prop_get s PROP_REPORT_GENERIC_FAKE [] = [] \<or> last (prop_get s PROP_REPORT_GENERIC_FAKE []) \<noteq> CHR '',''"
    and "tame 600 (Some (lastbootuptime s))"
  shows "event_view t = event_view s" "d = fmt_time s (clock s (calls s))" "tame 600 u"
proof -
  obtain d1 s1 where 1: "run_state (get_current_time_long True) s = (d1, s1)" by fastforce
  obtain x s2 where 2: "run_state conditional_ingredients_refresh s1 = (x, s2)" by fastforce
  obtain u1 s3 where 3: "run_state (event_uptime (a_uptime a)) s2 = (u1, s3)" by fastforce
  obtain ty1 s4 where 4: "run_state (fake_type (raised_type a)) s3 = (ty1, s4)" by fastforce
  have v: "event_view s1 = event_view s" "event_view s2 = event_view s1" "event_view s3 = event_view s2"
    by (rule keepsD [OF events.keeps_get_current_time_long 1] keepsD [OF events.keeps_conditional_ingredients_refresh 2]
        keepsD [OF events.keeps_event_uptime 3])+
  have "prop_get s3 = prop_get s" using v event_viewD(5) [of s3 s] by simp
  then have v4: "event_view s4 = event_view s"
    using fake_type_view [of s3 "raised_type a"] assms(2) 4 v by simp
  have r: "d = d1" "u = u1" "t = s4\<lparr>errno := 0\<rparr>"
    using assms(1) 1 2 3 4 by (auto simp: raise_prepare_def)
  show "event_view t = event_view s" using r v4 by (simp add: events.f_errno)
  show "d = fmt_time s (clock s (calls s))" using r 1 by (auto simp: get_current_time_long_def)
  have l: "tame 600 (Some (lastbootuptime s2))" using assms(3) v event_viewD(6) [of s2 s] by simp
  show "tame 600 u"
  proof (cases "a_uptime a")
    case UPTIME
    obtain k z h s5 where g: "run_state get_uptime_string s2 = ((k, z, h), s5)" by (metis prod.exhaust)
    have "\<exists>y. z = snprintf 24 y" using g by (auto simp: get_uptime_string_def get_uptime_def Let_def)
    then have "length z < 24" using length_snprintf [of 24] by auto
    then have "take 23 z = z" by simp
    with get_uptime_string_plain [OF g] have "tame 600 (Some z)" by (auto simp: plain_uptime_def tame_def)
    with UPTIME g 3 r show ?thesis by (auto simp: event_uptime_def)
  next
    case UPTIME_BOOT
    with 3 r l show ?thesis
      by (auto simp: event_uptime_def get_lastboot_uptime_def tame_def split: if_splits dest: in_set_takeD)
  next
    case NO_UPTIME
    with 3 r show ?thesis by (auto simp: event_uptime_def tame_def)
  qed
qed

lemma rebootfile_view:
  assumes "reliable s" "is_dir (fs s) [''logs'']"
  shows "event_view (snd (run_state (rebootfile_with info k rdy) s)) = event_view s"
proof -
  have c: "comps EVENTS_DIR = [''logs'', ''events'']" by (simp add: EVENTS_DIR_def LOGS_DIR_def comps_def)
  have p: "other_path (comps EVENTS_DIR)" by (simp add: other_path_def c comps_HISTORY_FILE)
  let ?f = "snprintf (PATHMAX - 1) (EVENTS_DIR @ ''/'' @ ''eventfile'' @ ''_'' @ str_of k)"
  have "?f = EVENTS_DIR @ CHR ''/'' # take 497 (''eventfile'' @ ''_'' @ str_of k)"
    by (simp add: snprintf_def privconst EVENTS_DIR_def LOGS_DIR_def)
  then have f: "other_path (comps ?f)" by (simp add: other_path_def c comps_HISTORY_FILE)
  define made where "made = (do {
     ex \<leftarrow> gets (file_exists EVENTS_DIR);
     (if ex then ret True
      else do {
        set_errno 0;
        ok \<leftarrow> sys_mkdir EVENTS_DIR;
        if \<not> ok then do { _ \<leftarrow> info ''ERROR'' EVENTS_DIR; ret False }
        else do { _ \<leftarrow> chown_log EVENTS_DIR; ret True } }) })"
  have k: "keeps event_view (chown_log EVENTS_DIR)" by (intro frames)
  obtain x u where m: "run_state made s = (x, u)" by fastforce
  have v: "event_view u = event_view s \<and> x"
  proof (cases "file_exists EVENTS_DIR s")
    case False
    let ?s = "s\<lparr>errno := 0\<rparr>"
    let ?t = "put EVENTS_DIR Dir (?s\<lparr>calls := Suc (calls ?s)\<rparr>)"
    have mk: "run_state (sys_mkdir EVENTS_DIR) ?s = (True, ?t)"
      using assms False by (simp add: sys_mkdir_def file_exists_def c)
    obtain y w where ch: "run_state (chown_log EVENTS_DIR) ?t = (y, w)" by fastforce
    have "event_view w = event_view ?t" by (rule keepsD [OF k ch])
    also have "event_view ?t = event_view s" using p events.f_put events.f_calls events.f_errno by metis
    finally show ?thesis using m mk ch False by (simp add: made_def)
  qed (use m in \<open>simp add: made_def\<close>)
  define rest where "rest = (do {
       set_errno 0;
       ok \<leftarrow> open_trunc ?f;
       if \<not> ok then do { e \<leftarrow> gets errno; ret (- e) }
       else do {
         _ \<leftarrow> chown_log ?f;
         set_errno 0;
         ok2 \<leftarrow> open_trunc ?f;
         if \<not> ok2 then do { e \<leftarrow> gets errno; ret (- e) }
         else do {
           _ \<leftarrow> write_end ?f (field_line ''DATA_READY'' (show_int rdy) @ ''_END'' @ [NL]);
           ret 0 } } } :: ('a, int) dop)"
  have r: "keeps event_view rest" unfolding rest_def by (intro frames f)
  have "rebootfile_with info k rdy = do { x \<leftarrow> made; if \<not> x then do { e \<leftarrow> gets errno; ret (- e) } else rest }"
    unfolding rebootfile_with_def made_def rest_def Let_def by (simp only: State_Monad.bind_assoc)
  then have "snd (run_state (rebootfile_with info k rdy) s) = snd (run_state rest u)"
    using m v by simp
  with r v show ?thesis by (simp add: keeps_def)
qed

lemma raise_finish_view:
  assumes "run_state (raise_finish create_rebootfile a d u (Some ty)) s = (r, t)"
    and "reliable s" "is_dir (fs s) [''logs'']" "raised_event a \<noteq> None"
    and "\<And>l. a_log a = Some l \<Longrightarrow> length l < 400"
  shows "event_view t = event_view s"
proof -
  let ?sub = "case a_subtype a of None \<Rightarrow> Some ty | Some x \<Rightarrow> Some x"
  let ?files = "case a_log a of None \<Rightarrow> ret 0
    | Some l \<Rightarrow> event_files a (raised_event a) (Some ty) ?sub l (case u of None \<Rightarrow> [] | Some u \<Rightarrow> u) d"
  have sub: "?sub \<noteq> None" by (simp split: option.splits)
  have "keeps event_view (event_files a (raised_event a) (Some ty) ?sub l (case u of None \<Rightarrow> [] | Some u \<Rightarrow> u) d)"
    if "a_log a = Some l" for l
    using assms(5) [OF that] sub
    by (intro events.keeps_event_files other_path_below) (simp_all add: CRASHFILE_NAME_def privconst)
  then have "keeps event_view ?files" by (intro keeps_case_option keeps_ret)
  moreover obtain r2 v where f: "run_state ?files s = (r2, v)" by fastforce
  ultimately have v: "event_view v = event_view s" by (rule keepsD)
  define w where "w = (if raised_event a = Some ''REBOOT''
    then snd (run_state (create_rebootfile (a_key a) (reboot_reason_files_present v)) v) else v)"
  have w: "event_view w = event_view s"
    using rebootfile_view [of v] v assms(2,3) event_viewD(2,7) [OF v]
    by (simp add: w_def create_rebootfile_def)
  obtain x y where n: "run_state notify_crashreport w = (x, y)" by (metis prod.exhaust)
  have "keeps event_view notify_crashreport"
    unfolding notify_crashreport_def by (intro frames) simp
  from keepsD [OF this n] have y: "event_view y = event_view s" using w by simp
  have "t \<in> {v\<lparr>errno := - r2\<rparr>, w, y}"
    using assms(1,4) f n by (auto simp: raise_finish_def Let_def w_def case_prod_beta split: if_splits)
  then show ?thesis using v w y by (auto simp: events.f_errno)
qed

lemma hist_sync_inv: "hist_sync s recs \<Longrightarrow> hist_inv s"
  by (auto simp: hist_sync_def hist_inv_def)

interpretation faults: hist_frame fault "\<lambda>_. True" "\<lambda>_. True"
  by unfold_locales (simp_all add: put_def del_def)

text \<open>
  C3. Every event is recorded exactly once: when no call fails and the history is in step with
  its file, raising an event appends one line to the log, the one that describes the event with
  its key, type (possibly marked as fake), log directory and time, whether or not the crash file
  could be written; nothing else of what follows touches the history, and no null pointer is
  followed and no string read past its end. Event, type, key and log name are short and free of
  line breaks, and the list of fake filters does not end in a comma.
\<close>

theorem raise_event_recorded:
  assumes "reliable s" and "hist_sync s recs" and "length recs + 1 < 2 ^ 32"
    and "a_key a = Some k" and "raised_event a = Some e" and "raised_type a = Some y"
    and "tame 500 (Some k)" and "tame 500 (Some e)" and "tame 500 (Some y)" and "tame 399 (a_log a)"
    and "tame 500 (Some (lastbootuptime s))" and "\<And>i. tame 500 (Some (fmt_time s i))"
    and "prop_get s PROP_REPORT_GENERIC_FAKE [] = [] \<or> last (prop_get s PROP_REPORT_GENERIC_FAKE []) \<noteq> CHR '',''"
  shows "\<exists>r t ty up. run_state (priv_raise_event a) s = (r, t) \<and>
    (ty = y \<or> ty = y @ FAKE_EVENT_SUFFIX) \<and>
    hist_sync t (log_append recs (entry_to_history_line
      (raise_entry a (Some e) (Some ty) up (fmt_time s (clock s (calls s)))))) \<and>
    filter memory_error (effects t) = filter memory_error (effects s)"
proof -
  have mono: "tame 600 x" if "tame n x" "n \<le> 600" for n x using that by (auto simp: tame_def split: option.splits)
  obtain d u ty s1 where p: "run_state (raise_prepare a) s = ((d, u, ty), s1)" by (metis prod.exhaust)
  note V = raise_prepare_view [OF p assms(13) mono [OF assms(11)]]
  from raise_prepare_type [OF p] assms(6) obtain ty1 where ty: "ty = Some ty1" "ty1 = y \<or> ty1 = y @ FAKE_EVENT_SUFFIX"
    by auto
  let ?en = "raise_entry a (raised_event a) ty u d"
  have "tame 600 (Some ty1)" using ty(2) assms(9) by (auto simp: tame_def FAKE_EVENT_SUFFIX_def)
  then have wf: "wf_rec (entry_to_history_line ?en)"
    using V(2,3) ty mono [OF assms(7)] mono [OF assms(8)] mono [OF assms(10)] mono [OF assms(12)] assms(4,5)
    by (intro entry_line_wf) (simp_all add: raise_entry_def)
  have s1: "reliable s1" "hist_sync s1 recs" using event_viewD(1,2) [OF V(1)] assms(1,2) by simp_all
  obtain s2 where h: "run_state (update_history_file (Some ?en)) s1 = (0, s2)"
    "hist_sync s2 (log_append recs (entry_to_history_line ?en))"
    using update_history_file_sync [OF s1 assms(3) _ _ wf] assms(4) by (auto simp: raise_entry_def)
  have rel: "reliable s2"
    using s1(1) keepsD [OF faults.keeps_update_history_file h(1)] by (simp add: reliable_def)
  have eff: "effects s2 = effects s1"
    using update_history_file_safe [OF hist_inv_safe [OF hist_sync_inv [OF s1(2)]] _ h(1)] s1(1) by (simp add: sane_faults_def)
  have dir: "is_dir (fs s2) [''logs'']" using h(2) by (simp add: hist_sync_def hist_file_def comps_HISTORY_FILE)
  obtain r t where f: "run_state (raise_finish create_rebootfile a d u ty) s2 = (r, t)" by fastforce
  have T: "event_view t = event_view s2"
    using f rel dir assms(5,10) ty(1) by (intro raise_finish_view) (auto simp: tame_def)
  have "run_state (priv_raise_event a) s = (r, t)"
    using p h(1) f by (simp add: priv_raise_event_core raise_core_split)
  moreover have "hist_sync t (log_append recs (entry_to_history_line ?en))"
    using event_viewD(1) [OF T] h(2) by simp
  moreover have "filter memory_error (effects t) = filter memory_error (effects s)"
    using event_viewD(8) [OF T] event_viewD(8) [OF V(1)] eff by simp
  ultimately show ?thesis
    unfolding ty(1) assms(5) using V(2)
    by (intro exI [of _ r] exI [of _ t] exI [of _ ty1] exI [of _ u] conjI ty(2)) simp_all
qed

definition ready_daemon :: daemon where
  "ready_daemon = sample_daemon ((sample_world [])\<lparr>nextline := 0\<rparr>)"

lemma ready_daemon_fields [simp]:
  "fs ready_daemon = fs (sample_world [])" "fault ready_daemon = (\<lambda>_. Works)" "props ready_daemon = []"
  "nextline ready_daemon = 0" "fileentries ready_daemon = 0" "historycache ready_daemon = replicate MAX_RECORDS None"
  "saved_lastuptime ready_daemon = []" "lastbootuptime ready_daemon = ''0000:00:00''"
  "fmt_time ready_daemon = (\<lambda>_. ''2020-01-01/00:00:00  '')" "effects ready_daemon = []"
  by (simp_all add: ready_daemon_def sample_daemon_def sample_world_def boot_def hist.extend_def daemon.fields_def)

lemma ready_daemon_sync: "hist_sync ready_daemon []"
proof -
  have "ring_inv MAX_RECORDS (hist_ring ready_daemon)" "ring_items (hist_ring ready_daemon) = []"
    using ring_empty_correct [of MAX_RECORDS] by (simp_all add: hist_ring_def ring_empty_def)
  moreover have "hist_file (sample_world []) []" by (rule sample_world_file) simp
  ultimately show ?thesis by (auto simp: hist_sync_def hist_file_def node_at_def plain_uptime_def)
qed

theorem raise_event_recorded_witness:
  "\<exists>r t ty up. run_state (priv_raise_event sample_args) ready_daemon = (r, t) \<and>
    (ty = ''T'' \<or> ty = ''T'' @ FAKE_EVENT_SUFFIX) \<and>
    hist_sync t (log_append [] (entry_to_history_line (raise_entry sample_args (Some ''CRASH'') (Some ty) up
      (fmt_time ready_daemon (clock ready_daemon (calls ready_daemon)))))) \<and>
    filter memory_error (effects t) = filter memory_error (effects ready_daemon)"
  by (rule raise_event_recorded [OF _ ready_daemon_sync, where k = "''k''" and e = "''CRASH''"])
     (simp_all add: reliable_def raised_sample sample_args_def event_args_def tame_def prop_get_def,
      simp_all add: raised_event_def raised_type_def)

end
