(* ===== verification/History_Delete.thy ===== *)
theory History_Delete
  imports Raise_Log
begin

text \<open>
  The two functions of crashlog/history.c that rewrite lines of the history file in place:
  \<open>history_delete_first_existent_logcrashpath\<close>, which blanks the directory of a record that is
  about to be reused, and \<open>update_history_on_cmd_delete\<close>, which marks records as deleted.
\<close>

section \<open>Blanking a record\<close>

text \<open>The fifth word of a line, as \<open>sscanf(line, "%*s %*s %*s %*s %s", \<dots>)\<close> finds it.\<close>

definition crashdir_fmt :: "sfmt list" where
  "crashdir_fmt = [SWord None False, SWs, SWord None False, SWs, SWord None False, SWs, SWord None False, SWs,
     SWord None True, SWs]"

definition names_dir :: "string \<Rightarrow> string \<Rightarrow> bool" where
  "names_dir p line \<longleftrightarrow> fst (scanf crashdir_fmt line) = [p]"

text \<open>\<open>memset\<close> over the first occurrence of the path.\<close>

definition blank_first :: "string \<Rightarrow> string \<Rightarrow> string" where
  "blank_first p line =
     (case strstr line p of
        None \<Rightarrow> line
      | Some q \<Rightarrow> take (length line - length q) line @ replicate (length p) (CHR '' '') @ drop (length p) q)"

text \<open>The first cached line that contains the path ends where the path started.\<close>

fun cut_cache :: "string \<Rightarrow> string option list \<Rightarrow> string option list" where
  "cut_cache p [] = []"
| "cut_cache p (None # rs) = None # cut_cache p rs"
| "cut_cache p (Some l # rs) =
     (case strstr l p of
        None \<Rightarrow> Some l # cut_cache p rs
      | Some q \<Rightarrow> Some (take (length l - length q) l @ [NL]) # rs)"

text \<open>
  The loop of \<open>history_delete_first_existent_logcrashpath\<close> over the file \<open>d\<close> from position
  \<open>pos\<close>. A line that names the path but does not contain it would be read again for ever; there
  is none (\<open>names_dir_contains\<close>). Otherwise every turn consumes a byte, so fuel beyond the
  number of bytes is enough.
\<close>

fun delete_loop :: "nat \<Rightarrow> string \<Rightarrow> string \<Rightarrow> nat \<Rightarrow> ('w, unit) hop" where
  "delete_loop 0 p d pos = ret ()"
| "delete_loop (Suc k) p d pos = do {
     (n, line, rest) \<leftarrow> freadline (drop pos d);
     if n \<le> 0 then ret ()
     else let l = cstr line; pos' = length d - length rest
          in if \<not> names_dir p l then delete_loop k p d pos'
             else if \<not> contains l p then delete_loop k p d (pos' - length l)
             else do {
               _ \<leftarrow> write_at HISTORY_FILE (pos' - length l) (blank_first p l);
               modify (\<lambda>s. s\<lparr>historycache := cut_cache p (historycache s)\<rparr>) } }"

definition history_delete_first_existent_logcrashpath :: "string option \<Rightarrow> ('w, int) hop" where
  "history_delete_first_existent_logcrashpath path =
     (case path of
        None \<Rightarrow> ret 1
      | Some p \<Rightarrow> do {
          fd \<leftarrow> open_read HISTORY_FILE;
          (case fd of
             None \<Rightarrow> ret (-1)
           | Some d \<Rightarrow> do {
               delete_loop (Suc (length d)) p d 0;
               ret 1 }) })"

section \<open>Marking records as deleted\<close>

text \<open>\<open>sscanf(line, "CRASH %s %*s %*s %s\n", eventid, crashdir)\<close>.\<close>

definition crash_fmt :: "sfmt list" where
  "crash_fmt = slit ''CRASH'' @ [SWs, SWord None True, SWs, SWord None False, SWs, SWord None False, SWs,
     SWord None True, SWs]"

definition SHA_DIGEST_LENGTH :: nat where "SHA_DIGEST_LENGTH = 20"

text \<open>
  The loop over the patterns. \<open>n\<close> may be one more than the number of entries; comparing with the
  entry that does not exist reads behind the array. The file is left alone when \<open>rmfr\<close> has
  removed it.
\<close>

fun mark_patterns :: "string list \<Rightarrow> nat \<Rightarrow> nat \<Rightarrow> string \<Rightarrow> string \<Rightarrow> ('w, unit) op" where
  "mark_patterns pats 0 at eventid crashdir = ret ()"
| "mark_patterns pats (Suc n) at eventid crashdir =
     (case pats of
        [] \<Rightarrow> effect (BadRead ''update_history_on_cmd_delete'')
      | p # ps \<Rightarrow> do {
          (if eventid = p then do {
             ex \<leftarrow> gets (\<lambda>s. node_at s HISTORY_FILE \<noteq> None);
             (if ex then do { _ \<leftarrow> write_at HISTORY_FILE at ''DELETE''; ret () } else ret ());
             _ \<leftarrow> rmfr crashdir;
             ret () }
           else ret ());
          mark_patterns ps n at eventid crashdir })"

fun cmd_delete_loop :: "nat \<Rightarrow> string list \<Rightarrow> nat \<Rightarrow> string \<Rightarrow> nat \<Rightarrow> ('w, unit) op" where
  "cmd_delete_loop 0 pats n d pos = ret ()"
| "cmd_delete_loop (Suc k) pats n d pos = do {
     (r, line, rest) \<leftarrow> freadline (drop pos d);
     if r \<le> 0 then ret ()
     else let l = cstr line; pos' = length d - length rest
          in do {
            let words = fst (scanf crash_fmt l);
            (if words \<noteq> [] \<and> length (hd words) > SHA_DIGEST_LENGTH
             then effect (BadWrite ''update_history_on_cmd_delete'') else ret ());
            (case words of
               [eventid, crashdir] \<Rightarrow> mark_patterns pats n (pos' - length l) eventid crashdir
             | _ \<Rightarrow> ret ());
            cmd_delete_loop k pats n d pos' } }"

definition update_history_on_cmd_delete :: "string option \<Rightarrow> ('w, int) op" where
  "update_history_on_cmd_delete events = do {
     fd \<leftarrow> open_read HISTORY_FILE;
     (case fd of
        None \<Rightarrow> ret (-1)
      | Some d \<Rightarrow> do {
          (nbpatterns, events_list) \<leftarrow> commachain_to_fixedarray events 48 10;
          (case events_list of
             None \<Rightarrow> ret (-1)
           | Some pats \<Rightarrow>
               if nbpatterns \<le> 0 then ret (-1)
               else do {
                 cmd_delete_loop (Suc (length d)) pats (nat nbpatterns) d 0;
                 ret 0 }) }) }"

section \<open>What is blanked\<close>

lemma sublist_dropWhile: "sublist v (dropWhile P s) \<Longrightarrow> sublist v s"
  using suffix_dropWhile suffix_imp_sublist sublist_order.order_trans by blast

lemma sublist_drop_D: "sublist v (drop n s) \<Longrightarrow> sublist v s"
  using suffix_drop suffix_imp_sublist sublist_order.order_trans by blast

lemma sublist_upto_width: "sublist (upto_width w (takeWhile P t)) t"
proof -
  have "prefix (upto_width w (takeWhile P t)) t"
    using takeWhile_is_prefix [of P t] take_is_prefix [of _ "takeWhile P t"]
    by (auto simp: upto_width_def split: option.splits intro: prefix_order.trans)
  then show ?thesis by (rule prefix_imp_sublist)
qed

lemma scanf_sublist: "v \<in> set (fst (scanf f s)) \<Longrightarrow> sublist v s"
proof (induction f s rule: scanf.induct)
  case (2 c f s)
  then show ?case
    by (cases s) (auto split: if_splits simp: sublist_Cons_right)
next
  case (3 f s)
  then show ?case by (auto intro: sublist_dropWhile)
next
  case (4 w store f s)
  let ?t = "dropWhile isspace s"
  let ?v = "upto_width w (takeWhile (\<lambda>c. \<not> isspace c) ?t)"
  have v: "sublist ?v s" by (rule sublist_dropWhile [OF sublist_upto_width])
  obtain vs e where r: "scanf f (drop (length ?v) ?t) = (vs, e)" by fastforce
  show ?case
  proof (cases "v = ?v")
    case False
    then have "v \<in> set vs" "?t \<noteq> []" using "4.prems" r by (auto simp: Let_def split: if_splits)
    then have "sublist v (drop (length ?v) ?t)"
      using "4.IH" [of ?t ?v] r by (cases store) auto
    then show ?thesis by (rule sublist_dropWhile [OF sublist_drop_D])
  qed (simp add: v)
next
  case (5 w f s)
  let ?t = "dropWhile isspace s"
  let ?v = "upto_width w (takeWhile isdigit ?t)"
  have v: "sublist ?v s" by (rule sublist_dropWhile [OF sublist_upto_width])
  obtain vs e where r: "scanf f (drop (length ?v) ?t) = (vs, e)" by fastforce
  show ?case
  proof (cases "v = ?v")
    case False
    then have "v \<in> set vs" "?t \<noteq> []" "?v \<noteq> []" using "5.prems" r by (auto simp: Let_def split: if_splits)
    then have "sublist v (drop (length ?v) ?t)"
      using "5.IH" [of ?t ?v] r by auto
    then show ?thesis by (rule sublist_dropWhile [OF sublist_drop_D])
  qed (simp add: v)
qed simp

lemma names_dir_contains: "names_dir p l \<Longrightarrow> contains l p"
  unfolding names_dir_def contains_sublist by (rule scanf_sublist [where f = crashdir_fmt]) simp

lemma strstr_length: "strstr h n = Some q \<Longrightarrow> length q \<le> length h \<and> length n \<le> length q"
  using strstr_Some_prefix by (fastforce dest: suffix_length_le prefix_length_le)

lemma length_blank_first [simp]: "length (blank_first p l) = length l"
  using strstr_length [of l p] by (auto simp: blank_first_def split: option.splits)

text \<open>The lines after the call: the first one that names the path is blanked.\<close>

fun blank_record :: "string \<Rightarrow> string list \<Rightarrow> string list option" where
  "blank_record p [] = None"
| "blank_record p (l # ls) =
     (if names_dir p l then Some (blank_first p l # ls) else map_option (Cons l) (blank_record p ls))"

lemma next_line_head: "wf_line l \<Longrightarrow> next_line LINEROOM (l @ r) = (l, r)"
proof -
  assume w: "wf_line l"
  then have l: "l = butlast l @ [NL]" by (metis append_butlast_last_id wf_line_def)
  have "l \<noteq> []" "length l \<le> LINEROOM" using w by (simp_all add: wf_line_def)
  then have "length (butlast l) < LINEROOM" by (cases l) simp_all
  moreover have "NL \<notin> set (butlast l)" using w by (simp add: wf_line_def)
  ultimately have "next_line LINEROOM (butlast l @ NL # r) = (butlast l @ [NL], r)" by (intro next_line_append_NL)
  with l show ?thesis by (metis append.assoc append_Cons append_Nil)
qed

lemma delete_loop_reliable:
  assumes "reliable s" "\<forall>l \<in> set ls. wf_rec l" "d = pre @ concat ls" "pos = length pre" "length (concat ls) < k"
    and "node_at s HISTORY_FILE = Some (File d)"
  shows "\<exists>c. run_state (delete_loop k p d pos) s = ((),
    (case blank_record p ls of
       None \<Rightarrow> s\<lparr>calls := c\<rparr>
     | Some ls' \<Rightarrow> (put HISTORY_FILE (File (pre @ concat ls')) (s\<lparr>calls := c\<rparr>))
                    \<lparr>historycache := cut_cache p (historycache s)\<rparr>))"
  using assms
proof (induction ls arbitrary: pre pos k s)
  case Nil
  then obtain j where k: "k = Suc j" by (cases k) auto
  show ?case
    by (rule exI [of _ "calls s"]) (use Nil k in \<open>simp add: freadline_def\<close>)
next
  case (Cons l ls)
  then obtain j where k: "k = Suc j" by (cases k) auto
  have w: "wf_line l" "NUL \<notin> set l" using Cons.prems(2) by (auto simp: wf_rec_def)
  then have l: "cstr l = l" "0 < length l" by (auto simp: wf_line_def)
  have rest: "drop pos d = l @ concat ls" using Cons.prems(3,4) by simp
  obtain c where f: "run_state (freadline (l @ concat ls)) s = ((int (length l), l, concat ls), s\<lparr>calls := c\<rparr>)"
    using freadline_reliable [OF Cons.prems(1), of "l @ concat ls"] next_line_head [OF w(1), of "concat ls"] by auto
  let ?s = "s\<lparr>calls := c\<rparr>"
  have pos': "length d - length (concat ls) = length (pre @ l)" "length d - (length (concat ls) + length l) = length pre"
    using Cons.prems(3) by simp_all
  show ?case
  proof (cases "names_dir p l")
    case True
    have "take (length pre) d @ blank_first p l @ drop (length pre + length l) d = pre @ blank_first p l @ concat ls"
      using Cons.prems(3) by simp
    moreover have "content s HISTORY_FILE = d" using Cons.prems(6) by (simp add: content_def)
    ultimately have wr: "run_state (write_at HISTORY_FILE (length pre) (blank_first p l)) ?s =
        (int (length l), put HISTORY_FILE (File (pre @ blank_first p l @ concat ls)) (?s\<lparr>calls := Suc c\<rparr>))"
      using Cons.prems(1) by (simp add: write_at_def)
    show ?thesis
      by (rule exI [of _ "Suc c"])
         (use True names_dir_contains [OF True] wr f l rest pos' k in \<open>simp add: Let_def\<close>)
  next
    case False
    have "length l + length (concat ls) < Suc j" using Cons.prems(5) k by simp
    then have "length (concat ls) < j" using l(2) by linarith
    then have "\<exists>c'. run_state (delete_loop j p d (length (pre @ l))) ?s = ((),
      (case blank_record p ls of
         None \<Rightarrow> ?s\<lparr>calls := c'\<rparr>
       | Some ls' \<Rightarrow> (put HISTORY_FILE (File ((pre @ l) @ concat ls')) (?s\<lparr>calls := c'\<rparr>))
                      \<lparr>historycache := cut_cache p (historycache ?s)\<rparr>))"
      by (intro Cons.IH) (use Cons.prems k in \<open>auto simp: node_at_def\<close>)
    then obtain c' where c': "run_state (delete_loop j p d (length (pre @ l))) ?s = ((),
      (case blank_record p ls of
         None \<Rightarrow> ?s\<lparr>calls := c'\<rparr>
       | Some ls' \<Rightarrow> (put HISTORY_FILE (File ((pre @ l) @ concat ls')) (?s\<lparr>calls := c'\<rparr>))
                      \<lparr>historycache := cut_cache p (historycache ?s)\<rparr>))" by blast
    show ?thesis
      by (rule exI [of _ c'])
         (use False c' f l rest pos' k in \<open>auto simp: Let_def split: option.splits\<close>)
  qed
qed

lemma history_delete_run:
  assumes "reliable s" and "node_at s HISTORY_FILE = Some (File (concat ls))" and "\<forall>l \<in> set ls. wf_rec l"
  shows "\<exists>t. run_state (history_delete_first_existent_logcrashpath (Some p)) s = (1, t) \<and>
    (case blank_record p ls of
       None \<Rightarrow> content t HISTORY_FILE = concat ls \<and> historycache t = historycache s
     | Some ls' \<Rightarrow> content t HISTORY_FILE = concat ls' \<and> historycache t = cut_cache p (historycache s))"
proof -
  let ?d = "concat ls"
  let ?u = "s\<lparr>calls := Suc (calls s)\<rparr>"
  have o: "run_state (open_read HISTORY_FILE) s = (Some ?d, ?u)"
    using assms by (simp add: open_read_File)
  have "reliable ?u" "node_at ?u HISTORY_FILE = Some (File ?d)" using assms by simp_all
  then obtain c where "run_state (delete_loop (Suc (length ?d)) p ?d 0) ?u = ((),
    (case blank_record p ls of
       None \<Rightarrow> ?u\<lparr>calls := c\<rparr>
     | Some ls' \<Rightarrow> (put HISTORY_FILE (File ([] @ concat ls')) (?u\<lparr>calls := c\<rparr>))
                    \<lparr>historycache := cut_cache p (historycache ?u)\<rparr>))"
    using delete_loop_reliable [of ?u ls ?d "[]" 0 "Suc (length ?d)" p] assms(3) by auto
  with o have r: "run_state (history_delete_first_existent_logcrashpath (Some p)) s = (1,
    (case blank_record p ls of
       None \<Rightarrow> ?u\<lparr>calls := c\<rparr>
     | Some ls' \<Rightarrow> (put HISTORY_FILE (File ([] @ concat ls')) (?u\<lparr>calls := c\<rparr>))
                    \<lparr>historycache := cut_cache p (historycache ?u)\<rparr>))"
    by (simp add: history_delete_first_existent_logcrashpath_def del: delete_loop.simps)
  have h: "content (z\<lparr>historycache := x\<rparr>) q = content z q" for z :: "'a hist_scheme" and x q
    by (simp add: content_def node_at_def)
  show ?thesis
    unfolding r using assms(2)
    by (cases "blank_record p ls") (simp_all add: h, simp add: content_def)
qed

text \<open>The word \<open>p\<close> stands between \<open>a\<close> and \<open>b\<close>, and nowhere before that.\<close>

definition first_in :: "string \<Rightarrow> string \<Rightarrow> string \<Rightarrow> bool" where
  "first_in p a b \<longleftrightarrow> (\<forall>a' b'. a @ p @ b = a' @ p @ b' \<longrightarrow> length a \<le> length a')"

lemma strstr_first_in:
  assumes "strstr l p = Some q"
  shows "\<exists>a b. l = a @ p @ b \<and> q = p @ b \<and> first_in p a b"
  using assms
proof (induction l)
  case Nil
  then show ?case by (auto simp: first_in_def split: if_splits)
next
  case (Cons c l)
  show ?case
  proof (cases "prefix p (c # l)")
    case True
    then obtain b where "c # l = p @ b" by (auto simp: prefix_def)
    moreover have "q = c # l" using True Cons.prems by simp
    ultimately show ?thesis by (intro exI [of _ "[]"] exI [of _ b]) (simp add: first_in_def)
  next
    case False
    then obtain a b where ab: "l = a @ p @ b" "q = p @ b" "first_in p a b" using Cons by auto
    have "first_in p (c # a) b"
      unfolding first_in_def
    proof (intro allI impI)
      fix a' b' assume e: "(c # a) @ p @ b = a' @ p @ b'"
      with False ab(1) obtain a'' where "a' = c # a''" by (cases a') (auto simp: prefix_def)
      with e ab(3) show "length (c # a) \<le> length a'" by (auto simp: first_in_def)
    qed
    with ab show ?thesis by (intro exI [of _ "c # a"] exI [of _ b]) simp
  qed
qed

lemma blank_first_split: "contains l p \<Longrightarrow>
    \<exists>a b. l = a @ p @ b \<and> first_in p a b \<and> blank_first p l = a @ replicate (length p) (CHR '' '') @ b"
proof -
  assume "contains l p"
  then obtain q where q: "strstr l p = Some q" by (auto simp: contains_def)
  then obtain a b where "l = a @ p @ b" "q = p @ b" "first_in p a b" using strstr_first_in by blast
  with q show ?thesis by (intro exI [of _ a] exI [of _ b]) (simp add: blank_first_def)
qed

lemma blank_record_split:
  "blank_record p ls = Some ls' \<Longrightarrow> \<exists>xs a b ys. ls = xs @ (a @ p @ b) # ys \<and>
     (\<forall>l \<in> set xs. \<not> names_dir p l) \<and> names_dir p (a @ p @ b) \<and> first_in p a b \<and>
     ls' = xs @ (a @ replicate (length p) (CHR '' '') @ b) # ys"
proof (induction ls arbitrary: ls')
  case (Cons l ls)
  show ?case
  proof (cases "names_dir p l")
    case True
    obtain a b where "l = a @ p @ b" "first_in p a b" "blank_first p l = a @ replicate (length p) (CHR '' '') @ b"
      using blank_first_split [OF names_dir_contains [OF True]] by blast
    with True Cons.prems show ?thesis
      by (intro exI [of _ "[]"] exI [of _ a] exI [of _ b] exI [of _ ls]) simp
  next
    case False
    then obtain xs a b ys where i: "ls = xs @ (a @ p @ b) # ys" "\<forall>l \<in> set xs. \<not> names_dir p l"
      "names_dir p (a @ p @ b)" "first_in p a b" "ls' = (l # xs) @ (a @ replicate (length p) (CHR '' '') @ b) # ys"
      using Cons by auto
    with False show ?thesis
      by (intro exI [of _ "l # xs"] exI [of _ a] exI [of _ b] exI [of _ ys]) simp
  qed
qed simp

lemma blank_record_None: "blank_record p ls = None \<longleftrightarrow> (\<forall>l \<in> set ls. \<not> names_dir p l)"
  by (induction ls) simp_all

lemma cut_cache_none: "\<forall>l. Some l \<in> set rs \<longrightarrow> \<not> contains l p \<Longrightarrow> cut_cache p rs = rs"
  by (induction p rs rule: cut_cache.induct) (auto simp: contains_def)

lemma cut_cache_split:
  "Some l \<in> set rs \<Longrightarrow> contains l p \<Longrightarrow>
     \<exists>xs a b ys. rs = xs @ Some (a @ p @ b) # ys \<and> first_in p a b \<and>
       (\<forall>l. Some l \<in> set xs \<longrightarrow> \<not> contains l p) \<and> cut_cache p rs = xs @ Some (a @ [NL]) # ys"
proof (induction rs)
  case (Cons r rs)
  show ?case
  proof (cases "\<exists>k. r = Some k \<and> contains k p")
    case True
    then obtain k q where k: "r = Some k" "strstr k p = Some q" by (auto simp: contains_def)
    then obtain a b where ab: "k = a @ p @ b" "q = p @ b" "first_in p a b" using strstr_first_in by blast
    then have "cut_cache p (r # rs) = [] @ Some (a @ [NL]) # rs" using k by simp
    with ab k(1) show ?thesis
      by (intro exI [of _ "[]"] exI [of _ a] exI [of _ b] exI [of _ rs]) simp
  next
    case False
    then have r: "cut_cache p (r # rs) = r # cut_cache p rs" by (cases r) (simp_all add: contains_def)
    obtain xs a b ys where i: "rs = xs @ Some (a @ p @ b) # ys" "first_in p a b"
      "\<forall>l. Some l \<in> set xs \<longrightarrow> \<not> contains l p" "cut_cache p rs = xs @ Some (a @ [NL]) # ys"
      using Cons False by auto
    have "\<forall>l. Some l \<in> set (r # xs) \<longrightarrow> \<not> contains l p" using i(3) False by auto
    moreover have "r # rs = (r # xs) @ Some (a @ p @ b) # ys"
      "cut_cache p (r # rs) = (r # xs) @ Some (a @ [NL]) # ys"
      unfolding r using i(1,4) by simp_all
    ultimately show ?thesis using i(2) by blast
  qed
qed simp

text \<open>A word that stood in a line only once is gone with the blanks that replace it.\<close>

lemma sublist_blanks:
  assumes "CHR '' '' \<notin> set p" "p \<noteq> []" "sublist p (replicate n (CHR '' '') @ b)"
  shows "sublist p b"
  using assms(3)
proof (induction n)
  case (Suc n)
  then show ?case using assms(1,2) by (cases p) (auto simp: sublist_Cons_right)
qed simp

lemma blanked_once:
  assumes "CHR '' '' \<notin> set p" "p \<noteq> []" "\<And>a' b'. a @ p @ b = a' @ p @ b' \<Longrightarrow> a' = a"
  shows "\<not> contains (a @ replicate (length p) (CHR '' '') @ b) p"
proof
  assume "contains (a @ replicate (length p) (CHR '' '') @ b) p"
  then have "sublist p (a @ replicate (length p) (CHR '' '') @ b)" by (simp add: contains_sublist)
  moreover have "\<not> sublist p a"
  proof
    assume "sublist p a"
    then obtain x y where xy: "a = x @ p @ y" by (auto simp: sublist_def)
    then have "x = a" using assms(3) [of x "y @ p @ b"] by simp
    with xy assms(2) show False by simp
  qed
  moreover have "\<not> sublist p b"
  proof
    assume "sublist p b"
    then obtain x y where "b = x @ p @ y" by (auto simp: sublist_def)
    then have "a @ p @ x = a" using assms(3) [of "a @ p @ x" y] by simp
    with assms(2) show False by simp
  qed
  moreover have "sublist p a" if "p = u @ v" "suffix u a" "prefix v (replicate (length p) (CHR '' '') @ b)" for u v
  proof (cases v)
    case (Cons c w)
    with that(3) assms(2) have "c = CHR '' ''" by (cases "length p") auto
    with Cons that(1) assms(1) show ?thesis by simp
  qed (use that in \<open>simp add: suffix_imp_sublist\<close>)
  ultimately show False
    using sublist_blanks [OF assms(1,2)] unfolding sublist_append [of p a] by blast
qed

lemma scanf_word:
  assumes "v \<in> set (fst (scanf f s))" "\<forall>w. SNum w \<notin> set f" "\<forall>w st. SWord w st \<in> set f \<longrightarrow> w = None"
  shows "v \<noteq> [] \<and> (\<forall>c \<in> set v. \<not> isspace c)"
  using assms
proof (induction f arbitrary: s)
  case (Cons x f)
  show ?case
  proof (cases x)
    case (SLit c)
    with Cons.prems Cons.IH show ?thesis by (cases s) (auto split: if_splits)
  next
    case SWs
    with Cons.prems Cons.IH show ?thesis by simp
  next
    case (SNum w)
    with Cons.prems(2) show ?thesis by auto
  next
    case (SWord w store)
    let ?t = "dropWhile isspace s"
    let ?v = "takeWhile (\<lambda>c. \<not> isspace c) ?t"
    have w: "w = None" using Cons.prems(3) SWord by simp
    obtain vs e where r: "scanf f (drop (length ?v) ?t) = (vs, e)" by fastforce
    have t: "?t \<noteq> []" using Cons.prems(1) SWord by (auto simp: Let_def split: if_splits)
    then have ne: "?v \<noteq> []" using hd_dropWhile [of isspace s] by (cases ?t) auto
    have ns: "\<forall>c \<in> set ?v. \<not> isspace c" by (auto dest: set_takeWhileD)
    have "v = ?v \<or> v \<in> set vs"
      using Cons.prems(1) SWord w r t by (auto simp: Let_def upto_width_def split: if_splits)
    then show ?thesis
    proof
      assume e: "v = ?v"
      show ?thesis unfolding e by (rule conjI [OF ne ns])
    next
      assume "v \<in> set vs"
      then show ?thesis using Cons.IH [of "drop (length ?v) ?t"] Cons.prems(2,3) r by auto
    qed
  qed
qed simp

lemma names_dir_word:
  assumes "names_dir p l"
  shows "CHR '' '' \<notin> set p" "p \<noteq> []"
proof -
  have "p \<noteq> [] \<and> (\<forall>c \<in> set p. \<not> isspace c)"
    using assms by (intro scanf_word [of p crashdir_fmt l]) (auto simp: names_dir_def crashdir_fmt_def)
  then show "CHR '' '' \<notin> set p" "p \<noteq> []" by (auto simp: isspace_def)
qed

text \<open>
  C13. Before a crash directory is reused, the first record of the history that names it (in its
  fifth word) loses the name: when no call fails, \<open>history_delete_first_existent_logcrashpath\<close>
  replaces the first occurrence of the path in that line by as many blanks, no other byte of the
  file changes and no line moves, and the first cached line that contains the path ends where the
  path started; when no record names the path nothing changes. When the path stands in the line
  only once, the line does not name it any more. (It is the first occurrence that is blanked: a
  path that is also part of an earlier word of the line keeps the record alive.)
\<close>

theorem history_delete_blanks_record:
  assumes "reliable s" and "node_at s HISTORY_FILE = Some (File (concat ls))" and "\<forall>l \<in> set ls. wf_rec l"
  shows "\<exists>t. run_state (history_delete_first_existent_logcrashpath (Some p)) s = (1, t) \<and>
    (if \<exists>l \<in> set ls. names_dir p l
     then (\<exists>xs a b ys. ls = xs @ (a @ p @ b) # ys \<and> (\<forall>l \<in> set xs. \<not> names_dir p l) \<and>
            names_dir p (a @ p @ b) \<and> first_in p a b \<and>
            content t HISTORY_FILE = concat (xs @ (a @ replicate (length p) (CHR '' '') @ b) # ys) \<and>
            ((\<forall>a' b'. a @ p @ b = a' @ p @ b' \<longrightarrow> a' = a) \<longrightarrow>
              \<not> names_dir p (a @ replicate (length p) (CHR '' '') @ b))) \<and>
          (if \<exists>l. Some l \<in> set (historycache s) \<and> contains l p
           then \<exists>xs a b ys. historycache s = xs @ Some (a @ p @ b) # ys \<and> first_in p a b \<and>
             (\<forall>l. Some l \<in> set xs \<longrightarrow> \<not> contains l p) \<and> historycache t = xs @ Some (a @ [NL]) # ys
           else historycache t = historycache s)
     else content t HISTORY_FILE = concat ls \<and> historycache t = historycache s)"
proof -
  obtain t where t: "run_state (history_delete_first_existent_logcrashpath (Some p)) s = (1, t)"
    "case blank_record p ls of
       None \<Rightarrow> content t HISTORY_FILE = concat ls \<and> historycache t = historycache s
     | Some ls' \<Rightarrow> content t HISTORY_FILE = concat ls' \<and> historycache t = cut_cache p (historycache s)"
    using history_delete_run [OF assms] by blast
  show ?thesis
  proof (cases "blank_record p ls")
    case None
    with t show ?thesis by (auto simp: blank_record_None)
  next
    case (Some ls')
    then obtain xs a b ys where r: "ls = xs @ (a @ p @ b) # ys" "\<forall>l \<in> set xs. \<not> names_dir p l"
      "names_dir p (a @ p @ b)" "first_in p a b" "ls' = xs @ (a @ replicate (length p) (CHR '' '') @ b) # ys"
      using blank_record_split by blast
    have once: "\<not> names_dir p (a @ replicate (length p) (CHR '' '') @ b)"
      if "\<forall>a' b'. a @ p @ b = a' @ p @ b' \<longrightarrow> a' = a"
      using blanked_once [of p a b] names_dir_word [OF r(3)] names_dir_contains that by blast
    have ex: "\<exists>l \<in> set ls. names_dir p l" using r(1,3) by auto
    have c: "content t HISTORY_FILE = concat (xs @ (a @ replicate (length p) (CHR '' '') @ b) # ys)"
      "historycache t = cut_cache p (historycache s)" using t(2) Some r(5) by simp_all
    have "if \<exists>l. Some l \<in> set (historycache s) \<and> contains l p
      then \<exists>xs a b ys. historycache s = xs @ Some (a @ p @ b) # ys \<and> first_in p a b \<and>
        (\<forall>l. Some l \<in> set xs \<longrightarrow> \<not> contains l p) \<and> historycache t = xs @ Some (a @ [NL]) # ys
      else historycache t = historycache s"
      unfolding c(2) using cut_cache_split [of _ "historycache s" p] cut_cache_none [of "historycache s" p] by auto
    moreover have "\<exists>xs a b ys. ls = xs @ (a @ p @ b) # ys \<and> (\<forall>l \<in> set xs. \<not> names_dir p l) \<and>
        names_dir p (a @ p @ b) \<and> first_in p a b \<and>
        content t HISTORY_FILE = concat (xs @ (a @ replicate (length p) (CHR '' '') @ b) # ys) \<and>
        ((\<forall>a' b'. a @ p @ b = a' @ p @ b' \<longrightarrow> a' = a) \<longrightarrow>
          \<not> names_dir p (a @ replicate (length p) (CHR '' '') @ b))"
      using r(1-4) c(1) once by blast
    ultimately show ?thesis
      using t(1) ex by (intro exI [of _ t]) (simp only: if_True)
  qed
qed

theorem history_delete_blanks_record_witness:
  "\<exists>t. run_state (history_delete_first_existent_logcrashpath (Some ''/logs/crashlog1''))
      (sample_world [''CRASH k d T /logs/crashlog1'' @ [NL]]) = (1, t) \<and>
    content t HISTORY_FILE = concat [HISTORY_BLANK_LINE2, HISTORY_BLANK_LINE2, ''CRASH k d T                '' @ [NL]]"
proof -
  define p where "p = ''/logs/crashlog1''"
  define l where "l = ''CRASH k d T /logs/crashlog1'' @ [NL]"
  let ?ls = "[HISTORY_BLANK_LINE2, HISTORY_BLANK_LINE2, l]"
  have w: "\<forall>l \<in> set ?ls. wf_rec l"
    using wf_rec_BLANK_LINE2 by (simp add: l_def wf_rec_def wf_line_def privconst)
  have n: "node_at (sample_world [l]) HISTORY_FILE = Some (File (concat ?ls))"
    by (simp add: sample_world_def boot_def node_at_def comps_HISTORY_FILE)
  have b: "\<not> names_dir p HISTORY_BLANK_LINE2" "names_dir p l" "strstr l p = Some (p @ [NL])"
    unfolding p_def l_def by code_simp+
  then have nd: "\<exists>l \<in> set ?ls. names_dir p l" by simp
  obtain t xs a c ys where t: "run_state (history_delete_first_existent_logcrashpath (Some p)) (sample_world [l]) = (1, t)"
    "?ls = xs @ (a @ p @ c) # ys" "\<forall>l \<in> set xs. \<not> names_dir p l" "names_dir p (a @ p @ c)" "first_in p a c"
    "content t HISTORY_FILE = concat (xs @ (a @ replicate (length p) (CHR '' '') @ c) # ys)"
    using history_delete_blanks_record [OF sample_world_fields(1) n w, of p] unfolding if_P [OF nd] by blast
  have "a @ p @ c \<in> set ?ls" unfolding t(2) by simp
  with b(1) t(4) have l: "a @ p @ c = l" by auto
  have xs: "xs = [HISTORY_BLANK_LINE2, HISTORY_BLANK_LINE2] \<and> ys = []"
  proof -
    have "length xs = 2"
      using t(2,3) l b(1,2) by (auto simp: Cons_eq_append_conv)
    with t(2) show ?thesis by (auto simp: Cons_eq_append_conv)
  qed
  obtain a' where a': "l = a' @ p @ [NL]" "first_in p a' [NL]" using strstr_first_in [OF b(3)] by auto
  then have "length a = length a'" using l t(5) unfolding first_in_def by (metis le_antisym)
  with l a'(1) have "a = a'" "c = [NL]" by auto
  moreover have "a' = ''CRASH k d T ''" using a'(1) by (simp add: l_def p_def)
  ultimately show ?thesis
    using t(1,6) xs by (auto simp: p_def l_def)
qed

end
