(* ===== verification/Crashdir.thy ===== *)
theory Crashdir
  imports History_Delete
begin

text \<open>
  The part of crashlog/fsutils.c that hands out crash directories: a counter kept in a file
  numbers the directories modulo \<open>gmaxfiles\<close>, and a directory that is handed out again loses its
  old content and its record in the history. Shown here: the numbers go round, whatever the text
  form of the counter, and a directory is reused only after all others.
\<close>

section \<open>Counters in files\<close>

definition CRASHLOG_ERROR_PATH :: string where "CRASHLOG_ERROR_PATH = ''CRASHLOG_PATH''"
definition CRASHLOG_ERROR_FULL :: string where "CRASHLOG_ERROR_FULL = ''LOG_PARTITION_FULL''"

definition check_partlogfull :: "string \<Rightarrow> ('w, int) dop" where
  "check_partlogfull path = do {
     errorset \<leftarrow> gets partlogfull_errorset;
     if \<not> errorset \<and> prefix LOGS_DIR path then do {
       modify (\<lambda>s. s\<lparr>partlogfull_errorset := True\<rparr>);
       ret 1 }
     else ret 0 }"

text \<open>\<open>%4u\<close>.\<close>

definition fmt_4u :: "nat \<Rightarrow> string" where
  "fmt_4u n = pad_left (CHR '' '') 4 (show_nat n)"

text \<open>
  \<open>read_file\<close>: the code and the counter. \<open>fscanf\<close> reads at most four digits; a file that does not
  start with a number counts as 0. Signs, which the program never writes, are not modelled.
\<close>

definition read_file :: "string \<Rightarrow> ('w, int \<times> nat) dop" where
  "read_file filename = do {
     fd \<leftarrow> open_read filename;
     (case fd of
        Some d \<Rightarrow>
          let cur = (case fst (scanf [SNum (Some 4)] d) of [v] \<Rightarrow> read_nat 0 v | _ \<Rightarrow> 0)
          in do { set_errno 0; ret (0, cur) }
      | None \<Rightarrow> do {
          e \<leftarrow> gets errno;
          if e = ENOENT then do { reset_file filename; ret (0, 0) }
          else do { _ \<leftarrow> raise_infoerror ''ERROR'' CRASHLOG_ERROR_PATH; ret (-1, 0) } }) }"

text \<open>\<open>update_file\<close>: the next number, in 32-bit unsigned arithmetic; \<open>gmaxfiles\<close> may be 0.\<close>

definition update_file :: "string \<Rightarrow> nat \<Rightarrow> ('w, int) dop" where
  "update_file filename cur = do {
     ok \<leftarrow> open_update filename;
     if \<not> ok then do { _ \<leftarrow> raise_infoerror ''ERROR'' CRASHLOG_ERROR_PATH; ret (-1) }
     else do {
       g \<leftarrow> gets (\<lambda>s. nat (to_uint32 (gmaxfiles s)));
       if g = 0 then do { effect (DivByZero ''update_file''); ret (-1) }
       else close_file filename 0 (fmt_4u ((cur + 1) mod 2 ^ 32 mod g)) } }"

section \<open>Space\<close>

definition PROP_DATA_QUOTA :: string where "PROP_DATA_QUOTA = ''persist.vendor.crashlogd.data_quota''"
definition LOGSDIR_MINIMUM_FREESPACE_PERCENT :: "64 word" where "LOGSDIR_MINIMUM_FREESPACE_PERCENT = 5"

text \<open>
  \<open>check_free_space_available\<close>: \<open>statfs\<close> of the state gives the free and the total number of
  bytes; the arithmetic is in 64-bit unsigned words.
\<close>

definition check_free_space_available :: "string \<Rightarrow> 64 word \<Rightarrow> ('w, int) dop" where
  "check_free_space_available path req = do {
     st \<leftarrow> gets (\<lambda>s. statfs s path);
     (case st of
        None \<Rightarrow> ret 0
      | Some (free, full) \<Rightarrow> do {
          prop \<leftarrow> gets (\<lambda>s. prop_get s PROP_DATA_QUOTA ''100'');
          let p = strtol10 prop;
          let available_portion = (if p > 100 \<or> p < 0 then 100 else p);
          if available_portion = 0 then ret (-1)
          else do {
            let free_space = (of_nat free :: 64 word);
            let full_space = (of_nat full :: 64 word);
            used_space \<leftarrow> get_path_size path;
            let threshold = 100 - req;
            let min_free_space = full_space * req div 100;
            let stop_space = full_space * of_int available_portion * threshold div 10000;
            if used_space \<ge> stop_space \<or> free_space < min_free_space then ret (-1) else ret 0 } }) }"

section \<open>Directories\<close>

datatype dir_mode = MODE_CRASH | MODE_CRASH_NOSD | MODE_STATS | MODE_APLOGS | MODE_BZ | MODE_KDUMP

definition LOGS_MEDIA_DIR :: string where "LOGS_MEDIA_DIR = ''/data/media/logs''"

text \<open>
  The table of \<open>reserve_crash_folder\<close>: the counter file and the directory of a mode. In this build
  \<open>get_sdcard_paths\<close> sets every directory to the one on the internal storage.
\<close>

fun counter_of :: "dir_mode \<Rightarrow> string" where
  "counter_of MODE_CRASH = LOGS_DIR @ ''/currentcrashlog''"
| "counter_of MODE_CRASH_NOSD = LOGS_DIR @ ''/currentcrashlog''"
| "counter_of MODE_APLOGS = LOGS_DIR @ ''/currentaplogslog''"
| "counter_of MODE_BZ = LOGS_DIR @ ''/currentbzlog''"
| "counter_of MODE_STATS = LOGS_DIR @ ''/currentstatslog''"
| "counter_of MODE_KDUMP = LOGS_DIR @ ''/currentcrashlog''"

fun dir_of :: "dir_mode \<Rightarrow> string" where
  "dir_of MODE_CRASH = LOGS_DIR @ ''/crashlog''"
| "dir_of MODE_CRASH_NOSD = LOGS_DIR @ ''/crashlog''"
| "dir_of MODE_APLOGS = LOGS_DIR @ ''/aplogs''"
| "dir_of MODE_BZ = LOGS_DIR @ ''/bz''"
| "dir_of MODE_STATS = LOGS_DIR @ ''/stats''"
| "dir_of MODE_KDUMP = LOGS_MEDIA_DIR @ ''/crashlog''"

definition reserve_crash_folder :: "dir_mode \<Rightarrow> ('w, (string \<times> nat) option) dop" where
  "reserve_crash_folder mode = do {
     let path = counter_of mode;
     let dir = dir_of mode;
     space \<leftarrow> (if prefix LOGS_DIR dir
               then check_free_space_available LOGS_DIR LOGSDIR_MINIMUM_FREESPACE_PERCENT else ret 0);
     if space < 0 then ret None
     else do {
       (res, cur) \<leftarrow> read_file path;
       if res < 0 then ret None
       else do {
         res2 \<leftarrow> update_file path cur;
         if res2 < 0 then ret None else ret (Some (dir, cur)) } } }"

definition create_crash_folder :: "string \<Rightarrow> ('w, int) dop" where
  "create_crash_folder path = do {
     ok \<leftarrow> sys_mkdir path;
     if \<not> ok then do {
       e \<leftarrow> gets errno;
       full \<leftarrow> (if e = ENOSPC then check_partlogfull path else ret 0);
       _ \<leftarrow> raise_infoerror ''ERROR'' (if full \<noteq> 0 then CRASHLOG_ERROR_FULL else CRASHLOG_ERROR_PATH);
       ret (-1) }
     else do {
       (if \<not> contains path ''sdcard'' then do { _ \<leftarrow> chown_log path; ret () } else ret ());
       ret 0 } }"

text \<open>
  \<open>generate_crashlog_dir\<close>: the bound of its \<open>strncat\<close> leaves no room for the terminator when the
  name does not fit. \<open>strlen\<close> of a null \<open>unique\<close> ends the process.
\<close>

definition generate_crashlog_dir :: "dir_mode \<Rightarrow> string option \<Rightarrow> ('w, string option) dop" where
  "generate_crashlog_dir mode unique = do {
     r \<leftarrow> reserve_crash_folder mode;
     (case r of
        None \<Rightarrow> ret None
      | Some (dir, cur) \<Rightarrow> do {
          let path0 = snprintf PATHMAX (dir @ show_int (to_int32 (int cur)) @ ''_'');
          _ \<leftarrow> rmfr_match (Some path0);
          (case unique of
             None \<Rightarrow> do { effect (NullDeref ''generate_crashlog_dir''); ret None }
           | Some u \<Rightarrow> do {
               let long = (length path0 + length u \<ge> PATHMAX);
               (if long then effect (BadWrite ''generate_crashlog_dir'') else ret ());
               let path = strncat path0 u (if long then PATHMAX - length path0 else length u);
               isdir \<leftarrow> gets (directory_exists path);
               (if isdir then do { _ \<leftarrow> history_delete_first_existent_logcrashpath (Some path); ret () } else ret ());
               c \<leftarrow> create_crash_folder path;
               if c < 0 then ret None
               else do {
                 ok \<leftarrow> alloc;
                 ret (if ok then Some path else None) } }) }) }"

definition find_new_crashlog_dir :: "dir_mode \<Rightarrow> ('w, int) dop" where
  "find_new_crashlog_dir mode = do {
     r \<leftarrow> reserve_crash_folder mode;
     (case r of
        None \<Rightarrow> ret (-1)
      | Some (dir, cur) \<Rightarrow> do {
          let path = snprintf PATHMAX (dir @ show_int (to_int32 (int cur)));
          isdir \<leftarrow> gets (directory_exists path);
          (if isdir then do { _ \<leftarrow> history_delete_first_existent_logcrashpath (Some path); ret () } else ret ());
          _ \<leftarrow> rmfr path;
          c \<leftarrow> create_crash_folder path;
          if c < 0 then ret (-1) else ret (to_int32 (int cur)) }) }"

section \<open>The counter goes round\<close>

lemma show_nat_4: "n < 10000 \<Longrightarrow> length (show_nat n) \<le> 4"
  using length_show_nat [of n 4] by simp

lemma length_fmt_4u: "n < 10000 \<Longrightarrow> length (fmt_4u n) = 4"
  using show_nat_4 [of n] by (simp add: fmt_4u_def length_pad_left)

lemma scanf_fmt_4u:
  assumes "n < 10000"
  shows "fst (scanf [SNum (Some 4)] (fmt_4u n)) = [show_nat n]"
proof -
  have sp: "dropWhile isspace (replicate k (CHR '' '') @ xs) = dropWhile isspace xs" for k xs
    by (induction k) (auto simp: isspace_def)
  obtain c cs where c: "show_nat n = c # cs" by (cases "show_nat n") simp_all
  have d: "\<forall>x \<in> set (show_nat n). isdigit x" by (rule show_nat_digits)
  then have "\<not> isspace c" using c isdigit_not_isspace by auto
  then have "dropWhile isspace (show_nat n) = show_nat n" using c by simp
  moreover have tw: "takeWhile isdigit (show_nat n) = show_nat n" using d by (simp add: takeWhile_eq_all_conv)
  moreover have "take 4 (show_nat n) = show_nat n" using show_nat_4 [OF assms] by simp
  ultimately show ?thesis
    by (simp add: tw fmt_4u_def pad_left_def sp upto_width_def Let_def)
qed

text \<open>The file holds the counter in the form \<open>update_file\<close> and \<open>reset_file\<close> write.\<close>

definition counter :: "'w world_scheme \<Rightarrow> string \<Rightarrow> nat \<Rightarrow> bool" where
  "counter s p n \<longleftrightarrow> node_at s p = Some (File (fmt_4u n)) \<and> n < 10000"

text \<open>
  What the check of the free space is meant to say, in natural numbers: the files below the log
  directory stay below the quota (the percentage of the property of the 95 percent of the file
  system that may be used), and 5 percent of the file system are free. A \<open>statfs\<close> that fails is
  taken for space.
\<close>

definition used_bytes :: "string list \<Rightarrow> tree \<Rightarrow> nat" where
  "used_bytes p t = (\<Sum>n \<leftarrow> map snd (filter (\<lambda>e. prefix p (fst e)) t). case n of File d \<Rightarrow> length d | Dir \<Rightarrow> 0)"

definition quota :: "'w world_scheme \<Rightarrow> nat" where
  "quota s = (let p = strtol10 (prop_get s PROP_DATA_QUOTA ''100'') in if p > 100 \<or> p < 0 then 100 else nat p)"

definition has_space :: "'w daemon_scheme \<Rightarrow> bool" where
  "has_space s =
     (case statfs s LOGS_DIR of
        None \<Rightarrow> True
      | Some (free, full) \<Rightarrow>
          used_bytes (comps LOGS_DIR) (fs s) < full * quota s * 95 div 10000 \<and> full * 5 div 100 \<le> free)"

text \<open>Sizes for which the 64-bit arithmetic of the check does not wrap around.\<close>

definition space_bounded :: "'w daemon_scheme \<Rightarrow> bool" where
  "space_bounded s =
     (case statfs s LOGS_DIR of
        None \<Rightarrow> True
      | Some (free, full) \<Rightarrow>
          full * 10000 < 2 ^ 64 \<and> free < 2 ^ 64 \<and> used_bytes (comps LOGS_DIR) (fs s) < 2 ^ 64)"

lemma has_space_reads [simp]:
  "has_space (s\<lparr>calls := k\<rparr>) = has_space s" "has_space (s\<lparr>errno := e\<rparr>) = has_space s"
  "space_bounded (s\<lparr>calls := k\<rparr>) = space_bounded s" "space_bounded (s\<lparr>errno := e\<rparr>) = space_bounded s"
  by (simp_all add: has_space_def space_bounded_def quota_def prop_get_def cong: option.case_cong)

text \<open>A file rewritten with a text of the same length takes as much space as before.\<close>

lemma used_bytes_rewrite:
  assumes "map_of t k = Some (File c)" "length d = length c"
  shows "used_bytes p (AList.update k (File d) t) = used_bytes p t"
  using assms by (induction t) (auto simp: used_bytes_def split: if_splits)

lemma has_space_put:
  assumes "node_at s p = Some (File c)" "length d = length c"
  shows "has_space (put p (File d) s) = has_space s" "space_bounded (put p (File d) s) = space_bounded s"
  using assms used_bytes_rewrite [of "fs s" "comps p" c d]
  by (simp_all add: has_space_def space_bounded_def put_def node_at_def quota_def prop_get_def cong: option.case_cong)

lemma unat_of_nat_64: "n < 2 ^ 64 \<Longrightarrow> unat (of_nat n :: 64 word) = n"
  by (simp add: unsigned_of_nat take_bit_nat_eq_self)

lemma same_errno: "s\<lparr>calls := k, errno := errno s\<rparr> = s\<lparr>calls := k\<rparr>" for s :: "'w world_scheme"
  by (cases s) simp

lemma get_path_size_reliable:
  assumes "reliable s" "used_bytes (comps p) (fs s) < 2 ^ 64"
  shows "\<exists>u k e. run_state (get_path_size p) s = (u, s\<lparr>calls := k, errno := e\<rparr>) \<and>
    unat u \<le> used_bytes (comps p) (fs s) \<and>
    (is_dir (fs s) (comps p) \<longrightarrow> unat u = used_bytes (comps p) (fs s))"
proof -
  let ?l = "is_dir (fs s) (comps p) \<or> node_at s p \<noteq> None"
  let ?u = "if ?l then of_nat (used_bytes (comps p) (fs s)) else (0 :: 64 word)"
  have "run_state (get_path_size p) s =
      (?u, s\<lparr>calls := Suc (calls s), errno := (if ?l then errno s else ENOENT)\<rparr>)"
    using assms(1) by (cases ?l) (auto simp: get_path_size_def reliable_def foldl_size used_bytes_def same_errno)
  moreover have "unat ?u \<le> used_bytes (comps p) (fs s)"
    "is_dir (fs s) (comps p) \<longrightarrow> unat ?u = used_bytes (comps p) (fs s)"
    using unat_of_nat_64 [OF assms(2)] by simp_all
  ultimately show ?thesis by blast
qed

lemma stop_space:
  assumes "full * 10000 < 2 ^ 64" "q \<le> 100"
  shows "unat (of_nat full * of_int (int q) * (100 - 5) div 10000 :: 64 word) = full * q * 95 div 10000"
    and "unat (of_nat full * 5 div 100 :: 64 word) = full * 5 div 100"
proof -
  have "full * (q * 95) \<le> full * 10000" using assms(2) by (intro mult_le_mono2) simp
  then have b: "full * q * 95 < 2 ^ 64" "full * 5 < 2 ^ 64" using assms(1) unfolding mult.assoc by linarith+
  have w: "of_nat full * of_int (int q) * (100 - 5) = (of_nat (full * q * 95) :: 64 word)"
    "of_nat full * 5 = (of_nat (full * 5) :: 64 word)" by simp_all
  show "unat (of_nat full * of_int (int q) * (100 - 5) div 10000 :: 64 word) = full * q * 95 div 10000"
    unfolding w unat_div unat_of_nat_64 [OF b(1)] by simp
  show "unat (of_nat full * 5 div 100 :: 64 word) = full * 5 div 100"
    unfolding w unat_div unat_of_nat_64 [OF b(2)] by simp
qed

text \<open>The check says what it is meant to say.\<close>

lemma check_free_space_available_result:
  assumes "reliable s" "space_bounded s"
  shows "\<exists>r k e. run_state (check_free_space_available LOGS_DIR LOGSDIR_MINIMUM_FREESPACE_PERCENT) s =
      (r, s\<lparr>calls := k, errno := e\<rparr>) \<and>
    (has_space s \<longrightarrow> r = 0) \<and> (\<not> has_space s \<and> is_dir (fs s) (comps LOGS_DIR) \<longrightarrow> r = -1)"
proof (cases "statfs s LOGS_DIR")
  case None
  then have "run_state (check_free_space_available LOGS_DIR LOGSDIR_MINIMUM_FREESPACE_PERCENT) s =
      (0, s\<lparr>calls := calls s, errno := errno s\<rparr>)" "has_space s"
    by (simp_all add: check_free_space_available_def has_space_def)
  then show ?thesis by blast
next
  case (Some ff)
  obtain free full where ff: "ff = (free, full)" by (cases ff)
  let ?p = "strtol10 (prop_get s PROP_DATA_QUOTA ''100'')"
  let ?q = "if ?p > 100 \<or> ?p < 0 then 100 else ?p"
  have q: "?q = int (quota s)" "quota s \<le> 100" by (auto simp: quota_def Let_def)
  have b: "full * 10000 < 2 ^ 64" "free < 2 ^ 64" "used_bytes (comps LOGS_DIR) (fs s) < 2 ^ 64"
    using assms(2) Some ff by (simp_all add: space_bounded_def)
  obtain u k e where u: "run_state (get_path_size LOGS_DIR) s = (u, s\<lparr>calls := k, errno := e\<rparr>)"
    "unat u \<le> used_bytes (comps LOGS_DIR) (fs s)"
    "is_dir (fs s) (comps LOGS_DIR) \<longrightarrow> unat u = used_bytes (comps LOGS_DIR) (fs s)"
    using get_path_size_reliable [OF assms(1) b(3)] by blast
  note w = stop_space [OF b(1) q(2)] unat_of_nat_64 [OF b(2)]
  show ?thesis
  proof (cases "quota s = 0")
    case True
    then have "run_state (check_free_space_available LOGS_DIR LOGSDIR_MINIMUM_FREESPACE_PERCENT) s =
        (-1, s\<lparr>calls := calls s, errno := errno s\<rparr>)" "\<not> has_space s"
      using q Some ff by (simp_all add: check_free_space_available_def has_space_def Let_def)
    then show ?thesis by blast
  next
    case False
    let ?full = "of_nat full * of_int (int (quota s)) * (100 - 5) div 10000 :: 64 word"
    have "run_state (check_free_space_available LOGS_DIR LOGSDIR_MINIMUM_FREESPACE_PERCENT) s =
        (if ?full \<le> u \<or> (of_nat free :: 64 word) < of_nat full * 5 div 100 then -1 else 0,
         s\<lparr>calls := k, errno := e\<rparr>)"
      using u(1) Some ff False q(1)
      by (simp add: check_free_space_available_def LOGSDIR_MINIMUM_FREESPACE_PERCENT_def Let_def)
    moreover have "(?full \<le> u) = (full * quota s * 95 div 10000 \<le> unat u)"
      "((of_nat free :: 64 word) < of_nat full * 5 div 100) = (free < full * 5 div 100)"
      unfolding word_le_nat_alt word_less_nat_alt w by (rule refl)+
    ultimately show ?thesis
      using u(2,3) Some ff by (auto simp: has_space_def)
  qed
qed

lemma read_file_counter:
  assumes "reliable s" "counter s p n"
  shows "run_state (read_file p) s = ((0, n), s\<lparr>calls := Suc (calls s), errno := 0\<rparr>)"
  using assms scanf_fmt_4u [of n] by (simp add: read_file_def counter_def open_read_File)

lemma update_file_counter:
  assumes "reliable s" "counter s p n" "0 < gmaxfiles s" "gmaxfiles s \<le> 1000"
  shows "run_state (update_file p n) s = (0, put p (File (fmt_4u ((n + 1) mod nat (gmaxfiles s))))
    (s\<lparr>errno := 0, calls := Suc (Suc (calls s))\<rparr>))"
proof -
  let ?m = "(n + 1) mod nat (gmaxfiles s)"
  have g: "to_uint32 (gmaxfiles s) = gmaxfiles s" using assms(3,4) by simp
  have n: "(n + 1) mod 2 ^ 32 = n + 1" using assms(2) by (simp add: counter_def)
  have "?m < nat (gmaxfiles s)" using assms(3) by simp
  then have m: "?m < 10000" using assms(4) by linarith
  have l: "length (fmt_4u ?m) = 4" "length (fmt_4u n) = 4"
    using m assms(2) by (auto intro!: length_fmt_4u simp: counter_def)
  have c: "content s p = fmt_4u n" "node_at s p = Some (File (fmt_4u n))"
    using assms(2) by (simp_all add: counter_def content_def)
  show ?thesis
    using assms(1,3) c l g n
    by (simp add: update_file_def open_update_def open_read_File close_file_def write_at_def)
qed

fun reserve_many :: "nat \<Rightarrow> dir_mode \<Rightarrow> ('w, (string \<times> nat) option list) dop" where
  "reserve_many 0 mode = ret []"
| "reserve_many (Suc n) mode = do {
     r \<leftarrow> reserve_crash_folder mode;
     rs \<leftarrow> reserve_many n mode;
     ret (r # rs) }"

text \<open>A reservation that gets past the check writes the counter file, and nothing else.\<close>

definition allowed :: "dir_mode \<Rightarrow> 'w daemon_scheme \<Rightarrow> bool" where
  "allowed mode s \<longleftrightarrow> has_space s \<or> mode = MODE_KDUMP"

lemma space_checked_iff: "prefix LOGS_DIR (dir_of mode) \<longleftrightarrow> mode \<noteq> MODE_KDUMP"
  by (cases mode) (simp_all add: LOGS_DIR_def LOGS_MEDIA_DIR_def)

lemma space_check_allowed:
  assumes "reliable s" "space_bounded s" "allowed mode s"
  shows "\<exists>k e. run_state (if prefix LOGS_DIR (dir_of mode)
      then check_free_space_available LOGS_DIR LOGSDIR_MINIMUM_FREESPACE_PERCENT else ret 0) s =
      (0, s\<lparr>calls := k, errno := e\<rparr>)"
proof (cases "mode = MODE_KDUMP")
  case True
  then have "\<not> prefix LOGS_DIR (dir_of mode)" using space_checked_iff [of mode] by simp
  then show ?thesis by (intro exI [of _ "calls s"] exI [of _ "errno s"]) simp
next
  case False
  obtain r k e where r: "run_state (check_free_space_available LOGS_DIR LOGSDIR_MINIMUM_FREESPACE_PERCENT) s =
      (r, s\<lparr>calls := k, errno := e\<rparr>)" "has_space s \<longrightarrow> r = 0"
    using check_free_space_available_result [OF assms(1,2)] by blast
  have "has_space s" using False assms(3) by (simp add: allowed_def)
  with r False show ?thesis by (auto simp: space_checked_iff)
qed

lemma reserve_crash_folder_run:
  assumes "reliable s" "counter s (counter_of mode) n" "0 < gmaxfiles s" "gmaxfiles s \<le> 1000"
    and "space_bounded s" "allowed mode s"
  shows "\<exists>k. run_state (reserve_crash_folder mode) s = (Some (dir_of mode, n),
    put (counter_of mode) (File (fmt_4u ((n + 1) mod nat (gmaxfiles s)))) (s\<lparr>calls := k, errno := 0\<rparr>))"
proof -
  let ?p = "counter_of mode"
  obtain k e where c: "run_state (if prefix LOGS_DIR (dir_of mode)
      then check_free_space_available LOGS_DIR LOGSDIR_MINIMUM_FREESPACE_PERCENT else ret 0) s =
      (0, s\<lparr>calls := k, errno := e\<rparr>)"
    using space_check_allowed [OF assms(1,5,6)] by blast
  let ?u = "s\<lparr>calls := k, errno := e\<rparr>"
  let ?v = "?u\<lparr>calls := Suc (calls ?u), errno := 0\<rparr>"
  have u: "reliable ?u" "counter ?u ?p n" "reliable ?v" "counter ?v ?p n" "0 < gmaxfiles ?v" "gmaxfiles ?v \<le> 1000"
    using assms by (simp_all add: counter_def)
  have eq: "s\<lparr>errno := 0, calls := Suc (Suc (Suc k))\<rparr> = s\<lparr>calls := Suc (Suc (Suc k)), errno := 0\<rparr>" by simp
  from c read_file_counter [OF u(1,2)] update_file_counter [OF u(3-6)] show ?thesis
    by (intro exI [of _ "Suc (Suc (Suc k))"]) (simp add: reserve_crash_folder_def Let_def eq)
qed

lemma reserve_counter:
  assumes "reliable s" "counter s (counter_of mode) n" "0 < gmaxfiles s" "gmaxfiles s \<le> 1000"
    and "space_bounded s" "allowed mode s"
  shows "\<exists>t. run_state (reserve_crash_folder mode) s = (Some (dir_of mode, n), t) \<and>
    counter t (counter_of mode) ((n + 1) mod nat (gmaxfiles s)) \<and> reliable t \<and> gmaxfiles t = gmaxfiles s \<and>
    space_bounded t \<and> allowed mode t"
proof -
  let ?p = "counter_of mode"
  let ?m = "(n + 1) mod nat (gmaxfiles s)"
  obtain k where k: "run_state (reserve_crash_folder mode) s =
      (Some (dir_of mode, n), put ?p (File (fmt_4u ?m)) (s\<lparr>calls := k, errno := 0\<rparr>))"
    using reserve_crash_folder_run [OF assms] by blast
  let ?u = "s\<lparr>calls := k, errno := 0\<rparr>"
  have "?m < nat (gmaxfiles s)" using assms(3) by simp
  then have m: "?m < 10000" using assms(4) by linarith
  have c: "node_at ?u ?p = Some (File (fmt_4u n))" "n < 10000" using assms(2) by (simp_all add: counter_def)
  have l: "length (fmt_4u ?m) = length (fmt_4u n)" using m c(2) by (simp add: length_fmt_4u)
  have "counter (put ?p (File (fmt_4u ?m)) ?u) ?p ?m" using m by (simp add: counter_def)
  moreover have "space_bounded (put ?p (File (fmt_4u ?m)) ?u)" "allowed mode (put ?p (File (fmt_4u ?m)) ?u)"
    using has_space_put [OF c(1) l] assms(5,6) by (simp_all add: allowed_def)
  ultimately show ?thesis using k assms(1) by (simp add: put_def reliable_def)
qed

lemma reserve_many_counter:
  assumes "reliable s" "counter s (counter_of mode) n" "0 < gmaxfiles s" "gmaxfiles s \<le> 1000"
    and "space_bounded s" "allowed mode s" "n < nat (gmaxfiles s)"
  shows "fst (run_state (reserve_many k mode) s) =
    map (\<lambda>i. Some (dir_of mode, (n + i) mod nat (gmaxfiles s))) [0..<k]"
  using assms
proof (induction k arbitrary: s n)
  case (Suc k)
  let ?g = "nat (gmaxfiles s)"
  obtain t where t: "run_state (reserve_crash_folder mode) s = (Some (dir_of mode, n), t)"
    "counter t (counter_of mode) ((n + 1) mod ?g)" "reliable t" "gmaxfiles t = gmaxfiles s"
    "space_bounded t" "allowed mode t"
    using reserve_counter [OF Suc.prems(1-6)] by blast
  have "fst (run_state (reserve_many k mode) t) =
      map (\<lambda>i. Some (dir_of mode, ((n + 1) mod ?g + i) mod ?g)) [0..<k]"
    using Suc.IH [OF t(3,2)] t(4-6) Suc.prems(3,4) by simp
  moreover have "((n + 1) mod ?g + i) mod ?g = (n + Suc i) mod ?g" for i
    by (simp add: mod_add_left_eq)
  ultimately have "fst (run_state (reserve_many (Suc k) mode) s) =
      Some (dir_of mode, n) # map (\<lambda>i. Some (dir_of mode, (n + Suc i) mod ?g)) [0..<k]"
    using t(1) by (simp add: case_prod_beta)
  then show ?case
    using Suc.prems(7) by (simp only: map_upt_Suc) simp
qed simp

lemma reserve_many_refused:
  assumes "reliable s" "space_bounded s" "\<not> allowed mode s" "is_dir (fs s) (comps LOGS_DIR)"
  shows "fst (run_state (reserve_many k mode) s) = replicate k None \<and> fs (snd (run_state (reserve_many k mode) s)) = fs s"
  using assms
proof (induction k arbitrary: s)
  case (Suc k)
  have n: "\<not> has_space s" "mode \<noteq> MODE_KDUMP" using Suc.prems(3) by (simp_all add: allowed_def)
  obtain r c e where r: "run_state (check_free_space_available LOGS_DIR LOGSDIR_MINIMUM_FREESPACE_PERCENT) s =
      (r, s\<lparr>calls := c, errno := e\<rparr>)" "\<not> has_space s \<and> is_dir (fs s) (comps LOGS_DIR) \<longrightarrow> r = -1"
    using check_free_space_available_result [OF Suc.prems(1,2)] by blast
  then have c: "run_state (check_free_space_available LOGS_DIR LOGSDIR_MINIMUM_FREESPACE_PERCENT) s =
      (-1, s\<lparr>calls := c, errno := e\<rparr>)" using n(1) Suc.prems(4) by simp
  let ?u = "s\<lparr>calls := c, errno := e\<rparr>"
  have "run_state (reserve_crash_folder mode) s = (None, ?u)"
    using c n(2) by (simp add: reserve_crash_folder_def Let_def space_checked_iff)
  moreover have "reliable ?u" "space_bounded ?u" "\<not> allowed mode ?u" "is_dir (fs ?u) (comps LOGS_DIR)"
    using Suc.prems by (simp_all add: allowed_def)
  from Suc.IH [OF this] have "fst (run_state (reserve_many k mode) ?u) = replicate k None"
    "fs (snd (run_state (reserve_many k mode) ?u)) = fs s" by simp_all
  ultimately show ?case by (simp add: case_prod_beta)
qed simp

text \<open>
  C12. Crash directories are handed out in a circle, as long as there is space: when no call fails,
  the files below the log directory stay below the quota of the file system (the percentage the
  property sets, of 95 percent of it) and 5 percent of it are free, then \<open>k\<close> reservations from the
  number \<open>n\<close> give \<open>n\<close>, \<open>n + 1\<close> and so on modulo \<open>gmaxfiles\<close>, read from and written to the counter
  file each time; any \<open>gmaxfiles\<close> of them in a row are different, so a directory is reused only
  after all others. When the space is used up, every reservation is refused and no file changes.
  The directories of kernel dumps are on another partition and need no space; a \<open>statfs\<close> that
  fails counts as space; the sizes are small enough for 64 bits.
\<close>

theorem reserve_crash_folder_cycles:
  assumes "reliable s" and "counter s (counter_of mode) n" and "n < nat (gmaxfiles s)"
    and "gmaxfiles s \<le> 1000" and "space_bounded s" and "is_dir (fs s) (comps LOGS_DIR)"
  shows "if has_space s \<or> mode = MODE_KDUMP
    then fst (run_state (reserve_many k mode) s) =
        map (\<lambda>i. Some (dir_of mode, (n + i) mod nat (gmaxfiles s))) [0..<k] \<and>
      (k \<le> nat (gmaxfiles s) \<longrightarrow> distinct (fst (run_state (reserve_many k mode) s)))
    else fst (run_state (reserve_many k mode) s) = replicate k None \<and>
      fs (snd (run_state (reserve_many k mode) s)) = fs s"
proof (cases "allowed mode s")
  case True
  let ?g = "nat (gmaxfiles s)"
  have "0 < gmaxfiles s" using assms(3) by linarith
  then have e: "fst (run_state (reserve_many k mode) s) = map (\<lambda>i. Some (dir_of mode, (n + i) mod ?g)) [0..<k]"
    using reserve_many_counter [OF assms(1,2) _ assms(4,5) True assms(3)] by blast
  have le: "i = j" if "(n + i) mod ?g = (n + j) mod ?g" "j < ?g" "i \<le> j" for i j
  proof -
    have "?g dvd (n + j) - (n + i)" using that mod_eq_dvd_iff_nat [of "n + i" "n + j" ?g] by simp
    then have "?g dvd j - i" by simp
    with that show ?thesis by (metis dvd_imp_le diff_is_0_eq leD le_antisym less_imp_diff_less neq0_conv)
  qed
  have "i = j" if "(n + i) mod ?g = (n + j) mod ?g" "i < ?g" "j < ?g" for i j
    using le [OF that(1,3)] le [OF that(1) [symmetric] that(2)] by (cases "i \<le> j") simp_all
  then have "inj_on (\<lambda>i. Some (dir_of mode, (n + i) mod ?g)) {0..<k}" if "k \<le> ?g"
    using that by (intro inj_onI) (metis Pair_inject atLeastLessThan_iff le_less_trans less_le_trans option.inject)
  then have "k \<le> ?g \<longrightarrow> distinct (fst (run_state (reserve_many k mode) s))" unfolding e by (simp add: distinct_map)
  with e True show ?thesis by (simp only: allowed_def if_True)
next
  case False
  with reserve_many_refused [OF assms(1,5) False assms(6)] show ?thesis by (simp add: allowed_def)
qed

text \<open>A log directory on a file system of 1000 bytes, of which 600 are free.\<close>

definition counting_daemon :: daemon where
  "counting_daemon = (sample_daemon (boot [([''logs''], Dir), ([''logs'', ''currentcrashlog''], File ''   8'')] (\<lambda>_. Works)))
     \<lparr>statfs := \<lambda>_. Some (600, 1000)\<rparr>"

theorem reserve_crash_folder_cycles_witness:
  "fst (run_state (reserve_many 4 MODE_CRASH) counting_daemon) =
     map (\<lambda>n. Some (''/logs/crashlog'', n)) [8, 9, 0, 1]"
proof -
  have g: "gmaxfiles counting_daemon = 10" "statfs counting_daemon = (\<lambda>_. Some (600, 1000))"
    "fault counting_daemon = (\<lambda>_. Works)" "props counting_daemon = []"
    "fs counting_daemon = [([''logs''], Dir), ([''logs'', ''currentcrashlog''], File ''   8'')]"
    by (simp_all add: counting_daemon_def sample_daemon_def boot_def hist.extend_def daemon.fields_def)
  have f: "fmt_4u 8 = ''   8''" by code_simp
  have p: "comps LOGS_DIR = [''logs'']" "counter_of MODE_CRASH = ''/logs/currentcrashlog''"
    "comps ''/logs/currentcrashlog'' = [''logs'', ''currentcrashlog'']" by (simp_all add: comps_def LOGS_DIR_def)
  have c: "counter counting_daemon (counter_of MODE_CRASH) 8"
    by (simp only: counter_def node_at_def p g f) simp
  have "strtol10 ''100'' = 100" by code_simp
  then have q: "quota counting_daemon = 100" by (simp add: quota_def prop_get_def g)
  have u: "used_bytes (comps LOGS_DIR) (fs counting_daemon) = 4" by (simp add: used_bytes_def p g)
  have sp: "space_bounded counting_daemon" "has_space counting_daemon" "is_dir (fs counting_daemon) (comps LOGS_DIR)"
    unfolding space_bounded_def has_space_def u by (simp_all add: g q is_dir_def p)
  have "fst (run_state (reserve_many 4 MODE_CRASH) counting_daemon) =
      map (\<lambda>i. Some (dir_of MODE_CRASH, (8 + i) mod nat (gmaxfiles counting_daemon))) [0..<4]"
    using reserve_crash_folder_cycles [OF _ c _ _ sp(1,3), of 4] sp(2) by (simp add: g reliable_def)
  moreover have "[0..<4] = [0, 1, 2, 3 :: nat]" by (simp add: upt_rec)
  ultimately show ?thesis using g by (simp add: LOGS_DIR_def)
qed

end
