(* ===== verification/Crashdir_Fresh.thy ===== *)
theory Crashdir_Fresh
  imports Crashdir
begin

text \<open>
  \<open>find_new_crashlog_dir\<close> as its callers see it: a new empty directory, with nothing left of an
  earlier crash of the same number and everything else in place.
\<close>

lemma keys_update: "k \<in> fst ` set t \<Longrightarrow> fst ` set (AList.update k v t) = fst ` set t"
  by (simp add: dom_update insert_absorb)

text \<open>Rewriting an existing file keeps the tree well formed.\<close>

lemma wf_tree_rewrite:
  assumes "wf_tree t" "map_of t k = Some (File c)"
  shows "wf_tree (AList.update k (File d) t)"
proof -
  have k: "k \<in> fst ` set t" using assms(2) by (metis domI dom_map_of_conv_image_fst)
  have "is_dir (AList.update k (File d) t) j = is_dir t j" for j
    using assms(2) by (auto simp: is_dir_def update_conv')
  moreover have "distinct (map fst (AList.update k (File d) t))"
    using assms(1) by (simp add: wf_tree_def distinct_update)
  ultimately show ?thesis using assms(1) keys_update [OF k] by (simp add: wf_tree_def)
qed

lemma wf_tree_put: "wf_tree (fs s) \<Longrightarrow> node_at s p = Some (File c) \<Longrightarrow> wf_tree (fs (put p (File d) s))"
  using wf_tree_rewrite by (simp add: put_def node_at_def)

lemma rmfr_missing:
  assumes "reliable s" "node_at s p = None" "comps p \<noteq> []"
  shows "\<exists>k e. run_state (rmfr p) s = (-1, s\<lparr>calls := k, errno := e\<rparr>)"
  using assms by (simp add: rmfr_def sys_unlink_def sys_opendir_def node_at_def is_dir_def) blast

lemma rmfr_gone:
  assumes "reliable s" "wf_tree (fs s)" "comps p \<noteq> []"
    and "\<forall>rel. comps p @ rel \<in> fst ` set (fs s) \<longrightarrow> path_len p rel < PATHMAX"
  shows "\<exists>r k e. run_state (rmfr p) s = (r, s\<lparr>fs := without (comps p) (fs s), calls := k, errno := e\<rparr>)"
proof (cases "node_at s p")
  case None
  have "without (comps p) (fs s) = fs s"
    unfolding without_def
  proof (rule filter_True, rule ballI, rule notI)
    fix x assume x: "x \<in> set (fs s)" "prefix (comps p) (fst x)"
    then have k: "fst x \<in> fst ` set (fs s)" by simp
    have "comps p \<notin> fst ` set (fs s)" using None by (metis map_of_eq_None_iff node_at_def)
    then have "strict_prefix (comps p) (fst x)" using x k by (metis strict_prefixI)
    from wf_tree_parent [OF assms(2) k this assms(3)] None show False by (simp add: node_at_def)
  qed
  moreover obtain k e where "run_state (rmfr p) s = (-1, s\<lparr>calls := k, errno := e\<rparr>)"
    using rmfr_missing [OF assms(1) None assms(3)] by blast
  ultimately show ?thesis by (intro exI [of _ "-1"] exI [of _ k] exI [of _ e]) simp
next
  case (Some n)
  then show ?thesis using rmfr_subtree [OF assms(1,2,3) _ assms(4)] by (auto simp: without_def)
qed

text \<open>The path of a crash directory.\<close>

definition crash_path :: "dir_mode \<Rightarrow> nat \<Rightarrow> string" where
  "crash_path mode n = dir_of mode @ show_nat n"

lemma comps_LOGS_DIR: "comps LOGS_DIR = [''logs'']"
  by (simp add: LOGS_DIR_def comps_def)

lemma show_nat_no_slash: "CHR ''/'' \<notin> set (show_nat n)"
  using show_nat_digits [of n] by (auto simp: isdigit_def)

lemma comps_crash_path:
  "\<exists>pre nm. comps (crash_path mode n) = pre @ [nm @ show_nat n] \<and> pre \<noteq> [] \<and> nm \<in> {''crashlog'', ''aplogs'', ''bz'', ''stats''}"
proof -
  have l: "comps (a @ CHR ''/'' # nm @ show_nat n) = comps a @ [nm @ show_nat n]"
    if "nm \<in> {''crashlog'', ''aplogs'', ''bz'', ''stats''}" for a nm
    using that show_nat_no_slash [of n] by auto
  have "comps LOGS_DIR \<noteq> []" "comps LOGS_MEDIA_DIR \<noteq> []"
    by (simp_all add: LOGS_DIR_def LOGS_MEDIA_DIR_def comps_def)
  then show ?thesis
    using l [of "''crashlog''" LOGS_DIR] l [of "''crashlog''" LOGS_MEDIA_DIR] l [of "''aplogs''" LOGS_DIR]
      l [of "''bz''" LOGS_DIR] l [of "''stats''" LOGS_DIR]
    by (cases mode) (simp_all add: crash_path_def)
qed

lemma crash_path_other:
  "\<not> prefix (comps (crash_path mode n)) (comps HISTORY_FILE)"
  "\<not> prefix (comps (crash_path mode n)) (comps (counter_of m))"
  "comps (crash_path mode n) \<noteq> []"
proof -
  obtain pre nm where c: "comps (crash_path mode n) = pre @ [nm @ show_nat n]" "pre \<noteq> []"
    "nm \<in> {''crashlog'', ''aplogs'', ''bz'', ''stats''}"
    using comps_crash_path by blast
  have k: "\<not> prefix (pre @ [nm @ show_nat n]) [''logs'', x]"
    if "x \<in> {''history_event'', ''currentcrashlog'', ''currentaplogslog'', ''currentbzlog'', ''currentstatslog''}" for x
  proof
    assume "prefix (pre @ [nm @ show_nat n]) [''logs'', x]"
    then obtain zs where z: "[''logs'', x] = (pre @ [nm @ show_nat n]) @ zs" by (elim prefixE)
    obtain y ys where "pre = y # ys" using c(2) by (cases pre) simp_all
    with z have "[x] = ys @ (nm @ show_nat n) # zs" by simp
    then have x: "x = nm @ show_nat n" by (cases ys) simp_all
    have "take 2 x \<in> {''hi'', ''cu''}" using that by (elim insertE emptyE) simp_all
    moreover have "take 2 x \<in> {''cr'', ''ap'', ''bz'', ''st''}"
      using c(3) unfolding x by (elim insertE emptyE) simp_all
    ultimately show False by (elim insertE emptyE) simp_all
  qed
  have m: "\<exists>x \<in> {''history_event'', ''currentcrashlog'', ''currentaplogslog'', ''currentbzlog'', ''currentstatslog''}.
      comps (counter_of m) = [''logs'', x]"
    by (cases m) (simp_all add: comps_LOGS_DIR)
  show "\<not> prefix (comps (crash_path mode n)) (comps HISTORY_FILE)"
    using k [of "''history_event''"] c(1) by (simp add: comps_HISTORY_FILE)
  show "\<not> prefix (comps (crash_path mode n)) (comps (counter_of m))"
    using m unfolding c(1) by (metis k)
  show "comps (crash_path mode n) \<noteq> []" using c(1) by simp
qed

lemma without_children_empty: "children (without k t) k = []"
proof -
  have "x \<notin> set (children (without k t) k)" for x
    unfolding children_iff keys_without by simp
  then show ?thesis by (metis equals0I set_empty)
qed

lemma create_crash_folder_reliable:
  assumes "reliable s" "node_at s p = None" "comps p \<noteq> []" "is_dir (fs s) (butlast (comps p))"
  shows "\<exists>k. run_state (create_crash_folder p) s = (0, put p Dir (s\<lparr>calls := k\<rparr>))"
proof -
  let ?t = "put p Dir (s\<lparr>calls := Suc (calls s)\<rparr>)"
  have m: "run_state (sys_mkdir p) s = (True, ?t)" using assms by (simp add: sys_mkdir_def)
  obtain k where "run_state (chown_log p) ?t = (0, ?t\<lparr>calls := k\<rparr>)"
    using chown_log_reliable [of ?t p] assms(1) by auto
  with m show ?thesis by (auto simp: create_crash_folder_def)
qed

text \<open>The tree before the old directory is removed: counter and history rewritten, nothing else.\<close>

definition same_but :: "string list set \<Rightarrow> tree \<Rightarrow> tree \<Rightarrow> bool" where
  "same_but K t u \<longleftrightarrow> fst ` set u = fst ` set t \<and> (\<forall>k. k \<notin> K \<longrightarrow> map_of u k = map_of t k) \<and>
     (\<forall>k. map_of u k = Some Dir \<longleftrightarrow> map_of t k = Some Dir)"

lemma same_but_rewrite:
  assumes "map_of t k = Some (File c)" "k \<in> K" "same_but K t0 t"
  shows "same_but K t0 (AList.update k (File d) t)"
proof -
  have "k \<in> fst ` set t" using assms(1) by (metis domI dom_map_of_conv_image_fst)
  moreover have "map_of t0 k \<noteq> Some Dir" using assms(1,3) unfolding same_but_def by (metis node.distinct(1) option.inject)
  ultimately show ?thesis using assms keys_update [of k t] by (auto simp: same_but_def update_conv')
qed

lemma same_but_put:
  "node_at s p = Some (File c) \<Longrightarrow> comps p \<in> K \<Longrightarrow> same_but K t0 (fs s) \<Longrightarrow> same_but K t0 (fs (put p (File d) s))"
  using same_but_rewrite by (simp add: put_def node_at_def)

lemma same_but_refl: "same_but K t t"
  by (simp add: same_but_def)

lemma reserve_tree:
  assumes "reliable s" "counter s (counter_of mode) n" "0 < gmaxfiles s" "gmaxfiles s \<le> 1000"
    and "space_bounded s" "allowed mode s" "wf_tree (fs s)"
  shows "\<exists>t. run_state (reserve_crash_folder mode) s = (Some (dir_of mode, n), t) \<and> reliable t \<and>
    wf_tree (fs t) \<and> same_but {comps (counter_of mode), comps HISTORY_FILE} (fs s) (fs t) \<and>
    node_at t HISTORY_FILE = node_at s HISTORY_FILE"
proof -
  let ?p = "counter_of mode" and ?f = "File (fmt_4u ((n + 1) mod nat (gmaxfiles s)))"
  obtain k where k: "run_state (reserve_crash_folder mode) s =
      (Some (dir_of mode, n), put ?p ?f (s\<lparr>calls := k, errno := 0\<rparr>))"
    using reserve_crash_folder_run [OF assms(1-6)] by blast
  let ?t = "put ?p ?f (s\<lparr>calls := k, errno := 0\<rparr>)"
  have c: "map_of (fs s) (comps ?p) = Some (File (fmt_4u n))"
    using assms(2) by (simp add: counter_def node_at_def)
  then have "wf_tree (fs ?t)" "same_but {comps ?p, comps HISTORY_FILE} (fs s) (fs ?t)"
    using wf_tree_rewrite [OF assms(7) c] same_but_rewrite [OF c _ same_but_refl]
    by (simp_all add: put_def)
  moreover have "comps HISTORY_FILE \<noteq> comps ?p"
    by (cases mode) (simp_all add: LOGS_DIR_def HISTORY_FILE_def comps_def)
  ultimately show ?thesis using k assms(1) by auto
qed

lemma history_delete_tree:
  assumes "reliable s" "node_at s HISTORY_FILE = Some (File (concat ls))" "\<forall>l \<in> set ls. wf_rec l" "wf_tree (fs s)"
  shows "\<exists>t. run_state (history_delete_first_existent_logcrashpath (Some p)) s = (1, t) \<and> reliable t \<and>
    wf_tree (fs t) \<and> same_but {k, comps HISTORY_FILE} (fs s) (fs t)"
proof -
  let ?d = "concat ls"
  let ?u = "s\<lparr>calls := Suc (calls s)\<rparr>"
  have o: "run_state (open_read HISTORY_FILE) s = (Some ?d, ?u)"
    using assms by (simp add: open_read_File)
  have "reliable ?u" "node_at ?u HISTORY_FILE = Some (File ?d)" using assms by simp_all
  then obtain c where r: "run_state (delete_loop (Suc (length ?d)) p ?d 0) ?u = ((),
    (case blank_record p ls of
       None \<Rightarrow> ?u\<lparr>calls := c\<rparr>
     | Some ls' \<Rightarrow> (put HISTORY_FILE (File ([] @ concat ls')) (?u\<lparr>calls := c\<rparr>))
                    \<lparr>historycache := cut_cache p (historycache ?u)\<rparr>))"
    using delete_loop_reliable [of ?u ls ?d "[]" 0 "Suc (length ?d)" p] assms(3) by auto
  have m: "map_of (fs s) (comps HISTORY_FILE) = Some (File ?d)" using assms(2) by (simp add: node_at_def)
  show ?thesis
  proof (cases "blank_record p ls")
    case None
    with o r assms show ?thesis
      by (auto simp: history_delete_first_existent_logcrashpath_def same_but_refl simp del: delete_loop.simps)
  next
    case (Some ls')
    with o r assms(1) wf_tree_rewrite [OF assms(4) m, of "concat ls'"]
      same_but_rewrite [OF m _ same_but_refl, of "{k, comps HISTORY_FILE}" "concat ls'"] show ?thesis
      by (auto simp: history_delete_first_existent_logcrashpath_def put_def reliable_def simp del: delete_loop.simps)
  qed
qed

lemma same_but_trans: "same_but K t u \<Longrightarrow> same_but K u v \<Longrightarrow> same_but K t v"
  by (simp add: same_but_def)

text \<open>What the steps before the removal of the old directory leave: the reserved number and the same tree.\<close>

lemma prepare_crash_folder:
  assumes "reliable s" "counter s (counter_of mode) n" "n < nat (gmaxfiles s)" "gmaxfiles s \<le> 1000"
    and "space_bounded s" "allowed mode s" "wf_tree (fs s)" "node_at s HISTORY_FILE = Some (File (concat ls))" "\<forall>l \<in> set ls. wf_rec l"
  shows "\<exists>t1 t2. run_state (reserve_crash_folder mode) s = (Some (dir_of mode, n), t1) \<and>
    run_state (if directory_exists p t1
       then do { _ \<leftarrow> history_delete_first_existent_logcrashpath (Some p); ret () } else ret ()) t1 = ((), t2) \<and>
    reliable t2 \<and> wf_tree (fs t2) \<and> same_but {comps (counter_of mode), comps HISTORY_FILE} (fs s) (fs t2)"
proof -
  let ?K = "{comps (counter_of mode), comps HISTORY_FILE}"
  have g: "0 < gmaxfiles s" using assms(3) by linarith
  obtain t1 where t1: "run_state (reserve_crash_folder mode) s = (Some (dir_of mode, n), t1)" "reliable t1"
    "wf_tree (fs t1)" "same_but ?K (fs s) (fs t1)" "node_at t1 HISTORY_FILE = Some (File (concat ls))"
    using reserve_tree [OF assms(1,2) g assms(4-7)] assms(8) by auto
  show ?thesis
  proof (cases "directory_exists p t1")
    case True
    obtain t2 where t2: "run_state (history_delete_first_existent_logcrashpath (Some p)) t1 = (1, t2)" "reliable t2"
      "wf_tree (fs t2)" "same_but ?K (fs t1) (fs t2)"
      using history_delete_tree [OF t1(2,5) assms(9) t1(3)] by blast
    from same_but_trans [OF t1(4) t2(4)] t1(1) t2 True show ?thesis by auto
  qed (use t1 in auto)
qed

text \<open>
  C7. A crash directory is handed out fresh: when no call fails, the files below the log directory
  stay below the quota and enough of the file system is free (or \<open>statfs\<close> fails, or the directory
  is one for kernel dumps, for which the space is not checked), the sizes fit 64 bits, the tree is
  well formed and no name below the old directory of that number is too long,
  \<open>find_new_crashlog_dir\<close> returns the number in the counter file; the directory exists and is
  empty, and every other file is as before except for the counter and the history, in which a
  record of the old directory is blanked.
\<close>

theorem find_new_crashlog_dir_fresh:
  assumes "reliable s" and "counter s (counter_of mode) n" and "n < nat (gmaxfiles s)"
    and "gmaxfiles s \<le> 1000" and "space_bounded s" and "has_space s \<or> mode = MODE_KDUMP" and "wf_tree (fs s)"
    and "node_at s HISTORY_FILE = Some (File (concat ls))" and "\<forall>l \<in> set ls. wf_rec l"
    and "is_dir (fs s) (butlast (comps (crash_path mode n)))"
    and "\<forall>rel. comps (crash_path mode n) @ rel \<in> fst ` set (fs s) \<longrightarrow> path_len (crash_path mode n) rel < PATHMAX"
  shows "\<exists>t. run_state (find_new_crashlog_dir mode) s = (int n, t) \<and>
    node_at t (crash_path mode n) = Some Dir \<and> children (fs t) (comps (crash_path mode n)) = [] \<and>
    (\<forall>k. \<not> prefix (comps (crash_path mode n)) k \<and> k \<noteq> comps (counter_of mode) \<and> k \<noteq> comps HISTORY_FILE \<longrightarrow>
       map_of (fs t) k = map_of (fs s) k)"
proof -
  let ?p = "crash_path mode n" and ?K = "{comps (counter_of mode), comps HISTORY_FILE}"
  have allowed: "allowed mode s" using assms(6) by (simp add: allowed_def)
  obtain t1 t2 where t: "run_state (reserve_crash_folder mode) s = (Some (dir_of mode, n), t1)"
    "run_state (if directory_exists ?p t1
       then do { _ \<leftarrow> history_delete_first_existent_logcrashpath (Some ?p); ret () } else ret ()) t1 = ((), t2)"
    "reliable t2" "wf_tree (fs t2)" "same_but ?K (fs s) (fs t2)"
    using prepare_crash_folder [OF assms(1-5) allowed assms(7-9)] by blast
  have keys: "fst ` set (fs t2) = fst ` set (fs s)" using t(5) by (simp add: same_but_def)
  obtain r k e where rm: "run_state (rmfr ?p) t2 = (r, t2\<lparr>fs := without (comps ?p) (fs t2), calls := k, errno := e\<rparr>)"
    using rmfr_gone [OF t(3,4) crash_path_other(3)] assms(11) keys by blast
  let ?u = "t2\<lparr>fs := without (comps ?p) (fs t2), calls := k, errno := e\<rparr>"
  have "\<not> prefix (comps ?p) (butlast (comps ?p))"
    using crash_path_other(3) [of mode n] by (metis append_butlast_last_id not_Cons_self2 prefix_order.antisym prefixeq_butlast append_self_conv)
  moreover have "is_dir (fs t2) (butlast (comps ?p))" using assms(10) t(5) by (auto simp: is_dir_def same_but_def)
  ultimately have dir: "is_dir (fs ?u) (butlast (comps ?p))" by (auto simp: is_dir_def)
  obtain c where mk: "run_state (create_crash_folder ?p) ?u = (0, put ?p Dir (?u\<lparr>calls := c\<rparr>))"
    using create_crash_folder_reliable [OF _ _ crash_path_other(3) dir] t(3) by (auto simp: node_at_def)
  let ?t = "put ?p Dir (?u\<lparr>calls := c\<rparr>)"
  have n: "n < 1000" using assms(3,4) by linarith
  have i: "to_int32 (int n) = int n" using n by simp
  have p: "snprintf PATHMAX (dir_of mode @ show_int (int n)) = ?p"
  proof -
    have "length (show_nat n) \<le> 4" using n show_nat_4 by simp
    moreover have "length (dir_of mode) < 30" by (cases mode) (simp_all add: LOGS_DIR_def LOGS_MEDIA_DIR_def)
    ultimately show ?thesis using n by (simp add: crash_path_def show_int_def privconst)
  qed
  have "run_state (find_new_crashlog_dir mode) s = (int n, ?t)"
    using t(1,2) rm mk
    by (cases "directory_exists ?p t1") (auto simp: find_new_crashlog_dir_def Let_def p i split: prod.splits)
  moreover have "children (fs ?t) (comps ?p) = []"
  proof -
    have "x \<notin> set (children (fs ?t) (comps ?p))" for x
      unfolding children_iff by (auto simp: put_def dom_update keys_without)
    then show ?thesis by (metis equals0I set_empty)
  qed
  moreover have "map_of (fs ?t) j = map_of (fs s) j" if "\<not> prefix (comps ?p) j" "j \<notin> ?K" for j
    using that t(5) by (auto simp: put_def update_conv' same_but_def)
  ultimately show ?thesis by auto
qed

text \<open>A log directory with an old crash directory, on a file system of 1000 bytes, 600 of them free.\<close>

definition full_daemon :: daemon where
  "full_daemon = (sample_daemon (boot [([''logs''], Dir), ([''logs'', ''history_event''], File []),
     ([''logs'', ''currentcrashlog''], File ''   8''), ([''logs'', ''crashlog8''], Dir),
     ([''logs'', ''crashlog8'', ''old''], File ''x'')] (\<lambda>_. Works)))
     \<lparr>statfs := \<lambda>_. Some (600, 1000)\<rparr>"

theorem find_new_crashlog_dir_fresh_witness:
  "\<exists>t. run_state (find_new_crashlog_dir MODE_CRASH) full_daemon = (8, t) \<and>
    node_at t ''/logs/crashlog8'' = Some Dir \<and> children (fs t) [''logs'', ''crashlog8''] = []"
proof -
  have g: "gmaxfiles full_daemon = 10" "statfs full_daemon = (\<lambda>_. Some (600, 1000))" "fault full_daemon = (\<lambda>_. Works)"
    "props full_daemon = []"
    "fs full_daemon = [([''logs''], Dir), ([''logs'', ''history_event''], File []),
       ([''logs'', ''currentcrashlog''], File ''   8''), ([''logs'', ''crashlog8''], Dir),
       ([''logs'', ''crashlog8'', ''old''], File ''x'')]"
    by (simp_all add: full_daemon_def sample_daemon_def boot_def hist.extend_def daemon.fields_def)
  have "fmt_4u 8 = ''   8''" "show_nat 8 = ''8''" by code_simp+
  then have p: "counter_of MODE_CRASH = ''/logs/currentcrashlog''" "crash_path MODE_CRASH 8 = ''/logs/crashlog8''"
    "fmt_4u 8 = ''   8''" by (simp_all add: LOGS_DIR_def crash_path_def)
  have c: "comps ''/logs/currentcrashlog'' = [''logs'', ''currentcrashlog'']" "comps ''/logs/crashlog8'' = [''logs'', ''crashlog8'']"
    by (simp_all add: comps_def)
  have "strtol10 ''100'' = 100" by code_simp
  then have q: "quota full_daemon = 100" by (simp add: quota_def prop_get_def g)
  have u: "used_bytes (comps LOGS_DIR) (fs full_daemon) = 5" by (simp add: used_bytes_def comps_LOGS_DIR g)
  have sp: "space_bounded full_daemon" "has_space full_daemon"
    unfolding space_bounded_def has_space_def u by (simp_all add: g(2) q)
  have "\<exists>t. run_state (find_new_crashlog_dir MODE_CRASH) full_daemon = (int 8, t) \<and>
    node_at t (crash_path MODE_CRASH 8) = Some Dir \<and> children (fs t) (comps (crash_path MODE_CRASH 8)) = [] \<and>
    (\<forall>k. \<not> prefix (comps (crash_path MODE_CRASH 8)) k \<and> k \<noteq> comps (counter_of MODE_CRASH) \<and> k \<noteq> comps HISTORY_FILE \<longrightarrow>
       map_of (fs t) k = map_of (fs full_daemon) k)"
  proof (rule find_new_crashlog_dir_fresh [where ls = "[]"])
    show "counter full_daemon (counter_of MODE_CRASH) 8" by (simp add: counter_def node_at_def p c g comps_LOGS_DIR)
    show "wf_tree (fs full_daemon)" by (simp add: wf_tree_def is_dir_def g)
    show "node_at full_daemon HISTORY_FILE = Some (File (concat []))"
      by (simp add: node_at_def comps_HISTORY_FILE g)
    show "is_dir (fs full_daemon) (butlast (comps (crash_path MODE_CRASH 8)))" by (simp add: p c g is_dir_def)
    show "\<forall>rel. comps (crash_path MODE_CRASH 8) @ rel \<in> fst ` set (fs full_daemon) \<longrightarrow>
        path_len (crash_path MODE_CRASH 8) rel < PATHMAX"
      by (auto simp: p c g path_len_def privconst)
  qed (simp_all add: reliable_def sp g)
  then show ?thesis by (auto simp: p c)
qed

end
