(* ===== verification/Notify.thy ===== *)
theory Notify
  imports Transition Main
begin

text \<open>
  The threads that notify the crash report application (crashutils.c, notify_crashreport_thread).
  Each event starts a thread; the threads share three static variables under a mutex. A thread is a
  program counter; the sections between lock and unlock are atomic steps, between which other
  threads run and time passes. The moments at which a thread is let through and the number of
  broadcasts are kept in a log.
\<close>

definition MAX_THREAD :: int where "MAX_THREAD = 3"
definition MIN_WAIT :: int where "MIN_WAIT = 60"

datatype pc = Ready | Sleeping int | Sending | Sent | Gone

record notify =
  last_notify :: int
  thread_count :: int
  last_chance :: int
  clock :: int
  threads :: "pc list"
  direct :: "int list"
  late :: "int list"
  sends :: nat

definition goto :: "nat \<Rightarrow> pc \<Rightarrow> notify \<Rightarrow> notify" where
  "goto i p s = s\<lparr>threads := (threads s)[i := p]\<rparr>"

text \<open>
  From the start of the thread to the end of the first section: the crashlog mode and the boot
  status are checked first; the thread then leaves, is let through, or begins to sleep.
\<close>

definition notify_enter :: "bool \<Rightarrow> string \<Rightarrow> nat \<Rightarrow> notify \<Rightarrow> notify" where
  "notify_enter enabled boot_state i s =
    (if \<not> enabled then goto i Gone s
     else if boot_state \<noteq> ''1'' then goto i Gone s
     else if thread_count s \<ge> MAX_THREAD then goto i Gone s
     else if clock s < last_notify s + MIN_WAIT \<and> last_chance s \<noteq> 0 then goto i Gone s
     else let s = s\<lparr>thread_count := thread_count s + 1\<rparr> in
       if clock s \<ge> last_notify s + MIN_WAIT
       then goto i Sending (s\<lparr>last_notify := clock s, direct := clock s # direct s\<rparr>)
       else goto i (Sleeping (clock s + MIN_WAIT)) (s\<lparr>last_chance := 1\<rparr>))"

text \<open>The section after the sleep.\<close>

definition notify_wake :: "nat \<Rightarrow> notify \<Rightarrow> notify" where
  "notify_wake i s = goto i Sending (s\<lparr>last_chance := 0, late := clock s # late s\<rparr>)"

text \<open>The broadcast has been run, by run_command; then the thread is counted out.\<close>

definition notify_leave :: "nat \<Rightarrow> notify \<Rightarrow> notify" where
  "notify_leave i s = goto i Gone (s\<lparr>thread_count := thread_count s - 1\<rparr>)"

definition notify_start :: "notify \<Rightarrow> bool" where
  "notify_start s \<longleftrightarrow> last_notify s = - MIN_WAIT \<and> thread_count s = 0 \<and> last_chance s = 0 \<and>
     0 \<le> clock s \<and> threads s = [] \<and> direct s = [] \<and> late s = [] \<and> sends s = 0"

inductive notify_step :: "notify \<Rightarrow> notify \<Rightarrow> bool" where
  create: "notify_step s (s\<lparr>threads := threads s @ [Ready]\<rparr>)"
| tick: "clock s \<le> t \<Longrightarrow> notify_step s (s\<lparr>clock := t\<rparr>)"
| enter: "\<lbrakk>i < length (threads s); threads s ! i = Ready\<rbrakk> \<Longrightarrow> notify_step s (notify_enter e b i s)"
| wake: "\<lbrakk>i < length (threads s); threads s ! i = Sleeping w; w \<le> clock s\<rbrakk> \<Longrightarrow> notify_step s (notify_wake i s)"
| send: "\<lbrakk>i < length (threads s); threads s ! i = Sending\<rbrakk> \<Longrightarrow>
    notify_step s (goto i Sent (s\<lparr>sends := Suc (sends s)\<rparr>))"
| leave: "\<lbrakk>i < length (threads s); threads s ! i = Sent\<rbrakk> \<Longrightarrow> notify_step s (notify_leave i s)"

inductive_cases notify_stepE: "notify_step s t"

section \<open>The invariant\<close>

fun active :: "pc \<Rightarrow> bool" where
  "active Ready = False"
| "active Gone = False"
| "active _ = True"

fun asleep :: "pc \<Rightarrow> bool" where
  "asleep (Sleeping _) = True"
| "asleep _ = False"

definition how_many :: "('a \<Rightarrow> bool) \<Rightarrow> 'a list \<Rightarrow> int" where
  "how_many P xs = int (length (filter P xs))"

fun apart :: "int list \<Rightarrow> bool" where
  "apart (x # y # zs) \<longleftrightarrow> y + MIN_WAIT \<le> x \<and> apart (y # zs)"
| "apart _ \<longleftrightarrow> True"

fun last_grant :: "int list \<Rightarrow> int" where
  "last_grant [] = - MIN_WAIT"
| "last_grant (x # _) = x"

definition after :: "int list \<Rightarrow> int \<Rightarrow> bool" where
  "after xs t \<longleftrightarrow> (\<forall>x\<in>set xs. x \<le> t)"

definition notify_inv :: "notify \<Rightarrow> bool" where
  "notify_inv s \<longleftrightarrow>
     thread_count s = how_many active (threads s) \<and> thread_count s \<le> MAX_THREAD \<and>
     last_chance s = how_many asleep (threads s) \<and> last_chance s \<le> 1 \<and>
     apart (direct s) \<and> apart (late s) \<and>
     last_notify s = last_grant (direct s) \<and>
     after (direct s) (clock s) \<and> after (late s) (clock s) \<and>
     (\<forall>w. Sleeping w \<in> set (threads s) \<longrightarrow> after (late s) (w - MIN_WAIT) \<and> w \<le> clock s + MIN_WAIT)"

lemma how_many_update:
  "i < length xs \<Longrightarrow> how_many P (xs[i := x]) = how_many P xs - (if P (xs ! i) then 1 else 0) + (if P x then 1 else 0)"
proof (induction xs arbitrary: i)
  case (Cons y ys)
  show ?case
  proof (cases i)
    case (Suc j)
    then show ?thesis using Cons.IH [of j] Cons.prems by (auto simp: how_many_def split: if_splits)
  qed (simp add: how_many_def)
qed simp

lemma how_many_simps [simp]:
  "how_many P [] = 0" "how_many P (xs @ [x]) = how_many P xs + (if P x then 1 else 0)" "0 \<le> how_many P xs"
  by (auto simp: how_many_def)

lemma how_many_zero: "how_many P xs = 0 \<Longrightarrow> x \<in> set xs \<Longrightarrow> \<not> P x"
  by (auto simp: how_many_def filter_empty_conv)

lemma how_many_pos: "0 < how_many P xs \<longleftrightarrow> (\<exists>x\<in>set xs. P x)"
  by (auto simp: how_many_def filter_empty_conv)

lemma after_mono: "after xs t \<Longrightarrow> t \<le> u \<Longrightarrow> after xs u"
  by (auto simp: after_def)

lemma apart_Cons: "\<lbrakk>apart xs; last_grant xs + MIN_WAIT \<le> x\<rbrakk> \<Longrightarrow> apart (x # xs)"
  by (cases xs) auto

lemma goto_simps [simp]:
  "last_notify (goto i p s) = last_notify s" "thread_count (goto i p s) = thread_count s"
  "last_chance (goto i p s) = last_chance s" "clock (goto i p s) = clock s"
  "direct (goto i p s) = direct s" "late (goto i p s) = late s"
  "sends (goto i p s) = sends s"
  "threads (goto i p s) = (threads s)[i := p]"
  by (simp_all add: goto_def)


lemma after_simps [simp]:
  "after [] t" "after (x # xs) t \<longleftrightarrow> x \<le> t \<and> after xs t"
  by (auto simp: after_def)

lemma sleeping_update:
  "Sleeping w \<in> set (xs[i := p]) \<Longrightarrow> p = Sleeping w \<or> Sleeping w \<in> set xs"
  using set_update_subset_insert [of xs i p] by auto

lemma notify_enter_inv:
  assumes "notify_inv s" "i < length (threads s)" "threads s ! i = Ready"
  shows "notify_inv (notify_enter e b i s)"
proof -
  have "notify_inv (goto i Gone s)"
    using assms by (auto simp: notify_inv_def how_many_update dest!: sleeping_update)
  moreover have "notify_inv (goto i Sending (s\<lparr>thread_count := thread_count s + 1, last_notify := clock s, direct := clock s # direct s\<rparr>))"
    if "thread_count s < MAX_THREAD" "last_notify s + MIN_WAIT \<le> clock s"
    using assms that by (auto simp: notify_inv_def how_many_update intro!: apart_Cons dest!: sleeping_update)
  moreover have "notify_inv (goto i (Sleeping (clock s + MIN_WAIT)) (s\<lparr>thread_count := thread_count s + 1, last_chance := 1\<rparr>))"
    if "thread_count s < MAX_THREAD" "last_chance s = 0"
    using assms that by (auto simp: notify_inv_def how_many_update dest!: sleeping_update)
  ultimately show ?thesis by (simp add: notify_enter_def Let_def)
qed

lemma notify_wake_inv:
  assumes "notify_inv s" "i < length (threads s)" "threads s ! i = Sleeping w" "w \<le> clock s"
  shows "notify_inv (notify_wake i s)"
proof -
  have one: "Sleeping w \<in> set (threads s)" using assms nth_mem by metis
  then have "0 < how_many asleep (threads s)" by (force simp: how_many_pos)
  then have lc: "how_many asleep (threads s) = 1" using assms(1) by (simp add: notify_inv_def)
  then have none: "how_many asleep ((threads s)[i := Sending]) = 0" using assms by (simp add: how_many_update)
  have "after (late s) (clock s - MIN_WAIT)"
    using assms one by (auto simp: notify_inv_def intro: after_mono)
  then have a: "apart (clock s # late s)"
    using assms(1) by (cases "late s") (auto simp: notify_inv_def)
  have "Sleeping u \<notin> set ((threads s)[i := Sending])" for u
    using how_many_zero [OF none, of "Sleeping u"] by auto
  then show ?thesis
    using assms lc a by (simp add: notify_inv_def notify_wake_def how_many_update)
qed

interpretation notify: invariant notify_start notify_step notify_inv
proof
  fix s
  assume "notify_start s"
  then show "notify_inv s" by (auto simp: notify_start_def notify_inv_def MAX_THREAD_def)
next
  fix s t
  assume inv: "notify_inv s" and "notify_step s t"
  from this(2) show "notify_inv t"
  proof cases
    case (tick t)
    then show ?thesis using inv by (auto simp: notify_inv_def intro: after_mono)
  next
    case (enter i e b)
    then show ?thesis using inv notify_enter_inv by simp
  next
    case (wake i w)
    then show ?thesis using inv notify_wake_inv by simp
  qed (use inv in \<open>auto simp: notify_inv_def notify_leave_def how_many_update dest!: sleeping_update\<close>)
qed

section \<open>Properties\<close>

lemma apart_window: "apart xs \<Longrightarrow> length (filter (\<lambda>x. t \<le> x \<and> x < t + MIN_WAIT) xs) \<le> 1"
proof -
  have old: "apart (x # xs) \<Longrightarrow> y \<in> set xs \<Longrightarrow> y + MIN_WAIT \<le> x" for x y xs
    by (induction xs arbitrary: x) (fastforce simp: MIN_WAIT_def)+
  show "apart xs \<Longrightarrow> ?thesis"
  proof (induction xs)
    case (Cons x xs)
    then have "apart xs" by (cases xs) auto
    moreover have "filter (\<lambda>x. t \<le> x \<and> x < t + MIN_WAIT) xs = []" if "x < t + MIN_WAIT"
      using old [OF Cons.prems] that by (force simp: filter_empty_conv)
    ultimately show ?case using Cons.IH by auto
  qed simp
qed

text \<open>
  C31. The limits on the notifications hold in every interleaving of the threads: at most three
  threads are past the first section and they are the ones counted, at most one sleeps, and in any
  period of 60 seconds at most two threads are let through, one directly and one after its sleep.
\<close>

theorem notify_threads_limited:
  assumes "reachable notify_start notify_step s"
  shows "thread_count s = how_many active (threads s) \<and> thread_count s \<le> 3 \<and>
    how_many asleep (threads s) \<le> 1 \<and>
    length (filter (\<lambda>x. t \<le> x \<and> x < t + MIN_WAIT) (direct s @ late s)) \<le> 2"
  using notify.reachable_inv [OF assms] apart_window [of "direct s" t] apart_window [of "late s" t]
  by (simp add: notify_inv_def MAX_THREAD_def)

section \<open>A run\<close>

definition idle :: notify where
  "idle = \<lparr>last_notify = -60, thread_count = 0, last_chance = 0, clock = 0, threads = [], direct = [], late = [],
     sends = 0\<rparr>"

definition waiting :: notify where
  "waiting = \<lparr>last_notify = 0, thread_count = 2, last_chance = 1, clock = 59,
     threads = [Sending, Sleeping 119, Ready], direct = [0], late = [], sends = 0\<rparr>"

lemmas limits = MAX_THREAD_def MIN_WAIT_def

lemma notify_runI:
  "\<lbrakk>step s t; step\<^sup>*\<^sup>* t u\<rbrakk> \<Longrightarrow> step\<^sup>*\<^sup>* s u"
  by (rule converse_rtranclp_into_rtranclp)

lemma idle_reachable: "reachable notify_start notify_step idle"
  by (rule reachable.start) (simp add: idle_def notify_start_def limits)

lemma waiting_reachable: "reachable notify_start notify_step waiting"
proof (rule reachable_run [OF _ idle_reachable])
  let ?a = "idle\<lparr>threads := [Ready]\<rparr>"
  let ?b = "?a\<lparr>thread_count := 1, last_notify := 0, direct := [0], threads := [Sending]\<rparr>"
  let ?c = "?b\<lparr>threads := [Sending, Ready]\<rparr>"
  let ?d = "?c\<lparr>clock := 59\<rparr>"
  let ?e = "?d\<lparr>thread_count := 2, last_chance := 1, threads := [Sending, Sleeping 119]\<rparr>"
  have "notify_step idle ?a" using create [of idle] by (simp add: idle_def)
  moreover have "notify_step ?a ?b"
    using enter [of 0 ?a True "''1''"] by (simp add: idle_def notify_enter_def limits goto_def)
  moreover have "notify_step ?b ?c" using create [of ?b] by (simp add: idle_def)
  moreover have "notify_step ?c ?d" using tick [of ?c 59] by (simp add: idle_def)
  moreover have "notify_step ?d ?e"
    using enter [of 1 ?d True "''1''"] by (simp add: idle_def notify_enter_def limits goto_def)
  moreover have "notify_step ?e waiting" using create [of ?e] by (simp add: idle_def waiting_def)
  ultimately show "notify_step\<^sup>*\<^sup>* idle waiting"
    by (meson notify_runI rtranclp.rtrancl_refl)
qed

theorem notify_threads_limited_witness:
  "thread_count waiting = how_many active (threads waiting) \<and> thread_count waiting \<le> 3 \<and>
   how_many asleep (threads waiting) \<le> 1 \<and>
   length (filter (\<lambda>x. 0 \<le> x \<and> x < 0 + MIN_WAIT) (direct waiting @ late waiting)) \<le> 2"
  using notify_threads_limited [OF waiting_reachable, of 0] by blast

section \<open>What is still to be sent\<close>

fun pending :: "pc \<Rightarrow> bool" where
  "pending (Sleeping _) = True"
| "pending Sending = True"
| "pending _ = False"

lemma pending_active: "pending p \<Longrightarrow> active p"
  by (cases p) simp_all

lemma notify_step_pending:
  assumes "notify_step s t" "k < length (threads s)" "pending (threads s ! k)"
  shows "sends s \<le> sends t \<and> (k < length (threads t) \<and> pending (threads t ! k) \<or> sends s < sends t)"
  using assms
proof cases
  case (enter i e b)
  then have "i \<noteq> k" using assms(3) by auto
  then show ?thesis using enter(1) assms(2,3) by (simp add: notify_enter_def Let_def)
qed (auto simp: notify_wake_def notify_leave_def nth_append nth_list_update)

text \<open>A thread that is to send stays so until a broadcast has been run, by it or by another.\<close>

lemma pending_or_sent:
  assumes "notify_step\<^sup>*\<^sup>* s t" "k < length (threads s)" "pending (threads s ! k)"
  shows "sends s \<le> sends t \<and> (k < length (threads t) \<and> pending (threads t ! k) \<or> sends s < sends t)"
  using assms
proof (induction rule: rtranclp_induct)
  case (step t u)
  have "sends t \<le> sends u"
    using step(2) by cases (simp_all add: notify_enter_def notify_wake_def notify_leave_def Let_def)
  with step notify_step_pending [OF step(2), of k] show ?case by auto
qed simp

fun pc_work :: "pc \<Rightarrow> nat" where
  "pc_work (Sleeping _) = 3"
| "pc_work Sending = 2"
| "pc_work Sent = 1"
| "pc_work _ = 0"

definition work :: "notify \<Rightarrow> nat" where
  "work s = sum_list (map pc_work (threads s))"

lemma work_goto:
  assumes "k < length (threads s)" "pc_work p < pc_work (threads s ! k)"
  shows "sum_list (map pc_work ((threads s)[k := p])) < work s"
proof -
  have u: "map pc_work ((threads s)[k := p]) = (map pc_work (threads s))[k := pc_work p]" by (rule map_update)
  have "pc_work (threads s ! k) \<le> work s"
    unfolding work_def using assms(1) by (metis elem_le_sum_list length_map nth_map)
  then show ?thesis
    unfolding u using assms by (simp add: work_def sum_list_update)
qed

text \<open>Every thread under way gets on: the clock can always be moved to the end of a sleep.\<close>

lemma notify_progress:
  assumes "k < length (threads s)" "active (threads s ! k)"
  shows "\<exists>t. notify_step\<^sup>*\<^sup>* s t \<and> work t < work s"
proof (cases "threads s ! k")
  case (Sleeping w)
  let ?s = "s\<lparr>clock := max (clock s) w\<rparr>"
  have "notify_step s ?s" by (rule tick) simp
  moreover have "notify_step ?s (notify_wake k ?s)" by (rule wake [where w = w]) (use assms Sleeping in simp_all)
  moreover have "work (notify_wake k ?s) < work s"
    using work_goto [OF assms(1), of Sending] Sleeping by (simp add: work_def notify_wake_def)
  ultimately show ?thesis by (meson rtranclp.rtrancl_into_rtrancl rtranclp.rtrancl_refl)
next
  case Sending
  then have "notify_step s (goto k Sent (s\<lparr>sends := Suc (sends s)\<rparr>))" by (intro send assms)
  moreover have "work (goto k Sent (s\<lparr>sends := Suc (sends s)\<rparr>)) < work s"
    using work_goto [OF assms(1), of Sent] Sending by (simp add: work_def)
  ultimately show ?thesis by blast
next
  case Sent
  then have "notify_step s (notify_leave k s)" by (intro leave assms)
  moreover have "work (notify_leave k s) < work s"
    using work_goto [OF assms(1), of Gone] Sent by (simp add: work_def notify_leave_def)
  ultimately show ?thesis by blast
qed (use assms in simp_all)

lemma notify_settles: "\<exists>t. notify_step\<^sup>*\<^sup>* s t \<and> (\<forall>p \<in> set (threads t). \<not> active p)"
proof (induction "work s" arbitrary: s rule: less_induct)
  case less
  show ?case
  proof (cases "\<forall>p \<in> set (threads s). \<not> active p")
    case False
    then obtain k where "k < length (threads s)" "active (threads s ! k)" by (metis in_set_conv_nth)
    then obtain t where t: "notify_step\<^sup>*\<^sup>* s t" "work t < work s" using notify_progress by blast
    obtain u where "notify_step\<^sup>*\<^sup>* t u" "\<forall>p \<in> set (threads u). \<not> active p" using less [OF t(2)] by blast
    with t(1) show ?thesis by (meson rtranclp_trans)
  qed blast
qed

lemma pending_will_send:
  assumes "k < length (threads t)" "pending (threads t ! k)" "notify_step\<^sup>*\<^sup>* t u"
  shows "\<exists>v. notify_step\<^sup>*\<^sup>* u v \<and> sends t < sends v"
proof -
  obtain v where v: "notify_step\<^sup>*\<^sup>* u v" "\<forall>p \<in> set (threads v). \<not> active p" using notify_settles by blast
  have "\<not> (k < length (threads v) \<and> pending (threads v ! k))" using v(2) pending_active nth_mem by blast
  moreover have "notify_step\<^sup>*\<^sup>* t v" using assms(3) v(1) by (rule rtranclp_trans)
  ultimately have "sends t < sends v" using pending_or_sent [OF _ assms(1,2)] by blast
  with v(1) show ?thesis by blast
qed

lemma some_pending:
  assumes "notify_inv s" "i < length (threads s)" "threads s ! i = Ready"
    and "thread_count s < MAX_THREAD \<or> (\<exists>p \<in> set (threads s). pending p)"
  shows "\<exists>k < length (threads (notify_enter True ''1'' i s)). pending (threads (notify_enter True ''1'' i s) ! k)"
proof -
  have other: "\<exists>k < length (threads s). pending ((threads s)[i := Gone] ! k)" if "p \<in> set (threads s)" "pending p" for p
  proof -
    from that obtain k where k: "k < length (threads s)" "threads s ! k = p" by (metis in_set_conv_nth)
    with that(2) assms(3) have "k \<noteq> i" by auto
    with k that(2) show ?thesis by auto
  qed
  have asleep: "\<exists>p \<in> set (threads s). pending p" if "last_chance s \<noteq> 0"
  proof -
    have "0 < how_many asleep (threads s)"
      using assms(1) that how_many_simps(3) [of asleep "threads s"] by (simp add: notify_inv_def order_less_le)
    then obtain p where "p \<in> set (threads s)" "asleep p" by (auto simp: how_many_pos)
    then show ?thesis by (metis asleep.elims(2) pending.simps(1))
  qed
  show ?thesis
  proof (cases "MAX_THREAD \<le> thread_count s \<or> clock s < last_notify s + MIN_WAIT \<and> last_chance s \<noteq> 0")
    case True
    then have "notify_enter True ''1'' i s = goto i Gone s" by (auto simp: notify_enter_def)
    moreover have "\<exists>p \<in> set (threads s). pending p" using True assms(4) asleep by auto
    ultimately show ?thesis using other by auto
  next
    case False
    with assms(2) have "pending (threads (notify_enter True ''1'' i s) ! i)"
      "i < length (threads (notify_enter True ''1'' i s))"
      by (auto simp: notify_enter_def Let_def)
    then show ?thesis by blast
  qed
qed

text \<open>
  C32. No event is forgotten: once a thread has found notifications enabled and the system booted
  and has made its decision (it is let through, sleeps, or leaves it to the others), a command that
  sends the broadcast is always still to end, whatever the threads do in which order, and one has
  ended at the latest when none of the threads that were there is under way any more.
  This needs fewer than three threads past the first section, or one among them that has not sent
  its broadcast; \<open>notify_event_lost\<close> shows what happens otherwise.
\<close>

theorem notify_not_forgotten:
  assumes "reachable notify_start notify_step s" "i < length (threads s)" "threads s ! i = Ready"
    and "thread_count s < MAX_THREAD \<or> (\<exists>p \<in> set (threads s). pending p)"
  defines "t \<equiv> notify_enter True ''1'' i s"
  shows "(\<forall>u. notify_step\<^sup>*\<^sup>* t u \<longrightarrow> (\<exists>v. notify_step\<^sup>*\<^sup>* u v \<and> sends s < sends v)) \<and>
    (\<forall>u. notify_step\<^sup>*\<^sup>* t u \<and> (\<forall>k < length (threads t). \<not> active (threads u ! k)) \<longrightarrow> sends s < sends u)"
proof -
  obtain k where k: "k < length (threads t)" "pending (threads t ! k)"
    using some_pending [OF notify.reachable_inv [OF assms(1)] assms(2-4)] unfolding t_def by blast
  have s: "sends t = sends s" by (simp add: t_def notify_enter_def Let_def)
  have "sends s < sends u" if "notify_step\<^sup>*\<^sup>* t u" "\<not> active (threads u ! k)" for u
    using pending_or_sent [OF that(1) k] that(2) pending_active s by auto
  with k s pending_will_send [OF k] show ?thesis by auto
qed

theorem notify_not_forgotten_witness:
  "\<exists>v. notify_step\<^sup>*\<^sup>* (notify_enter True ''1'' 2 waiting) v \<and> sends waiting < sends v"
  by (rule notify_not_forgotten [OF waiting_reachable, of 2, THEN conjunct1, rule_format])
     (simp_all add: waiting_def limits)

text \<open>
  When three threads have run their broadcast and none has been counted out yet, a thread leaves,
  and nobody is left that would send one for its event.
\<close>

definition crowded :: notify where
  "crowded = \<lparr>last_notify = 60, thread_count = 3, last_chance = 0, clock = 119,
     threads = [Sent, Sent, Sent, Ready], direct = [60, 0], late = [119], sends = 3\<rparr>"

lemma crowded_reachable: "reachable notify_start notify_step crowded"
proof (rule reachable_run [OF _ waiting_reachable])
  let ?a = "waiting\<lparr>clock := 60\<rparr>"
  let ?b = "?a\<lparr>thread_count := 3, last_notify := 60, direct := [60, 0], threads := [Sending, Sleeping 119, Sending]\<rparr>"
  let ?c = "?b\<lparr>clock := 119\<rparr>"
  let ?d = "?c\<lparr>last_chance := 0, late := [119], threads := [Sending, Sending, Sending]\<rparr>"
  let ?e = "?d\<lparr>sends := 1, threads := [Sent, Sending, Sending]\<rparr>"
  let ?f = "?d\<lparr>sends := 2, threads := [Sent, Sent, Sending]\<rparr>"
  let ?g = "?d\<lparr>sends := 3, threads := [Sent, Sent, Sent]\<rparr>"
  have "notify_step waiting ?a" using tick [of waiting 60] by (simp add: waiting_def)
  moreover have "notify_step ?a ?b"
    using enter [of 2 ?a True "''1''"] by (simp add: waiting_def notify_enter_def limits goto_def)
  moreover have "notify_step ?b ?c" using tick [of ?b 119] by (simp add: waiting_def)
  moreover have "notify_step ?c ?d" using wake [of 1 ?c 119] by (simp add: waiting_def notify_wake_def goto_def)
  moreover have "notify_step ?d ?e" using send [of 0 ?d] by (simp add: waiting_def goto_def)
  moreover have "notify_step ?e ?f" using send [of 1 ?e] by (simp add: waiting_def goto_def numeral_2_eq_2)
  moreover have "notify_step ?f ?g" using send [of 2 ?f] by (simp add: waiting_def goto_def numeral_3_eq_3)
  moreover have "notify_step ?g crowded" using create [of ?g] by (simp add: waiting_def crowded_def)
  ultimately show "notify_step\<^sup>*\<^sup>* waiting crowded"
    by (meson notify_runI rtranclp.rtrancl_refl)
qed

lemma notify_event_lost:
  "reachable notify_start notify_step crowded \<and>
   threads (notify_enter True ''1'' 3 crowded) = [Sent, Sent, Sent, Gone] \<and> sends (notify_enter True ''1'' 3 crowded) = 3"
  using crowded_reachable by (simp add: crowded_def notify_enter_def limits goto_def)

text \<open>
  The minimal wait is not kept between the two kinds: the thread that slept does not store the time
  in \<open>last_notify\<close>, so another one may be let through in the same second.
\<close>

lemma notify_gap_not_kept:
  "\<exists>s. reachable notify_start notify_step s \<and> 119 \<in> set (direct s) \<and> 119 \<in> set (late s)"
proof -
  let ?a = "waiting\<lparr>clock := 119\<rparr>"
  have "notify_step waiting ?a" using tick [of waiting 119] by (simp add: waiting_def)
  moreover have "notify_step ?a (notify_wake 1 ?a)" by (rule wake [where w = 119]) (simp_all add: waiting_def)
  moreover have "notify_step (notify_wake 1 ?a) (notify_enter True ''1'' 2 (notify_wake 1 ?a))"
    by (rule enter) (simp_all add: waiting_def notify_wake_def)
  ultimately have "reachable notify_start notify_step (notify_enter True ''1'' 2 (notify_wake 1 ?a))"
    using waiting_reachable by (meson reachable.more)
  then show ?thesis
    by (intro exI [of _ "notify_enter True ''1'' 2 (notify_wake 1 ?a)"])
      (simp add: waiting_def notify_wake_def notify_enter_def limits goto_def)
qed

end
