(* ===== verification/Copy.thy ===== *)
theory Copy
  imports Crashdir
begin

text \<open>
  The part of crashlog/fsutils.c that copies files: whole files, their heads and tails, files in
  UTF-16, whole directories and rotated logs. An interrupted \<open>read\<close> or \<open>write\<close> is repeated by
  \<open>do_read\<close> and \<open>do_write\<close> and does not show in the model. A source is read after its destination
  has been truncated, as in the code, which matters when they are the same file.
\<close>

section \<open>Copying to the end\<close>

text \<open>\<open>read\<close> of at most \<open>n\<close> bytes: the bytes, or none on an error. A short read gives at least one byte.\<close>

definition read_chunk :: "nat \<Rightarrow> string \<Rightarrow> ('w, string option) op" where
  "read_chunk n rest = do {
     f \<leftarrow> syscall;
     (case f of
        Fails e \<Rightarrow> do { set_errno e; ret None }
      | Short k \<Rightarrow> ret (Some (take (min n (max 1 k)) rest))
      | Works \<Rightarrow> ret (Some (take n rest))) }"

text \<open>
  The copy loop; \<open>conv\<close> is what is done to a chunk before it is written. The result is \<open>rc\<close> and
  the last \<open>w_count\<close>. Every turn consumes a byte, so one more turn than bytes is enough.
\<close>

fun copy_loop :: "nat \<Rightarrow> (string \<Rightarrow> string) \<Rightarrow> string \<Rightarrow> string \<Rightarrow> int \<Rightarrow> ('w, int \<times> int) op" where
  "copy_loop 0 conv des rest w_count = ret (0, w_count)"
| "copy_loop (Suc n) conv des rest w_count = do {
     c \<leftarrow> read_chunk CPBUFFERSIZE rest;
     (case c of
        None \<Rightarrow> ret (-1, w_count)
      | Some chunk \<Rightarrow>
          if chunk = [] then ret (0, w_count)
          else do {
            w \<leftarrow> write_end des (conv chunk);
            e \<leftarrow> gets errno;
            let w' = (if w < 0 then - e else w);
            if w' < 0 \<or> w' \<noteq> int (length (conv chunk)) then ret (-1, w')
            else copy_loop n conv des (drop (length chunk) rest) w' }) }"

definition copy_with :: "(string \<Rightarrow> string) \<Rightarrow> string \<Rightarrow> string \<Rightarrow> ('w, int) dop" where
  "copy_with conv src des = do {
     rest \<leftarrow> gets (\<lambda>s. content s src);
     (rc, w_count) \<leftarrow> copy_loop (Suc (length rest)) conv des rest 0;
     (if rc = -1 \<and> w_count = - ENOSPC then do {
        full \<leftarrow> check_partlogfull des;
        (if full \<noteq> 0 then do { _ \<leftarrow> raise_infoerror ''ERROR'' CRASHLOG_ERROR_FULL; ret () } else ret ()) }
      else ret ());
     _ \<leftarrow> chown_log des;
     ret rc }"

text \<open>\<open>stat\<close>, \<open>open\<close> of the source and \<open>open\<close> of the destination: the code to return, if any.\<close>

definition open_both :: "string \<Rightarrow> string \<Rightarrow> ('w, int option) op" where
  "open_both src des = do {
     ex \<leftarrow> gets (file_exists src);
     if \<not> ex then do { set_errno ENOENT; ret (Some (- ENOENT)) }
     else do {
       fd1 \<leftarrow> open_read src;
       if fd1 = None then do { e \<leftarrow> gets errno; ret (Some (- e)) }
       else do {
         fd2 \<leftarrow> open_trunc des;
         if \<not> fd2 then do { e \<leftarrow> gets errno; ret (Some (- e)) } else ret None } } }"

definition do_copy_eof :: "string option \<Rightarrow> string option \<Rightarrow> ('w, int) dop" where
  "do_copy_eof src des =
     (case (src, des) of
        (Some a, Some b) \<Rightarrow> do {
          stop \<leftarrow> open_both a b;
          (case stop of Some c \<Rightarrow> ret c | None \<Rightarrow> copy_with (\<lambda>x. x) a b) }
      | _ \<Rightarrow> ret (- EINVAL))"

text \<open>Every other byte of a chunk, starting with the first.\<close>

fun evens :: "'a list \<Rightarrow> 'a list" where
  "evens [] = []"
| "evens [x] = [x]"
| "evens (x # y # zs) = x # evens zs"

definition do_copy_utf16_to_utf8 :: "string option \<Rightarrow> string option \<Rightarrow> ('w, int) dop" where
  "do_copy_utf16_to_utf8 src des =
     (case (src, des) of
        (Some a, Some b) \<Rightarrow> do {
          stop \<leftarrow> open_both a b;
          (case stop of Some c \<Rightarrow> ret (-1) | None \<Rightarrow> copy_with evens a b) }
      | _ \<Rightarrow> ret (-1))"

fun copy_entries :: "string \<Rightarrow> string \<Rightarrow> string list \<Rightarrow> ('w, int) dop" where
  "copy_entries srcdir dstdir [] = ret 0"
| "copy_entries srcdir dstdir (n # ns) = do {
     reg \<leftarrow> gets (\<lambda>s. is_file_at (fs s) (comps srcdir @ [n]));
     if \<not> reg then copy_entries srcdir dstdir ns
     else do {
       r \<leftarrow> do_copy_eof (Some (snprintf PATHMAX (srcdir @ ''/'' @ n))) (Some (snprintf PATHMAX (dstdir @ ''/'' @ n)));
       if r \<noteq> 0 then ret r else copy_entries srcdir dstdir ns } }"

definition do_copy_eof_dir :: "string option \<Rightarrow> string option \<Rightarrow> ('w, int) dop" where
  "do_copy_eof_dir srcdir dstdir =
     (case (srcdir, dstdir) of
        (Some a, Some b) \<Rightarrow> do {
          d \<leftarrow> sys_opendir a;
          (case d of
             None \<Rightarrow> do { e \<leftarrow> gets errno; ret (- e) }
           | Some names \<Rightarrow> copy_entries a b names) }
      | _ \<Rightarrow> ret (- EINVAL))"

section \<open>Heads and tails\<close>

text \<open>\<open>sendfile\<close> and what follows it in \<open>do_copy\<close> and \<open>do_copy_tail\<close>.\<close>

definition send_part :: "string \<Rightarrow> string \<Rightarrow> int \<Rightarrow> ('w, int) dop" where
  "send_part dest part limit = do {
     rc \<leftarrow> write_end dest part;
     (if rc \<noteq> -1 \<and> rc \<noteq> limit then do {
        full \<leftarrow> check_partlogfull dest;
        (if full \<noteq> 0 then do { _ \<leftarrow> raise_infoerror ''ERROR'' CRASHLOG_ERROR_FULL; ret () } else ret ()) }
      else ret ());
     _ \<leftarrow> chown_log dest;
     ret rc }"

definition part_of :: "string \<Rightarrow> nat \<Rightarrow> int \<Rightarrow> string" where
  "part_of d off limit = (if limit < 0 then drop off d else take (nat limit) (drop off d))"

definition do_copy_tail :: "string option \<Rightarrow> string option \<Rightarrow> int \<Rightarrow> ('w, int) dop" where
  "do_copy_tail src dest limit0 =
     (case (src, dest) of
        (Some a, Some b) \<Rightarrow> do {
          st_size \<leftarrow> gets (\<lambda>s. int (length (content s a)));
          stop \<leftarrow> open_both a b;
          (case stop of
             Some c \<Rightarrow> ret c
           | None \<Rightarrow> do {
               let limit = (if limit0 = 0 \<or> st_size < limit0 then to_int32 st_size else limit0);
               let offset = (if st_size > limit then st_size - limit else 0);
               d \<leftarrow> gets (\<lambda>s. content s a);
               send_part b (part_of d (nat offset) limit) limit }) }
      | _ \<Rightarrow> ret (- EINVAL))"

definition do_copy :: "string option \<Rightarrow> string option \<Rightarrow> int \<Rightarrow> ('w, int) dop" where
  "do_copy src dest limit0 =
     (case (src, dest) of
        (Some a, Some b) \<Rightarrow> do {
          st_size \<leftarrow> gets (\<lambda>s. int (length (content s a)));
          stop \<leftarrow> open_both a b;
          (case stop of
             Some c \<Rightarrow> ret c
           | None \<Rightarrow>
               if limit0 = 0 then do { _ \<leftarrow> chown_log b; ret 0 }
               else do {
                 let limit = (if st_size \<le> limit0 then to_int32 st_size else limit0);
                 d \<leftarrow> gets (\<lambda>s. content s a);
                 send_part b (part_of d 0 limit) limit }) }
      | _ \<Rightarrow> ret (- EINVAL))"

section \<open>Rotated logs\<close>

text \<open>\<open>%.*d\<close> of a positive number.\<close>

definition fmt_prec :: "nat \<Rightarrow> nat \<Rightarrow> string" where
  "fmt_prec w n = pad_left (CHR ''0'') w (show_nat n)"

text \<open>
  \<open>do_copy_circular\<close>: the loop ends when the limit is used up or a file is missing. The fuel is one
  more than the number of files; paths that fit their buffers are different for each index, so
  some index has no file.
\<close>

fun circular_loop :: "nat \<Rightarrow> string \<Rightarrow> string \<Rightarrow> string \<Rightarrow> string \<Rightarrow> nat \<Rightarrow> nat \<Rightarrow> int \<Rightarrow> int \<Rightarrow> ('w, int) dop" where
  "circular_loop 0 path dest extension extra cnt_len index limit rc = ret rc"
| "circular_loop (Suc n) path dest extension extra cnt_len index limit rc =
     (if limit = 0 then ret rc
      else do {
        r \<leftarrow> do_copy_tail (Some (snprintf PATHMAX (path @ ''.'' @ fmt_prec cnt_len index @ extension)))
               (Some (snprintf PATHMAX (dest @ extra @ ''.'' @ fmt_prec cnt_len index @ extension))) limit;
        if r < 0 then ret r
        else circular_loop n path dest extension extra cnt_len (Suc index) (limit - r) r })"

definition do_copy_circular :: "string \<Rightarrow> string \<Rightarrow> string \<Rightarrow> string \<Rightarrow> int \<Rightarrow> nat \<Rightarrow> nat \<Rightarrow> ('w, int) dop" where
  "do_copy_circular src destination extension extra limit start_index cnt_len =
     (case strrchr src (CHR ''/'') of
        None \<Rightarrow> if limit = 0 then ret 0 else do { effect (BadRead ''do_copy_circular''); ret 0 }
      | Some slash \<Rightarrow>
          if limit = 0 then ret 0
          else do {
            let path = snprintf PATHMAX src;
            let dest = snprintf PATHMAX (destination @ ''/'' @ tl slash);
            fuel \<leftarrow> gets (\<lambda>s. Suc (length (fs s)));
            if start_index = 0 then do {
              ex \<leftarrow> gets (file_exists src);
              r \<leftarrow> do_copy_tail (Some (if ex then path else snprintf PATHMAX (path @ extension)))
                     (Some (snprintf PATHMAX (dest @ extra @ extension))) limit;
              if r < 0 then ret r
              else circular_loop fuel path dest extension extra cnt_len 1 (limit - r) r }
            else circular_loop fuel path dest extension extra cnt_len start_index limit 0 })"

section \<open>One log\<close>

datatype match_mode = MATCH_EXACT | MATCH_PATTERN

definition copy_log :: "string \<Rightarrow> string \<Rightarrow> match_mode \<Rightarrow> string \<Rightarrow> string \<Rightarrow> bool \<Rightarrow> ('w, int) dop" where
  "copy_log src_dir src_file mt dst_dir dst_file to_utf8 = do {
     src \<leftarrow>
       (if mt = MATCH_EXACT then do {
          let p = snprintf PATHMAX (src_dir @ ''/'' @ src_file);
          ex \<leftarrow> gets (file_exists p);
          ret (if ex then Some p else None) }
        else do {
          (r, base) \<leftarrow> find_matching_file (Some src_dir) (Some src_file) True;
          ret (if r \<noteq> 1 then None else map_option (\<lambda>b. snprintf PATHMAX (src_dir @ ''/'' @ b)) base) });
     (case src of
        None \<Rightarrow> ret (-1)
      | Some p \<Rightarrow> do {
          let dst = snprintf PATHMAX (dst_dir @ ''/'' @ dst_file);
          _ \<leftarrow> (if to_utf8 then do_copy_utf16_to_utf8 (Some p) (Some dst) else do_copy_eof (Some p) (Some dst));
          ret 0 }) }"

text \<open>\<open>dirname\<close> and \<open>basename\<close> of a path without trailing slashes.\<close>

definition dirname :: "string \<Rightarrow> string" where
  "dirname p =
     (case strrchr p (CHR ''/'') of
        None \<Rightarrow> ''.''
      | Some t \<Rightarrow> if length t = length p then ''/'' else take (length p - length t) p)"

definition basename :: "string \<Rightarrow> string" where
  "basename p = (case strrchr p (CHR ''/'') of None \<Rightarrow> p | Some t \<Rightarrow> tl t)"

definition copy_log_simple :: "string \<Rightarrow> string \<Rightarrow> ('w, int) dop" where
  "copy_log_simple src dst_dir =
     (let src1 = snprintf PATHMAX src
      in copy_log (dirname src1) (basename src1) MATCH_EXACT dst_dir (basename src1) False)"

section \<open>A copy that reports success is complete\<close>

lemma read_chunk_cases:
  assumes "run_state (read_chunk n rest) s = (r, t)" "0 < n"
  shows "quiet s t" "r = Some c \<Longrightarrow> \<exists>k. c = take k rest \<and> 0 < k"
    "reliable s \<Longrightarrow> r = Some (take n rest)"
proof -
  show "quiet s t" using assms by (auto simp: read_chunk_def split: fault.splits)
  have m: "0 < min n (max 1 k)" for k using assms(2) by simp
  show "\<exists>k. c = take k rest \<and> 0 < k" if "r = Some c"
    using assms that m by (auto simp: read_chunk_def split: fault.splits)
  show "reliable s \<Longrightarrow> r = Some (take n rest)" using assms by (auto simp: read_chunk_def)
qed

lemma write_end_cases:
  assumes "run_state (write_end p d) s = (w, t)"
  shows "w = int (length d) \<Longrightarrow> d \<noteq> [] \<Longrightarrow> \<exists>u. quiet s u \<and> t = put p (File (content s p @ d)) u"
  using assms
  by (cases "fault s (calls s)")
     (auto simp: write_end_def write_at_def Let_def min_def split: if_splits intro!: exI [of _ "s\<lparr>calls := Suc (calls s)\<rparr>"])

lemma write_end_error:
  "run_state (write_end p d) s = (w, t) \<Longrightarrow> w < 0 \<Longrightarrow> sane_faults s \<Longrightarrow> 0 < errno t"
  by (cases "fault s (calls s)") (auto simp: write_end_def write_at_def Let_def sane_faults_def)

text \<open>The chunks the loop reads make up the source, and what it wrote is their conversion.\<close>

lemma copy_loop_complete:
  assumes "run_state (copy_loop n conv des rest w0) s = ((0, w), t)" "length rest < n" "\<And>c. c \<noteq> [] \<Longrightarrow> conv c \<noteq> []" "sane_faults s"
  shows "\<exists>cs. rest = concat cs \<and> content t des = content s des @ concat (map conv cs) \<and> fsonly s t \<and>
    (\<forall>q. comps q \<noteq> comps des \<longrightarrow> node_at t q = node_at s q)"
  using assms(1,2,4)
proof (induction n arbitrary: rest w0 s)
  case (Suc n)
  obtain r u where c: "run_state (read_chunk CPBUFFERSIZE rest) s = (r, u)" by fastforce
  have pos: "0 < CPBUFFERSIZE" by (simp add: privconst)
  note C = read_chunk_cases [OF c pos]
  show ?case
  proof (cases r)
    case None
    with Suc.prems c show ?thesis by simp
  next
    case (Some chunk)
    then obtain k where k: "chunk = take k rest" "0 < k" using C(2) by blast
    show ?thesis
    proof (cases "chunk = []")
      case True
      with k have "rest = []" by (cases rest) auto
      with True Some Suc.prems c quiet_fsonly [OF C(1)] quiet_fields(9,10) [OF C(1)] show ?thesis
        by (auto intro!: exI [of _ "[]"])
    next
      case False
      obtain w1 v where w: "run_state (write_end des (conv chunk)) u = (w1, v)" by fastforce
      have su: "sane_faults u" using Suc.prems(3) quiet_fields(8) [OF C(1)] by simp
      have n: "w1 = int (length (conv chunk))" and
        rec: "run_state (copy_loop n conv des (drop (length chunk) rest) w1) v = ((0, w), t)"
        using Suc.prems(1) c w Some False write_end_error [OF w _ su] by (auto simp: Let_def split: if_splits)
      obtain x where x: "quiet u x" "v = put des (File (content u des @ conv chunk)) x"
        using write_end_cases [OF w n] assms(3) [OF False] by blast
      have "0 < length chunk" "length chunk \<le> length rest" using False k by simp_all
      then have "length rest - length chunk < n" using Suc.prems(2) by linarith
      then have "length (drop (length chunk) rest) < n" by (simp only: length_drop)
      moreover have "sane_faults v"
        using su fsonly_fields(7) [OF write_end_fsonly [OF w]] by simp
      ultimately obtain cs where cs: "drop (length chunk) rest = concat cs"
        "content t des = content v des @ concat (map conv cs)" "fsonly v t"
        "\<forall>q. comps q \<noteq> comps des \<longrightarrow> node_at t q = node_at v q" using Suc.IH [OF rec] by blast
      have "rest = concat (chunk # cs)" using cs(1) k(1) by (metis append_take_drop_id append_eq_conv_conj concat.simps(2))
      moreover have "content t des = content s des @ concat (map conv (chunk # cs))"
        using cs(2) x quiet_fields(10) [OF C(1)] by simp
      moreover have "fsonly s t"
        using cs(3) x quiet_fsonly [OF C(1)] quiet_fsonly [OF x(1)] by (blast intro: fsonly_trans fsonly_put)
      moreover have "\<forall>q. comps q \<noteq> comps des \<longrightarrow> node_at t q = node_at s q"
        using cs(4) x quiet_fields(9) [OF C(1)] quiet_fields(9) [OF x(1)] by simp
      ultimately show ?thesis by blast
    qed
  qed
qed simp

lemma open_both_cases:
  assumes "run_state (open_both a b) s = (None, u)"
  shows "\<exists>d v. node_at s a = Some (File d) \<and> quiet s v \<and> u = put b (File []) v"
proof -
  obtain fd1 s1 where o: "run_state (open_read a) s = (fd1, s1)" by fastforce
  obtain fd2 s2 where o2: "run_state (open_trunc b) s1 = (fd2, s2)" by fastforce
  from assms o o2 have e: "fd1 \<noteq> None" "fd2" "u = s2" by (auto simp: open_both_def split: if_splits)
  have q: "quiet s s1" "\<exists>d. node_at s a = Some (File d)"
    by (rule open_read_cases [of a s]; use o e in auto)+
  have "\<exists>v. quiet s1 v \<and> s2 = put b (File []) v"
    using o2 e(2) by (cases "fault s1 (calls s1)")
      (auto simp: open_trunc_def split: if_splits intro!: exI [of _ "s1\<lparr>calls := Suc (calls s1)\<rparr>"])
  with q e(3) show ?thesis by (metis quiet_trans)
qed

lemma open_both_error:
  assumes "run_state (open_both a b) s = (Some c, u)" "sane_faults s"
  shows "c < 0"
proof -
  obtain fd1 s1 where o: "run_state (open_read a) s = (fd1, s1)" by fastforce
  obtain fd2 s2 where o2: "run_state (open_trunc b) s1 = (fd2, s2)" by fastforce
  have 1: "fd1 = None \<longrightarrow> 0 < errno s1" "sane_faults s1"
    by (rule open_read_cases [of a s]; use o assms(2) quiet_fields(8) in auto)+
  have 2: "\<not> fd2 \<longrightarrow> 0 < errno s2"
    by (rule open_trunc_cases [of b s1]) (use o2 1 in auto)
  show ?thesis
    using assms(1) o o2 1 2 by (auto simp: open_both_def errno_defs split: if_splits)
qed

lemma copy_with_complete:
  assumes "run_state (copy_with conv a b) s = (0, t)" "\<And>c. c \<noteq> [] \<Longrightarrow> conv c \<noteq> []" "content s b = []"
    and "sane_faults s"
  shows "\<exists>cs. content s a = concat cs \<and> content t b = concat (map conv cs)"
proof -
  let ?d = "content s a"
  obtain rc w u where l: "run_state (copy_loop (Suc (length ?d)) conv b ?d 0) s = ((rc, w), u)" by (metis prod.exhaust)
  have rc: "rc = 0" using assms(1) l by (auto simp: copy_with_def simp del: copy_loop.simps split: if_splits prod.splits)
  with l obtain cs where cs: "?d = concat cs" "content u b = content s b @ concat (map conv cs)"
    using copy_loop_complete [of _ conv b ?d 0 s w u] assms(2,4) by blast
  obtain x v where ch: "run_state (chown_log b) u = (x, v)" by fastforce
  have "t = v" using assms(1) l rc ch by (simp add: copy_with_def del: copy_loop.simps)
  then have "content t b = content u b" using quiet_fields(10) [OF do_chown_quiet [OF ch]] by simp
  with cs assms(3) show ?thesis by auto
qed

text \<open>
  C8. A copy that reports success is complete: whatever reads and writes fail or are cut short,
  if \<open>do_copy_eof\<close> returns 0 then the source was a file and the destination now holds exactly its
  content, provided they are different files.
\<close>

theorem do_copy_eof_complete:
  assumes "run_state (do_copy_eof (Some a) (Some b)) s = (0, t)" and "sane_faults s" and "comps a \<noteq> comps b"
  shows "node_at s a = Some (File (content s a)) \<and> content t b = content s a"
proof -
  obtain stop u where o: "run_state (open_both a b) s = (stop, u)" by fastforce
  have "stop = None" using assms(1,2) o open_both_error [of a b s] by (cases stop) (auto simp: do_copy_eof_def)
  with o obtain d v where u: "node_at s a = Some (File d)" "quiet s v" "u = put b (File []) v"
    using open_both_cases by blast
  have c: "content u a = content s a" "content u b = []"
    using u assms(3) quiet_fields(10) [OF u(2)] by (simp_all add: content_def)
  have "run_state (copy_with (\<lambda>x. x) a b) u = (0, t)"
    using assms(1) o \<open>stop = None\<close> by (simp add: do_copy_eof_def)
  moreover have "sane_faults u" using assms(2) quiet_fields(8) [OF u(2)] u(3) by (simp add: sane_faults_def)
  ultimately show ?thesis using copy_with_complete [of "\<lambda>x. x" a b u t] c u(1) by (auto simp: content_def)
qed

lemma run_ex: "\<exists>r t. run_state m s = (r, t)"
  by (rule surj_pair)

text \<open>When nothing fails the copy does succeed.\<close>

lemma copy_loop_reliable:
  assumes "reliable s" "length rest < n" "\<And>c. c \<noteq> [] \<Longrightarrow> conv c \<noteq> []"
  shows "fst (fst (run_state (copy_loop n conv des rest w0) s)) = 0"
  using assms(1,2)
proof (induction n arbitrary: rest w0 s)
  case (Suc n)
  obtain r u where c: "run_state (read_chunk CPBUFFERSIZE rest) s = (r, u)" by fastforce
  have pos: "0 < CPBUFFERSIZE" by (simp add: privconst)
  note C = read_chunk_cases [OF c pos]
  have r: "r = Some (take CPBUFFERSIZE rest)" "reliable u" using C Suc.prems(1) quiet_fields(7) by blast+
  let ?c = "take CPBUFFERSIZE rest"
  let ?v = "put des (File (content u des @ conv ?c)) (u\<lparr>calls := Suc (calls u)\<rparr>)"
  show ?case
  proof (cases "rest = []")
    case False
    have "0 < length ?c" "length ?c \<le> length rest" using False pos by simp_all
    then have "length rest - length ?c < n" using Suc.prems(2) by linarith
    then have "length (drop (length ?c) rest) < n" by (simp only: length_drop)
    moreover have "reliable ?v" using r(2) by simp
    ultimately have "fst (fst (run_state (copy_loop n conv des (drop (length ?c) rest) (int (length (conv ?c)))) ?v)) = 0"
      by (intro Suc.IH)
    then show ?thesis using c r False pos by (simp add: write_end_reliable Let_def del: length_take)
  qed (use c r pos in simp)
qed simp

lemma open_both_reliable:
  assumes "reliable s" "node_at s a = Some (File d)" "comps b \<noteq> []" "node_at s b \<noteq> Some Dir" "is_dir (fs s) (butlast (comps b))"
  shows "run_state (open_both a b) s = (None, put b (File []) (s\<lparr>calls := Suc (Suc (calls s))\<rparr>))"
  using assms by (simp add: open_both_def file_exists_def open_read_File open_trunc_reliable)

theorem do_copy_eof_complete_witness:
  "\<exists>(s :: daemon) t. run_state (do_copy_eof (Some ''/a'') (Some ''/b'')) s = (0, t) \<and> sane_faults s \<and>
     content s ''/a'' = ''xyz'' \<and> content t ''/b'' = ''xyz''"
proof -
  let ?s = "sample_daemon (boot [([''a''], File ''xyz'')] (\<lambda>_. Works))"
  have f: "fs ?s = [([''a''], File ''xyz'')]" "fault ?s = (\<lambda>_. Works)"
    by (simp_all add: sample_daemon_def boot_def hist.extend_def daemon.fields_def)
  have c: "comps ''/a'' = [''a'']" "comps ''/b'' = [''b'']" by (simp_all add: comps_def)
  have n: "node_at ?s ''/a'' = Some (File ''xyz'')" "node_at ?s ''/b'' = None" "reliable ?s" "sane_faults ?s"
    by (simp_all add: node_at_def f c reliable_def sane_faults_def)
  let ?u = "put ''/b'' (File []) (?s\<lparr>calls := Suc (Suc (calls ?s))\<rparr>)"
  have o: "run_state (open_both ''/a'' ''/b'') ?s = (None, ?u)"
    using n f c by (intro open_both_reliable) (simp_all add: is_dir_def)
  have cu: "content ?u ''/a'' = ''xyz''" using n c by (simp add: content_def)
  obtain w v where l: "run_state (copy_loop (Suc (length (content ?u ''/a''))) (\<lambda>x. x) ''/b'' (content ?u ''/a'') 0) ?u = ((0, w), v)"
    using copy_loop_reliable [of ?u "content ?u ''/a''" "Suc (length (content ?u ''/a''))" "\<lambda>x. x" "''/b''" 0] n(3)
    by (auto simp del: copy_loop.simps) (metis prod.collapse)
  obtain x t where ch: "run_state (chown_log ''/b'') v = (x, t)" by fastforce
  have r: "run_state (do_copy_eof (Some ''/a'') (Some ''/b'')) ?s = (0, t)"
    using o l ch by (simp add: do_copy_eof_def copy_with_def del: copy_loop.simps)
  have "content ?s ''/a'' = ''xyz''" using n(1) by (simp add: content_def)
  with do_copy_eof_complete [OF r n(4)] c n(4) r show ?thesis by (intro exI [of _ ?s] exI [of _ t]) simp
qed

section \<open>Heads and tails when nothing fails\<close>

lemma send_part_reliable:
  assumes "reliable s" "node_at s b \<noteq> None"
  shows "\<exists>k. run_state (send_part b part (int (length part))) s =
    (int (length part), put b (File (content s b @ part)) (s\<lparr>calls := k\<rparr>))"
proof -
  let ?t = "put b (File (content s b @ part)) (s\<lparr>calls := Suc (calls s)\<rparr>)"
  obtain k where "run_state (chown_log b) ?t = (0, ?t\<lparr>calls := k\<rparr>)"
    using chown_log_reliable [of ?t b] assms(1) by auto
  then show ?thesis using assms(1) by (auto simp: send_part_def write_end_reliable)
qed

lemma part_of_exact: "0 \<le> limit \<Longrightarrow> off + nat limit \<le> length d \<Longrightarrow> length (part_of d off limit) = nat limit"
  by (simp add: part_of_def)

text \<open>
  Tails and heads: when no call fails, \<open>do_copy_tail\<close> writes the last \<open>limit\<close> bytes of the
  source (all of them for the limit 0) and \<open>do_copy\<close> the first \<open>limit\<close> bytes (none for the limit 0);
  both return the number of bytes written. Source and destination differ, the source is smaller
  than 2 GB and the limit is not negative.
\<close>

theorem copy_parts:
  assumes "reliable s" and "node_at s a = Some (File d)" and "comps b \<noteq> []" and "node_at s b \<noteq> Some Dir"
    and "is_dir (fs s) (butlast (comps b))" and "comps a \<noteq> comps b" and "length d < 2 ^ 31"
    and "0 \<le> limit" and "limit < 2 ^ 31"
  shows "(\<exists>t. run_state (do_copy_tail (Some a) (Some b) limit) s = (int (length (content t b)), t) \<and>
      content t b = (if limit = 0 then d else lastn (nat limit) d)) \<and>
    (\<exists>t. run_state (do_copy (Some a) (Some b) limit) s = (int (length (content t b)), t) \<and>
      content t b = take (nat limit) d)"
proof -
  let ?u = "put b (File []) (s\<lparr>calls := Suc (Suc (calls s))\<rparr>)"
  have o: "run_state (open_both a b) s = (None, ?u)" by (rule open_both_reliable [OF assms(1-5)])
  have u: "reliable ?u" "node_at ?u b \<noteq> None" "content ?u b = []" "content ?u a = d" "content s a = d"
    using assms by (simp_all add: content_def)
  have i32: "to_int32 (int (length d)) = int (length d)" using assms(7) by simp
  define lim where "lim = (if limit = 0 \<or> int (length d) < limit then int (length d) else limit)"
  define off where "off = nat (if int (length d) > lim then int (length d) - lim else 0)"
  have part: "part_of d off lim = (if limit = 0 then d else lastn (nat limit) d)"
    using assms(8) by (auto simp: part_of_def off_def lim_def lastn_def nat_diff_distrib)
  have len: "int (length (part_of d off lim)) = lim"
    unfolding part using assms(8) by (auto simp: lim_def)
  obtain k where k: "run_state (send_part b (part_of d off lim) lim) ?u = (lim, put b (File (part_of d off lim)) (?u\<lparr>calls := k\<rparr>))"
    using send_part_reliable [OF u(1,2), of "part_of d off lim"] len u(3) by auto
  have "run_state (do_copy_tail (Some a) (Some b) limit) s = run_state (send_part b (part_of d off lim) lim) ?u"
    unfolding do_copy_tail_def Let_def lim_def off_def using o u by (simp only: run_bind run_gets option.case prod.case i32)
  then have 1: "run_state (do_copy_tail (Some a) (Some b) limit) s = (lim, put b (File (part_of d off lim)) (?u\<lparr>calls := k\<rparr>))"
    using k by simp
  define hl where "hl = (if int (length d) \<le> limit then int (length d) else limit)"
  have hpart: "part_of d 0 hl = take (nat limit) d" "int (length (part_of d 0 hl)) = hl"
    using assms(8) by (auto simp: part_of_def hl_def)
  have 2: "\<exists>t. run_state (do_copy (Some a) (Some b) limit) s = (int (length (content t b)), t) \<and> content t b = take (nat limit) d"
  proof (cases "limit = 0")
    case True
    obtain j where "run_state (chown_log b) ?u = (0, ?u\<lparr>calls := j\<rparr>)" using chown_log_reliable [of ?u b] u(1) by auto
    with True o show ?thesis by (auto simp: do_copy_def)
  next
    case False
    obtain j where "run_state (send_part b (part_of d 0 hl) hl) ?u = (hl, put b (File (part_of d 0 hl)) (?u\<lparr>calls := j\<rparr>))"
      using send_part_reliable [OF u(1,2), of "part_of d 0 hl"] hpart(2) u(3) by auto
    moreover have "run_state (do_copy (Some a) (Some b) limit) s = run_state (send_part b (part_of d 0 hl) hl) ?u"
      unfolding do_copy_def Let_def hl_def using o u False by (simp only: run_bind run_gets option.case prod.case i32 if_False)
    ultimately have "run_state (do_copy (Some a) (Some b) limit) s = (hl, put b (File (part_of d 0 hl)) (?u\<lparr>calls := j\<rparr>))" by simp
    then show ?thesis using hpart by auto
  qed
  from 1 2 part len show ?thesis by auto
qed

theorem copy_parts_witness:
  "(\<exists>t. run_state (do_copy_tail (Some ''/a'') (Some ''/b'') 2)
      (sample_daemon (boot [([''a''], File ''xyz'')] (\<lambda>_. Works))) = (int (length (content t ''/b'')), t) \<and>
      content t ''/b'' = ''yz'') \<and>
   (\<exists>t. run_state (do_copy (Some ''/a'') (Some ''/b'') 2)
      (sample_daemon (boot [([''a''], File ''xyz'')] (\<lambda>_. Works))) = (int (length (content t ''/b'')), t) \<and>
      content t ''/b'' = ''xy'')"
proof -
  let ?s = "sample_daemon (boot [([''a''], File ''xyz'')] (\<lambda>_. Works))"
  have f: "fs ?s = [([''a''], File ''xyz'')]" "fault ?s = (\<lambda>_. Works)"
    by (simp_all add: sample_daemon_def boot_def hist.extend_def daemon.fields_def)
  have c: "comps ''/a'' = [''a'']" "comps ''/b'' = [''b'']" by (simp_all add: comps_def)
  have n: "node_at ?s ''/a'' = Some (File ''xyz'')" "node_at ?s ''/b'' \<noteq> Some Dir" "reliable ?s"
    by (simp_all add: node_at_def f c reliable_def)
  have "(if (2::int) = 0 then ''xyz'' else lastn (nat 2) ''xyz'') = ''yz''" "take (nat 2) ''xyz'' = ''xy''"
    by (simp_all add: lastn_def)
  with copy_parts [OF n(3,1) _ n(2), of 2] show ?thesis using f c by (simp add: is_dir_def)
qed

section \<open>Rotated logs end\<close>

lemma do_copy_tail_reliable:
  assumes "reliable s" "comps a \<noteq> comps b" "0 < limit" "limit < 2 ^ 31"
    and "run_state (do_copy_tail (Some a) (Some b) limit) s = (r, t)"
  shows "r < 0 \<or> (0 \<le> r \<and> r \<le> limit \<and> node_at s a \<noteq> None \<and> (\<exists>x k. t = put b (File x) (s\<lparr>calls := k\<rparr>)))"
proof -
  have sane: "sane_faults s" using assms(1) by (simp add: sane_faults_def)
  obtain stop u where o: "run_state (open_both a b) s = (stop, u)" by fastforce
  show ?thesis
  proof (cases stop)
    case (Some c)
    with open_both_error [OF _ sane] o assms(5) show ?thesis by (auto simp: do_copy_tail_def)
  next
    case None
    then obtain d v where d: "node_at s a = Some (File d)" "quiet s v" "u = put b (File []) v"
      using o open_both_cases by blast
    have "\<exists>k. u = put b (File []) (s\<lparr>calls := k\<rparr>)"
      using o None assms(1) d(1) by (auto simp: open_both_def file_exists_def open_read_File open_trunc_def split: if_splits)
    then obtain k where u: "u = put b (File []) (s\<lparr>calls := k\<rparr>)" by blast
    have c: "content u a = d" "content s a = d" "content u b = []" "reliable u" "node_at u b \<noteq> None"
      using d(1) assms(1,2) unfolding u by (simp_all add: content_def)
    define lim where "lim = (if limit = 0 \<or> int (length d) < limit then to_int32 (int (length d)) else limit)"
    define off where "off = nat (if int (length d) > lim then int (length d) - lim else 0)"
    have lim: "lim = min limit (int (length d))" using assms(3,4) by (auto simp: lim_def min_def)
    have len: "int (length (part_of d off lim)) = lim"
      using assms(3) unfolding lim by (auto simp: part_of_def off_def lim min_def)
    have "run_state (do_copy_tail (Some a) (Some b) limit) s = run_state (send_part b (part_of d off lim) lim) u"
      unfolding do_copy_tail_def Let_def lim_def off_def using o None c by (simp only: run_bind run_gets option.case prod.case)
    moreover obtain j where "run_state (send_part b (part_of d off lim) lim) u = (lim, put b (File (part_of d off lim)) (u\<lparr>calls := j\<rparr>))"
      using send_part_reliable [OF c(4,5), of "part_of d off lim"] len c(3) by auto
    ultimately show ?thesis
      using assms(3,5) d(1) u lim by auto
  qed
qed

lemma do_copy_tail_missing:
  "node_at s a = None \<Longrightarrow> comps a \<noteq> [] \<Longrightarrow> fst (run_state (do_copy_tail (Some a) (Some b) limit) s) < 0"
  by (simp add: do_copy_tail_def open_both_def file_exists_def errno_defs)

abbreviation rot_src :: "string \<Rightarrow> nat \<Rightarrow> string \<Rightarrow> nat \<Rightarrow> string" where
  "rot_src path w ext i \<equiv> snprintf PATHMAX (path @ ''.'' @ fmt_prec w i @ ext)"

abbreviation rot_dst :: "string \<Rightarrow> string \<Rightarrow> nat \<Rightarrow> string \<Rightarrow> nat \<Rightarrow> string" where
  "rot_dst dest extra w ext i \<equiv> snprintf PATHMAX (dest @ extra @ ''.'' @ fmt_prec w i @ ext)"

lemma circular_loop_stops:
  assumes "reliable s" "0 \<le> limit" "limit < 2 ^ 31" "m < n" "m < n'"
    and "node_at s (rot_src path w ext (index + m)) = None" "comps (rot_src path w ext (index + m)) \<noteq> []"
    and "\<And>i j. comps (rot_src path w ext i) \<noteq> comps (rot_dst dest extra w ext j)"
  shows "run_state (circular_loop n path dest ext extra w index limit rc) s =
    run_state (circular_loop n' path dest ext extra w index limit rc) s"
  using assms(1-7)
proof (induction m arbitrary: n n' index limit rc s)
  case 0
  then obtain k k' where k: "n = Suc k" "n' = Suc k'" by (metis gr0_implies_Suc)
  obtain r t where t: "run_state (do_copy_tail (Some (rot_src path w ext index)) (Some (rot_dst dest extra w ext index)) limit) s = (r, t)"
    by fastforce
  then have "r < 0" using do_copy_tail_missing [of s "rot_src path w ext index"] 0(6,7) by (metis add_0_right fst_conv)
  with t k show ?case by simp
next
  case (Suc m)
  then obtain k k' where k: "n = Suc k" "n' = Suc k'" "m < k" "m < k'" by (metis Suc_less_eq2)
  obtain r t where t: "run_state (do_copy_tail (Some (rot_src path w ext index)) (Some (rot_dst dest extra w ext index)) limit) s = (r, t)"
    by fastforce
  show ?case
  proof (cases "limit = 0 \<or> r < 0")
    case True
    then show ?thesis using t k by auto
  next
    case False
    then obtain x c where x: "0 \<le> r" "r \<le> limit" "t = put (rot_dst dest extra w ext index) (File x) (s\<lparr>calls := c\<rparr>)"
      using do_copy_tail_reliable [OF Suc.prems(1) assms(8) _ Suc.prems(3) t] Suc.prems(2) by auto
    have "node_at t (rot_src path w ext (Suc index + m)) = None"
      using Suc.prems(6) x(3) assms(8) [of "Suc index + m" index] by simp
    then have "run_state (circular_loop k path dest ext extra w (Suc index) (limit - r) r) t =
        run_state (circular_loop k' path dest ext extra w (Suc index) (limit - r) r) t"
      using Suc.prems(1,3,7) x k(3,4) by (intro Suc.IH) auto
    with False t k show ?thesis by simp
  qed
qed

lemma read_nat_zeros: "read_nat 0 (replicate k (CHR ''0'') @ s) = read_nat 0 s"
  by (induction k) (simp_all add: digit_val_def)

lemma fmt_prec_inj: "fmt_prec w i = fmt_prec w j \<Longrightarrow> i = j"
proof -
  have "read_nat 0 (fmt_prec w k) = k" for k by (simp add: fmt_prec_def pad_left_def read_nat_zeros)
  then show "fmt_prec w i = fmt_prec w j \<Longrightarrow> i = j" by metis
qed

lemma fmt_prec_no_slash: "CHR ''/'' \<notin> set (fmt_prec w i)"
  using show_nat_digits [of i] by (auto simp: fmt_prec_def pad_left_def isdigit_def)

text \<open>Among more names than there are files, one is free.\<close>

lemma free_name:
  fixes f :: "nat \<Rightarrow> string list"
  assumes "inj_on f {..length t}"
  shows "\<exists>m \<le> length t. f m \<notin> fst ` set t"
proof (rule ccontr)
  assume "\<not> ?thesis"
  then have "f ` {..length t} \<subseteq> fst ` set t" by auto
  then have "card (f ` {..length t}) \<le> card (fst ` set t)" by (intro card_mono) auto
  moreover have "card (fst ` set t) \<le> length t" by (metis card_length length_map set_map)
  ultimately show False using card_image [OF assms] by simp
qed

text \<open>
  C26. Copying rotated logs ends: when no call fails, the loop of \<open>do_copy_circular\<close> stops after at
  most one turn more than there are files, because some index has no file; more fuel changes
  nothing. The paths fit their buffers, and no copy is itself one of the rotated files.
\<close>

theorem circular_loop_terminates:
  assumes "reliable s" and "0 \<le> limit" and "limit < 2 ^ 31"
    and "path = dir @ ''/'' @ name" and "CHR ''/'' \<notin> set name" and "CHR ''/'' \<notin> set ext"
    and "\<And>i. i \<le> index + length (fs s) \<Longrightarrow> length (path @ ''.'' @ fmt_prec w i @ ext) < PATHMAX"
    and "\<And>i j. comps (rot_src path w ext i) \<noteq> comps (rot_dst dest extra w ext j)"
  shows "run_state (circular_loop (Suc (length (fs s)) + n) path dest ext extra w index limit rc) s =
    run_state (circular_loop (Suc (length (fs s))) path dest ext extra w index limit rc) s"
proof -
  let ?f = "\<lambda>m. comps (rot_src path w ext (index + m))"
  have f: "?f m = comps dir @ [name @ ''.'' @ fmt_prec w (index + m) @ ext]" if "m \<le> length (fs s)" for m
  proof -
    have "rot_src path w ext (index + m) = dir @ CHR ''/'' # (name @ ''.'' @ fmt_prec w (index + m) @ ext)"
      using assms(7) [of "index + m"] that assms(4) by simp
    moreover have "CHR ''/'' \<notin> set (name @ ''.'' @ fmt_prec w (index + m) @ ext)"
      using assms(5,6) fmt_prec_no_slash by auto
    ultimately show ?thesis by (metis comps_append comps_word Nil_is_append_conv list.discI)
  qed
  have "inj_on ?f {..length (fs s)}"
    by (intro inj_onI) (use f in \<open>auto dest: fmt_prec_inj\<close>)
  then obtain m where m: "m \<le> length (fs s)" "?f m \<notin> fst ` set (fs s)" using free_name by blast
  then have "node_at s (rot_src path w ext (index + m)) = None" by (metis map_of_eq_None_iff node_at_def)
  moreover have "?f m \<noteq> []" using f m(1) by simp
  ultimately show ?thesis using m(1) assms(1-3,8) by (intro circular_loop_stops [of s limit m]) auto
qed

theorem circular_loop_terminates_witness:
  "run_state (circular_loop (Suc 1 + 7) ''/l/aplog'' ''/d/aplog'' [] [] 1 1 10 0)
     (sample_daemon (boot [([''l'', ''aplog.1''], File ''xyz'')] (\<lambda>_. Works))) =
   run_state (circular_loop (Suc 1) ''/l/aplog'' ''/d/aplog'' [] [] 1 1 10 0)
     (sample_daemon (boot [([''l'', ''aplog.1''], File ''xyz'')] (\<lambda>_. Works)))"
proof -
  let ?s = "sample_daemon (boot [([''l'', ''aplog.1''], File ''xyz'')] (\<lambda>_. Works))"
  have f: "length (fs ?s) = 1" "fault ?s = (\<lambda>_. Works)"
    by (simp_all add: sample_daemon_def boot_def hist.extend_def daemon.fields_def)
  have l: "length (fmt_prec 1 i) \<le> 1" if "i \<le> 2" for i
    using that length_show_nat [of i 1] by (simp add: fmt_prec_def length_pad_left)
  have c: "comps (snprintf 512 (''/l/aplog'' @ x)) \<noteq> comps (snprintf 512 (''/d/aplog'' @ y))" for x y
  proof -
    have "snprintf 512 (''/l/aplog'' @ x) = ''/l'' @ CHR ''/'' # (''aplog'' @ take 503 x)"
      "snprintf 512 (''/d/aplog'' @ y) = ''/d'' @ CHR ''/'' # (''aplog'' @ take 503 y)" by (simp_all add: snprintf_def)
    moreover have "comps ''/l'' = [''l'']" "comps ''/d'' = [''d'']" by (simp_all add: comps_def)
    ultimately show ?thesis by (simp only: comps_append) simp
  qed
  have "run_state (circular_loop (Suc (length (fs ?s)) + 7) ''/l/aplog'' ''/d/aplog'' [] [] 1 1 10 0) ?s =
      run_state (circular_loop (Suc (length (fs ?s))) ''/l/aplog'' ''/d/aplog'' [] [] 1 1 10 0) ?s"
  proof (rule circular_loop_terminates [where dir = "''/l''" and name = "''aplog''"])
    show "reliable ?s" using f by (simp add: reliable_def)
    show "length (''/l/aplog'' @ ''.'' @ fmt_prec 1 i @ []) < PATHMAX" if "i \<le> 1 + length (fs ?s)" for i
      using l [of i] that f by (simp add: privconst)
    show "comps (rot_src ''/l/aplog'' 1 [] i) \<noteq> comps (rot_dst ''/d/aplog'' [] 1 [] j)" for i j
      using c [of "''.'' @ fmt_prec 1 i" "''.'' @ fmt_prec 1 j"] by (simp add: privconst)
  qed simp_all
  then show ?thesis unfolding f .
qed

end
