(* ===== verification/Runtime.thy ===== *)
theory Runtime
  imports Copy
begin

text \<open>
  The static variables of the event sources of the daemon (main.c, inotify_handler.c,
  config_handler.c, dropbox.c, watchdog.c and the rest of fsutils.c and utils.c), in one record, and
  the parts of fsutils.c that collect the application and baseband logs. The fields from
  \<open>child\<close> on are the surroundings: what a command does to the files, what the inotify
  descriptor delivers, and whether the build allows the SD card.
\<close>

section \<open>Running modes\<close>

datatype crashlog_mode = NOMINAL_MODE | RAMDUMP_MODE | MINIMAL_MODE

datatype event_type = LOST_TYPE | SYSSERVER_TYPE | ANR_TYPE | TOMBSTONE_TYPE | JAVATOMBSTONE_TYPE
  | JAVACRASH_TYPE | JAVACRASH_TYPE2 | APCORE_TYPE | HPROF_TYPE | STATTRIG_TYPE | INFOTRIG_TYPE
  | ERRORTRIG_TYPE | APLOGTRIG_TYPE | CMDTRIG_TYPE | BUILDID_TYPE | UPTIME_TYPE

datatype callback = Process_anruiwdt | Process_usercrash | Process_hprof | Process_stat
  | Process_info_and_error | Process_command | Process_apcore | Process_aplog | Process_lost
  | Process_uptime | Process_reset

record watch_entry =
  wd :: int
  eventmask :: "32 word"
  eventtype :: event_type
  inotify_error :: int
  eventname :: string
  eventpath :: string
  eventpattern :: "string option"
  pcallback :: "callback option"

record modem_entry =
  c_type :: int
  event_class :: int
  matching_pattern :: string
  c_eventname :: string
  c_path :: string
  path_linked :: string
  wd_config :: int

record runtime = daemon +
  g_crashlog_mode :: crashlog_mode
  logger_path :: "string option"
  flush_aplog_cmd :: "string option"
  flush_aplog_boot_cmd :: "string option"
  current_sd_size_limit :: int
  check_modem_version :: int
  collection_mode_modem :: int
  vmmtrap_root_path :: string
  modem_entries :: "modem_entry list"
  logsystemstate_available :: bool
  gcurrent_key :: "string list"
  index_prod :: nat
  index_cons :: nat
  previous_event_cookie :: "32 word"
  previous_filename :: string
  wd_array :: "watch_entry list"
  nominal_flag :: bool
  ipanic_generated :: bool
  current_panic_console_name :: string
  current_panic_header_name :: string
  current_proc_fabric_error_name :: string
  current_proc_offline_scu_log_name :: string
  current_kernel_cmdline :: string
  child :: "string \<Rightarrow> tree \<Rightarrow> tree"
  watches :: "(int \<times> string \<times> 32 word) list"
  next_wd :: int
  inotify_queue :: "string list"
  config_use_sd :: bool
  config_coredump :: bool
  modem_count :: nat

type_synonym ('w, 'a) rop = "('w runtime_scheme, 'a) state"

fun sd_storage :: "crashlog_mode \<Rightarrow> bool \<Rightarrow> bool" where
  "sd_storage NOMINAL_MODE use_sd = use_sd"
| "sd_storage RAMDUMP_MODE use_sd = False"
| "sd_storage MINIMAL_MODE use_sd = use_sd"

text \<open>The table \<open>watched_event_types\<close> of the modes; core dumps are watched when the build says so.\<close>

fun event_type_enabled :: "bool \<Rightarrow> crashlog_mode \<Rightarrow> event_type \<Rightarrow> bool" where
  "event_type_enabled coredump NOMINAL_MODE t \<longleftrightarrow> (t \<noteq> APCORE_TYPE \<and> t \<noteq> HPROF_TYPE) \<or> coredump"
| "event_type_enabled coredump RAMDUMP_MODE t \<longleftrightarrow> False"
| "event_type_enabled coredump MINIMAL_MODE t \<longleftrightarrow> t = STATTRIG_TYPE"

section \<open>Commands that write files\<close>

definition run_child :: "string \<Rightarrow> nat \<Rightarrow> ('w, int) rop" where
  "run_child cmd timeout = do {
     r \<leftarrow> run_command cmd timeout;
     modify (\<lambda>s. s\<lparr>fs := child s cmd (fs s)\<rparr>);
     ret r }"

definition LOGGER_PROP :: string where "LOGGER_PROP = ''ro.vendor.intel.logger''"
definition LOGGER_DEF_PATH :: string where "LOGGER_DEF_PATH = ''/system/bin/logcat''"
definition LOGGER_APLOG_PARAM :: string where "LOGGER_APLOG_PARAM = ''-b all -v threadtime -d -f''"

definition get_logger_path :: "('w, string) rop" where
  "get_logger_path = do {
     p \<leftarrow> gets logger_path;
     (case p of
        Some q \<Rightarrow> ret q
      | None \<Rightarrow> do {
          temp_path \<leftarrow> gets (\<lambda>s. prop_get s LOGGER_PROP LOGGER_DEF_PATH);
          q \<leftarrow> (if temp_path \<noteq> [] then do {
                  ok \<leftarrow> alloc;
                  ret (if ok then temp_path else LOGGER_DEF_PATH) }
                else ret LOGGER_DEF_PATH);
          modify (\<lambda>s. s\<lparr>logger_path := Some q\<rparr>);
          ret q }) }"

text \<open>Output of the process and of its children while it is redirected to the file \<open>p\<close>.\<close>

definition print_out :: "string \<Rightarrow> string \<Rightarrow> ('w, unit) op" where
  "print_out p d = do { _ \<leftarrow> write_end p d; ret () }"

definition command_out :: "string \<Rightarrow> string \<Rightarrow> nat \<Rightarrow> ('w, unit) dop" where
  "command_out p cmd timeout = do {
     _ \<leftarrow> run_command cmd timeout;
     d \<leftarrow> gets (\<lambda>s. cmd_output s (calls s));
     print_out p d }"

definition dump_system_information :: "string option \<Rightarrow> ('w, int) rop" where
  "dump_system_information filepath =
     (case filepath of
        None \<Rightarrow> ret (- EINVAL)
      | Some p \<Rightarrow> do {
          ok \<leftarrow> open_trunc p;
          if \<not> ok then do { e \<leftarrow> gets errno; ret (- e) }
          else do {
            print_out p (NL # NL # ''*** /system/bin/top -n 1 -d 1 ***'' @ [NL]);
            command_out p ''/system/bin/top -n 1 -d 1'' 15;
            print_out p (NL # NL # ''*** /system/xbin/procrank ***'' @ [NL]);
            command_out p ''/system/xbin/procrank'' 15;
            print_out p (NL # NL # ''*** cat /proc/meminfo ***'' @ [NL]);
            command_out p ''cat /proc/meminfo'' 15;
            l \<leftarrow> get_logger_path;
            mem \<leftarrow> alloc;
            (if \<not> mem then print_out p (NL # NL # ''Unable to prepare logger command'' @ [NL, NL])
             else do {
               print_out p (NL # NL # ''*** '' @ l @ '' -b all -d ***'' @ [NL]);
               command_out p (l @ '' -b all -d'') 45 });
            ret 0 } })"

section \<open>Application logs\<close>

definition APLOG_DIR :: string where "APLOG_DIR = LOGS_DIR @ ''/aplogs''"
definition APLOG_FILE_0 :: string where "APLOG_FILE_0 = APLOG_DIR @ ''/aplog''"
definition APLOG_FILE_BOOT :: string where "APLOG_FILE_BOOT = APLOG_DIR @ ''/aplog_boot''"
definition BPLOG_FILE_0 :: string where "BPLOG_FILE_0 = LOGS_DIR @ ''/bplog''"
definition BPLOG_FILE_EXT :: string where "BPLOG_FILE_EXT = ''.istp''"
definition PROP_APLOG_ROT_CNT :: string where "PROP_APLOG_ROT_CNT = ''persist.vendor.intel.logger.rot_cnt''"
definition MAXFILESIZE :: int where "MAXFILESIZE = 10 * 1024 * 1024"

text \<open>\<open>remove\<close> on a file: on a directory it calls \<open>rmdir\<close>.\<close>

definition c_remove :: "string \<Rightarrow> ('w, unit) op" where
  "c_remove p = do {
     d \<leftarrow> gets (directory_exists p);
     _ \<leftarrow> (if d then sys_rmdir p else sys_unlink p);
     ret () }"

datatype aplog_file = APLOG | APLOG_BOOT

definition logger_cmd :: "string \<Rightarrow> ('w, string option) rop" where
  "logger_cmd target = do {
     l \<leftarrow> get_logger_path;
     ok \<leftarrow> alloc;
     ret (if ok then Some (l @ '' '' @ LOGGER_APLOG_PARAM @ '' '' @ target) else None) }"

definition flush_aplog :: "aplog_file \<Rightarrow> string option \<Rightarrow> string option \<Rightarrow> string option \<Rightarrow> ('w, unit) rop" where
  "flush_aplog file mode dir ts =
     (case file of
        APLOG \<Rightarrow> do {
          old \<leftarrow> gets flush_aplog_cmd;
          c \<leftarrow> (if old = None then logger_cmd APLOG_FILE_0 else ret old);
          modify (\<lambda>s. s\<lparr>flush_aplog_cmd := c\<rparr>);
          (case c of
             None \<Rightarrow> ret ()
           | Some cmd \<Rightarrow> do {
               ex \<leftarrow> gets (file_exists APLOG_FILE_0);
               (if ex then c_remove APLOG_FILE_0 else ret ());
               _ \<leftarrow> run_child cmd 45;
               _ \<leftarrow> chown_log APLOG_FILE_0;
               ret () }) }
      | APLOG_BOOT \<Rightarrow>
          (case (mode, dir, ts) of
             (Some m, Some d, Some t) \<Rightarrow> do {
               old \<leftarrow> gets flush_aplog_boot_cmd;
               c \<leftarrow> (if old = None then logger_cmd APLOG_FILE_BOOT else ret old);
               modify (\<lambda>s. s\<lparr>flush_aplog_boot_cmd := c\<rparr>);
               (case c of
                  None \<Rightarrow> ret ()
                | Some cmd \<Rightarrow> do {
                    let log_boot_name = snprintf 511 (d @ ''/aplog_boot_'' @ m @ ''_'' @ t);
                    status \<leftarrow> run_child cmd 45;
                    if status \<noteq> 0 then ret ()
                    else do {
                      ex \<leftarrow> gets (file_exists APLOG_FILE_BOOT);
                      if ex then do {
                        _ \<leftarrow> do_copy (Some APLOG_FILE_BOOT) (Some log_boot_name) MAXFILESIZE;
                        c_remove APLOG_FILE_BOOT }
                      else ret () } }) }
           | _ \<Rightarrow> ret ()))"

section \<open>Baseband logs\<close>

definition mts_prop :: "nat \<Rightarrow> string \<Rightarrow> string" where
  "mts_prop i what = (if i = 0 then ''persist.vendor.service.mts.'' @ what
     else ''persist.vendor.sys.mts'' @ show_nat (i + 1) @ ''.'' @ what)"

definition get_bplog_file :: "nat \<Rightarrow> string \<Rightarrow> ('w, string) op" where
  "get_bplog_file modem_instance default_value = do {
     p \<leftarrow> gets (\<lambda>s. prop_get s (mts_prop modem_instance ''output'') []);
     ret (snprintf PATHMAX (if p \<noteq> [] then p else default_value)) }"

definition can_attach_bplog :: "nat \<Rightarrow> ('w, bool) op" where
  "can_attach_bplog inst = gets (\<lambda>s. prop_get s (mts_prop inst ''output_type'') ''f'' = ''f'')"

definition copy_bplogs :: "string \<Rightarrow> string \<Rightarrow> int \<Rightarrow> nat \<Rightarrow> nat \<Rightarrow> ('w, unit) dop" where
  "copy_bplogs extra dir limit inst start_index = do {
     can \<leftarrow> can_attach_bplog inst;
     if \<not> can then ret ()
     else do {
       logfile \<leftarrow> get_bplog_file inst BPLOG_FILE_0;
       _ \<leftarrow> do_copy_circular logfile dir BPLOG_FILE_EXT extra limit start_index 1;
       ret () } }"

definition copy_aplogs :: "string \<Rightarrow> string \<Rightarrow> int \<Rightarrow> nat \<Rightarrow> ('w, unit) rop" where
  "copy_aplogs extra dir limit start_index = do {
     flush_aplog APLOG None None None;
     cnt_len \<leftarrow> gets (\<lambda>s. length (prop_get s PROP_APLOG_ROT_CNT ''1''));
     _ \<leftarrow> do_copy_circular APLOG_FILE_0 dir [] extra limit start_index cnt_len;
     c_remove APLOG_FILE_0 }"

datatype log_type = APLOG_TYPE | BPLOG_TYPE | BPLOG_TYPE_OLD

definition COLLECT_BPLOG_CRASHING_MODEM :: int where "COLLECT_BPLOG_CRASHING_MODEM = 0"
definition COLLECT_BPLOG_CRASHING_ALL :: int where "COLLECT_BPLOG_CRASHING_ALL = 1"

fun bplogs_down :: "nat \<Rightarrow> string \<Rightarrow> string \<Rightarrow> int \<Rightarrow> nat \<Rightarrow> ('w, unit) dop" where
  "bplogs_down 0 tag dir limit start_index = ret ()"
| "bplogs_down (Suc n) tag dir limit start_index = do {
     copy_bplogs tag dir limit n start_index;
     bplogs_down n tag dir limit start_index }"

definition do_logs_copy :: "log_type \<Rightarrow> int \<Rightarrow> string \<Rightarrow> string option \<Rightarrow> int \<Rightarrow> ('w, unit) rop" where
  "do_logs_copy ty extra_param dir filename_tag limit = do {
     let tag = (case filename_tag of None \<Rightarrow> [] | Some t \<Rightarrow> t);
     (if ty = APLOG_TYPE then copy_aplogs tag dir limit 0 else ret ());
     if ty = APLOG_TYPE then ret ()
     else do {
       let start_index = (if ty = BPLOG_TYPE_OLD then 1 else 0);
       collection_mode \<leftarrow> gets collection_mode_modem;
       if extra_param < 0 \<or> collection_mode = COLLECT_BPLOG_CRASHING_ALL then do {
         n \<leftarrow> gets modem_count;
         bplogs_down n tag dir limit start_index }
       else if collection_mode = COLLECT_BPLOG_CRASHING_MODEM
       then copy_bplogs tag dir limit (nat extra_param) start_index
       else ret () } }"

definition do_log_copy :: "string \<Rightarrow> string \<Rightarrow> string \<Rightarrow> log_type \<Rightarrow> ('w, unit) rop" where
  "do_log_copy mode dir timestamp ty =
     do_logs_copy ty 0 dir (Some (snprintf PATHMAX (''_'' @ mode @ ''_'' @ timestamp))) MAXFILESIZE"

section \<open>The SD card\<close>

definition SDCARD_LOGS_DIR :: string where "SDCARD_LOGS_DIR = ''/mnt/sdcard/logs''"
definition SDSIZE_CURRENT_LOG :: string where "SDSIZE_CURRENT_LOG = LOGS_DIR @ ''/currentsdsize''"
definition SDSIZE_SYSTEM_CMD :: string where
  "SDSIZE_SYSTEM_CMD = ''du -sk '' @ SDCARD_LOGS_DIR @ ''/ > '' @ LOGS_DIR @ ''/currentsdsize''"

definition get_sd_size :: "('w, int) rop" where
  "get_sd_size = do {
     _ \<leftarrow> run_child SDSIZE_SYSTEM_CMD 15;
     fd \<leftarrow> open_read SDSIZE_CURRENT_LOG;
     (case fd of
        None \<Rightarrow> ret 0
      | Some d \<Rightarrow>
          (case fst (scanf [SNum None] d) of
             [w] \<Rightarrow> ret (strtol10 w)
           | _ \<Rightarrow> ret 0)) }"

definition sdcard_allowed :: "('w, bool) rop" where
  "sdcard_allowed = do {
     on \<leftarrow> gets (\<lambda>s. sd_storage (g_crashlog_mode s) (config_use_sd s));
     if \<not> on then ret False
     else do {
       n \<leftarrow> get_sd_size;
       limit \<leftarrow> gets current_sd_size_limit;
       ret (\<not> n > limit) } }"

section \<open>Short dates\<close>

text \<open>
  Both formats are filled from the same time; the short one, \<open>%Y%m%d%H%M%S\<close>, has the digits of the
  long one, \<open>%Y-%m-%d/%H:%M:%S\<close>.
\<close>

definition get_current_time_short :: "bool \<Rightarrow> ('w, string) hop" where
  "get_current_time_short refresh = do {
     v \<leftarrow> get_current_time_long refresh;
     ret (filter isdigit v) }"

section \<open>A concrete state\<close>

definition sample_runtime :: runtime where
  "sample_runtime = daemon.extend ready_daemon (runtime.fields NOMINAL_MODE None None None 0 0 0 [] [] False
     [[], []] 1 0 0 [] [] False False ''/proc/emmc_ipanic_console'' ''/proc/emmc_ipanic_header'' ''/proc/ipanic_fabric_err''
     ''/proc/offline_scu_log'' ''/proc/cmdline'' (\<lambda>_ t. t) [] 1 [] False False 0)"

lemma sample_runtime_fields [simp]:
  "fs sample_runtime = fs (sample_world [])" "fault sample_runtime = (\<lambda>_. Works)" "props sample_runtime = []"
  "effects sample_runtime = []"
  by (simp_all add: sample_runtime_def daemon.defs runtime.defs)

end
