(* ===== verification/Watchdog.thy ===== *)
theory Watchdog
  imports Runtime
begin

text \<open>
  The watchdog of the daemon (watchdog.c): a timer that fires every eighth of the timeout, a handler
  that counts the pulses since the last kick, starts a thread that saves the state of the system at
  the eighth pulse and kills the daemon at the sixteenth. \<open>armed\<close> is the period of the timer in
  seconds, 0 when it is disarmed; \<open>wd_threads\<close> counts the threads started and \<open>killed\<close> says whether
  the process has sent itself SIGKILL.
\<close>

record watchdog = runtime +
  crashlog_wd_timer :: bool
  crashlog_wd_timeout :: nat
  pulse :: nat
  armed :: nat
  wd_threads :: nat
  killed :: bool

type_synonym ('w, 'a) wop = "('w watchdog_scheme, 'a) state"

definition CRASHLOG_WD_TIMEOUT :: nat where "CRASHLOG_WD_TIMEOUT = 120"
definition CRASHLOG_WD_GRANULARITY :: nat where "CRASHLOG_WD_GRANULARITY = 8"

definition update_crashlog_watchdog_timeout :: "nat \<Rightarrow> ('w, int) wop" where
  "update_crashlog_watchdog_timeout timeout = do {
     t \<leftarrow> gets crashlog_wd_timer;
     if \<not> t then ret 0
     else do {
       f \<leftarrow> syscall;
       (case f of
          Works \<Rightarrow> do { modify (\<lambda>s. s\<lparr>armed := timeout\<rparr>); ret 1 }
        | _ \<Rightarrow> ret 0) } }"

definition stop_crashlog_watchdog :: "('w, unit) wop" where
  "stop_crashlog_watchdog = do { _ \<leftarrow> update_crashlog_watchdog_timeout 0; ret () }"

text \<open>The thread of the corrective action; \<open>CONFIG_BTDUMP\<close> is not defined.\<close>

definition process_crashlogwd_event :: "('w, unit) rop" where
  "process_crashlogwd_event = do {
     key \<leftarrow> generate_event_id (Some ''CRASHLOG_WATCHDOG'') None;
     dir \<leftarrow> generate_crashlog_dir MODE_CRASH key;
     (case dir of
        None \<Rightarrow> do {
          _ \<leftarrow> raise_event key (Some ''CRASH'') (Some ''CRASHLOG_WATCHDOG'') None None;
          _ \<leftarrow> get_current_time_long False;
          ret () }
      | Some d \<Rightarrow> do {
          _ \<leftarrow> dump_system_information (Some (snprintf PATHMAX (d @ ''/system_information.txt'')));
          _ \<leftarrow> raise_event key (Some ''CRASH'') (Some ''CRASHLOG_WATCHDOG'') None (Some d);
          _ \<leftarrow> get_current_time_long False;
          ret () }) }"

text \<open>
  The signal handler. \<open>pthread_create\<close> reports an error by a positive number, so the test for a
  negative one never holds: when the thread cannot be started nothing is done at that pulse.
\<close>

definition crashlog_wd_handler :: "('w, unit) wop" where
  "crashlog_wd_handler = do {
     t \<leftarrow> gets crashlog_wd_timer;
     if \<not> t then ret ()
     else do {
       modify (\<lambda>s. s\<lparr>pulse := pulse s + 1\<rparr>);
       stage \<leftarrow> gets pulse;
       if stage = CRASHLOG_WD_GRANULARITY then do {
         f \<leftarrow> syscall;
         (case f of
            Works \<Rightarrow> modify (\<lambda>s. s\<lparr>wd_threads := wd_threads s + 1\<rparr>)
          | _ \<Rightarrow> ret ()) }
       else if stage < 2 * CRASHLOG_WD_GRANULARITY then ret ()
       else do {
         stop_crashlog_watchdog;
         modify (\<lambda>s. s\<lparr>killed := True\<rparr>) } } }"

definition enable_watchdog :: "nat \<Rightarrow> ('w, int) wop" where
  "enable_watchdog timeout =
     (if timeout = 0 then ret (- EINVAL)
      else do {
        t \<leftarrow> gets crashlog_wd_timer;
        if t then ret (- EPERM)
        else do {
          modify (\<lambda>s. s\<lparr>pulse := 0, crashlog_wd_timeout := timeout div CRASHLOG_WD_GRANULARITY\<rparr>);
          ok \<leftarrow> alloc;
          if \<not> ok then ret (- ENOMEM)
          else do {
            modify (\<lambda>s. s\<lparr>crashlog_wd_timer := True\<rparr>);
            f \<leftarrow> syscall;
            if f \<noteq> Works then do { modify (\<lambda>s. s\<lparr>crashlog_wd_timer := False\<rparr>); ret (-1) }
            else do {
              g \<leftarrow> syscall;
              w \<leftarrow> gets crashlog_wd_timeout;
              r \<leftarrow> (if g = Works then update_crashlog_watchdog_timeout w else ret 0);
              if r \<noteq> 0 then ret 0
              else do { modify (\<lambda>s. s\<lparr>crashlog_wd_timer := False\<rparr>); ret (-1) } } } } })"

definition kick_watchdog :: "('w, unit) wop" where
  "kick_watchdog = do {
     modify (\<lambda>s. s\<lparr>pulse := 0\<rparr>);
     t \<leftarrow> gets crashlog_wd_timer;
     if t then do {
       w \<leftarrow> gets crashlog_wd_timeout;
       _ \<leftarrow> update_crashlog_watchdog_timeout w;
       ret () }
     else ret () }"

section \<open>The watchdog bites late and only when it is not kicked\<close>

text \<open>What the daemon and the timer do: the main loop kicks, an armed timer fires.\<close>

datatype wd_event = Kick | Fire

fun wd_run :: "wd_event list \<Rightarrow> ('w, unit) wop" where
  "wd_run [] = ret ()"
| "wd_run (e # es) = do {
     dead \<leftarrow> gets killed;
     if dead then ret ()
     else do {
       (case e of Kick \<Rightarrow> kick_watchdog | Fire \<Rightarrow> crashlog_wd_handler);
       wd_run es } }"

text \<open>The largest number of pulses between two kicks, when \<open>n\<close> have come already.\<close>

fun longest_wait :: "nat \<Rightarrow> wd_event list \<Rightarrow> nat" where
  "longest_wait n [] = n"
| "longest_wait n (Kick # es) = max n (longest_wait 0 es)"
| "longest_wait n (Fire # es) = longest_wait (Suc n) es"

lemma longest_wait_ge: "n \<le> longest_wait n es"
  by (induction n es rule: longest_wait.induct) auto

lemma kick_effect:
  assumes "run_state kick_watchdog s = (u, t)"
  shows "pulse t = 0" "crashlog_wd_timer t = crashlog_wd_timer s" "wd_threads t = wd_threads s" "killed t = killed s"
    and "reliable t = reliable s"
  using assms by (auto simp: kick_watchdog_def update_crashlog_watchdog_timeout_def reliable_def split: if_splits fault.splits)

lemma handler_effect:
  assumes "run_state crashlog_wd_handler s = (u, t)" "crashlog_wd_timer s"
  shows "pulse t = Suc (pulse s)" "crashlog_wd_timer t" "reliable t = reliable s"
    and "killed t \<longleftrightarrow> killed s \<or> 16 \<le> Suc (pulse s)"
    and "reliable s \<Longrightarrow> wd_threads t = wd_threads s + (if Suc (pulse s) = 8 then 1 else 0)"
  using assms
  by (auto simp: crashlog_wd_handler_def stop_crashlog_watchdog_def update_crashlog_watchdog_timeout_def
      CRASHLOG_WD_GRANULARITY_def reliable_def split: if_splits fault.splits)

lemma wd_run_dead: "killed s \<Longrightarrow> run_state (wd_run es) s = ((), s)"
  by (cases es) auto

lemma wd_run_effect:
  assumes "crashlog_wd_timer s" "reliable s" "killed s \<longleftrightarrow> 16 \<le> pulse s" "8 \<le> pulse s \<longrightarrow> 0 < wd_threads s"
    "run_state (wd_run es) s = (u, t)"
  shows "(killed t \<longleftrightarrow> 16 \<le> longest_wait (pulse s) es) \<and> (0 < wd_threads t \<longleftrightarrow> 0 < wd_threads s \<or> 8 \<le> longest_wait (pulse s) es)"
  using assms
proof (induction es arbitrary: s)
  case (Cons e es)
  show ?case
  proof (cases "killed s")
    case True
    then show ?thesis
      using Cons.prems wd_run_dead [OF True, of "e # es"] longest_wait_ge [of "pulse s" "e # es"] by auto
  next
    case False
    define m where "m = (case e of Kick \<Rightarrow> kick_watchdog | Fire \<Rightarrow> (crashlog_wd_handler :: ('a, unit) wop))"
    obtain v where v: "run_state m s = ((), v)" by (metis surj_pair unit.exhaust)
    then have rest: "run_state (wd_run es) v = (u, t)" using Cons.prems(5) False by (simp add: m_def)
    show ?thesis
    proof (cases e)
      case Kick
      then have k: "run_state kick_watchdog s = ((), v)" using v by (simp add: m_def)
      have "(killed t \<longleftrightarrow> 16 \<le> longest_wait 0 es) \<and> (0 < wd_threads t \<longleftrightarrow> 0 < wd_threads v \<or> 8 \<le> longest_wait 0 es)"
        using Cons.IH [OF _ _ _ _ rest] Cons.prems kick_effect [OF k] False by auto
      then show ?thesis using Cons.prems False kick_effect [OF k] Kick by (auto simp: le_max_iff_disj)
    next
      case Fire
      then have f: "run_state crashlog_wd_handler s = ((), v)" using v by (simp add: m_def)
      note h = handler_effect [OF f Cons.prems(1)]
      have "(killed t \<longleftrightarrow> 16 \<le> longest_wait (Suc (pulse s)) es) \<and> (0 < wd_threads t \<longleftrightarrow> 0 < wd_threads v \<or> 8 \<le> longest_wait (Suc (pulse s)) es)"
        using Cons.IH [OF _ _ _ _ rest] Cons.prems h False by auto
      then show ?thesis
        using Fire h(5) Cons.prems(2) longest_wait_ge [of "Suc (pulse s)" es] by auto
    qed
  qed
qed auto

lemma enable_effect:
  assumes "reliable s" "\<not> crashlog_wd_timer s" "0 < timeout"
  shows "\<exists>t. run_state (enable_watchdog timeout) s = (0, t) \<and> crashlog_wd_timer t \<and> pulse t = 0 \<and>
    armed t = timeout div 8 \<and> crashlog_wd_timeout t = timeout div 8 \<and> killed t = killed s \<and>
    wd_threads t = wd_threads s \<and> reliable t"
  using assms
  by (auto simp: enable_watchdog_def update_crashlog_watchdog_timeout_def alloc_def reliable_def CRASHLOG_WD_GRANULARITY_def)

text \<open>
  C34. The watchdog acts exactly when the daemon is stuck: once it is enabled, whatever kicks and
  pulses follow, the thread that saves the state of the system is started if and only if eight
  pulses pass without a kick, and the daemon kills itself if and only if sixteen do; with a timeout
  of at least eight seconds the timer is armed with an eighth of it.
\<close>

theorem watchdog_acts_when_stuck:
  assumes "reliable s" "\<not> crashlog_wd_timer s" "\<not> killed s" "wd_threads s = 0" "8 \<le> timeout"
    "run_state (enable_watchdog timeout) s = (r, t)" "run_state (wd_run es) t = (u, v)"
  shows "r = 0 \<and> 0 < armed t \<and> armed t = timeout div 8 \<and>
    (0 < wd_threads v \<longleftrightarrow> 8 \<le> longest_wait 0 es) \<and> (killed v \<longleftrightarrow> 16 \<le> longest_wait 0 es)"
  using enable_effect [OF assms(1,2), of timeout] wd_run_effect [of t es u v] assms(3-7)
  by (auto simp: div_greater_zero_iff)

text \<open>
  A timeout below eight seconds is accepted, but the period is rounded to 0, which disarms the timer:
  the watchdog is reported as enabled and never fires.
\<close>

lemma watchdog_short_timeout:
  assumes "reliable s" "\<not> crashlog_wd_timer s" "0 < timeout" "timeout < 8"
  shows "\<exists>t. run_state (enable_watchdog timeout) s = (0, t) \<and> armed t = 0"
  using enable_effect [OF assms(1-3)] assms(4) by auto

section \<open>A concrete run\<close>

definition wd_daemon :: watchdog where
  "wd_daemon = runtime.extend sample_runtime (watchdog.fields False 0 0 0 0 False)"

lemma wd_daemon_fields:
  "reliable wd_daemon" "\<not> crashlog_wd_timer wd_daemon" "\<not> killed wd_daemon" "wd_threads wd_daemon = 0"
  by (simp_all add: wd_daemon_def reliable_def runtime.defs watchdog.defs)

theorem watchdog_acts_when_stuck_witness:
  "killed (snd (run_state (wd_run (Kick # replicate 16 Fire)) (snd (run_state (enable_watchdog 120) wd_daemon))))"
proof -
  have "longest_wait 0 (Kick # replicate 16 Fire) = 16" by (simp add: numeral_eq_Suc)
  then show ?thesis
    using watchdog_acts_when_stuck [OF wd_daemon_fields, of 120, OF _ surjective_pairing surjective_pairing,
        of "Kick # replicate 16 Fire"] by (simp del: wd_run.simps longest_wait.simps)
qed

end
