(* ===== verification/Config_Handler.thy ===== *)
theory Config_Handler
  imports Runtime
begin

text \<open>
  The configuration of the daemon (config_handler.c): general settings, and the sections that
  describe events of the modem, kept as a list in the order they are read.
\<close>

definition CRASHLOG_CONF_PATH :: string where "CRASHLOG_CONF_PATH = ''/system/vendor/etc/crashlog.conf''"
definition VBCRASH_DIR_MASK :: "32 word" where "VBCRASH_DIR_MASK = 0xD08"

section \<open>Event configurations\<close>

fun get_generic_config :: "string \<Rightarrow> modem_entry list \<Rightarrow> modem_entry option" where
  "get_generic_config event_name [] = None"
| "get_generic_config event_name (c # cs) =
     (if contains event_name (matching_pattern c) then Some c else get_generic_config event_name cs)"

definition class_of :: "string \<Rightarrow> int" where
  "class_of v = (if v = ''CRASH'' then 0 else if v = ''ERROR'' then 1 else if v = ''INFO'' then 2 else 0)"

text \<open>
  \<open>store_config\<close> works on a copy of the handle. The path of an entry is not initialised when the
  section has no \<open>path_trigger\<close>.
\<close>

definition store_config :: "string \<Rightarrow> config_handle \<Rightarrow> ('w, unit) rop" where
  "store_config sect h0 =
     (case get_value_def sect ''module'' (Some ''UNDEFINED'') h0 of (module, h1) \<Rightarrow>
        if module \<noteq> Some ''modem'' then ret ()
        else do {
          ok0 \<leftarrow> alloc;
          if \<not> ok0 then ret ()
          else (case get_value sect ''eventname'' h1 of (ev, h2) \<Rightarrow>
            (case ev of
               None \<Rightarrow> ret ()
             | Some name \<Rightarrow> do {
                 ok1 \<leftarrow> alloc;
                 if \<not> ok1 then ret ()
                 else (case get_value sect ''matching_pattern'' h2 of (mp, h3) \<Rightarrow>
                   (case mp of
                      None \<Rightarrow> ret ()
                    | Some pat \<Rightarrow> do {
                        ok2 \<leftarrow> alloc;
                        if \<not> ok2 then ret ()
                        else (case get_value_def sect ''type'' (Some ''file'') h3 of (ty, h4) \<Rightarrow>
                          (case get_value sect ''path_trigger'' h4 of (pt, h5) \<Rightarrow>
                            (case get_value sect ''path_linked'' h5 of (pl, h6) \<Rightarrow>
                              (case get_value_def sect ''event_class'' (Some ''CRASH'') h6 of (ec, h7) \<Rightarrow> do {
                                 g \<leftarrow> gets garbage;
                                 modify (\<lambda>s. s\<lparr>modem_entries := modem_entries s @
                                   [\<lparr>c_type = (if ty = Some ''dir'' then 1 else 0),
                                     event_class = (case ec of None \<Rightarrow> 0 | Some v \<Rightarrow> class_of v),
                                     matching_pattern = pat,
                                     c_eventname = name,
                                     c_path = (case pt of None \<Rightarrow> g | Some p \<Rightarrow> snprintf PATHMAX p),
                                     path_linked = (case pl of None \<Rightarrow> [] | Some p \<Rightarrow> snprintf PATHMAX p),
                                     wd_config = 0\<rparr>]\<rparr>) })))) })) })) })"

text \<open>The loop over the sections of a pattern; it stops at the first one that lacks the key.\<close>

fun load_loop :: "nat \<Rightarrow> string \<Rightarrow> string \<Rightarrow> string option \<Rightarrow> config_handle \<Rightarrow> ('w, bool) rop" where
  "load_loop 0 section_pattern key_pattern cur h = ret False"
| "load_loop (Suc n) section_pattern key_pattern cur h =
     (case cur of
        None \<Rightarrow> ret True
      | Some name \<Rightarrow>
          (case sk_exists name key_pattern h of (e, h1) \<Rightarrow>
             if e = 0 then ret True
             else do {
               store_config name h1;
               (case get_next_section_name section_pattern h1 of (nx, h2) \<Rightarrow>
                  load_loop n section_pattern key_pattern nx h2) }))"

definition load_config_by_pattern :: "string \<Rightarrow> string \<Rightarrow> config_handle \<Rightarrow> ('w, bool) rop" where
  "load_config_by_pattern section_pattern key_pattern h =
     (case get_first_section_name section_pattern h of (cur, h1) \<Rightarrow>
        load_loop (Suc (length (first h))) section_pattern key_pattern cur h1)"

section \<open>General settings\<close>

definition setting :: "string \<Rightarrow> string \<Rightarrow> config_handle \<Rightarrow> string option \<times> config_handle" where
  "setting sect key h =
     (case sk_exists sect key h of (e, h1) \<Rightarrow> if e \<noteq> 0 then get_value sect key h1 else (None, h1))"

definition atoi :: "string \<Rightarrow> int" where
  "atoi s = to_int32 (strtol10 s)"

definition COLLECT_BPLOG_COUNT :: int where "COLLECT_BPLOG_COUNT = 3"

definition load_config :: "('w, unit) rop" where
  "load_config = do {
     ex \<leftarrow> gets (file_exists CRASHLOG_CONF_PATH);
     if \<not> ex then ret ()
     else do {
       (r, h0) \<leftarrow> init_config_file CRASHLOG_CONF_PATH \<lparr>first = [], current = None\<rparr>;
       if r < 0 then ret ()
       else (case setting ''GENERAL'' ''uptime_frequency'' h0 of (v1, h1) \<Rightarrow>
         (case setting ''GENERAL'' ''sd_size_limit'' h1 of (v2, h2) \<Rightarrow>
         (case setting ''GENERAL'' ''check_modem_version'' h2 of (v3, h3) \<Rightarrow>
         (case setting ''GENERAL'' ''collection_mode_modem'' h3 of (v4, h4) \<Rightarrow>
         (case setting ''VMMTRAP'' ''root_path'' h4 of (v5, h5) \<Rightarrow> do {
            (case v1 of
               Some v \<Rightarrow> if atoi v > 0 then modify (\<lambda>s. s\<lparr>gcurrent_uptime_hour_frequency := atoi v\<rparr>) else ret ()
             | None \<Rightarrow> ret ());
            (case v2 of
               Some v \<Rightarrow> if strtol10 v > 0 then modify (\<lambda>s. s\<lparr>current_sd_size_limit := strtol10 v\<rparr>) else ret ()
             | None \<Rightarrow> ret ());
            (case v3 of
               Some v \<Rightarrow> modify (\<lambda>s. s\<lparr>check_modem_version := (if atoi v > 0 then 1 else 0)\<rparr>)
             | None \<Rightarrow> ret ());
            (case v4 of
               Some v \<Rightarrow> if atoi v < COLLECT_BPLOG_COUNT \<and> atoi v \<ge> 0
                          then modify (\<lambda>s. s\<lparr>collection_mode_modem := atoi v\<rparr>) else ret ()
             | None \<Rightarrow> ret ());
            (case v5 of
               Some v \<Rightarrow> modify (\<lambda>s. s\<lparr>vmmtrap_root_path := take (PATHMAX - 1) v\<rparr>)
             | None \<Rightarrow> ret ());
            _ \<leftarrow> load_config_by_pattern ''INOTIFY'' ''matching_pattern'' h5;
            ret () }))))) } }"

definition cfg_check_modem_version :: "'w runtime_scheme \<Rightarrow> int" where
  "cfg_check_modem_version s = check_modem_version s"

definition cfg_collection_mode_modem :: "'w runtime_scheme \<Rightarrow> int" where
  "cfg_collection_mode_modem s = collection_mode_modem s"

definition cfg_vmmtrap_root_path :: "'w runtime_scheme \<Rightarrow> string" where
  "cfg_vmmtrap_root_path s = vmmtrap_root_path s"

text \<open>\<open>free_config\<close> releases every entry; the list is not used afterwards.\<close>

definition free_config :: "modem_entry list \<Rightarrow> modem_entry list" where
  "free_config cs = []"

section \<open>Reading the sections ends\<close>

text \<open>
  The fuel is enough when the names of the sections have no white space at their ends. Otherwise the
  search for the trimmed name may go back to an earlier section, and the loop goes round.
\<close>

lemma next_section_forward:
  assumes "current h = Some i" "get_next_section_name b h = (Some n, h')"
  shows "\<exists>j. current h' = Some j \<and> i < j \<and> j < length (first h) \<and> first h' = first h \<and> n = fst (first h ! j)"
proof -
  obtain j where j: "Suc i < length (first h)" "scan_from (labelled b) (Suc i) (drop (Suc i) (first h)) = Some j"
      "h' = h\<lparr>current := Some j\<rparr>" "n = fst (first h ! j)"
    using assms by (auto simp: get_next_section_name_def find_base_section_def Let_def split: if_splits)
  obtain m where m: "scan_from (labelled b) 0 (drop (Suc i) (first h)) = Some m" "j = Suc i + m"
    using j(2) scan_from_shift [of "labelled b" "Suc i" "drop (Suc i) (first h)"]
    by (cases "scan_from (labelled b) 0 (drop (Suc i) (first h))") auto
  have "m < length (first h) - Suc i"
    using filter_scan [where P = "labelled b" and ss = "drop (Suc i) (first h)"] m(1) by auto
  then show ?thesis using j m(2) by auto
qed

lemma sk_exists_stays:
  assumes "current h = Some i" "fst (first h ! i) = n" "config_trim n = n"
  shows "snd (sk_exists n k h) = h"
  using assms by (cases h) (simp add: sk_exists_def get_value_def find_section_def)

lemma load_loop_ends:
  assumes "\<forall>n \<in> fst ` set (first h). config_trim n = n"
    and "cur = None \<or> (\<exists>i. current h = Some i \<and> i < length (first h) \<and> cur = Some (fst (first h ! i)) \<and> length (first h) < i + n)"
    and "0 < n"
  shows "fst (run_state (load_loop n sp kp cur h) (s :: 'a runtime_scheme))"
  using assms
proof (induction n arbitrary: cur h s)
  case (Suc n)
  show ?case
  proof (cases cur)
    case (Some name)
    then obtain i where i: "current h = Some i" "i < length (first h)" "name = fst (first h ! i)" "length (first h) < i + Suc n"
      using Suc.prems by auto
    then have stay: "snd (sk_exists name kp h) = h"
      using Suc.prems(1) by (intro sk_exists_stays) auto
    obtain nx h2 where nx: "get_next_section_name sp h = (nx, h2)" by fastforce
    have "0 < n" using i by simp
    moreover have "\<forall>n \<in> fst ` set (first h2). config_trim n = n"
      using Suc.prems(1) nx by (auto simp: get_next_section_name_def find_base_section_def Let_def split: prod.splits)
    moreover have "nx = None \<or> (\<exists>i. current h2 = Some i \<and> i < length (first h2) \<and> nx = Some (fst (first h2 ! i)) \<and> length (first h2) < i + n)"
      using next_section_forward [OF i(1)] nx i(4) by (cases nx) fastforce+
    ultimately have "fst (run_state (load_loop n sp kp nx h2) t)" for t :: "'a runtime_scheme" using Suc.IH [of h2 nx t] by blast
    then show ?thesis using Some stay nx by (auto split: prod.splits)
  qed simp
qed simp

lemma load_config_by_pattern_ends:
  assumes "\<forall>n \<in> fst ` set (first h). config_trim n = n"
  shows "fst (run_state (load_config_by_pattern sp kp h) s)"
proof -
  obtain cur h1 where c: "get_first_section_name sp h = (cur, h1)" by fastforce
  then have "first h1 = first h"
    by (auto simp: get_first_section_name_def find_base_section_def Let_def split: prod.splits)
  moreover have "cur = None \<or> (\<exists>i. current h1 = Some i \<and> i < length (first h1) \<and> cur = Some (fst (first h1 ! i)))"
    using c filter_scan [where P = "labelled sp" and ss = "first h"]
    by (cases "scan_from (labelled sp) 0 (first h)"; cases "first h = []")
      (auto simp: get_first_section_name_def find_base_section_def Let_def)
  ultimately show ?thesis
    unfolding load_config_by_pattern_def c prod.case using assms by (intro load_loop_ends) auto
qed

end
