(* ===== verification/Infoevent.thy ===== *)
theory Infoevent
  imports Config_Handler
begin

text \<open>
  The rest of crashutils.c: saving the kernel's last messages, info and error events triggered by a
  file, the token that counts restarts, and the periodic uptime event of history.c. Firmware messages
  are saved as in fwcrash.c.
\<close>

section \<open>Last messages of the kernel and the firmware\<close>

definition DROPBOX_DIR :: string where "DROPBOX_DIR = ''/data/system/dropbox''"
definition DROPBOX_LAST_KMSG :: string where "DROPBOX_LAST_KMSG = ''SYSTEM_LAST_KMSG''"
definition LAST_KMSG :: string where "LAST_KMSG = ''/proc/last_kmsg''"
definition CONSOLE_RAMOOPS :: string where "CONSOLE_RAMOOPS = ''/sys/fs/pstore/console-ramoops''"
definition CONSOLE_RAMOOPS_0 :: string where "CONSOLE_RAMOOPS_0 = ''/sys/fs/pstore/console-ramoops-0''"
definition FTRACE_RAMOOPS :: string where "FTRACE_RAMOOPS = ''/sys/fs/pstore/ftrace-ramoops''"

text \<open>\<open>strcmp(a, b) < 0\<close>, on bytes.\<close>

fun str_less :: "string \<Rightarrow> string \<Rightarrow> bool" where
  "str_less _ [] = False"
| "str_less [] (_ # _) = True"
| "str_less (a # as) (b # bs) =
     (if a = b then str_less as bs else (of_char a :: nat) < of_char b)"

text \<open>
  The greatest matching name is kept. The buffer it is compared with at first is not initialised, so
  names that are not greater than what it happens to hold are not seen.
\<close>

fun greatest_kmsg :: "string list \<Rightarrow> string \<Rightarrow> bool \<Rightarrow> bool \<times> string" where
  "greatest_kmsg [] source found = (found, source)"
| "greatest_kmsg (n # ns) source found =
     (if contains n DROPBOX_LAST_KMSG \<and> str_less source n then greatest_kmsg ns n True
      else greatest_kmsg ns source found)"

definition find_system_last_kmsg :: "('w, bool \<times> string) dop" where
  "find_system_last_kmsg = do {
     names \<leftarrow> sys_opendir DROPBOX_DIR;
     g \<leftarrow> gets garbage;
     (case names of None \<Rightarrow> ret (False, g) | Some ns \<Rightarrow> ret (greatest_kmsg ns g False)) }"

definition copy_in :: "string \<Rightarrow> string \<Rightarrow> string \<Rightarrow> ('w, unit) dop" where
  "copy_in src dir name = do {
     _ \<leftarrow> do_copy_tail (Some src) (Some (snprintf PATHMAX (dir @ ''/'' @ name))) MAXFILESIZE;
     ret () }"

definition do_last_kmsg_copy :: "string \<Rightarrow> ('w, unit) dop" where
  "do_last_kmsg_copy dir = do {
     a \<leftarrow> gets (file_exists LAST_KMSG);
     b \<leftarrow> gets (file_exists CONSOLE_RAMOOPS);
     c \<leftarrow> gets (file_exists CONSOLE_RAMOOPS_0);
     (if a then copy_in LAST_KMSG dir ''last_kmsg''
      else if b then copy_in CONSOLE_RAMOOPS dir ''console-ramoops''
      else if c then copy_in CONSOLE_RAMOOPS_0 dir ''console-ramoops''
      else ret ());
     d \<leftarrow> gets (file_exists FTRACE_RAMOOPS);
     (if d then copy_in FTRACE_RAMOOPS dir ''ftrace-ramoops'' else ret ());
     (found, source) \<leftarrow> find_system_last_kmsg;
     (if found then copy_in (snprintf PATHMAX (DROPBOX_DIR @ ''/'' @ source)) dir source else ret ()) }"

definition ACPI_BERT_TABLE_FILE :: string where "ACPI_BERT_TABLE_FILE = ''/sys/firmware/acpi/tables/BERT''"
definition DEV_MEM_FILE :: string where "DEV_MEM_FILE = ''/dev/mem''"
definition LM_DUMP_FILE :: string where "LM_DUMP_FILE = ''/d/lm_dump/lkm_buf1''"

text \<open>Little-endian numbers.\<close>

fun le :: "string \<Rightarrow> nat" where
  "le [] = 0"
| "le (c # cs) = of_char c + 256 * le cs"

definition field_at :: "nat \<Rightarrow> nat \<Rightarrow> string \<Rightarrow> string" where
  "field_at off n b = take n (drop off b)"

text \<open>The table has 48 bytes: signature, length at 4, region length at 36, address at 40.\<close>

definition bert_check_table :: "string \<Rightarrow> int" where
  "bert_check_table b =
     (if field_at 0 4 b \<noteq> ''BERT'' then -1
      else if le (field_at 4 4 b) \<noteq> 48 then -1
      else if le (field_at 36 4 b) \<noteq> 0 \<and> le (field_at 36 4 b) < 20 then -1
      else 0)"

definition read_dev_mem_region :: "nat \<Rightarrow> nat \<Rightarrow> ('w, string option) op" where
  "read_dev_mem_region addr sz =
     (if sz = 0 then do { set_errno EINVAL; ret None }
      else do {
        fd \<leftarrow> open_read DEV_MEM_FILE;
        (case fd of
           None \<Rightarrow> ret None
         | Some d \<Rightarrow> do {
             f \<leftarrow> syscall;
             (case f of
                Fails e \<Rightarrow> do { set_errno e; ret None }
              | _ \<Rightarrow> if length (field_at addr sz d) \<noteq> sz then do { set_errno EBADF; ret None }
                      else ret (Some (field_at addr sz d))) }) })"

definition do_bertdump_copy :: "string \<Rightarrow> ('w, int) dop" where
  "do_bertdump_copy dir = do {
     a \<leftarrow> gets (file_exists ACPI_BERT_TABLE_FILE);
     b \<leftarrow> gets (file_exists DEV_MEM_FILE);
     if \<not> a \<or> \<not> b then ret (-1)
     else do {
       (r, tab) \<leftarrow> read_full_binary_file (Some ACPI_BERT_TABLE_FILE) True;
       (case tab of
          None \<Rightarrow> ret (-1)
        | Some t \<Rightarrow> do {
            (if length t < 48 then effect (BadRead ''do_bertdump_copy'') else ret ());
            if r \<noteq> 0 \<or> bert_check_table t \<noteq> 0 then ret (-1)
            else do {
              let region_length = le (field_at 36 4 t);
              if region_length = 0 then ret 0
              else do {
                ok \<leftarrow> alloc;
                if \<not> ok then ret (-1)
                else do {
                  region \<leftarrow> read_dev_mem_region (le (field_at 40 8 t)) region_length;
                  (case region of
                     None \<Rightarrow> ret (-1)
                   | Some m \<Rightarrow> do {
                       ts \<leftarrow> get_current_time_short False;
                       let dstfile = snprintf PATHMAX (dir @ ''/fwerr_bert-dump_'' @ ts @ ''.bin'');
                       old \<leftarrow> gets (\<lambda>s. node_at s dstfile);
                       opened \<leftarrow> (case old of Some (File x) \<Rightarrow> open_update dstfile | _ \<Rightarrow> open_trunc dstfile);
                       if \<not> opened then ret (-1)
                       else do {
                         w1 \<leftarrow> write_at dstfile 0 (take 48 t);
                         w2 \<leftarrow> (if w1 = -1 then ret (-1) else write_at dstfile (nat w1) m);
                         _ \<leftarrow> chown_log dstfile;
                         ret (if w1 = -1 \<or> w2 = -1 then -1 else 0) } }) } } } }) } }"

definition do_last_fw_msg_copy :: "string option \<Rightarrow> ('w, unit) rop" where
  "do_last_fw_msg_copy dir =
     (case dir of
        None \<Rightarrow> ret ()
      | Some d \<Rightarrow> do {
          scu \<leftarrow> gets current_proc_offline_scu_log_name;
          a \<leftarrow> gets (file_exists scu);
          (if a then do { _ \<leftarrow> do_copy_eof (Some scu) (Some (snprintf PATHMAX (d @ ''/offline_scu_log.txt''))); ret () }
           else ret ());
          b \<leftarrow> gets (file_exists LM_DUMP_FILE);
          (if b then do { _ \<leftarrow> do_copy_eof (Some LM_DUMP_FILE) (Some (snprintf PATHMAX (d @ ''/lkm.bin''))); ret () }
           else ret ());
          c \<leftarrow> gets (file_exists ACPI_BERT_TABLE_FILE);
          (if c then do { _ \<leftarrow> do_bertdump_copy d; ret () } else ret ()) })"

section \<open>Services\<close>

definition restart_profile_srv :: "nat \<Rightarrow> ('w, unit) dop" where
  "restart_profile_srv serveridx = do {
     present \<leftarrow> gets pytimechart_present;
     value \<leftarrow> gets (\<lambda>s. prop_get s ''persist.vendor.service.profile.enable'' []);
     if \<not> present \<or> serveridx \<notin> {1, 2} then ret ()
     else if value = [] then ret ()
     else if serveridx = 1 \<and> hd value = CHR ''1'' then start_daemon ''profile1_rest''
     else if serveridx = 2 \<and> hd value = CHR ''2'' then start_daemon ''profile2_rest''
     else ret () }"

definition check_running_modem_trace :: "('w, int) op" where
  "check_running_modem_trace =
     gets (\<lambda>s. if take 7 (prop_get s ''init.svc.mtsp'' []) = ''running'' then 1 else 0)"

text \<open>
  \<open>get_build_board_versions\<close>: from the properties, or else from the first lines of a file that give
  them. The pattern is \<open>name=%s0\<close>, with a digit where the terminator was meant; the conversion
  before it is not affected.
\<close>

definition PROP_BUILD_FIELD :: string where "PROP_BUILD_FIELD = ''ro.build.version.incremental''"
definition PROP_BOARD_FIELD :: string where "PROP_BOARD_FIELD = ''ro.product.model''"

definition scan_field :: "string \<Rightarrow> string \<Rightarrow> string \<Rightarrow> string" where
  "scan_field name line old =
     (if old \<noteq> [] then old
      else case fst (scanf (slit (name @ ''='') @ [SWord None True]) line) of
             [w] \<Rightarrow> w
           | _ \<Rightarrow> old)"

fun version_lines :: "nat \<Rightarrow> string \<Rightarrow> string \<times> string \<Rightarrow> ('w, string \<times> string) op" where
  "version_lines 0 rest v = ret v"
| "version_lines (Suc n) rest v = do {
     (r, buffer, rest') \<leftarrow> freadline rest;
     if r \<le> 0 then ret v
     else do {
       let v' = (scan_field PROP_BUILD_FIELD buffer (fst v), scan_field PROP_BOARD_FIELD buffer (snd v));
       if fst v' \<noteq> [] \<and> snd v' \<noteq> [] then ret v' else version_lines n rest' v' } }"

definition get_build_board_versions :: "string \<Rightarrow> ('w, int \<times> string \<times> string) op" where
  "get_build_board_versions filename = do {
     v \<leftarrow> gets (\<lambda>s. (prop_get s PROP_BUILD_FIELD [], prop_get s PROP_BOARD_FIELD []));
     if fst v \<noteq> [] \<and> snd v \<noteq> [] then ret (0, v)
     else do {
       fd \<leftarrow> open_read filename;
       (case fd of
          None \<Rightarrow> do { e \<leftarrow> gets errno; ret (- e, v) }
        | Some d \<Rightarrow> do {
            v' \<leftarrow> version_lines (Suc (length d)) d v;
            ret (if fst v' \<noteq> [] \<and> snd v' \<noteq> [] then 0 else -1, v') }) } }"

section \<open>Info and error events\<close>

text \<open>\<open>strcpy\<close> of a shorter text over the place where \<open>p\<close> was found.\<close>

definition replace_from :: "string \<Rightarrow> string \<Rightarrow> string \<Rightarrow> string" where
  "replace_from str pat new =
     (case strstr str pat of
        None \<Rightarrow> str
      | Some t \<Rightarrow> take (length str - length t) str @ new)"

text \<open>The upper-case type: what precedes the extension, at most 19 characters.\<close>

definition type_of_name :: "string \<Rightarrow> string \<Rightarrow> string" where
  "type_of_name name ext =
     (let tmp = snprintf 32 name in
      case strstr tmp ext of
        Some t \<Rightarrow> map toupper (take 19 (take (length tmp - length t) tmp))
      | None \<Rightarrow> snprintf 20 name)"

definition copy_and_remove :: "string \<Rightarrow> string \<Rightarrow> string \<Rightarrow> ('w, unit) dop" where
  "copy_and_remove src_dir dir name = do {
     let path = snprintf PATHMAX (src_dir @ ''/'' @ name);
     _ \<leftarrow> do_copy_tail (Some path) (Some (snprintf PATHMAX (dir @ ''/'' @ name))) 0;
     c_remove path }"

definition process_info_and_error :: "string \<Rightarrow> string \<Rightarrow> ('w, int) dop" where
  "process_info_and_error filename name =
     (if \<not> contains name ''_infoevent'' \<and> \<not> contains name ''_errorevent'' then ret (-1)
      else do {
        let name_event = (if contains name ''_infoevent'' then ''INFO'' else ''ERROR'');
        let file_ext = (if contains name ''_infoevent'' then ''_infoevent'' else ''_errorevent'');
        let tmp = snprintf 32 name;
        key \<leftarrow> generate_event_id (Some name_event) (Some tmp);
        dir \<leftarrow> generate_crashlog_dir MODE_STATS key;
        (case dir of
           None \<Rightarrow> do {
             _ \<leftarrow> raise_event key (Some name_event) (Some (replace_from tmp ''trigger'' ''data'')) None None;
             _ \<leftarrow> get_current_time_long False;
             ret (-1) }
         | Some d \<Rightarrow> do {
             (if contains tmp file_ext then do {
                (_, found) \<leftarrow> find_matching_file (Some filename) (Some (replace_from tmp file_ext ''_data'')) True;
                g \<leftarrow> gets garbage;
                copy_and_remove filename d (case found of Some n \<Rightarrow> n | None \<Rightarrow> g) }
              else ret ());
             copy_and_remove filename d name;
             _ \<leftarrow> raise_event key (Some name_event) (Some (type_of_name name file_ext)) None (Some d);
             _ \<leftarrow> get_current_time_long False;
             ret 0 }) })"

definition data_line :: "string \<Rightarrow> string option \<Rightarrow> string" where
  "data_line field v = (case v of None \<Rightarrow> [] | Some x \<Rightarrow> field @ ''='' @ x @ [NL])"

definition create_infoevent :: "string \<Rightarrow> string option \<Rightarrow> string option \<Rightarrow> string option \<Rightarrow> ('w, unit) dop" where
  "create_infoevent filename data0 data1 data2 = do {
     let fullpath = snprintf (PATHMAX - 1) (LOGS_DIR @ ''/'' @ filename);
     ok \<leftarrow> open_trunc fullpath;
     if \<not> ok then ret ()
     else do {
       _ \<leftarrow> write_end fullpath (data_line ''DATA0'' data0 @ data_line ''DATA1'' data1 @ data_line ''DATA2'' data2 @ ''_END'' @ [NL]);
       _ \<leftarrow> chown_log fullpath;
       _ \<leftarrow> process_info_and_error LOGS_DIR filename;
       ret () } }"

section \<open>The token\<close>

definition TOKEN :: string where "TOKEN = ''vendor.crashlogd.token''"
definition CRASHLOG_ERROR_RESET :: string where "CRASHLOG_ERROR_RESET = ''CRASHLOG_SELF_RESET''"
definition CRASHLOG_ERROR_DEAD :: string where "CRASHLOG_ERROR_DEAD = ''CRASHLOG_DEAD''"

definition check_crashlog_died :: "('w, unit) dop" where
  "check_crashlog_died = do {
     token \<leftarrow> gets (\<lambda>s. prop_get s TOKEN []);
     if token = CRASHLOG_ERROR_RESET then do {
       _ \<leftarrow> raise_infoerror ''ERROR'' CRASHLOG_ERROR_RESET;
       property_set TOKEN ''1'' }
     else if length token < 4 then do {
       let token' = token @ ''1'';
       property_set TOKEN token';
       (if take 2 token' = ''11'' then do { _ \<leftarrow> raise_infoerror ''ERROR'' CRASHLOG_ERROR_DEAD; ret () } else ret ()) }
     else ret () }"

section \<open>Screenshots\<close>

definition SCREENSHOT_PATTERN :: string where "SCREENSHOT_PATTERN = ''SCREENSHOT=''"

fun screenshot_lines :: "string list \<Rightarrow> string \<Rightarrow> nat \<Rightarrow> ('w, unit) dop" where
  "screenshot_lines [] bzdir bz_num = ret ()"
| "screenshot_lines (buffer # ls) bzdir bz_num =
     (let screenshot = drop (length SCREENSHOT_PATTERN) (cstr buffer)
      in if contains (cstr buffer) SCREENSHOT_PATTERN \<and> screenshot \<noteq> [] then do {
           let src = (if last screenshot = NL then butlast screenshot else screenshot);
           let dst = (if bz_num = 0 then bzdir @ ''/bz_screenshot.png''
                      else bzdir @ ''/bz_screenshot'' @ show_nat bz_num @ ''.png'');
           _ \<leftarrow> do_copy_tail (Some src) (Some (snprintf PATHMAX dst)) 0;
           screenshot_lines ls bzdir (Suc bz_num) }
         else screenshot_lines ls bzdir bz_num)"

definition do_screenshot_copy :: "string \<Rightarrow> string \<Rightarrow> ('w, int) dop" where
  "do_screenshot_copy bz_description bzdir = do {
     ex \<leftarrow> gets (file_exists bz_description);
     if \<not> ex then ret (-1)
     else do {
       fd \<leftarrow> open_read bz_description;
       (case fd of
          None \<Rightarrow> ret (-1)
        | Some d \<Rightarrow> do {
            screenshot_lines (fgets_lines PATHMAX d) bzdir 0;
            ret 0 }) } }"

section \<open>The uptime event\<close>

fun clean_entries :: "string \<Rightarrow> nat \<Rightarrow> nat \<Rightarrow> string list \<Rightarrow> ('w, nat) dop" where
  "clean_entries dir_to_search mx i [] = ret i"
| "clean_entries dir_to_search mx i (name # ns) = do {
     let path = snprintf (PATHMAX - 1) (dir_to_search @ ''/'' @ name);
     if contains path (SDCARD_LOGS_DIR @ ''/crashlog'') \<or> contains path (SDCARD_LOGS_DIR @ ''/stats'') \<or>
        contains path (SDCARD_LOGS_DIR @ ''/aplogs'') then do {
       h \<leftarrow> history_has_event (Some path);
       if h = 0 then do {
         _ \<leftarrow> rmfr path;
         if mx \<le> Suc i then ret (Suc i) else clean_entries dir_to_search mx (Suc i) ns }
       else clean_entries dir_to_search mx i ns }
     else clean_entries dir_to_search mx i ns }"

definition clean_crashlog_in_sd :: "string \<Rightarrow> nat \<Rightarrow> ('w, unit) dop" where
  "clean_crashlog_in_sd dir_to_search mx = do {
     names \<leftarrow> sys_opendir dir_to_search;
     i \<leftarrow> (case names of None \<Rightarrow> ret 0 | Some ns \<Rightarrow> clean_entries dir_to_search mx 0 ns);
     modify (\<lambda>s. s\<lparr>gabortcleansd := (i < mx)\<rparr>) }"

definition add_uptime_event :: "('w, int) rop" where
  "add_uptime_event = do {
     fd \<leftarrow> open_update HISTORY_FILE;
     if \<not> fd then do { e \<leftarrow> gets errno; ret (- e) }
     else do {
       (res, firstline, hours) \<leftarrow> get_timed_firstline True;
       if res \<noteq> 0 then ret res
       else do {
         abort \<leftarrow> gets gabortcleansd;
         (if \<not> abort then clean_crashlog_in_sd SDCARD_LOGS_DIR 10 else ret ());
         w \<leftarrow> write_at HISTORY_FILE 0 firstline;
         if w < 0 then do { e \<leftarrow> gets errno; ret (- e) }
         else do {
           freq \<leftarrow> gets gcurrent_uptime_hour_frequency;
           loop \<leftarrow> gets loop_uptime_event;
           if freq = 0 then do { effect (DivByZero ''add_uptime_event''); ret 0 }
           else do {
             (if cdiv hours freq \<ge> loop then do {
                key \<leftarrow> generate_event_id (Some ''UPTIME'') (Some []);
                _ \<leftarrow> raise_event key (Some ''UPTIME'') (Some []) None None;
                modify (\<lambda>s. s\<lparr>loop_uptime_event := cdiv hours freq + 1\<rparr>);
                restart_profile_srv 2 }
              else ret ());
             check_ingredients_file;
             ret 0 } } } } }"

definition process_uptime_event :: "('w, int) rop" where
  "process_uptime_event = do { clean_fake_property; add_uptime_event }"

section \<open>Watchdog logs\<close>

definition do_wdt_log_copy :: "string \<Rightarrow> ('w, unit) rop" where
  "do_wdt_log_copy dir = do {
     dateshort \<leftarrow> get_current_time_short True;
     flush_aplog APLOG_BOOT (Some ''WDT'') (Some dir) (Some dateshort);
     do_log_copy ''WDT'' dir dateshort APLOG_TYPE;
     do_last_fw_msg_copy (Some dir) }"

end
