(* ===== verification/Watch.thy ===== *)
theory Watch
  imports Infoevent
begin

text \<open>
  The inotify interface of the kernel as the daemon uses it: masks, the bytes of an event, adding and
  removing watches, and reading from the descriptor.
\<close>

unbundle bit_operations_syntax

definition IN_MODIFY :: "32 word" where "IN_MODIFY = 0x2"
definition IN_CLOSE_WRITE :: "32 word" where "IN_CLOSE_WRITE = 0x8"
definition IN_MOVED_FROM :: "32 word" where "IN_MOVED_FROM = 0x40"
definition IN_MOVED_TO :: "32 word" where "IN_MOVED_TO = 0x80"
definition IN_CREATE :: "32 word" where "IN_CREATE = 0x100"
definition IN_DELETE_SELF :: "32 word" where "IN_DELETE_SELF = 0x400"
definition IN_MOVE_SELF :: "32 word" where "IN_MOVE_SELF = 0x800"
definition IN_ISDIR :: "32 word" where "IN_ISDIR = 0x40000000"

lemmas in_defs = IN_MODIFY_def IN_CLOSE_WRITE_def IN_MOVED_FROM_def IN_MOVED_TO_def IN_CREATE_def
  IN_DELETE_SELF_def IN_MOVE_SELF_def IN_ISDIR_def

section \<open>The bytes of an event\<close>

record inotify_event =
  ev_wd :: int
  ev_mask :: "32 word"
  ev_cookie :: "32 word"
  ev_len :: nat
  ev_name :: string

definition EVSZ :: nat where "EVSZ = 16"

text \<open>
  The fields at the offsets 0, 4, 8 and 12 and the name behind them, up to its terminator. An event
  whose length field is 0 has no name; the code uses the name of such an event in messages only.
\<close>

definition decode :: "string \<Rightarrow> inotify_event" where
  "decode b = \<lparr>ev_wd = to_int32 (int (le (field_at 0 4 b))), ev_mask = of_nat (le (field_at 4 4 b)),
     ev_cookie = of_nat (le (field_at 8 4 b)), ev_len = le (field_at 12 4 b), ev_name = (if le (field_at 12 4 b) = 0 then [] else cstr (drop EVSZ b))\<rparr>"

fun put_le :: "nat \<Rightarrow> nat \<Rightarrow> string" where
  "put_le 0 n = []"
| "put_le (Suc k) n = char_of (n mod 256) # put_le k (n div 256)"

definition put32 :: "nat \<Rightarrow> string" where
  "put32 n = put_le 4 n"

definition encode :: "inotify_event \<Rightarrow> string" where
  "encode e = put32 (nat (to_uint32 (ev_wd e))) @ put32 (unat (ev_mask e)) @ put32 (unat (ev_cookie e)) @
     put32 (ev_len e) @ ev_name e @ replicate (ev_len e - length (ev_name e)) NUL"

text \<open>Events as the kernel makes them: a name shorter than its field, which ends in a null byte.\<close>

definition kernel_event :: "inotify_event \<Rightarrow> bool" where
  "kernel_event e \<longleftrightarrow> - (2 ^ 31) \<le> ev_wd e \<and> ev_wd e < 2 ^ 31 \<and> ev_len e \<le> PATHMAX \<and>
     (if ev_len e = 0 then ev_name e = [] else length (ev_name e) < ev_len e) \<and> NUL \<notin> set (ev_name e)"

lemma length_put_le [simp]: "length (put_le k n) = k"
  by (induction k arbitrary: n) auto

lemma length_put32 [simp]: "length (put32 n) = 4"
  by (simp add: put32_def)

lemma le_put_le: "le (put_le k n) = n mod 256 ^ k"
  by (induction k arbitrary: n) (simp_all add: mod_mult2_eq)

lemma le_put32 [simp]: "n < 2 ^ 32 \<Longrightarrow> le (put32 n) = n"
  by (simp add: put32_def le_put_le)

lemma field_at_append [simp]:
  "length a = off \<Longrightarrow> field_at (off + k) n (a @ b) = field_at k n b"
  "length a = n \<Longrightarrow> field_at 0 n (a @ b) = a"
  by (simp_all add: field_at_def)

lemma length_encode: "kernel_event e \<Longrightarrow> length (encode e) = EVSZ + ev_len e"
  by (auto simp: encode_def kernel_event_def EVSZ_def split: if_splits)

lemma cstr_padded: "NUL \<notin> set a \<Longrightarrow> cstr (a @ replicate k NUL @ b) = (if k = 0 then a @ cstr b else a)"
  by (cases k) (auto simp: cstr_def takeWhile_append)

lemma decode_encode:
  assumes "kernel_event e"
  shows "decode (encode e @ rest) = e"
proof -
  let ?w = "put32 (nat (to_uint32 (ev_wd e)))" and ?m = "put32 (unat (ev_mask e))" and ?c = "put32 (unat (ev_cookie e))"
    and ?l = "put32 (ev_len e)" and ?n = "ev_name e @ replicate (ev_len e - length (ev_name e)) NUL"
  have b: "encode e @ rest = ?w @ ?m @ ?c @ ?l @ ?n @ rest" by (simp add: encode_def)
  have f: "field_at 0 4 (encode e @ rest) = ?w" "field_at 4 4 (encode e @ rest) = ?m"
    "field_at 8 4 (encode e @ rest) = ?c" "field_at 12 4 (encode e @ rest) = ?l"
    unfolding b by (simp_all add: field_at_def)
  have "ev_len e < 2 ^ 32" using assms by (simp add: kernel_event_def PATHMAX_def)
  moreover have "unat (ev_mask e) < 2 ^ 32" "unat (ev_cookie e) < 2 ^ 32"
    using unsigned_less [of "ev_mask e"] unsigned_less [of "ev_cookie e"] by simp_all
  moreover have "to_int32 (int (le ?w)) = ev_wd e"
    using assms by (simp add: kernel_event_def to_int32_def to_uint32_def le_put_le put32_def mod_add_left_eq mod_pos_pos_trivial)
  moreover have "(if ev_len e = 0 then [] else cstr (drop EVSZ (encode e @ rest))) = ev_name e"
    unfolding b using assms cstr_padded [of "ev_name e" "ev_len e - length (ev_name e)" rest]
    by (auto simp: EVSZ_def kernel_event_def split: if_splits)
  ultimately show ?thesis
    unfolding decode_def f by simp
qed

section \<open>Watches\<close>

text \<open>Adding a watch for a path that is watched already gives the same descriptor.\<close>

definition inotify_add_watch :: "string \<Rightarrow> 32 word \<Rightarrow> ('w, int) rop" where
  "inotify_add_watch path msk = do {
     f \<leftarrow> syscall;
     ex \<leftarrow> gets (file_exists path);
     (case f of
        Fails e \<Rightarrow> do { set_errno e; ret (-1) }
      | _ \<Rightarrow>
          if \<not> ex then do { set_errno ENOENT; ret (-1) }
          else do {
            old \<leftarrow> gets (\<lambda>s. find (\<lambda>(w, p, m). comps p = comps path) (watches s));
            (case old of
               Some (w, p, m) \<Rightarrow> do {
                 modify (\<lambda>s. s\<lparr>watches := map (\<lambda>(v, q, n). (v, q, if v = w then msk else n)) (watches s)\<rparr>);
                 ret w }
             | None \<Rightarrow> do {
                 w \<leftarrow> gets next_wd;
                 modify (\<lambda>s. s\<lparr>watches := watches s @ [(w, path, msk)], next_wd := w + 1\<rparr>);
                 ret w }) }) }"

definition inotify_rm_watch :: "int \<Rightarrow> ('w, unit) rop" where
  "inotify_rm_watch w = modify (\<lambda>s. s\<lparr>watches := filter (\<lambda>(v, _). v \<noteq> w) (watches s)\<rparr>)"

text \<open>
  \<open>read\<close> on the descriptor: whole events only, as many of the queue as fit; an error when the first
  does not fit. With an empty queue a blocking descriptor would wait; the model reports an error.
\<close>

fun fit :: "nat \<Rightarrow> string list \<Rightarrow> string list" where
  "fit n [] = []"
| "fit n (e # es) = (if length e \<le> n then e # fit (n - length e) es else [])"

definition read_inotify :: "nat \<Rightarrow> ('w, string option) rop" where
  "read_inotify n = do {
     f \<leftarrow> syscall;
     q \<leftarrow> gets inotify_queue;
     (case f of
        Fails e \<Rightarrow> do { set_errno e; ret None }
      | _ \<Rightarrow>
          if fit n q = [] then do { set_errno EINVAL; ret None }
          else do {
            modify (\<lambda>s. s\<lparr>inotify_queue := drop (length (fit n q)) q\<rparr>);
            ret (Some (concat (fit n q))) }) }"

text \<open>
  \<open>generic_add_watch\<close> (config_handler.c): watches for the paths of the modem configuration. The
  descriptors are stored in the entries, where nothing reads them.
\<close>

fun generic_add_watch :: "modem_entry list \<Rightarrow> ('w, modem_entry list) rop" where
  "generic_add_watch [] = ret []"
| "generic_add_watch (c # cs) = do {
     c' \<leftarrow> (if c_path c \<noteq> [] then do {
              w \<leftarrow> inotify_add_watch (c_path c) VBCRASH_DIR_MASK;
              ret (c\<lparr>wd_config := w\<rparr>) }
            else ret c);
     cs' \<leftarrow> generic_add_watch cs;
     ret (c' # cs') }"

end
