(* ===== verification/Dropbox.thy ===== *)
theory Dropbox
  imports Watch
begin

text \<open>
  Events of the dropbox (dropbox.c): the service that dumps the state of the system, the pairs of
  inotify events by which a log that was only renamed is recognised, and logs that were lost because
  the dropbox was full.
\<close>

section \<open>The dump service\<close>

definition SHA_LEN :: nat where "SHA_LEN = 20"

definition start_dumpstate_srv :: "string option \<Rightarrow> string option \<Rightarrow> ('w, int) rop" where
  "start_dumpstate_srv crash_dir key = do {
     avail \<leftarrow> gets logsystemstate_available;
     (case (crash_dir, key) of
        (Some d, Some k) \<Rightarrow>
          if \<not> avail then ret 0
          else do {
            prop \<leftarrow> gets (\<lambda>s. prop_get s ''init.svc.vendor.logsystemstate'' ''stopped'');
            if prop = ''running'' then do {
              let path = snprintf (PATHMAX - 1) (d @ ''/dumpstate_busy'');
              ok \<leftarrow> open_trunc path;
              (if ok then do {
                 prev \<leftarrow> gets (\<lambda>s. gcurrent_key s ! index_prod s);
                 _ \<leftarrow> write_end path (''Previous event: '' @ prev @ [NL]);
                 _ \<leftarrow> chown_log path;
                 ret () }
               else ret ());
              ret 0 }
            else do {
              property_set ''vendor.crashlogd.storage.path'' d;
              start_daemon ''vendor.logsystemstate'';
              w \<leftarrow> inotify_add_watch d IN_CLOSE_WRITE;
              if w < 0 then ret (-1)
              else do {
                modify (\<lambda>s. let i = (index_prod s + 1) mod 2 in
                  s\<lparr>index_prod := i, gcurrent_key := (gcurrent_key s)[i := take SHA_LEN k]\<rparr>);
                ret 1 } } }
      | _ \<Rightarrow> ret 0) }"

definition finished_cmd :: "string \<Rightarrow> string" where
  "finished_cmd key = snprintf 511 (''am broadcast -n com.intel.crashreport/.specific.NotificationReceiver -a '' @
     ''com.intel.crashreport.intent.CRASH_LOGS_COPY_FINISHED -c android.intent.category.ALTERNATIVE '' @
     ''--es com.intel.crashreport.extra.EVENT_ID '' @ key)"

definition finalize_dropbox_pending_event :: "('w, int) rop" where
  "finalize_dropbox_pending_event = do {
     key \<leftarrow> gets (\<lambda>s. gcurrent_key s ! index_cons s);
     boot_state \<leftarrow> gets (\<lambda>s. prop_get s PROP_BOOT_STATUS ''-1'');
     if key = [] then ret (-1)
     else if boot_state \<noteq> ''1'' then ret (-1)
     else do {
       avail \<leftarrow> is_crashreport_available;
       (if avail then do {
          ok \<leftarrow> alloc;
          (if \<not> ok then effect (NullDeref ''finalize_dropbox_pending_event'') else ret ());
          f \<leftarrow> syscall;
          (if f = Works then do { _ \<leftarrow> run_command (finished_cmd (take SHA_LEN key)) 30; ret () } else ret ()) }
        else ret ());
       modify (\<lambda>s. s\<lparr>gcurrent_key := (gcurrent_key s)[index_cons s := []], index_cons := (index_cons s + 1) mod 2\<rparr>);
       ret 0 } }"

section \<open>Time stamps in names\<close>

definition TIMESTAMP_MAX_SIZE :: nat where "TIMESTAMP_MAX_SIZE = 10"

text \<open>\<open>strchr\<close>: the rest of the string from the first occurrence on.\<close>

fun strchr :: "string \<Rightarrow> char \<Rightarrow> string option" where
  "strchr [] c = None"
| "strchr (x # xs) c = (if x = c then Some (x # xs) else strchr xs c)"

text \<open>
  \<open>extract_dropbox_timestamp\<close>: the first ten characters behind the sign are converted, however many
  of them belong to the seconds.
\<close>

definition extract_dropbox_timestamp :: "string \<Rightarrow> int" where
  "extract_dropbox_timestamp filename =
     (case strchr filename (CHR ''@'') of
        None \<Rightarrow> -1
      | Some a \<Rightarrow>
          (case strchr (tl a) (CHR ''.'') of
             None \<Rightarrow> -1
           | Some b \<Rightarrow>
               let size_timestamp = int (length (tl a)) - int (length b) - 3;
                   timestamp = take TIMESTAMP_MAX_SIZE (tl a)
               in if size_timestamp \<le> int TIMESTAMP_MAX_SIZE \<and> size_timestamp > 0
                  then if \<forall>c \<in> set (take (nat size_timestamp) timestamp). isdigit c then strtol10 timestamp else -1
                  else -1))"

lemma strchr_append: "c \<notin> set a \<Longrightarrow> strchr (a @ c # b) c = Some (c # b)"
  by (induction a) auto

lemma strchr_other: "c \<notin> set a \<Longrightarrow> strchr (a @ b) c = strchr b c"
  by (induction a) auto

lemma show_nat_snoc: "10 \<le> n \<Longrightarrow> show_nat n = show_nat (n div 10) @ [digit (n mod 10)]"
  by (subst show_nat.simps) simp

lemma show_nat_long: "10 ^ k \<le> n \<Longrightarrow> k < length (show_nat n)"
proof (induction k arbitrary: n)
  case (Suc k)
  have n: "10 \<le> n" using Suc.prems by (simp add: le_trans [OF _ Suc.prems])
  have "10 ^ k \<le> n div 10" using Suc.prems by (simp add: less_eq_div_iff_mult_less_eq mult.commute)
  then show ?case using Suc.IH [of "n div 10"] show_nat_snoc [OF n] by simp
qed simp

text \<open>
  Names as the dropbox service makes them give the time in seconds: for a stamp in milliseconds
  of thirteen digits, that is between September 2001 and November 2286, the result is the stamp
  divided by 1000.
\<close>

theorem extract_dropbox_timestamp_seconds:
  assumes "CHR ''@'' \<notin> set tag" "10 ^ 12 \<le> ms" "ms < 10 ^ 13"
  shows "extract_dropbox_timestamp (tag @ ''@'' @ show_nat ms @ ''.'' @ ext) = int (ms div 1000)"
proof -
  let ?s = "ms div 1000"
  have "10 ^ 9 \<le> ?s" "?s < 10 ^ 10" using assms by simp_all
  then have len: "length (show_nat ?s) = 10"
    using show_nat_long [of 9 ?s] length_show_nat [of ?s 10] by simp
  obtain r where r: "show_nat ms = show_nat ?s @ r" "length r = 3"
    using show_nat_snoc [of ms] show_nat_snoc [of "ms div 10"] show_nat_snoc [of "ms div 100"] assms(2)
    by (simp add: div_mult2_eq [symmetric])
  have at: "CHR ''@'' \<notin> set (show_nat ms)" and dot: "CHR ''.'' \<notin> set (show_nat ms)"
    using show_nat_digits [of ms] by (auto simp: isdigit_def)
  have "strchr (tag @ ''@'' @ show_nat ms @ ''.'' @ ext) (CHR ''@'') = Some (CHR ''@'' # show_nat ms @ ''.'' @ ext)"
    using strchr_append [OF assms(1), of "show_nat ms @ ''.'' @ ext"] by simp
  moreover have "strchr (show_nat ms @ ''.'' @ ext) (CHR ''.'') = Some (CHR ''.'' # ext)"
    using strchr_append [OF dot, of ext] by simp
  moreover have "take 10 (show_nat ms @ ''.'' @ ext) = show_nat ?s" using r len by simp
  ultimately show ?thesis
    using r len show_nat_digits [of ?s] by (simp add: extract_dropbox_timestamp_def TIMESTAMP_MAX_SIZE_def)
qed

theorem extract_dropbox_timestamp_seconds_witness:
  "extract_dropbox_timestamp ''system_app_anr@1350992829414.txt'' = 1350992829"
proof -
  have "show_nat 1350992829414 = ''1350992829414''" by (simp add: show_nat.simps digit_def char_of_def bit_0)
  then show ?thesis using extract_dropbox_timestamp_seconds [of "''system_app_anr''" 1350992829414 "''txt''"] by simp
qed

section \<open>Renamed logs\<close>

definition word_min :: "nat \<Rightarrow> nat" where
  "word_min n = (if n < PATHMAX then n else PATHMAX)"

definition duplicate_names :: "string \<Rightarrow> string \<times> string" where
  "duplicate_names name =
     (if contains name ''anr'' then (LOGS_DIR @ ''/anr_duplicate_data.txt'', ''anr_duplicate_infoevent'')
      else if contains name ''system_server_watchdog'' then (LOGS_DIR @ ''/uiwdt_duplicate_data.txt'', ''uiwdt_duplicate_infoevent'')
      else (LOGS_DIR @ ''/javacrash_duplicate_data.txt'', ''javacrash_duplicate_infoevent''))"

text \<open>
  \<open>manage_duplicate_dropbox_events\<close>. The date is printed by the format of the long date without its
  two blanks at the end; clocks count nanoseconds.
\<close>

definition manage_duplicate_dropbox_events :: "inotify_event \<Rightarrow> ('w, int) rop" where
  "manage_duplicate_dropbox_events event =
     (if ev_mask event AND IN_MOVED_FROM \<noteq> 0 then do {
        (if ev_len event = 0 then effect (BadWrite ''manage_duplicate_dropbox_events'') else ret ());
        modify (\<lambda>s. s\<lparr>previous_event_cookie := ev_cookie event,
                      previous_filename := take (word_min (ev_len event) - 1) (ev_name event)\<rparr>);
        ret (-1) }
      else do {
        cookie \<leftarrow> gets previous_event_cookie;
        if ev_mask event AND IN_MOVED_TO \<noteq> 0 \<and> cookie \<noteq> 0 \<and> cookie = ev_cookie event \<and> ev_len event \<noteq> 0 then do {
          let (destination0, info_filename) = duplicate_names (ev_name event);
          let origin = snprintf PATHMAX (DROPBOX_DIR @ ''/'' @ ev_name event);
          let destination = (if drop (length origin - 3) origin = ''.gz'' then destination0 @ ''.gz'' else destination0);
          sz \<leftarrow> gets (\<lambda>s. length (content s origin));
          (if sz \<noteq> 0 then do { _ \<leftarrow> do_copy_tail (Some origin) (Some destination) MAXFILESIZE; ret () } else ret ());
          previous \<leftarrow> gets previous_filename;
          let ts = extract_dropbox_timestamp previous;
          date \<leftarrow> gets (\<lambda>s. if ts \<noteq> -1 then butlast (butlast (fmt_time s (ts * 10 ^ 9))) else ''timestamp_extract_failed'');
          create_infoevent info_filename (Some previous) (Some (ev_name event)) (Some date);
          modify (\<lambda>s. s\<lparr>previous_event_cookie := 0, previous_filename := []\<rparr>);
          ret (-1) }
        else ret 0 })"

section \<open>Lost logs\<close>

definition lost_type :: "string \<Rightarrow> string option" where
  "lost_type name =
     (if contains name ''anr'' then Some ''ANR''
      else if contains name ''crash'' then Some ''JAVACRASH''
      else if contains name ''watchdog'' then Some ''UIWDT''
      else None)"

text \<open>
  \<open>process_lost_event\<close>: the log is copied with the limit 0, which leaves an empty file (\<open>do_copy\<close>).
\<close>

definition process_lost_event :: "watch_entry \<Rightarrow> inotify_event \<Rightarrow> ('w, int) rop" where
  "process_lost_event entry event =
     (case lost_type (ev_name event) of
        None \<Rightarrow> ret 0
      | Some lost \<Rightarrow> do {
          dup \<leftarrow> manage_duplicate_dropbox_events event;
          if dup \<noteq> 0 then ret 1
          else do {
            let lostevent = lost @ ''_LOST'';
            let subtype = snprintf 32 (''LOST_DROPBOX_'' @ lost);
            key \<leftarrow> generate_event_id (Some ''CRASH'') (Some lostevent);
            dir \<leftarrow> generate_crashlog_dir MODE_CRASH_NOSD key;
            (case dir of
               None \<Rightarrow> do {
                 _ \<leftarrow> raise_event key (Some ''CRASH'') (Some lostevent) (Some subtype) None;
                 _ \<leftarrow> get_current_time_long False;
                 ret (-1) }
             | Some d \<Rightarrow> do {
                 _ \<leftarrow> do_copy (Some (snprintf PATHMAX (eventpath entry @ ''/'' @ ev_name event)))
                        (Some (snprintf PATHMAX (d @ ''/'' @ ev_name event))) 0;
                 ts \<leftarrow> get_current_time_short True;
                 do_log_copy lostevent d ts APLOG_TYPE;
                 _ \<leftarrow> raise_event key (Some ''CRASH'') (Some lostevent) (Some subtype) (Some d);
                 _ \<leftarrow> get_current_time_long False;
                 ret 0 }) } })"

end
