(* ===== verification/Inotify.thy ===== *)
theory Inotify
  imports Dropbox
begin

text \<open>
  The watcher of files and directories (inotify_handler.c): the table of watched paths, installing the
  watches, finding the entry of an event, and the loop that takes the events out of a buffer and calls
  the handlers. The handlers are a parameter of the loop here.
\<close>

section \<open>The table\<close>

definition BASE_DIR_MASK :: "32 word" where "BASE_DIR_MASK = IN_CLOSE_WRITE OR IN_DELETE_SELF OR IN_MOVE_SELF"
definition DROPBOX_DIR_MASK :: "32 word" where "DROPBOX_DIR_MASK = BASE_DIR_MASK OR IN_MOVED_FROM OR IN_MOVED_TO"
definition TOMBSTONE_DIR_MASK :: "32 word" where "TOMBSTONE_DIR_MASK = BASE_DIR_MASK OR IN_CREATE"
definition CORE_DIR_MASK :: "32 word" where "CORE_DIR_MASK = BASE_DIR_MASK"
definition STAT_DIR_MASK :: "32 word" where "STAT_DIR_MASK = BASE_DIR_MASK"
definition APLOG_DIR_MASK :: "32 word" where "APLOG_DIR_MASK = BASE_DIR_MASK OR IN_MODIFY"
definition UPTIME_MASK :: "32 word" where "UPTIME_MASK = IN_CLOSE_WRITE"
definition RESET_DIR_MASK :: "32 word" where "RESET_DIR_MASK = IN_DELETE_SELF"

definition TOMBSTONE_DIR :: string where "TOMBSTONE_DIR = ''/data/tombstones''"
definition HISTORY_CORE_DIR :: string where "HISTORY_CORE_DIR = ''/data/core''"
definition STAT_DIR :: string where "STAT_DIR = LOGS_DIR @ ''/stats''"
definition LOG_BUILDID :: string where "LOG_BUILDID = LOGS_DIR @ ''/buildid.txt''"
definition UPTIME_FILE :: string where "UPTIME_FILE = LOGS_DIR @ ''/uptime''"

definition entry_of :: "32 word \<Rightarrow> event_type \<Rightarrow> string \<Rightarrow> string \<Rightarrow> string option \<Rightarrow> watch_entry" where
  "entry_of m ty name path pat = \<lparr>wd = 0, eventmask = m, eventtype = ty, inotify_error = 0, eventname = name,
     eventpath = path, eventpattern = pat, pcallback = None\<rparr>"

definition wd_table :: "watch_entry list" where
  "wd_table = [
     entry_of DROPBOX_DIR_MASK LOST_TYPE ''LOST_DROPBOX'' DROPBOX_DIR (Some ''.lost''),
     entry_of DROPBOX_DIR_MASK SYSSERVER_TYPE ''UIWDT'' DROPBOX_DIR (Some ''system_server_watchdog''),
     entry_of DROPBOX_DIR_MASK ANR_TYPE ''ANR'' DROPBOX_DIR (Some ''anr''),
     entry_of TOMBSTONE_DIR_MASK TOMBSTONE_TYPE ''TOMBSTONE'' TOMBSTONE_DIR (Some ''tombstone''),
     entry_of DROPBOX_DIR_MASK JAVATOMBSTONE_TYPE ''JAVA_TOMBSTONE'' DROPBOX_DIR (Some ''native_crash''),
     entry_of DROPBOX_DIR_MASK JAVACRASH_TYPE ''JAVACRASH'' DROPBOX_DIR (Some ''app_crash''),
     entry_of DROPBOX_DIR_MASK JAVACRASH_TYPE2 ''JAVACRASH'' DROPBOX_DIR (Some ''system_server_crash''),
     entry_of CORE_DIR_MASK APCORE_TYPE ''APCOREDUMP'' HISTORY_CORE_DIR (Some ''.core''),
     entry_of CORE_DIR_MASK HPROF_TYPE ''HPROF'' HISTORY_CORE_DIR (Some ''.hprof''),
     entry_of STAT_DIR_MASK STATTRIG_TYPE ''STTRIG'' STAT_DIR (Some ''_trigger''),
     entry_of STAT_DIR_MASK INFOTRIG_TYPE ''STTRIG'' STAT_DIR (Some ''_infoevent''),
     entry_of STAT_DIR_MASK ERRORTRIG_TYPE ''STTRIG'' STAT_DIR (Some ''_errorevent''),
     entry_of APLOG_DIR_MASK APLOGTRIG_TYPE ''APLOGTRIG'' APLOG_DIR (Some ''_trigger''),
     entry_of APLOG_DIR_MASK CMDTRIG_TYPE ''CMDTRIG'' APLOG_DIR (Some ''_cmd''),
     entry_of RESET_DIR_MASK BUILDID_TYPE ''RESET_LOGS'' LOG_BUILDID None,
     entry_of UPTIME_MASK UPTIME_TYPE ''CURRENTUPTIME'' UPTIME_FILE None]"

definition entry_enabled :: "'w runtime_scheme \<Rightarrow> watch_entry \<Rightarrow> bool" where
  "entry_enabled s e = event_type_enabled (config_coredump s) (g_crashlog_mode s) (eventtype e)"

definition set_watch_entry_callback :: "nat \<Rightarrow> callback \<Rightarrow> ('w, int) rop" where
  "set_watch_entry_callback watch_type cb = do {
     tab \<leftarrow> gets wd_array;
     if watch_type \<ge> length tab then ret (-1)
     else do {
       on \<leftarrow> gets (\<lambda>s. entry_enabled s (tab ! watch_type));
       (if on then modify (\<lambda>s. s\<lparr>wd_array := tab[watch_type := (tab ! watch_type)\<lparr>pcallback := Some cb\<rparr>]\<rparr>) else ret ());
       ret 0 } }"

section \<open>Installing the watches\<close>

definition set_entry :: "nat \<Rightarrow> (watch_entry \<Rightarrow> watch_entry) \<Rightarrow> ('w, unit) rop" where
  "set_entry i f = modify (\<lambda>s. s\<lparr>wd_array := (wd_array s)[i := f (wd_array s ! i)]\<rparr>)"

text \<open>One turn of the loop: skip a disabled entry, share the watch of an earlier one, or add one.\<close>

definition install_entry :: "nat \<Rightarrow> ('w, unit) rop" where
  "install_entry i = do {
     e \<leftarrow> gets (\<lambda>s. wd_array s ! i);
     on \<leftarrow> gets (\<lambda>s. entry_enabled s e);
     if \<not> on then ret ()
     else do {
       old \<leftarrow> gets (\<lambda>s. find (\<lambda>f. eventpath f = eventpath e) (take i (wd_array s)));
       (case old of
          Some f \<Rightarrow> set_entry i (\<lambda>e. e\<lparr>wd := wd f\<rparr>)
        | None \<Rightarrow> do {
            w \<leftarrow> inotify_add_watch (eventpath e) (eventmask e);
            err \<leftarrow> gets errno;
            set_entry i (\<lambda>e. e\<lparr>wd := w, inotify_error := (if w < 0 then err else inotify_error e)\<rparr>) }) } }"

fun install_from :: "nat \<Rightarrow> nat \<Rightarrow> ('w, unit) rop" where
  "install_from 0 i = ret ()"
| "install_from (Suc n) i = do { install_entry i; install_from n (Suc i) }"

text \<open>\<open>init_inotify_handler\<close>: a descriptor (3 stands for it), or the negated error.\<close>

definition init_inotify_handler :: "('w, int) rop" where
  "init_inotify_handler = do {
     f \<leftarrow> syscall;
     (case f of
        Fails e \<Rightarrow> do { set_errno e; ret (- e) }
      | _ \<Rightarrow> do {
          n \<leftarrow> gets (\<lambda>s. length (wd_array s));
          install_from n 0;
          cs \<leftarrow> gets modem_entries;
          cs' \<leftarrow> generic_add_watch cs;
          modify (\<lambda>s. s\<lparr>modem_entries := cs'\<rparr>);
          ret 3 }) }"

text \<open>An entry is missing when its watch failed and no earlier entry has the same path.\<close>

definition watched :: "watch_entry \<Rightarrow> bool" where
  "watched e \<longleftrightarrow> wd e \<ge> 0 \<and> inotify_error e = 0"

fun missing_from :: "watch_entry list \<Rightarrow> watch_entry list \<Rightarrow> watch_entry list" where
  "missing_from before [] = []"
| "missing_from before (e # es) =
     (if watched e \<or> eventpath e \<in> eventpath ` set before then missing_from (before @ [e]) es
      else e # missing_from (before @ [e]) es)"

definition get_missing_watched_dir_nb :: "'w runtime_scheme \<Rightarrow> int" where
  "get_missing_watched_dir_nb s = int (length (missing_from [] (wd_array s)))"

fun infoevents_for :: "(int \<Rightarrow> string) \<Rightarrow> string \<Rightarrow> watch_entry list \<Rightarrow> ('w, unit) dop" where
  "infoevents_for strerror date [] = ret ()"
| "infoevents_for strerror date (e # es) = do {
     create_infoevent ''crashlog_watcher_infoevent'' (Some (eventpath e)) (Some (strerror (inotify_error e))) (Some date);
     infoevents_for strerror date es }"

definition handle_missing_watched_dir :: "(int \<Rightarrow> string) \<Rightarrow> ('w, unit) rop" where
  "handle_missing_watched_dir strerror = do {
     date \<leftarrow> get_current_time_long True;
     _ \<leftarrow> raise_infoerror ''ERROR'' ''CRASHLOG_WATCHER'';
     es \<leftarrow> gets (\<lambda>s. missing_from [] (wd_array s));
     infoevents_for strerror date es }"

text \<open>The parents of the missing paths, each once, as options of the monitoring script.\<close>

fun crashenv_options :: "watch_entry list \<Rightarrow> string list \<Rightarrow> string \<Rightarrow> string" where
  "crashenv_options [] parents param = param"
| "crashenv_options (e # es) parents param =
     (if watched e then crashenv_options es parents param
      else case get_parent_dir (Some (eventpath e)) True of
             (r, None) \<Rightarrow> crashenv_options es parents param
           | (r, Some p) \<Rightarrow>
               if r \<noteq> 0 \<or> p \<in> set parents then crashenv_options es parents param
               else let tmp = snprintf PATHMAX (''-l '' @ p @ '' '')
                    in crashenv_options es (parents @ [p])
                         (if PATHMAX - 1 - length param \<ge> length tmp then param @ tmp else param))"

definition build_crashenv_dir_list_option :: "'w runtime_scheme \<Rightarrow> string" where
  "build_crashenv_dir_list_option s = crashenv_options (wd_array s) [] []"

section \<open>Finding the entry of an event\<close>

text \<open>
  The first entry with the descriptor of the event whose pattern occurs in its name; an event without
  a name belongs to an entry without a pattern. A name meeting an entry without a pattern makes
  \<open>strstr\<close> read through a null pointer.
\<close>

fun get_event_entry :: "watch_entry list \<Rightarrow> int \<Rightarrow> string option \<Rightarrow> ('w, watch_entry option) op" where
  "get_event_entry [] w name = ret None"
| "get_event_entry (e # es) w name =
     (if wd e \<noteq> w then get_event_entry es w name
      else case (name, eventpattern e) of
             (None, None) \<Rightarrow> ret (Some e)
           | (None, Some p) \<Rightarrow> get_event_entry es w name
           | (Some n, Some p) \<Rightarrow> if contains n p then ret (Some e) else get_event_entry es w name
           | (Some n, None) \<Rightarrow> do { effect (NullDeref ''get_event_entry''); ret None })"

section \<open>Taking events out of the buffer\<close>

text \<open>
  The next event of a non-empty buffer \<open>buf\<close>, given the event \<open>prev\<close> that was handled before: its
  bytes and the rest of the buffer, or nothing after a read error. The test whether the event is
  complete is made with the length field of \<open>prev\<close>, since the pointer moves on only afterwards.
\<close>

definition next_event :: "string \<Rightarrow> string \<Rightarrow> ('w, (string \<times> string) option) rop" where
  "next_event buf prev =
     (if length buf < EVSZ then do {
        r \<leftarrow> read_inotify (EVSZ - length buf);
        (case r of
           None \<Rightarrow> ret None
         | Some d \<Rightarrow>
             if length d \<noteq> EVSZ - length buf then ret None
             else do {
               let header = buf @ d;
               r2 \<leftarrow> read_inotify (ev_len (decode header));
               (case r2 of
                  None \<Rightarrow> ret None
                | Some n \<Rightarrow> ret (if length n \<noteq> ev_len (decode header) then None else Some (header @ n, []))) }) }
      else if length buf < EVSZ + ev_len (decode prev) then do {
        let missing_bytes = EVSZ + ev_len (decode prev) - length buf;
        r \<leftarrow> read_inotify missing_bytes;
        (case r of
           None \<Rightarrow> ret None
         | Some d \<Rightarrow> ret (if length d \<noteq> missing_bytes then None else Some (buf @ d, []))) }
      else do {
        let n = EVSZ + ev_len (decode buf);
        (if length buf < n then effect (BadRead ''receive_inotify_events'') else ret ());
        ret (Some (buf, drop n buf)) })"

text \<open>A watched directory was deleted or moved: it is created again and watched again.\<close>

definition rewatch :: "inotify_event \<Rightarrow> ('w, bool) rop" where
  "rewatch event = do {
     es \<leftarrow> gets (\<lambda>s. filter (\<lambda>e. wd e = ev_wd event) (wd_array s));
     if es = [] then ret True
     else do {
       let entry = last es;
       ok \<leftarrow> sys_mkdir (eventpath entry);
       if \<not> ok then ret False
       else do {
         inotify_rm_watch (ev_wd event);
         w \<leftarrow> inotify_add_watch (eventpath entry) (eventmask entry);
         if w < 0 then ret False
         else do {
           modify (\<lambda>s. s\<lparr>wd_array := map (\<lambda>e. if wd e = ev_wd event then e\<lparr>wd := w\<rparr> else e) (wd_array s)\<rparr>);
           ret True } } } }"

text \<open>What is done with one event; the result says whether the loop goes on.\<close>

definition handle_event :: "(callback \<Rightarrow> watch_entry \<Rightarrow> inotify_event \<Rightarrow> ('w, int) rop) \<Rightarrow> inotify_event \<Rightarrow> ('w, bool) rop" where
  "handle_event call event =
     (if ev_mask event AND IN_ISDIR = 0 then do {
        tab \<leftarrow> gets wd_array;
        entry \<leftarrow> get_event_entry tab (ev_wd event) (if ev_len event \<noteq> 0 then Some (ev_name event) else None);
        (case entry of
           None \<Rightarrow>
             if ev_len event > 8 \<and> take 8 (ev_name event) = ''dropbox-'' then do {
               inotify_rm_watch (ev_wd event);
               _ \<leftarrow> finalize_dropbox_pending_event;
               ret True }
             else ret True
         | Some e \<Rightarrow>
             (case pcallback e of
                None \<Rightarrow> ret True
              | Some cb \<Rightarrow> do { r \<leftarrow> call cb e event; ret (r \<ge> 0) })) }
      else if ev_mask event AND (IN_DELETE_SELF OR IN_MOVE_SELF) \<noteq> 0 then rewatch event
      else ret True)"

text \<open>The loop; each turn takes at least 16 bytes, or all that are left, from the buffer.\<close>

fun receive_loop :: "nat \<Rightarrow> (callback \<Rightarrow> watch_entry \<Rightarrow> inotify_event \<Rightarrow> ('w, int) rop) \<Rightarrow> string \<Rightarrow> string \<Rightarrow> ('w, int) rop" where
  "receive_loop 0 call buf prev = ret 0"
| "receive_loop (Suc n) call buf prev =
     (if buf = [] then ret 0
      else do {
        r \<leftarrow> next_event buf prev;
        (case r of
           None \<Rightarrow> ret (-1)
         | Some (bytes, rest) \<Rightarrow> do {
             go_on \<leftarrow> handle_event call (decode bytes);
             if go_on then receive_loop n call rest bytes else ret (-1) }) })"

definition receive_inotify_events ::
    "(callback \<Rightarrow> watch_entry \<Rightarrow> inotify_event \<Rightarrow> ('w, int) rop) \<Rightarrow> ('w, int) rop" where
  "receive_inotify_events call = do {
     r \<leftarrow> read_inotify (EVSZ + PATHMAX);
     (case r of
        None \<Rightarrow> do { e \<leftarrow> gets errno; ret (- e) }
      | Some buf \<Rightarrow> receive_loop (Suc (length buf)) call buf buf) }"

end
