(* ===== verification/Inotify_Loop.thy ===== *)
theory Inotify_Loop
  imports Inotify
begin

text \<open>
  What the loop over a buffer of inotify events does: it handles the events one after the other, as
  long as none is shorter than its predecessor demands; otherwise a complete event is taken for a
  truncated one and lost.
\<close>

fun handle_all :: "(callback \<Rightarrow> watch_entry \<Rightarrow> inotify_event \<Rightarrow> ('w, int) rop) \<Rightarrow> inotify_event list \<Rightarrow> ('w, int) rop" where
  "handle_all call [] = ret 0"
| "handle_all call (e # es) = do {
     go_on \<leftarrow> handle_event call e;
     if go_on then handle_all call es else ret (-1) }"

text \<open>Behind every event but the last there are at least as many bytes as the event itself has.\<close>

fun steady :: "inotify_event list \<Rightarrow> bool" where
  "steady [] = True"
| "steady [e] = True"
| "steady (e # f # es) \<longleftrightarrow> EVSZ + ev_len e \<le> length (concat (map encode (f # es))) \<and> steady (f # es)"

lemma next_event_whole:
  assumes "kernel_event e" "EVSZ + ev_len (decode prev) \<le> length (encode e @ rest)"
  shows "run_state (next_event (encode e @ rest) prev) s = (Some (encode e @ rest, rest), s)"
proof -
  have "\<not> length (encode e @ rest) < EVSZ" "drop (EVSZ + ev_len e) (encode e @ rest) = rest"
    "\<not> length (encode e @ rest) < EVSZ + ev_len e"
    using length_encode [OF assms(1)] by simp_all
  then show ?thesis
    using assms(2) by (simp add: next_event_def Let_def decode_encode [OF assms(1)] del: length_append drop_append)
qed

lemma encode_nonempty: "kernel_event e \<Longrightarrow> encode e \<noteq> []"
  using length_encode [of e] by (auto simp: EVSZ_def)

lemma receive_loop_whole:
  assumes "\<forall>e\<in>set es. kernel_event e" "steady es" "length es < n"
    "es \<noteq> [] \<longrightarrow> EVSZ + ev_len (decode prev) \<le> length (concat (map encode es))"
  shows "run_state (receive_loop n call (concat (map encode es)) prev) s = run_state (handle_all call es) s"
  using assms
proof (induction es arbitrary: n prev s)
  case (Cons e es)
  then obtain m where n: "n = Suc m" by (cases n) auto
  have e: "kernel_event e" using Cons.prems by simp
  let ?rest = "concat (map encode es)"
  have "steady es" using Cons.prems(2) by (cases es) auto
  moreover have "es \<noteq> [] \<longrightarrow> EVSZ + ev_len (decode (encode e @ ?rest)) \<le> length ?rest"
    using Cons.prems(2) decode_encode [OF e, of ?rest] by (cases es) auto
  ultimately have "run_state (receive_loop m call ?rest (encode e @ ?rest)) t = run_state (handle_all call es) t" for t
    using Cons.prems n by (intro Cons.IH) auto
  moreover have "EVSZ + ev_len (decode prev) \<le> length (encode e @ ?rest)" using Cons.prems(4) by simp
  ultimately show ?case
    using next_event_whole [OF e, of prev ?rest s] encode_nonempty [OF e]
    by (simp add: n decode_encode [OF e] split: prod.splits)
next
  case Nil
  then show ?case by (cases n) auto
qed

text \<open>The queue holds encoded events; a read takes those that fit the buffer.\<close>

lemma fit_all: "length (concat qs) \<le> n \<Longrightarrow> fit n qs = qs"
  by (induction n qs rule: fit.induct) auto

lemma read_inotify_all:
  assumes "reliable s" "inotify_queue s = qs" "qs \<noteq> []" "length (concat qs) \<le> n"
  shows "run_state (read_inotify n) s = (Some (concat qs), s\<lparr>calls := Suc (calls s), inotify_queue := []\<rparr>)"
  using assms by (simp add: read_inotify_def fit_all)

text \<open>
  C40. Events are handled in order, each once: when no read fails, the queued events fit the buffer of
  one read and behind each event but the last there are at least as many bytes as it has itself, the
  loop with its byte arithmetic does exactly what handling the list of events does, up to the first
  handler that fails, and it ends. (Without the condition on the bytes an event may be lost, see
  \<open>receive_short_event_lost\<close>.)
\<close>

theorem receive_inotify_events_in_order:
  assumes "reliable s" "inotify_queue s = map encode es" "es \<noteq> []" "\<forall>e\<in>set es. kernel_event e"
    "steady es" "length (concat (map encode es)) \<le> EVSZ + PATHMAX"
  shows "run_state (receive_inotify_events call) s =
    run_state (handle_all call es) (s\<lparr>calls := Suc (calls s), inotify_queue := []\<rparr>)"
proof -
  let ?b = "concat (map encode es)"
  have "length es < Suc (length ?b)"
    using assms(4) by (induction es) (auto simp: length_encode EVSZ_def)
  moreover have "EVSZ + ev_len (decode ?b) \<le> length ?b"
    using assms(3,4) by (cases es) (auto simp: decode_encode length_encode)
  ultimately have "run_state (receive_loop (Suc (length ?b)) call ?b ?b) t = run_state (handle_all call es) t" for t
    using assms by (intro receive_loop_whole) auto
  then show ?thesis
    using assms by (simp add: receive_inotify_events_def read_inotify_all del: receive_loop.simps)
qed

section \<open>Two events\<close>

definition sample_event :: "nat \<Rightarrow> inotify_event" where
  "sample_event n = \<lparr>ev_wd = 7, ev_mask = IN_CLOSE_WRITE, ev_cookie = 0, ev_len = n, ev_name = ''x''\<rparr>"

definition queued :: "inotify_event list \<Rightarrow> runtime" where
  "queued es = sample_runtime\<lparr>inotify_queue := map encode es\<rparr>"

lemma sample_event_kernel: "1 < n \<Longrightarrow> n \<le> PATHMAX \<Longrightarrow> kernel_event (sample_event n)"
  by (simp add: kernel_event_def sample_event_def)

lemma queued_fields [simp]: "reliable (queued es)" "inotify_queue (queued es) = map encode es" "wd_array (queued es) = []"
  by (simp_all add: queued_def reliable_def sample_runtime_def daemon.defs runtime.defs)

lemma handle_event_stray:
  "wd_array s = [] \<Longrightarrow> run_state (handle_event call (sample_event n)) s = (True, s)"
  by (simp add: handle_event_def sample_event_def in_defs)

theorem receive_inotify_events_in_order_witness:
  "run_state (receive_inotify_events (\<lambda>_ _ _. ret 0)) (queued [sample_event 16, sample_event 16]) =
   (0, (queued [sample_event 16, sample_event 16])\<lparr>calls := Suc (calls (queued [sample_event 16, sample_event 16])), inotify_queue := []\<rparr>)"
proof -
  let ?es = "[sample_event 16, sample_event 16]"
  have k: "kernel_event (sample_event 16)" by (rule sample_event_kernel) (simp_all add: PATHMAX_def)
  have l: "length (encode (sample_event 16)) = 32" using length_encode [OF k] by (simp add: EVSZ_def sample_event_def)
  have "run_state (receive_inotify_events (\<lambda>_ _ _. ret 0)) (queued ?es) =
      run_state (handle_all (\<lambda>_ _ _. ret 0) ?es) ((queued ?es)\<lparr>calls := Suc (calls (queued ?es)), inotify_queue := []\<rparr>)"
    by (rule receive_inotify_events_in_order) (use k l in \<open>auto simp: EVSZ_def PATHMAX_def sample_event_def\<close>)
  then show ?thesis by (simp add: handle_event_stray)
qed

text \<open>
  An event that is shorter than the one before it may be lost: of two complete events in one
  buffer, of which the second has the shorter name field, only the first is handled. The second is
  taken for a truncated event and the bytes that seem to be missing are read from the descriptor; the
  next queued event does not fit them, so that the read fails and the call returns an error.
\<close>

theorem receive_short_event_lost:
  assumes "reliable s" "fit (EVSZ + PATHMAX) (inotify_queue s) = [encode e1, encode e2]"
    "kernel_event e1" "kernel_event e2" "kernel_event e3" "ev_len e2 < ev_len e1"
    "ev_len e1 - ev_len e2 < EVSZ + ev_len e3"
    "run_state (handle_event call e1) (s\<lparr>calls := Suc (calls s), inotify_queue := drop 2 (inotify_queue s)\<rparr>) = (True, t)"
    "reliable t" "inotify_queue t = encode e3 # qs"
  shows "run_state (receive_inotify_events call) s = (-1, t\<lparr>calls := Suc (calls t), errno := EINVAL\<rparr>)"
proof -
  let ?b = "encode e1 @ encode e2" and ?s = "s\<lparr>calls := Suc (calls s), inotify_queue := drop 2 (inotify_queue s)\<rparr>"
  note len = length_encode [OF assms(3)] length_encode [OF assms(4)] length_encode [OF assms(5)]
  have n1: "run_state (next_event ?b ?b) ?s = (Some (?b, encode e2), ?s)"
    using len decode_encode [OF assms(3)] by (intro next_event_whole [OF assms(3)]) simp
  have n2: "run_state (next_event (encode e2) ?b) t = (None, t\<lparr>calls := Suc (calls t), errno := EINVAL\<rparr>)"
    using len assms(6,7,9,10) by (simp add: next_event_def read_inotify_def decode_encode [OF assms(3)] EVSZ_def Let_def)
  have ne: "?b \<noteq> []" "encode e2 \<noteq> []" using encode_nonempty assms(3,4) by auto
  have "run_state (receive_loop (Suc (Suc k)) call ?b ?b) ?s = (-1, t\<lparr>calls := Suc (calls t), errno := EINVAL\<rparr>)" for k
    using n1 n2 ne assms(8) by (simp add: decode_encode [OF assms(3)])
  moreover have "run_state (read_inotify (EVSZ + PATHMAX)) s = (Some ?b, ?s)"
    using assms(1,2) by (simp add: read_inotify_def numeral_2_eq_2)
  moreover obtain k where "length ?b = Suc k" using ne by (cases ?b) auto
  ultimately show ?thesis
    by (simp add: receive_inotify_events_def del: receive_loop.simps)
qed

theorem receive_short_event_lost_witness:
  "\<exists>t. run_state (receive_inotify_events (\<lambda>_ _ _. ret 0)) (queued [sample_event 256, sample_event 16, sample_event 256]) = (-1, t)"
proof -
  let ?s = "queued [sample_event 256, sample_event 16, sample_event 256]"
  let ?t = "?s\<lparr>calls := Suc (calls ?s), inotify_queue := drop 2 (inotify_queue ?s)\<rparr>"
  have k: "kernel_event (sample_event 256)" "kernel_event (sample_event 16)"
    by (rule sample_event_kernel; simp add: PATHMAX_def)+
  have len: "ev_len (sample_event n) = n" for n by (simp add: sample_event_def)
  have "fit (EVSZ + PATHMAX) (inotify_queue ?s) = [encode (sample_event 256), encode (sample_event 16)]"
    by (simp add: length_encode k len EVSZ_def PATHMAX_def)
  moreover have "run_state (handle_event (\<lambda>_ _ _. ret 0) (sample_event 256)) ?t = (True, ?t)"
    by (rule handle_event_stray) simp
  moreover have "inotify_queue ?t = encode (sample_event 256) # []" "reliable ?t" "reliable ?s"
    using queued_fields(1) [of "[sample_event 256, sample_event 16, sample_event 256]"] by (simp_all add: reliable_def)
  ultimately show ?thesis
    using receive_short_event_lost [of ?s, OF _ _ k(1) k(2) k(1)] by (simp add: len EVSZ_def)
qed

end
