(* ===== verification/Usercrash.thy ===== *)
theory Usercrash
  imports Inotify_Loop
begin

text \<open>
  Crashes of applications: tombstones, Java crashes and heap dumps (usercrash.c), core dumps with the
  fields their names carry, and applications or servers that do not answer (anruiwdt.c). The build has
  neither full reports, nor back traces, nor dumps of the binder.
\<close>

section \<open>Crashes\<close>

definition PROP_COREDUMP :: string where "PROP_COREDUMP = ''persist.vendor.core.enabled''"

text \<open>The only entry of \<open>crashevent_fakes_array\<close> is for tombstones.\<close>

definition priv_filter_crashevent :: "event_type \<Rightarrow> string \<Rightarrow> ('w, string) op" where
  "priv_filter_crashevent ty path =
     (if ty = TOMBSTONE_TYPE then do {
        r \<leftarrow> find_str_in_file (Some path) (Some ''bionic-unit-tests-cts'') (Some ''<<<'');
        ret (if r = 1 then FAKE_EVENT_SUFFIX else []) }
      else ret [])"

definition crash_failed :: "string option \<Rightarrow> string \<Rightarrow> string \<Rightarrow> bool \<Rightarrow> ('w, int) rop" where
  "crash_failed key level name refresh = do {
     _ \<leftarrow> raise_event key (Some level) (Some name) None None;
     _ \<leftarrow> get_current_time_long refresh;
     ret (-1) }"

definition priv_process_usercrash_event :: "watch_entry \<Rightarrow> inotify_event \<Rightarrow> ('w, int) rop" where
  "priv_process_usercrash_event entry event = do {
     dup \<leftarrow> (if eventtype entry \<in> {JAVACRASH_TYPE, JAVACRASH_TYPE2, JAVATOMBSTONE_TYPE}
              then manage_duplicate_dropbox_events event else ret 0);
     if dup \<noteq> 0 then ret 1
     else if eventtype entry = TOMBSTONE_TYPE \<and> contains (ev_name event) ''.pb'' then ret 1
     else do {
       let path = snprintf PATHMAX (eventpath entry @ ''/'' @ ev_name event);
       suffix \<leftarrow> priv_filter_crashevent (eventtype entry) path;
       let name = snprintf PATHMAX (eventname entry @ suffix);
       key \<leftarrow> generate_event_id (Some ''CRASH'') (Some name);
       dir \<leftarrow> generate_crashlog_dir MODE_CRASH key;
       ex \<leftarrow> gets (file_exists path);
       (case dir of
          None \<Rightarrow> crash_failed key ''CRASH'' (eventname entry) True
        | Some d \<Rightarrow>
            if \<not> ex then crash_failed key ''CRASH'' (eventname entry) True
            else do {
              _ \<leftarrow> do_copy_tail (Some path) (Some (snprintf PATHMAX (d @ ''/'' @ ev_name event))) MAXFILESIZE;
              (if eventtype entry \<in> {TOMBSTONE_TYPE, JAVATOMBSTONE_TYPE, JAVACRASH_TYPE2, JAVACRASH_TYPE} then do {
                 ts \<leftarrow> get_current_time_short True;
                 do_log_copy name d ts APLOG_TYPE }
               else if eventtype entry = HPROF_TYPE then c_remove path
               else ret ());
              _ \<leftarrow> raise_event key (Some ''CRASH'') (Some name) None (Some d);
              _ \<leftarrow> get_current_time_long False;
              ret 1 }) } }"

definition process_usercrash_event :: "watch_entry \<Rightarrow> inotify_event \<Rightarrow> ('w, int) rop" where
  "process_usercrash_event entry event = priv_process_usercrash_event entry event"

definition coredump_on :: "'w world_scheme \<Rightarrow> bool" where
  "coredump_on s = (case prop_get s PROP_COREDUMP [] of [] \<Rightarrow> False | c # _ \<Rightarrow> c = CHR ''1'')"

definition process_hprof_event :: "watch_entry \<Rightarrow> inotify_event \<Rightarrow> ('w, int) rop" where
  "process_hprof_event entry event = do {
     on \<leftarrow> gets coredump_on;
     if \<not> on then ret (-1) else priv_process_usercrash_event entry event }"

section \<open>Core dumps\<close>

text \<open>
  \<open>core_fields\<close> splits the name \<open>time_pid_signal_command.core\<close>: the fields for the pid, the signal and
  the command, as far as they are there. A field that is not followed by another runs to the end.
\<close>

definition core_fields :: "string \<Rightarrow> string option \<times> string option \<times> string option" where
  "core_fields name =
     (case strchr name (CHR ''_'') of
        None \<Rightarrow> (None, None, None)
      | Some a \<Rightarrow>
          (case strchr (tl a) (CHR ''_'') of
             None \<Rightarrow> (Some (tl a), None, None)
           | Some b \<Rightarrow>
               let pid_str = take (length (tl a) - length b) (tl a) in
               (case strchr (tl b) (CHR ''_'') of
                  None \<Rightarrow> (Some pid_str, Some (tl b), None)
                | Some c \<Rightarrow>
                    let signal_str = take (length (tl b) - length c) (tl b) in
                    if CHR ''.'' \<notin> set (tl c) then (Some pid_str, Some signal_str, None)
                    else (Some pid_str, Some signal_str,
                          Some (rev (tl (dropWhile (\<lambda>x. x \<noteq> CHR ''.'') (rev (tl c)))))))))"

lemma dropWhile_other: "x \<notin> set xs \<Longrightarrow> dropWhile (\<lambda>y. y \<noteq> x) (xs @ x # ys) = x # ys"
  by (induction xs) auto

text \<open>
  C39. The name of a core dump gives back what it was made of: a time, a pid and a signal without
  underscores and any command, which may itself hold underscores and dots.
\<close>

theorem core_fields_roundtrip:
  assumes "CHR ''_'' \<notin> set time" "CHR ''_'' \<notin> set pid" "CHR ''_'' \<notin> set sig" "CHR ''.'' \<notin> set ext"
  shows "core_fields (time @ ''_'' @ pid @ ''_'' @ sig @ ''_'' @ cmd @ ''.'' @ ext) = (Some pid, Some sig, Some cmd)"
  using assms dropWhile_other [of "CHR ''.''" "rev ext" "rev cmd"]
  by (simp add: core_fields_def strchr_append)

theorem core_fields_roundtrip_witness:
  "core_fields ''1450000000_1234_11_my_app.bin.core'' = (Some ''1234'', Some ''11'', Some ''my_app.bin'')"
  using core_fields_roundtrip [of "''1450000000''" "''1234''" "''11''" "''core''" "''my_app.bin''"] by simp

text \<open>The numbers of the signals on Linux; \<open>SIGSTKFLT\<close> is 16.\<close>

definition fatal_signals :: "nat list" where
  "fatal_signals = [6, 7, 8, 4, 13, 11, 16, 5]"

definition sys_signame :: "nat \<Rightarrow> string" where
  "sys_signame n = (if n < 32 then [[], ''HUP'', ''INT'', ''QUIT'', ''ILL'', ''TRAP'', ''ABRT'', ''BUS'', ''FPE'', ''KILL'', ''USR1'',
      ''SEGV'', ''USR2'', ''PIPE'', ''ALRM'', ''TERM'', ''STKFLT'', ''CHLD'', ''CONT'', ''STOP'', ''TSTP'', ''TTIN'', ''TTOU'',
      ''URG'', ''XCPU'', ''XFSZ'', ''VTALRM'', ''PROF'', ''WINCH'', ''IO'', ''PWR'', ''SYS''] ! n else ''(null)'')"

definition NSIG :: nat where "NSIG = 65"

definition signal_number :: "string option \<Rightarrow> nat" where
  "signal_number signal_str = (case signal_str of None \<Rightarrow> 0 | Some s \<Rightarrow> nat (strtol10 s mod 256))"

definition core_data :: "string option \<times> string option \<times> string option \<Rightarrow> string" where
  "core_data f = (case f of (pid_str, signal_str, command_str) \<Rightarrow>
     data_line ''DATA0'' command_str @
     (case signal_str of
        None \<Rightarrow> []
      | Some s \<Rightarrow> let n = signal_number signal_str
                  in ''DATA1=SIG'' @ (if 0 < n \<and> n < NSIG then sys_signame n else s) @ [NL]) @
     data_line ''DATA3'' pid_str)"

definition backup_apcoredump :: "string \<Rightarrow> string \<Rightarrow> string \<Rightarrow> ('w, unit) rop" where
  "backup_apcoredump dir name path = do {
     status \<leftarrow> do_copy_tail (Some path) (Some (snprintf 512 (dir @ ''/'' @ name))) 0;
     (if status < 0 then ret () else c_remove path) }"

definition write_core_data :: "string \<Rightarrow> string \<Rightarrow> ('w, unit) rop" where
  "write_core_data destion d = do {
     ok \<leftarrow> open_trunc destion;
     if \<not> ok then ret ()
     else do {
       _ \<leftarrow> write_end destion d;
       _ \<leftarrow> chown_log destion;
       ret () } }"

definition process_apcore_event :: "watch_entry \<Rightarrow> inotify_event \<Rightarrow> ('w, int) rop" where
  "process_apcore_event entry event = do {
     on \<leftarrow> gets coredump_on;
     if \<not> on then ret (-1)
     else do {
       ok \<leftarrow> alloc;
       if \<not> ok then ret (-1)
       else do {
         let fields = core_fields (ev_name event);
         let fatal = (signal_number (fst (snd fields)) \<in> set fatal_signals);
         let event_lv = (if fatal then ''ERROR'' else ''CRASH'');
         let event_sufix = (if fatal then ''_errorevent'' else ''_crashdata'');
         let path = snprintf PATHMAX (eventpath entry @ ''/'' @ ev_name event);
         suffix \<leftarrow> priv_filter_crashevent (eventtype entry) path;
         let name = snprintf PATHMAX (eventname entry @ suffix);
         key \<leftarrow> generate_event_id (Some event_lv) (Some name);
         dir \<leftarrow> generate_crashlog_dir MODE_CRASH key;
         ex \<leftarrow> gets (file_exists path);
         (case dir of
            None \<Rightarrow> crash_failed key event_lv (eventname entry) True
          | Some d \<Rightarrow>
              if \<not> ex then crash_failed key event_lv (eventname entry) True
              else do {
                _ \<leftarrow> do_copy_tail (Some path) (Some (snprintf PATHMAX (d @ ''/'' @ ev_name event))) MAXFILESIZE;
                backup_apcoredump d (ev_name event) path;
                ts \<leftarrow> get_current_time_short True;
                do_log_copy name d ts APLOG_TYPE;
                (if fields \<noteq> (None, None, None)
                 then write_core_data (snprintf PATHMAX (d @ ''/apcore'' @ event_sufix)) (core_data fields)
                 else ret ());
                _ \<leftarrow> raise_event key (Some event_lv) (Some name) None (Some d);
                _ \<leftarrow> get_current_time_long False;
                ret 0 }) } } }"

section \<open>Applications and servers that do not answer\<close>

definition PATH_LENGTH :: nat where "PATH_LENGTH = 256"

text \<open>Each piece of a line is written up to its first null byte.\<close>

definition do_copy_pvr :: "string \<Rightarrow> string \<Rightarrow> ('w, unit) rop" where
  "do_copy_pvr src dest = do {
     f \<leftarrow> open_read src;
     d \<leftarrow> open_trunc dest;
     (case f of
        Some text \<Rightarrow>
          if d then do { _ \<leftarrow> write_end dest (concat (map cstr (fgets_lines PATH_LENGTH text))); ret () } else ret ()
      | None \<Rightarrow> ret ()) }"

definition copy_pvr_in :: "string \<Rightarrow> string \<Rightarrow> string \<Rightarrow> ('w, unit) rop" where
  "copy_pvr_in src dir name = do {
     let destion = snprintf PATHMAX (dir @ ''/'' @ name);
     do_copy_pvr src destion;
     _ \<leftarrow> chown_log destion;
     ret () }"

text \<open>
  The short date is a pointer to a static buffer, so that what counts is its content when it is used.
\<close>

definition process_anruiwdt_event :: "watch_entry \<Rightarrow> inotify_event \<Rightarrow> ('w, int) rop" where
  "process_anruiwdt_event entry event = do {
     _ \<leftarrow> get_current_time_short True;
     dup \<leftarrow> manage_duplicate_dropbox_events event;
     if dup \<noteq> 0 then ret 1
     else do {
       key \<leftarrow> generate_event_id (Some ''CRASH'') (Some (eventname entry));
       dir \<leftarrow> generate_crashlog_dir MODE_CRASH key;
       (case dir of
          None \<Rightarrow> crash_failed key ''CRASH'' (eventname entry) False
        | Some d \<Rightarrow> do {
            copy_pvr_in ''/d/pvr/debug_dump'' d ''pvr_debug_dump.txt'';
            copy_pvr_in ''/d/sync'' d ''fence_sync.txt'';
            let path = snprintf PATHMAX (eventpath entry @ ''/'' @ ev_name event);
            ex \<leftarrow> gets (file_exists path);
            if \<not> ex then crash_failed key ''CRASH'' (eventname entry) False
            else do {
              _ \<leftarrow> do_copy_tail (Some path) (Some (snprintf PATHMAX (d @ ''/'' @ ev_name event))) MAXFILESIZE;
              dateshort \<leftarrow> gets (\<lambda>s. filter isdigit (time_long s));
              do_log_copy (eventname entry) d dateshort APLOG_TYPE;
              restart_profile_srv 1;
              _ \<leftarrow> raise_event key (Some ''CRASH'') (Some (eventname entry)) None (Some d);
              _ \<leftarrow> get_current_time_long False;
              ret 1 } }) } }"

end
