(* ===== verification/Trigger.thy ===== *)
theory Trigger
  imports Usercrash
begin

text \<open>
  Triggers (trigger.c): files by which a user asks for logs, alone or with a bug report, and files by
  which other programs report statistics; and a failed recovery, found at boot (recovery.c).
\<close>

section \<open>Logs on demand\<close>

definition PROP_APLOG_DEPTH :: string where "PROP_APLOG_DEPTH = ''persist.vendor.crashreport.aplogdepth''"
definition PROP_APLOG_NB_PACKET :: string where "PROP_APLOG_NB_PACKET = ''persist.vendor.crashreport.packet''"

text \<open>
  The number of logs per packet, the number of packets, whether baseband logs are wanted, and the
  result of the last look into the trigger file, which is the result of the whole call.
\<close>

record log_request =
  aplogDepth :: nat
  nbPacket :: nat
  bplogFlag :: int
  res_of_read :: int

text \<open>What the trigger file at \<open>path\<close> says: the number of logs, if it gives one, the flag and the result.\<close>

definition read_trigger :: "string \<Rightarrow> ('w, int option \<times> int \<times> int) op" where
  "read_trigger path = do {
     ex \<leftarrow> gets (file_exists path);
     if \<not> ex then ret (None, 0, 0)
     else do {
       (r1, v1) \<leftarrow> get_value_in_file (Some path) (Some ''APLOG='') True PATHMAX;
       (r2, v2) \<leftarrow> get_value_in_file (Some path) (Some ''BPLOG='') True PATHMAX;
       let depth = (case v1 of Some v \<Rightarrow> if r1 = 0 \<and> atoi v \<ge> 0 then Some (atoi v) else None | None \<Rightarrow> None);
       let flag = (case v2 of Some v \<Rightarrow> if r2 = 0 then atoi v else 0 | None \<Rightarrow> 0);
       ret (depth, flag, r2) } }"

definition trigger_path :: "string option \<Rightarrow> string option \<Rightarrow> string" where
  "trigger_path rootdir triggername =
     (let str = (\<lambda>v. case v of None \<Rightarrow> ''(null)'' | Some x \<Rightarrow> x)
      in snprintf PATHMAX (str rootdir @ ''/'' @ str triggername))"

definition log_request_of :: "string option \<Rightarrow> string option \<Rightarrow> ('w, log_request) op" where
  "log_request_of rootdir triggername = do {
     (depth, flag, res) \<leftarrow> (if rootdir \<noteq> None \<and> triggername \<noteq> None
                            then read_trigger (trigger_path rootdir triggername) else ret (None, 0, 0));
     (case depth of
        Some d \<Rightarrow> ret \<lparr>aplogDepth = nat d, nbPacket = 1, bplogFlag = flag, res_of_read = res\<rparr>
      | None \<Rightarrow> do {
          d \<leftarrow> gets (\<lambda>s. atoi (prop_get s PROP_APLOG_DEPTH ''5''));
          n \<leftarrow> gets (\<lambda>s. atoi (prop_get s PROP_APLOG_NB_PACKET ''1''));
          ret \<lparr>aplogDepth = nat d, nbPacket = nat n, bplogFlag = flag, res_of_read = res\<rparr> }) }"

definition log_event_names :: "dir_mode \<Rightarrow> string \<times> string" where
  "log_event_names mode = (if mode = MODE_BZ then (''BZ'', ''MANUAL'') else (''APLOG'', ''APLOGTRIG''))"

definition new_log_dir :: "dir_mode \<Rightarrow> ('w, string option \<times> string option) rop" where
  "new_log_dir mode = do {
     key \<leftarrow> generate_event_id (Some (fst (log_event_names mode))) (Some (snd (log_event_names mode)));
     dir \<leftarrow> generate_crashlog_dir mode key;
     ret (key, dir) }"

text \<open>
  The logs of one packet from \<open>logidx\<close> on, \<open>n\<close> of them at most, up to the first that is missing. The
  key and the directory are made with the first log; no result means that there is no directory.
\<close>

fun packet_logs :: "nat \<Rightarrow> dir_mode \<Rightarrow> nat \<Rightarrow> nat \<Rightarrow> nat \<Rightarrow> nat \<Rightarrow> string option \<times> string option \<Rightarrow>
    ('w, (string option \<times> string option) option) rop" where
  "packet_logs 0 mode depth cnt_len packetidx logidx kd = ret (Some kd)"
| "packet_logs (Suc n) mode depth cnt_len packetidx logidx kd = do {
     let i = packetidx * depth + logidx;
     let path = snprintf PATHMAX (if i = 0 then APLOG_FILE_0 else APLOG_FILE_0 @ ''.'' @ fmt_prec cnt_len i);
     ex \<leftarrow> gets (file_exists path);
     if \<not> ex then ret (Some kd)
     else do {
       kd' \<leftarrow> (if logidx = 0 \<and> (mode \<noteq> MODE_BZ \<or> packetidx = 0) then new_log_dir mode else ret kd);
       if logidx = 0 \<and> (mode \<noteq> MODE_BZ \<or> packetidx = 0) \<and> snd kd' = None then ret None
       else do {
         (case snd kd' of
            None \<Rightarrow> ret ()
          | Some d \<Rightarrow> do {
              _ \<leftarrow> do_copy_tail (Some path) (Some (snprintf PATHMAX (d @ ''/aplog.'' @ fmt_prec cnt_len i))) 0;
              ret () });
         packet_logs n mode depth cnt_len packetidx (Suc logidx) kd' } } }"

definition send_log_event :: "dir_mode \<Rightarrow> string option \<Rightarrow> string \<Rightarrow> ('w, unit) rop" where
  "send_log_event mode key dir = do {
     _ \<leftarrow> raise_event key (Some (fst (log_event_names mode))) (Some (snd (log_event_names mode))) None (Some dir);
     _ \<leftarrow> get_current_time_long False;
     ret () }"

definition copy_comment :: "string option \<Rightarrow> string option \<Rightarrow> string \<Rightarrow> ('w, unit) rop" where
  "copy_comment rootdir triggername dir = do {
     _ \<leftarrow> do_copy_tail (Some (trigger_path rootdir triggername)) (Some (snprintf PATHMAX (dir @ ''/user_comment''))) 0;
     ret () }"

text \<open>The packets; with \<open>MODE_APLOGS\<close> each that has a directory is an event of its own.\<close>

fun packets :: "nat \<Rightarrow> dir_mode \<Rightarrow> string option \<Rightarrow> string option \<Rightarrow> nat \<Rightarrow> nat \<Rightarrow> nat \<Rightarrow> string option \<times> string option \<Rightarrow>
    ('w, (string option \<times> string option) option) rop" where
  "packets 0 mode rootdir triggername depth cnt_len packetidx kd = ret (Some kd)"
| "packets (Suc n) mode rootdir triggername depth cnt_len packetidx kd = do {
     r \<leftarrow> packet_logs depth mode depth cnt_len packetidx 0 kd;
     (case r of
        None \<Rightarrow> ret None
      | Some (key, dir) \<Rightarrow>
          if mode = MODE_BZ then packets n mode rootdir triggername depth cnt_len (Suc packetidx) (key, dir)
          else do {
            (case dir of
               None \<Rightarrow> ret ()
             | Some d \<Rightarrow> do {
                 copy_comment rootdir triggername d;
                 send_log_event mode key d;
                 (if rootdir \<noteq> None then restart_profile_srv 2 else ret ()) });
            packets n mode rootdir triggername depth cnt_len (Suc packetidx) (key, None) }) }"

text \<open>The report of a bug: the trigger file as its description, baseband logs, screenshots.\<close>

definition bz_report :: "string option \<Rightarrow> string option \<Rightarrow> int \<Rightarrow> string option \<Rightarrow> string \<Rightarrow> ('w, unit) rop" where
  "bz_report rootdir triggername flag key d = do {
     _ \<leftarrow> do_copy_tail (Some (snprintf PATHMAX (APLOG_DIR @ ''/bz_trigger''))) (Some (snprintf PATHMAX (d @ ''/bz_description''))) 0;
     (if flag = 1 then do_logs_copy BPLOG_TYPE (-1) d (Some []) MAXFILESIZE else ret ());
     copy_comment rootdir triggername d;
     _ \<leftarrow> do_screenshot_copy (trigger_path rootdir triggername) d;
     send_log_event MODE_BZ key d;
     restart_profile_srv 2 }"

text \<open>The logs are flushed, the packets sent, the report is made, and the files removed.\<close>

definition serve_log_request :: "string option \<Rightarrow> string option \<Rightarrow> dir_mode \<Rightarrow> log_request \<Rightarrow> ('w, int) rop" where
  "serve_log_request rootdir triggername mode req = do {
     (if aplogDepth req \<noteq> 0 then flush_aplog APLOG None None None else ret ());
     cnt_len \<leftarrow> gets (\<lambda>s. if aplogDepth req \<noteq> 0 \<and> nbPacket req \<noteq> 0
                          then length (prop_get s PROP_APLOG_ROT_CNT ''1'') else 1);
     r \<leftarrow> packets (nbPacket req) mode rootdir triggername (aplogDepth req) cnt_len 0 (None, None);
     (case r of
        None \<Rightarrow> ret (-1)
      | Some (key, dir) \<Rightarrow> do {
          (key', dir') \<leftarrow> (if mode = MODE_BZ \<and> dir = None then new_log_dir mode else ret (key, dir));
          if mode = MODE_BZ \<and> dir' = None then ret (-1)
          else do {
            (case (mode = MODE_BZ, dir') of
               (True, Some d) \<Rightarrow> bz_report rootdir triggername (bplogFlag req) key' d
             | _ \<Rightarrow> ret ());
            c_remove APLOG_FILE_0;
            (if rootdir \<noteq> None \<and> triggername \<noteq> None then c_remove (trigger_path rootdir triggername) else ret ());
            ret (res_of_read req) } }) }"

definition process_log_event :: "string option \<Rightarrow> string option \<Rightarrow> dir_mode \<Rightarrow> ('w, int) rop" where
  "process_log_event rootdir triggername mode =
     (if mode \<noteq> MODE_BZ \<and> mode \<noteq> MODE_APLOGS then ret (-1)
      else do {
        req \<leftarrow> log_request_of rootdir triggername;
        serve_log_request rootdir triggername mode req })"

definition process_aplog_event :: "watch_entry \<Rightarrow> inotify_event \<Rightarrow> ('w, int) rop" where
  "process_aplog_event entry event =
     process_log_event (Some (eventpath entry)) (Some (ev_name event))
       (if take 2 (ev_name event) = ''bz'' then MODE_BZ else MODE_APLOGS)"

section \<open>Statistics\<close>

definition copy_head_and_remove :: "string \<Rightarrow> string \<Rightarrow> string \<Rightarrow> ('w, unit) dop" where
  "copy_head_and_remove src_dir dir name = do {
     let path = snprintf PATHMAX (src_dir @ ''/'' @ name);
     _ \<leftarrow> do_copy (Some path) (Some (snprintf PATHMAX (dir @ ''/'' @ name))) MAXFILESIZE;
     c_remove path }"

definition process_stat_event :: "watch_entry \<Rightarrow> inotify_event \<Rightarrow> ('w, int) rop" where
  "process_stat_event entry event = do {
     _ \<leftarrow> get_current_time_short True;
     let p = contains (snprintf 32 (ev_name event)) ''trigger'';
     let tmp = replace_from (snprintf 32 (ev_name event)) ''trigger'' ''data'';
     key \<leftarrow> generate_event_id (Some ''STATS'') (Some tmp);
     dir \<leftarrow> generate_crashlog_dir MODE_STATS key;
     (case dir of
        None \<Rightarrow> crash_failed key ''STATS'' tmp False
      | Some d \<Rightarrow> do {
          (if p then do {
             (_, found) \<leftarrow> find_matching_file (Some (eventpath entry)) (Some tmp) True;
             g \<leftarrow> gets garbage;
             copy_head_and_remove (eventpath entry) d (case found of Some n \<Rightarrow> n | None \<Rightarrow> g) }
           else ret ());
          copy_head_and_remove (eventpath entry) d (ev_name event);
          let ty = type_of_name (ev_name event) ''_trigger'';
          (if ty = ''USBBOGUS'' then do {
             dateshort \<leftarrow> gets (\<lambda>s. filter isdigit (time_long s));
             do_log_copy ty d dateshort APLOG_TYPE }
           else ret ());
          _ \<leftarrow> raise_event key (Some ''STATS'') (Some ty) None (Some d);
          _ \<leftarrow> get_current_time_long False;
          ret 0 }) }"

section \<open>Failed recovery\<close>

definition RECOVERY_ERROR_TRIGGER :: string where "RECOVERY_ERROR_TRIGGER = ''/cache/cache/recovery/recoveryfail''"
definition RECOVERY_ERROR_LOG :: string where "RECOVERY_ERROR_LOG = ''/cache/cache/recovery/last_log''"

definition crashlog_check_recovery :: "('w, int) rop" where
  "crashlog_check_recovery = do {
     ex \<leftarrow> gets (file_exists RECOVERY_ERROR_TRIGGER);
     if \<not> ex then ret 0
     else do {
       key \<leftarrow> generate_event_id (Some ''CRASH'') (Some ''RECOVERY_ERROR'');
       dir \<leftarrow> generate_crashlog_dir MODE_CRASH key;
       (case dir of
          None \<Rightarrow> do {
            r \<leftarrow> crash_failed key ''CRASH'' ''RECOVERY_ERROR'' False;
            c_remove RECOVERY_ERROR_TRIGGER;
            ret r }
        | Some d \<Rightarrow> do {
            _ \<leftarrow> do_copy (Some RECOVERY_ERROR_LOG) (Some (snprintf PATHMAX (d @ ''/recovery_last_log''))) MAXFILESIZE;
            do_last_kmsg_copy d;
            _ \<leftarrow> raise_event key (Some ''CRASH'') (Some ''RECOVERY_ERROR'') None (Some d);
            _ \<leftarrow> get_current_time_long False;
            c_remove RECOVERY_ERROR_TRIGGER;
            ret 0 }) } }"

end
