(* ===== verification/Startupreason.thy ===== *)
theory Startupreason
  imports Trigger Ctext
begin

text \<open>
  Why the system was started (startupreason.c): from a property, and, depending on the build, from the
  variables of the firmware (uefivar.c) or from the command line of the kernel; and the crash event for
  a watchdog that nothing else has explained.
\<close>

section \<open>Variables of the firmware\<close>

definition EFBIG :: int where "EFBIG = 27"
definition ERANGE :: int where "ERANGE = 34"
definition BUFSIZ :: nat where "BUFSIZ = 1024"
definition UEFI_GUID :: string where "UEFI_GUID = ''4a67b082-0a4c-41cf-b6c7-440b29bb8c4f''"

text \<open>The command's output is one line with a number; the value is stored even when it is too large.\<close>

definition uefivar_get_int :: "string option \<Rightarrow> string option \<Rightarrow> ('w, int \<times> nat option) dop" where
  "uefivar_get_int name guid =
     (case (name, guid) of
        (Some n, Some g) \<Rightarrow> do {
          ok \<leftarrow> alloc;
          if \<not> ok then ret (- ENOMEM, None)
          else do {
            f \<leftarrow> syscall;
            (case f of
               Fails e \<Rightarrow> do { set_errno e; ret (- e, None) }
             | _ \<Rightarrow> do {
                 effect (Command (''uefivar -n '' @ n @ '' -g '' @ g @ '' -t int 2> /dev/null''));
                 out \<leftarrow> gets (\<lambda>s. fgets_lines BUFSIZ (cmd_output s (calls s)));
                 p \<leftarrow> syscall;
                 (case p of
                    Fails e \<Rightarrow> do { set_errno e; ret (- e, None) }
                  | Short k \<Rightarrow> ret (int (k mod 256), None)
                  | Works \<Rightarrow>
                      (case out of
                         [line] \<Rightarrow>
                           (case strtoul 0 (cstr line) of
                              (l, rest, over) \<Rightarrow>
                                if cstr line = [] \<or> take 1 rest \<noteq> [NL] \<or> l = 2 ^ 64 - 1 then ret (- EINVAL, None)
                                else ret (if l < 2 ^ 32 then 0 else - EINVAL, Some (l mod 2 ^ 32)))
                       | _ \<Rightarrow> ret (- EFBIG, None))) }) } }
      | _ \<Rightarrow> ret (- EINVAL, None))"

definition wake_source :: "string list" where
  "wake_source = [''WAKE_NOT_APPLICABLE'', ''WAKE_BATT_INSERT'', ''WAKE_USB_CHRG_INSERT'', ''WAKE_ACDC_CHGR_INSERT'',
     ''WAKE_PWR_BUTTON_PRESS'', ''WAKE_RTC_TIMER'', ''WAKE_BATT_THRESHOLD'']"

definition reset_source :: "string list" where
  "reset_source = [''RESET_NOT_APPLICABLE'', ''RESET_OS_INITIATED'', ''RESET_FORCED'', ''RESET_FW_UPDATE'',
     ''RESET_KERNEL_WATCHDOG'', ''RESET_SECURITY_WATCHDOG'', ''RESET_SECURITY_INITIATED'', ''RESET_PMC_WATCHDOG'',
     ''RESET_EC_WATCHDOG'', ''RESET_PLATFORM_WATCHDOG'', ''RESET_KERNEL_PANIC'']"

definition reset_type :: "string list" where
  "reset_type = [''NOT_APPLICABLE'', ''WARM_RESET'', ''COLD_RESET'', ''GLOBAL_RESET'']"

definition shutdown_source :: "string list" where
  "shutdown_source = [''SHTDWN_NOT_APPLICABLE'', ''SHTDWN_POWER_BUTTON_OVERRIDE'', ''SHTDWN_BATTERY_REMOVAL'', ''SHTDWN_VCRIT'',
     ''SHTDWN_THERMTRIP'', ''SHTDWN_PMICTEMP'', ''SHTDWN_SYSTEMP'', ''SHTDWN_BATTEMP'', ''SHTDWN_SYSUVP'', ''SHTDWN_SYSOVP'',
     ''SHTDWN_SECURITY_WATCHDOG'', ''SHTDWN_SECURITY_INITIATED'', ''SHTDWN_PMC_WATCHDOG'', ''SHTDWN_ERROR'']"

definition name_in :: "string list \<Rightarrow> nat \<Rightarrow> string" where
  "name_in table s = (if 0 < s \<and> s < length table then table ! s else [])"

text \<open>The reason and the code; without a known source the reason is left as it was.\<close>

definition compute_uefi_startupreason :: "nat \<Rightarrow> nat \<Rightarrow> nat \<Rightarrow> nat \<Rightarrow> string \<Rightarrow> int \<times> string" where
  "compute_uefi_startupreason rs rt ws ss startupreason =
     (let str_wake_source = name_in wake_source ws; str_reset_source = name_in reset_source rs in
      if str_wake_source \<noteq> [] then (0, str_wake_source)
      else if str_reset_source \<noteq> [] then
        (0, if contains str_reset_source ''KERNEL_WATCHDOG'' then ''SWWDT_RESET''
            else if contains str_reset_source ''WATCHDOG'' then ''HWWDT_RESET''
            else str_reset_source)
      else (-1, startupreason))"

definition uefi_var :: "string \<Rightarrow> ('w, int \<times> nat option) dop" where
  "uefi_var name = uefivar_get_int (Some name) (Some UEFI_GUID)"

definition get_uefi_startupreason :: "string \<Rightarrow> ('w, int \<times> string) dop" where
  "get_uefi_startupreason startupreason = do {
     (r1, rs) \<leftarrow> uefi_var ''ResetSource'';
     if r1 \<noteq> 0 then ret (-1, startupreason)
     else do {
       (r2, rt) \<leftarrow> uefi_var ''ResetType'';
       if r2 \<noteq> 0 then ret (-1, startupreason)
       else do {
         (r3, ws) \<leftarrow> uefi_var ''WakeSource'';
         if r3 \<noteq> 0 then ret (-1, startupreason)
         else do {
           (r4, ss) \<leftarrow> uefi_var ''ShutdownSource'';
           if r4 \<noteq> 0 then ret (-1, startupreason)
           else if contains startupreason ''SWWDT_RESET'' then ret (0, startupreason)
           else ret (compute_uefi_startupreason (the rs) (the rt) (the ws) (the ss) startupreason) } } } }"

text \<open>The functions that give one name each; \<open>read_resetsource\<close> has a table without the last entry.\<close>

definition read_uefi_name :: "string list \<Rightarrow> string \<Rightarrow> ('w, int \<times> string option) dop" where
  "read_uefi_name table var = do {
     (r, v) \<leftarrow> uefi_var var;
     ret (if r \<noteq> 0 then (-1, None) else if name_in table (the v) \<noteq> [] then (1, Some (name_in table (the v))) else (0, None)) }"

definition read_resetsource :: "('w, int \<times> string option) dop" where
  "read_resetsource = read_uefi_name (butlast reset_source) ''ResetSource''"

definition read_resettype :: "('w, int \<times> string option) dop" where
  "read_resettype = read_uefi_name reset_type ''ResetType''"

definition read_wakesource :: "('w, int \<times> string option) dop" where
  "read_wakesource = read_uefi_name wake_source ''WakeSource''"

definition read_shutdownsource :: "('w, int \<times> string option) dop" where
  "read_shutdownsource = read_uefi_name shutdown_source ''ShutdownSource''"

section \<open>The command line of the kernel\<close>

definition STARTUP_STR :: string where "STARTUP_STR = ''androidboot.wakesrc=''"

definition bootmode_reason :: "string list" where
  "bootmode_reason = [''BATT_INSERT'', ''PWR_BUTTON_PRESS'', ''RTC_TIMER'', ''USB_CHRG_INSERT'', ''Reserved'', ''COLD_RESET'',
     ''COLD_BOOT'', ''UNKNOWN'', ''SWWDT_RESET'', ''HWWDT_RESET_SECURITY'', ''WDT_COUNTER_EXCEEDED'', ''POWER_SUPPLY_DETECTED'',
     ''FASTBOOT_BUTTONS_COMBO'', ''NO_MATCHING_OSIP_ENTRY'', ''CRITICAL_BATTERY'', ''INVALID_CHECKSUM'', ''FORCED_RESET'',
     ''ACDC_CHGR_INSERT'', ''HWWDT_RESET_PMIC'', ''HWWDT_RESET_PLATFORM'', ''HWWDT_RESET_SC'']"

text \<open>The last test: the error number is the one \<open>strtoul\<close> left, or an older one.\<close>

definition fdk_reason :: "nat \<times> string \<times> bool \<Rightarrow> string \<Rightarrow> ('w, string) op" where
  "fdk_reason r startupreason = do {
     (if snd (snd r) then set_errno ERANGE else ret ());
     e \<leftarrow> gets errno;
     ret (if e \<noteq> ERANGE \<and> fst r < length bootmode_reason then bootmode_reason ! fst r else startupreason) }"

definition get_fdk_startupreason :: "string \<Rightarrow> ('w, string) rop" where
  "get_fdk_startupreason startupreason =
     (if contains startupreason ''SWWDT_RESET'' then ret startupreason
      else do {
        name \<leftarrow> gets current_kernel_cmdline;
        fd \<leftarrow> open_read name;
        (case fd of
           None \<Rightarrow> ret startupreason
         | Some d \<Rightarrow>
             if d = [] then ret startupreason
             else
               (case strstr (cstr (take 1023 d)) STARTUP_STR of
                  None \<Rightarrow> do {
                    prop_reason \<leftarrow> gets (\<lambda>s. prop_get s ''ro.boot.wakesrc'' []);
                    if prop_reason = [] then ret startupreason
                    else fdk_reason (strtoul 16 prop_reason) startupreason }
                | Some q \<Rightarrow>
                    let p = drop (length STARTUP_STR) q
                    in if p = [] \<or> isspace (hd p) then ret startupreason
                       else do {
                         set_errno 0;
                         let r = strtoul 16 p;
                         if fst (snd r) = p then ret startupreason else fdk_reason r startupreason })) })"

section \<open>The reason\<close>

definition PROP_BOOTREASON :: string where "PROP_BOOTREASON = ''sys.boot.reason''"
definition STARTUP_REASON_LENGTH :: nat where "STARTUP_REASON_LENGTH = 48"

definition boot_reason_array :: "(string \<times> string) list" where
  "boot_reason_array = [(''WATCHDOG'', ''SWWDT_RESET''), (''KERNEL_PANIC'', ''SWWDT_RESET''), (''SECURITY_WATCHDOG'', ''HWWDT_RESET''),
     (''PMIC_WATCHDOG'', ''HWWDT_RESET''), (''EC_WATCHDOG'', ''HWWDT_RESET''), (''PLATFORM_SPECIFIC'', ''HWWDT_RESET''),
     (''GLOBAL'', ''HWWDT_RESET'')]"

definition crashtool_reason :: "string \<Rightarrow> string" where
  "crashtool_reason bootreason =
     (case find (\<lambda>(r, v). prefix r bootreason) (rev boot_reason_array) of
        Some (r, v) \<Rightarrow> v
      | None \<Rightarrow> bootreason)"

text \<open>A property may be longer than the caller's buffer of 48 bytes.\<close>

definition get_default_bootreason :: "string \<Rightarrow> ('w, string) op" where
  "get_default_bootreason bootreason = do {
     prop \<leftarrow> gets (\<lambda>s. prop_get s PROP_BOOTREASON []);
     if prop = [] then ret bootreason
     else do {
       (if length prop \<ge> STARTUP_REASON_LENGTH then effect (BadWrite ''get_default_bootreason'') else ret ());
       ret (crashtool_reason (map toupper prop)) } }"

datatype boot_config = DEFAULT_BOOT | EFILINUX | FDK

definition read_startupreason :: "boot_config \<Rightarrow> ('w, string) rop" where
  "read_startupreason cfg = do {
     r \<leftarrow> get_default_bootreason ''UNKNOWN'';
     (case cfg of
        DEFAULT_BOOT \<Rightarrow> ret r
      | EFILINUX \<Rightarrow> do { (_, r') \<leftarrow> get_uefi_startupreason r; ret r' }
      | FDK \<Rightarrow> get_fdk_startupreason r) }"

section \<open>Unexplained watchdogs\<close>

definition crashlog_check_startupreason :: "string \<Rightarrow> string \<Rightarrow> ('w, int) rop" where
  "crashlog_check_startupreason reason watchdog = do {
     _ \<leftarrow> get_current_time_short True;
     if \<not> contains reason ''WDT_'' \<or> contains reason ''FAKE'' \<or> \<not> contains watchdog ''UNHANDLED'' then ret 0
     else do {
       fake \<leftarrow> is_event_type_fake (Some watchdog);
       if fake then do { _ \<leftarrow> raise_infoerror ''ERROR'' watchdog; ret 0 }
       else do {
         key \<leftarrow> generate_event_id (Some ''CRASH'') (Some watchdog);
         dir \<leftarrow> generate_crashlog_dir MODE_CRASH key;
         (case dir of
            None \<Rightarrow> crash_failed key ''CRASH'' watchdog False
          | Some d \<Rightarrow> do {
              _ \<leftarrow> raise_event_wdt key (Some ''CRASH'') (Some watchdog) (Some reason) (Some d);
              _ \<leftarrow> get_current_time_long False;
              dateshort \<leftarrow> gets (\<lambda>s. filter isdigit (time_long s));
              flush_aplog APLOG_BOOT (Some ''WDT'') (Some d) (Some dateshort);
              do_log_copy ''WDT'' d dateshort APLOG_TYPE;
              do_last_kmsg_copy d;
              do_last_fw_msg_copy (Some d);
              ret 0 }) } } }"

end
