(* ===== verification/Panic.thy ===== *)
theory Panic
  imports Startupreason
begin

text \<open>
  Panics of the kernel (panic.c): finding out at boot from the files the kernel left whether there was
  one, of which type, and saving them; and dumps made by a second kernel. The start-up reason is passed
  on, since a panic made for a test marks it.
\<close>

definition PROP_IPANIC_PATTERN :: string where "PROP_IPANIC_PATTERN = ''persist.vendor.crashlogd.panic.pattern''"
definition PANIC_DIR :: string where "PANIC_DIR = ''/data/dontpanic''"
definition LOG_PANICTEMP :: string where "LOG_PANICTEMP = LOGS_DIR @ ''/panic_temp''"
definition PANIC_CONSOLE_NAME :: string where "PANIC_CONSOLE_NAME = ''/proc/emmc_ipanic_console''"
definition PANIC_HEADER_NAME :: string where "PANIC_HEADER_NAME = ''/proc/emmc_ipanic_header''"
definition PANIC_THREAD_NAME :: string where "PANIC_THREAD_NAME = ''/proc/emmc_ipanic_threads''"
definition PANIC_GBUFFER_NAME :: string where "PANIC_GBUFFER_NAME = ''/proc/emmc_ipanic_gbuffer''"
definition SAVED_LOGCAT_NAME :: string where "SAVED_LOGCAT_NAME = PANIC_DIR @ ''/emmc_ipanic_logcat''"
definition DMESG_RAMOOPS_0 :: string where "DMESG_RAMOOPS_0 = ''/sys/fs/pstore/dmesg-ramoops-0''"

section \<open>Saving more logs\<close>

text \<open>\<open>a || b\<close>, where \<open>b\<close> is run only when needed.\<close>

definition or_else :: "('w, bool) op \<Rightarrow> ('w, bool) op \<Rightarrow> ('w, bool) op" where
  "or_else a b = do { x \<leftarrow> a; if x then ret True else b }"

text \<open>How many of the copies of the patterns could be allocated.\<close>

fun alloc_patterns :: "nat \<Rightarrow> ('w, nat) op" where
  "alloc_patterns 0 = ret 0"
| "alloc_patterns (Suc n) = do { ok \<leftarrow> alloc; if \<not> ok then ret 0 else do { k \<leftarrow> alloc_patterns n; ret (Suc k) } }"

definition eip_pattern :: "string \<Rightarrow> string" where
  "eip_pattern p = snprintf PROPERTY_VALUE_MAX (''EIP is at '' @ p)"

text \<open>
  A negative result of the first search counts as a match, since \<open>res || \<dots>\<close> only tests for zero. With
  more patterns than records the arrays are written and read past their ends.
\<close>

definition check_aplogs_tobackup :: "string \<Rightarrow> ('w, int) rop" where
  "check_aplogs_tobackup filename = do {
     ipanic_chain \<leftarrow> gets (\<lambda>s. prop_get s PROP_IPANIC_PATTERN []);
     found \<leftarrow> (if ipanic_chain \<noteq> [] then do {
         (nbpatterns, arr) \<leftarrow> commachain_to_fixedarray (Some ipanic_chain) PROPERTY_VALUE_MAX 10;
         (case arr of
            None \<Rightarrow> ret False
          | Some pats \<Rightarrow>
              if nbpatterns \<le> 0 then ret False
              else do {
                ok \<leftarrow> alloc;
                if \<not> ok then ret False
                else do {
                  (if nbpatterns > 10 then effect (BadWrite ''check_aplogs_tobackup'') else ret ());
                  n \<leftarrow> alloc_patterns (length pats);
                  if n = 0 then ret False
                  else do {
                    (if \<exists>p \<in> set (take n pats). length p \<ge> PROPERTY_VALUE_MAX - 1
                     then effect (BadRead ''check_aplogs_tobackup'') else ret ());
                    or_else
                      (do { r \<leftarrow> find_oneofstrings_in_file_with_keyword (Some filename) (Some (take n pats)) (Some ''RIP:'') n; ret (r \<noteq> 0) })
                      (do { r \<leftarrow> find_oneofstrings_in_file (Some filename) (Some (map eip_pattern (take n pats))) n; ret (r \<noteq> 0) }) } } }) }
       else or_else
              (do { r \<leftarrow> find_oneofstrings_in_file_with_keyword (Some filename) (Some [''SGXInitialise'']) (Some ''RIP:'') 1; ret (r \<noteq> 0) })
              (do { r \<leftarrow> find_str_in_file (Some filename) (Some ''EIP is at SGXInitialise'') None; ret (r \<noteq> 0) }));
     (if found then do { _ \<leftarrow> process_log_event None None MODE_APLOGS; ret () } else ret ());
     ret (if found then 1 else 0) }"

section \<open>The type of a panic\<close>

datatype crashtype_mode = EMMC_PANIC_MODE | RAM_PANIC_MODE | DONT_PANIC_MODE

definition fake_32_pattern :: "string list" where
  "fake_32_pattern = [''EIP is at panic_dbg_set'', ''EIP is at kwd_trigger_open'', ''EIP is at kwd_trigger_write'',
     ''EIP is at reboot_notifier'', ''EIP is at sysrq_handle_crash'']"

definition fake_64_pattern :: "string list" where
  "fake_64_pattern = [''panic_dbg_set'', ''kwd_trigger_write'', ''reboot_notifier'', ''sysrq_handle_crash'']"

definition str_found :: "string \<Rightarrow> string \<Rightarrow> ('w, bool) op" where
  "str_found file str = do { r \<leftarrow> find_str_in_file (Some file) (Some str) None; ret (r > 0) }"

definition rip_found :: "string \<Rightarrow> string list \<Rightarrow> ('w, bool) op" where
  "rip_found file pats = do {
     r \<leftarrow> find_oneofstrings_in_file_with_keyword (Some file) (Some pats) (Some ''RIP:'') (length pats); ret (r > 0) }"

definition one_found :: "string \<Rightarrow> string list \<Rightarrow> ('w, bool) op" where
  "one_found file pats = do { r \<leftarrow> find_oneofstrings_in_file (Some file) (Some pats) (length pats); ret (r > 0) }"

definition crashtype_of_console :: "string \<Rightarrow> ('w, string) op" where
  "crashtype_of_console console_name = do {
     sw \<leftarrow> str_found console_name ''Kernel panic - not syncing: Kernel Watchdog'';
     if sw then do {
       test \<leftarrow> str_found console_name ''[SHTDWN] WATCHDOG TIMEOUT for test!'';
       ret (if test then ''IPANIC_SWWDT_FAKE'' else ''IPANIC_SWWDT'') }
     else do {
       hw \<leftarrow> or_else (str_found console_name ''EIP is at pmu_sc_irq'') (rip_found console_name [''pmu_sc_irq'']);
       if hw then ret ''IPANIC_HWWDT''
       else do {
         fake \<leftarrow> or_else (one_found console_name fake_32_pattern) (rip_found console_name fake_64_pattern);
         ret (if fake then ''IPANIC_FAKE'' else ''IPANIC'') } } }"

text \<open>How the start-up reason corrects the type, and the type the reason.\<close>

definition crashtype_by_reason :: "string \<Rightarrow> string \<Rightarrow> string \<times> string" where
  "crashtype_by_reason crashtype reason =
     (if crashtype = ''IPANIC_FAKE'' \<or> crashtype = ''IPANIC_SWWDT_FAKE'' then (crashtype, reason @ FAKE_EVENT_SUFFIX)
      else if prefix ''HWWDT_RESET_FAKE'' reason then (''IPANIC_FAKE'', reason)
      else if prefix ''HWWDT_RESET'' reason then (''IPANIC_HWWDT'', reason)
      else (crashtype, reason))"

definition set_ipanic_crashtype_and_reason :: "string \<Rightarrow> string \<Rightarrow> crashtype_mode \<Rightarrow> ('w, string \<times> string) rop" where
  "set_ipanic_crashtype_and_reason console_name reason mode = do {
     crashtype \<leftarrow> crashtype_of_console console_name;
     corrupted \<leftarrow> (if mode = EMMC_PANIC_MODE then do {
                     up \<leftarrow> str_found console_name ''power_up_host: host controller power up is done''; ret (\<not> up) }
                   else ret False);
     (if corrupted then do { _ \<leftarrow> raise_infoerror ''ERROR'' ''IPANIC_CORRUPTED''; ret () } else ret ());
     let (crashtype', reason') = crashtype_by_reason crashtype reason;
     (if reason' \<noteq> reason \<and> length reason' \<ge> STARTUP_REASON_LENGTH then effect (BadWrite ''set_ipanic_crashtype_and_reason'') else ret ());
     (if reason' = reason \<and> \<not> prefix ''HWWDT_RESET'' reason \<and> \<not> prefix ''SWWDT_RESET'' reason
      then do { _ \<leftarrow> raise_infoerror ''ERROR'' ''SWWDT_MISSING''; ret () } else ret ());
     modify (\<lambda>s. s\<lparr>ipanic_generated := True\<rparr>);
     ret (crashtype', reason') }"

section \<open>The places where a panic is looked for\<close>

definition date_now :: "('w, string) hop" where
  "date_now = gets (\<lambda>s. filter isdigit (time_long s))"

definition copy_eof_in :: "string \<Rightarrow> string \<Rightarrow> string \<Rightarrow> ('w, unit) dop" where
  "copy_eof_in src dir name = do {
     _ \<leftarrow> do_copy_eof (Some src) (Some (snprintf PATHMAX (dir @ ''/'' @ name)));
     ret () }"

definition send_panic :: "string option \<Rightarrow> string \<Rightarrow> string option \<Rightarrow> ('w, unit) rop" where
  "send_panic key crashtype dir = do {
     _ \<leftarrow> raise_event key (Some ''CRASH'') (Some crashtype) None dir;
     _ \<leftarrow> get_current_time_long False;
     ret () }"

definition crashlog_check_dontpanic :: "string \<Rightarrow> ('w, int \<times> string) rop" where
  "crashlog_check_dontpanic reason = do {
     bootreason \<leftarrow> gets (\<lambda>s. prop_get s PROP_BOOTREASON []);
     isdir \<leftarrow> gets (directory_exists PANIC_DIR);
     n \<leftarrow> (if contains bootreason ''panic'' \<and> isdir then dir_contains (Some PANIC_DIR) (Some ''console'') False else ret 0);
     if n \<le> 0 then ret (1, reason)
     else do {
       key \<leftarrow> generate_event_id (Some ''CRASH'') (Some []);
       dir \<leftarrow> generate_crashlog_dir MODE_CRASH key;
       (case dir of
          None \<Rightarrow> ret (-1, reason)
        | Some d \<Rightarrow> do {
            (r, base) \<leftarrow> find_matching_file (Some PANIC_DIR) (Some ''console'') True;
            let console_name = (case base of Some b \<Rightarrow> if r = 1 then snprintf PATHMAX (PANIC_DIR @ ''/'' @ b) else [] | None \<Rightarrow> []);
            _ \<leftarrow> do_copy_eof_dir (Some PANIC_DIR) (Some d);
            do_last_kmsg_copy d;
            do_wdt_log_copy d;
            (crashtype, reason') \<leftarrow> set_ipanic_crashtype_and_reason console_name reason DONT_PANIC_MODE;
            send_panic key crashtype (Some d);
            ret (0, reason') }) } }"

definition crashlog_check_panic :: "string \<Rightarrow> bool \<Rightarrow> ('w, int \<times> string) rop" where
  "crashlog_check_panic reason test = do {
     _ \<leftarrow> get_current_time_short True;
     console \<leftarrow> gets current_panic_console_name;
     ex \<leftarrow> gets (file_exists console);
     if \<not> test \<and> \<not> ex then ret (1, reason)
     else do {
       key \<leftarrow> generate_event_id (Some ''CRASH'') (Some []);
       dir \<leftarrow> generate_crashlog_dir MODE_CRASH key;
       dateshort \<leftarrow> date_now;
       (case dir of
          Some d \<Rightarrow> do {
            _ \<leftarrow> do_copy (Some SAVED_LOGCAT_NAME) (Some (snprintf PATHMAX (d @ ''/emmc_ipanic_logcat_'' @ dateshort @ ''.txt''))) MAXFILESIZE;
            copy_eof_in PANIC_HEADER_NAME d (''emmc_ipanic_header_'' @ dateshort @ ''.txt'');
            let crash_console_name = snprintf PATHMAX (d @ ''/emmc_ipanic_console_'' @ dateshort @ ''.txt'');
            _ \<leftarrow> do_copy_eof (Some PANIC_CONSOLE_NAME) (Some crash_console_name);
            copy_eof_in PANIC_THREAD_NAME d (''emmc_ipanic_threads_'' @ dateshort @ ''.txt'');
            copy_eof_in PANIC_GBUFFER_NAME d (''emmc_ipanic_gbuffer_'' @ dateshort @ ''.bin'');
            _ \<leftarrow> do_copy_eof_dir (Some PANIC_DIR) (Some d);
            do_last_kmsg_copy d;
            (crashtype, reason') \<leftarrow> set_ipanic_crashtype_and_reason crash_console_name reason EMMC_PANIC_MODE;
            do_wdt_log_copy d;
            send_panic key crashtype (Some d);
            _ \<leftarrow> check_aplogs_tobackup crash_console_name;
            ret (0, reason') }
        | None \<Rightarrow> do {
            _ \<leftarrow> do_copy_eof (Some PANIC_CONSOLE_NAME) (Some LOG_PANICTEMP);
            (crashtype, reason') \<leftarrow> set_ipanic_crashtype_and_reason LOG_PANICTEMP reason EMMC_PANIC_MODE;
            send_panic key crashtype None;
            c_remove LOG_PANICTEMP;
            ret (-1, reason') }) } }"

definition crashlog_check_ram_panic_found :: "string \<Rightarrow> string list \<Rightarrow> string option \<Rightarrow> ('w, int) op" where
  "crashlog_check_ram_panic_found ram_console panic_kw extrastring = do {
     r \<leftarrow> find_oneofstrings_in_file (Some ram_console) (Some panic_kw) (length panic_kw);
     if r < 0 then ret (-1)
     else (case extrastring of
             None \<Rightarrow> ret r
           | Some x \<Rightarrow> do {
               r2 \<leftarrow> find_str_in_file (Some ram_console) (Some x) None;
               ret (if r2 < 0 then -1 else if r2 \<noteq> 0 then 1 else 0) }) }"

definition crashlog_check_ram_panic :: "string \<Rightarrow> string option \<Rightarrow> ('w, int \<times> string) rop" where
  "crashlog_check_ram_panic reason extrastring = do {
     _ \<leftarrow> get_current_time_short True;
     ram_console \<leftarrow> gets (\<lambda>s. find (\<lambda>p. file_exists p s) [LAST_KMSG, CONSOLE_RAMOOPS, CONSOLE_RAMOOPS_0]);
     (case ram_console of
        None \<Rightarrow> ret (1, reason)
      | Some console \<Rightarrow> do {
          ram_dmesg \<leftarrow> gets (\<lambda>s. if file_exists DMESG_RAMOOPS_0 s then DMESG_RAMOOPS_0 else []);
          r \<leftarrow> crashlog_check_ram_panic_found console [''Kernel panic - not syncing:'', ''BUG: unable to handle kernel''] extrastring;
          if r < 0 then ret (-1, reason)
          else if r = 0 then ret (1, reason)
          else do {
            key \<leftarrow> generate_event_id (Some ''CRASH'') (Some []);
            dir \<leftarrow> generate_crashlog_dir MODE_CRASH key;
            dateshort \<leftarrow> date_now;
            (case dir of
               Some d \<Rightarrow> do {
                 let name = snprintf PATHMAX (d @ ''/console-ramoops_'' @ dateshort @ ''.txt'');
                 _ \<leftarrow> do_copy_eof (Some console) (Some name);
                 copy_eof_in ram_dmesg d (''dmesg-ramoops_'' @ dateshort @ ''.txt'');
                 (crashtype, reason') \<leftarrow> set_ipanic_crashtype_and_reason name reason RAM_PANIC_MODE;
                 _ \<leftarrow> check_aplogs_tobackup name;
                 _ \<leftarrow> do_copy_eof_dir (Some PANIC_DIR) (Some d);
                 do_wdt_log_copy d;
                 send_panic key crashtype (Some d);
                 ret (0, reason') }
             | None \<Rightarrow> do {
                 _ \<leftarrow> do_copy_tail (Some console) (Some LOG_PANICTEMP) MAXFILESIZE;
                 (crashtype, reason') \<leftarrow> set_ipanic_crashtype_and_reason LOG_PANICTEMP reason RAM_PANIC_MODE;
                 _ \<leftarrow> check_aplogs_tobackup LOG_PANICTEMP;
                 send_panic key crashtype None;
                 c_remove LOG_PANICTEMP;
                 ret (-1, reason') }) } }) }"

definition crashlog_check_panic_header :: "string \<Rightarrow> ('w, int \<times> string) rop" where
  "crashlog_check_panic_header reason = do {
     _ \<leftarrow> get_current_time_short True;
     header \<leftarrow> gets current_panic_header_name;
     ex \<leftarrow> gets (file_exists header);
     if \<not> ex then ret (1, reason)
     else do {
       key \<leftarrow> generate_event_id (Some ''CRASH'') (Some []);
       dir \<leftarrow> generate_crashlog_dir MODE_CRASH key;
       dateshort \<leftarrow> date_now;
       (case dir of
          Some d \<Rightarrow> do {
            let name = snprintf PATHMAX (d @ ''/emmc_ipanic_header_'' @ dateshort @ ''.txt'');
            _ \<leftarrow> do_copy_eof (Some PANIC_HEADER_NAME) (Some name);
            _ \<leftarrow> do_copy_eof_dir (Some PANIC_DIR) (Some d);
            do_last_kmsg_copy d;
            (crashtype, reason') \<leftarrow> set_ipanic_crashtype_and_reason name reason EMMC_PANIC_MODE;
            do_wdt_log_copy d;
            send_panic key crashtype (Some d);
            ret (0, reason') }
        | None \<Rightarrow> do {
            _ \<leftarrow> do_copy_eof (Some PANIC_HEADER_NAME) (Some LOG_PANICTEMP);
            (crashtype, reason') \<leftarrow> set_ipanic_crashtype_and_reason LOG_PANICTEMP reason EMMC_PANIC_MODE;
            send_panic key crashtype None;
            c_remove LOG_PANICTEMP;
            ret (-1, reason') }) } }"

section \<open>Dumps of a second kernel\<close>

definition KDUMP_DIR :: string where "KDUMP_DIR = LOGS_MEDIA_DIR @ ''/kdump''"
definition KDUMP_START_FLAG :: string where "KDUMP_START_FLAG = KDUMP_DIR @ ''/kdumphappened''"
definition KDUMP_FILE_NAME :: string where "KDUMP_FILE_NAME = KDUMP_DIR @ ''/kdumpfile.core''"
definition KDUMP_FINISH_FLAG :: string where "KDUMP_FINISH_FLAG = KDUMP_DIR @ ''/kdumpfinished''"

definition crashlog_check_kdump :: "bool \<Rightarrow> ('w, int) rop" where
  "crashlog_check_kdump test = do {
     _ \<leftarrow> get_current_time_short True;
     start_flag \<leftarrow> gets (file_exists KDUMP_START_FLAG);
     file_flag \<leftarrow> gets (file_exists KDUMP_FILE_NAME);
     finish_flag \<leftarrow> gets (file_exists KDUMP_FINISH_FLAG);
     if \<not> finish_flag \<and> file_flag then do {
       _ \<leftarrow> raise_infoerror (''KDUMP don'' @ [CHR 39] @ ''t finish, maybe disk full or write timeout'') ''DONTF'';
       ret (-1) }
     else if \<not> finish_flag \<and> start_flag then do {
       _ \<leftarrow> raise_infoerror ''KDUMP only enter, maybe user shutdown'' ''ENTER'';
       ret (-1) }
     else if \<not> finish_flag \<and> \<not> test then ret 0
     else do {
       let crashtype = (if finish_flag then Some ''KDUMP'' else None);
       key \<leftarrow> generate_event_id (Some ''CRASH'') crashtype;
       dir \<leftarrow> generate_crashlog_dir MODE_KDUMP key;
       (case dir of
          None \<Rightarrow> do {
            _ \<leftarrow> raise_event key (Some ''CRASH'') crashtype None None;
            _ \<leftarrow> get_current_time_long False;
            ret (-1) }
        | Some d \<Rightarrow> do {
            dateshort \<leftarrow> date_now;
            (if finish_flag then do {
               _ \<leftarrow> do_mv (Some KDUMP_FILE_NAME) (Some (snprintf PATHMAX (d @ ''/kdumpfile_'' @ dateshort @ ''.core'')));
               ret () }
             else ret ());
            do_log_copy (case crashtype of None \<Rightarrow> ''(null)'' | Some t \<Rightarrow> t) d dateshort APLOG_TYPE;
            _ \<leftarrow> raise_event key (Some ''CRASH'') crashtype None (Some d);
            _ \<leftarrow> get_current_time_long False;
            c_remove KDUMP_START_FLAG;
            c_remove KDUMP_FILE_NAME;
            c_remove KDUMP_FINISH_FLAG;
            ret 0 }) } }"

section \<open>All of them\<close>

text \<open>Whether a panic was found, the start-up reason and the type of the watchdog.\<close>

definition crashlog_check_panic_events :: "string \<Rightarrow> string \<Rightarrow> bool \<Rightarrow> ('w, bool \<times> string \<times> string) rop" where
  "crashlog_check_panic_events reason watchdog test = do {
     modify (\<lambda>s. s\<lparr>ipanic_generated := False\<rparr>);
     (r1, reason1) \<leftarrow> crashlog_check_dontpanic reason;
     (r2, reason2) \<leftarrow> (if r1 = 1 then crashlog_check_panic reason1 test else ret (0, reason1));
     (r3, reason3) \<leftarrow> (if r2 = 1 then crashlog_check_ram_panic reason2 None else ret (0, reason2));
     (r4, reason4) \<leftarrow> (if r3 = 1 then crashlog_check_panic_header reason3 else ret (0, reason3));
     let watchdog' = (if r4 = 1 \<and> contains reason4 ''SWWDT_'' then ''SWWDT_UNHANDLED'' else watchdog);
     header \<leftarrow> gets current_panic_header_name;
     _ \<leftarrow> overwrite_file (Some header) (Some ''1'');
     (_, reason5) \<leftarrow> crashlog_check_ram_panic reason4 (Some ''Crash partition in use!'');
     found \<leftarrow> gets ipanic_generated;
     ret (found, reason5, watchdog') }"

end
