(* ===== verification/Ecc.thy ===== *)
theory Ecc
  imports Watchdog Panic
begin

text \<open>
  Errors of the memory (intel_ecc_handler.c): the daemon keeps a list of the counters the kernel
  exposes, looks at them in every turn of its main loop, reports those that have grown, and saves them
  in a file for the next start.
\<close>

datatype ecc_type = ECC_NONE | ECC_UE | ECC_CE

record ecc_watch_info =
  ecc_kind :: ecc_type
  ecc_count :: int
  ecc_eventname :: string
  ecc_path :: string

record ecc = watchdog +
  ecc_list :: "ecc_watch_info list"

type_synonym ('w, 'a) eop = "('w ecc_scheme, 'a) state"

definition ECC_PATH :: string where "ECC_PATH = ''/sys/devices/system/edac/mc''"
definition UE_COUNT_FILE :: string where "UE_COUNT_FILE = ''dimm_ue_count''"
definition CE_COUNT_FILE :: string where "CE_COUNT_FILE = ''dimm_ce_count''"
definition COUNT_BACKUP_FILE :: string where "COUNT_BACKUP_FILE = LOGS_DIR @ ''/ecc_count_backup''"

section \<open>Counters\<close>

definition ecc_file :: "ecc_watch_info \<Rightarrow> string" where
  "ecc_file e = ecc_path e @ ''/'' @ ecc_eventname e"

text \<open>Text that does not end after its digits, or in a line break behind them, counts as 0.\<close>

definition count_of :: "string \<Rightarrow> int" where
  "count_of buff =
     (case dropWhile isdigit buff of
        [] \<Rightarrow> to_int32 (int (read_nat 0 buff))
      | c # _ \<Rightarrow> if c = NL \<or> c = CHR 0x0D then to_int32 (int (read_nat 0 (takeWhile isdigit buff))) else 0)"

definition check_ecc_error :: "string \<Rightarrow> ('w, int) op" where
  "check_ecc_error filename = do {
     fd \<leftarrow> open_read filename;
     (case fd of None \<Rightarrow> ret (-1) | Some d \<Rightarrow> ret (count_of (cstr (take 64 d)))) }"

definition ecc_get_event_entry :: "ecc_watch_info list \<Rightarrow> string \<Rightarrow> string \<Rightarrow> ecc_watch_info option" where
  "ecc_get_event_entry es path name = find (\<lambda>e. ecc_path e = path \<and> ecc_eventname e = name) es"

definition add_ecc_entry :: "ecc_type \<Rightarrow> string \<Rightarrow> string \<Rightarrow> ('w, unit) eop" where
  "add_ecc_entry kind name path = do {
     ok \<leftarrow> alloc;
     if \<not> ok then effect (NullDeref ''get_ecc_path'')
     else do {
       old \<leftarrow> gets (\<lambda>s. ecc_get_event_entry (ecc_list s) path name);
       if old \<noteq> None then ret ()
       else do {
         n \<leftarrow> check_ecc_error (path @ ''/'' @ name);
         modify (\<lambda>s. s\<lparr>ecc_list := \<lparr>ecc_kind = kind, ecc_count = n, ecc_eventname = name, ecc_path = path\<rparr> # ecc_list s\<rparr>) } } }"

fun ecc_entries :: "(string \<Rightarrow> ('w, unit) eop) \<Rightarrow> string \<Rightarrow> string list \<Rightarrow> ('w, unit) eop" where
  "ecc_entries rec fname [] = ret ()"
| "ecc_entries rec fname (d_name # ns) = do {
     let path = fname @ ''/'' @ d_name;
     isdir \<leftarrow> gets (directory_exists path);
     (if contains d_name ''mc'' \<and> isdir then rec path
      else if contains d_name ''dimm'' \<and> isdir then do {
        add_ecc_entry ECC_CE CE_COUNT_FILE path;
        add_ecc_entry ECC_UE UE_COUNT_FILE path }
      else ret ());
     ecc_entries rec fname ns }"

text \<open>The recursion descends the tree of directories; the fuel is its height.\<close>

primrec get_ecc_path :: "nat \<Rightarrow> string \<Rightarrow> ('w, unit) eop" where
  "get_ecc_path 0 fname = ret ()"
| "get_ecc_path (Suc n) fname = do {
     d \<leftarrow> sys_opendir fname;
     (case d of None \<Rightarrow> ret () | Some names \<Rightarrow> ecc_entries (get_ecc_path n) fname names) }"

definition init_ecc_handler :: "('w, unit) eop" where
  "init_ecc_handler = do {
     ex \<leftarrow> gets (file_exists COUNT_BACKUP_FILE);
     (if \<not> ex then do { _ \<leftarrow> open_trunc COUNT_BACKUP_FILE; ret () } else ret ());
     modify (\<lambda>s. s\<lparr>ecc_list := []\<rparr>);
     n \<leftarrow> gets (\<lambda>s. Suc (height (fs s)));
     get_ecc_path n ECC_PATH }"

definition free_ecc_list :: "('w, unit) eop" where
  "free_ecc_list = modify (\<lambda>s. s\<lparr>ecc_list := []\<rparr>)"

section \<open>The file of the saved counters\<close>

text \<open>
  One line: records \<open>name:count\<close>, separated by semicolons. A record is taken when its name is a
  beginning of the name looked for and its number is followed by the end of the record or the line.
\<close>

lemma strchr_length: "strchr s c = Some t \<Longrightarrow> length t \<le> length s \<and> t \<noteq> []"
  by (induction s c rule: strchr.induct) (auto split: if_splits)

function backup_in_line :: "string \<Rightarrow> string \<Rightarrow> int option" where
  "backup_in_line filename str =
     (case strchr str (CHR '':'') of
        None \<Rightarrow> None
      | Some p \<Rightarrow>
          let name = take (length str - length p) str; rest = dropWhile isdigit (tl p) in
          if take (length name) filename = name \<and> (rest = [] \<or> hd rest \<in> {CHR '';'', CHR 0x0D, NL})
          then Some (to_int32 (int (read_nat 0 (takeWhile isdigit (tl p)))))
          else (case strchr p (CHR '';'') of None \<Rightarrow> None | Some q \<Rightarrow> backup_in_line filename (tl q)))"
  by pat_completeness auto
termination
proof (relation "measure (\<lambda>(f, s). length s)", goal_cases)
  case (2 filename str p name rest q)
  then show ?case
    using strchr_length [of str "CHR '':''" p] strchr_length [of p "CHR '';''" q] by (cases q) auto
qed simp

declare backup_in_line.simps [simp del]

fun backup_in_lines :: "string \<Rightarrow> string list \<Rightarrow> int" where
  "backup_in_lines filename [] = 0"
| "backup_in_lines filename (l # ls) =
     (case backup_in_line filename l of Some n \<Rightarrow> n | None \<Rightarrow> backup_in_lines filename ls)"

definition get_backup_count :: "string \<Rightarrow> ('w, int) op" where
  "get_backup_count filename = do {
     fd \<leftarrow> open_read COUNT_BACKUP_FILE;
     (case fd of
        None \<Rightarrow> ret (-1)
      | Some d \<Rightarrow> ret (backup_in_lines filename (map cstr (fgets_lines (PATHMAX + 11) d)))) }"

definition set_backup_count :: "string \<Rightarrow> ('w, int) op" where
  "set_backup_count stream = do {
     ok \<leftarrow> open_trunc COUNT_BACKUP_FILE;
     if \<not> ok then ret (-1)
     else do { _ \<leftarrow> write_end COUNT_BACKUP_FILE stream; ret 0 } }"

definition backup_line :: "string \<Rightarrow> int \<Rightarrow> string" where
  "backup_line filename n = filename @ '':'' @ show_int n @ [CHR 0x0D, NL]"

section \<open>Events\<close>

definition dump_dmesg :: "string \<Rightarrow> ('w, int) dop" where
  "dump_dmesg filepath = do {
     ok \<leftarrow> open_trunc filepath;
     if \<not> ok then do { e \<leftarrow> gets errno; ret (- e) }
     else do {
       f \<leftarrow> syscall;
       g \<leftarrow> syscall;
       (case (f, g) of
          (Fails e, _) \<Rightarrow> do { set_errno e; ret (- e) }
        | (_, Fails e) \<Rightarrow> do { set_errno e; ret (- e) }
        | _ \<Rightarrow> do { command_out filepath ''/system/bin/dmesg '' 15; ret 0 }) } }"

definition copy_if_there :: "string \<Rightarrow> string \<Rightarrow> string \<Rightarrow> ('w, unit) dop" where
  "copy_if_there src_dir dir name = do {
     let path = snprintf PATHMAX (src_dir @ ''/'' @ name);
     ex \<leftarrow> gets (file_exists path);
     (if ex then copy_in path dir name else ret ()) }"

text \<open>The directory is not checked: without one the files go to a directory named \<open>(null)\<close>.\<close>

definition ecc_event_handle :: "ecc_watch_info \<Rightarrow> ('w, int) rop" where
  "ecc_event_handle entry = do {
     _ \<leftarrow> get_current_time_short True;
     if ecc_kind entry = ECC_NONE then ret 0
     else do {
       let sub = (if ecc_kind entry = ECC_CE then ''CE'' else ''UE'');
       let count_file = (if ecc_kind entry = ECC_CE then CE_COUNT_FILE else UE_COUNT_FILE);
       key \<leftarrow> generate_event_id (Some ''ECC'') (Some sub);
       dir \<leftarrow> generate_crashlog_dir MODE_CRASH key;
       let d = (case dir of None \<Rightarrow> ''(null)'' | Some x \<Rightarrow> x);
       copy_if_there (ecc_path entry) d ''dimm_location'';
       copy_if_there (ecc_path entry) d ''dimm_label'';
       copy_if_there (ecc_path entry) d count_file;
       dateshort \<leftarrow> date_now;
       _ \<leftarrow> dump_dmesg (snprintf PATHMAX (d @ ''/dmesg_'' @ dateshort));
       _ \<leftarrow> raise_event key (Some ''ECC'') (Some (''ECC_'' @ sub)) None dir;
       _ \<leftarrow> get_current_time_long False;
       ret 0 } }"

text \<open>Counters that have grown while the daemon was down; the lines to save are collected.\<close>

fun restore_entries :: "ecc_watch_info list \<Rightarrow> string \<Rightarrow> ('w, string) rop" where
  "restore_entries [] stream = ret stream"
| "restore_entries (e # es) stream = do {
     count \<leftarrow> get_backup_count (ecc_file e);
     if ecc_count e > 0 \<or> count > 0 then do {
       ok \<leftarrow> alloc;
       (if \<not> ok then effect (BadRead ''restore_count'') else ret ());
       (if count < ecc_count e then do { _ \<leftarrow> ecc_event_handle e; ret () } else ret ());
       restore_entries es (stream @ backup_line (ecc_file e) (ecc_count e)) }
     else restore_entries es stream }"

definition restore_count :: "('w, unit) eop" where
  "restore_count = do {
     es \<leftarrow> gets ecc_list;
     stream \<leftarrow> restore_entries es [];
     (if stream \<noteq> [] then do { _ \<leftarrow> set_backup_count stream; ret () } else ret ()) }"

fun fatal_entries :: "ecc_watch_info list \<Rightarrow> ('w, unit) rop" where
  "fatal_entries [] = ret ()"
| "fatal_entries (e # es) = do {
     count \<leftarrow> get_backup_count (ecc_file e);
     (if ecc_count e > 0 \<and> count < ecc_count e then do { _ \<leftarrow> ecc_event_handle e; ret () } else ret ());
     fatal_entries es }"

text \<open>The name of the file follows that of the command without a blank.\<close>

definition fatal_ecc_err_check :: "('w, unit) eop" where
  "fatal_ecc_err_check = do {
     init_ecc_handler;
     es \<leftarrow> gets ecc_list;
     fatal_entries es;
     _ \<leftarrow> run_child (''/vendor/bin/rm'' @ COUNT_BACKUP_FILE) 10;
     ret () }"

text \<open>
  One look at the counters: the entries with their new counts, the lines to save, and whether there is
  something new to save.
\<close>

fun count_entries :: "ecc_watch_info list \<Rightarrow> ('w, ecc_watch_info list \<times> string \<times> bool) rop" where
  "count_entries [] = ret ([], [], False)"
| "count_entries (e # es) = do {
     n \<leftarrow> check_ecc_error (ecc_file e);
     (if n > 0 then do { ok \<leftarrow> alloc; if \<not> ok then effect (BadRead ''ecc_count_handle'') else ret () } else ret ());
     let new = (n > 0 \<and> ecc_kind e \<noteq> ECC_NONE \<and> n > ecc_count e);
     let e' = (if new then e\<lparr>ecc_count := n\<rparr> else e);
     (if new then do { _ \<leftarrow> ecc_event_handle e'; ret () } else ret ());
     (es', stream, update) \<leftarrow> count_entries es;
     ret (e' # es', (if n > 0 then backup_line (ecc_file e) n else []) @ stream, new \<or> update) }"

definition ecc_count_handle :: "('w, unit) eop" where
  "ecc_count_handle = do {
     es \<leftarrow> gets ecc_list;
     (es', stream, update) \<leftarrow> count_entries es;
     modify (\<lambda>s. s\<lparr>ecc_list := es'\<rparr>);
     (if update \<and> stream \<noteq> [] then do { _ \<leftarrow> set_backup_count stream; ret () } else ret ()) }"

section \<open>Saved counters are read back\<close>

text \<open>Names as they can stand in the file, and the file of a list of counters.\<close>

definition backup_name :: "string \<Rightarrow> bool" where
  "backup_name n \<longleftrightarrow> length n \<le> 480 \<and> set n \<inter> {CHR '':'', CHR '';'', NL, NUL} = {}"

definition backup_stream :: "(string \<times> int) list \<Rightarrow> string" where
  "backup_stream es = concat (map (\<lambda>(n, c). backup_line n c) es)"

lemma fgets_line_hit:
  "NL \<notin> set l \<Longrightarrow> length l < n \<Longrightarrow> fgets_line n (l @ NL # r) = (l @ [NL], r)"
proof (induction l arbitrary: n)
  case Nil then show ?case by (cases n) auto
next
  case (Cons c l) then show ?case by (cases n) auto
qed

lemma fgets_lines_one: "NL \<notin> set l \<Longrightarrow> length l + 1 < n \<Longrightarrow> fgets_lines n (l @ [NL]) = [l @ [NL]]"
  using fgets_line_hit [of l "n - 1" "[]"] by (subst fgets_lines.simps) simp

lemma backup_line_chars:
  assumes "backup_name n" "0 \<le> c" "c < 2 ^ 31"
  shows "\<exists>l. backup_line n c = l @ [NL] \<and> NL \<notin> set l \<and> NUL \<notin> set l \<and> length l < 512"
proof -
  let ?l = "n @ '':'' @ show_nat (nat c) @ [CHR 0x0D]"
  have d: "\<forall>x\<in>set (show_nat (nat c)). x \<noteq> NL \<and> x \<noteq> NUL"
    using show_nat_digits [of "nat c"] by (auto simp: isdigit_def)
  have "length (show_nat (nat c)) \<le> 10" using length_show_nat [of "nat c" 10] assms by simp
  then have "length ?l < 512" using assms(1) by (simp add: backup_name_def)
  moreover have "backup_line n c = ?l @ [NL]" using assms by (simp add: backup_line_def show_int_def)
  moreover have "NL \<notin> set ?l" "NUL \<notin> set ?l" using assms(1) d by (auto simp: backup_name_def)
  ultimately show ?thesis by blast
qed

lemma fgets_backup_stream:
  assumes "\<forall>(n, c)\<in>set es. backup_name n \<and> 0 \<le> c \<and> c < 2 ^ 31"
  shows "map cstr (fgets_lines (PATHMAX + 11) (backup_stream es)) = map (\<lambda>(n, c). backup_line n c) es"
  using assms
proof (induction es)
  case (Cons e es)
  obtain n c where e: "e = (n, c)" by fastforce
  then obtain l where l: "backup_line n c = l @ [NL]" "NL \<notin> set l" "NUL \<notin> set l" "length l < 512"
    using backup_line_chars [of n c] Cons.prems by auto
  have "backup_stream (e # es) = l @ NL # backup_stream es" using l e by (simp add: backup_stream_def)
  moreover have "fgets_line (PATHMAX + 10) (l @ NL # backup_stream es) = (l @ [NL], backup_stream es)"
    using l by (intro fgets_line_hit) (simp_all add: PATHMAX_def)
  ultimately have "fgets_lines (PATHMAX + 11) (backup_stream (e # es)) = (l @ [NL]) # fgets_lines (PATHMAX + 11) (backup_stream es)"
    by (subst fgets_lines.simps) (simp add: PATHMAX_def)
  moreover have "cstr (l @ [NL]) = l @ [NL]" using l cstr_padded [of "l @ [NL]" 0 "[]"] by (simp add: cstr_def)
  ultimately show ?case using Cons e l by simp
qed (simp add: backup_stream_def)

lemma backup_in_line_single:
  assumes "backup_name n" "0 \<le> c" "c < 2 ^ 31"
  shows "backup_in_line f (backup_line n c) = (if prefix n f then Some c else None)"
proof -
  let ?d = "show_nat (nat c)"
  have b: "backup_line n c = n @ CHR '':'' # ?d @ [CHR 0x0D, NL]" using assms by (simp add: backup_line_def show_int_def)
  have "strchr (backup_line n c) (CHR '':'') = Some (CHR '':'' # ?d @ [CHR 0x0D, NL])"
    unfolding b using assms(1) by (intro strchr_append) (auto simp: backup_name_def)
  moreover have "strchr (CHR '':'' # ?d @ [CHR 0x0D, NL]) (CHR '';'') = None"
    using strchr_other [of "CHR '';''" ?d "[CHR 0x0D, NL]"] show_nat_digits [of "nat c"]
    by (fastforce simp: isdigit_def)
  moreover have "takeWhile isdigit (?d @ [CHR 0x0D, NL]) = ?d" "dropWhile isdigit (?d @ [CHR 0x0D, NL]) = [CHR 0x0D, NL]"
    using show_nat_digits [of "nat c"]
    by (simp_all add: takeWhile_append dropWhile_append isdigit_def)
  moreover have "take (length n) f = n \<longleftrightarrow> prefix n f"
    by (metis append_eq_conv_conj prefix_def take_is_prefix)
  ultimately show ?thesis
    using assms by (subst backup_in_line.simps) (simp add: b)
qed

lemma backup_in_lines_lookup:
  assumes "\<forall>(n, c)\<in>set es. backup_name n \<and> 0 \<le> c \<and> c < 2 ^ 31" "\<forall>(n, c)\<in>set es. prefix n f \<longrightarrow> n = f"
  shows "backup_in_lines f (map (\<lambda>(n, c). backup_line n c) es) = (case map_of es f of Some c \<Rightarrow> c | None \<Rightarrow> 0)"
  using assms
proof (induction es)
  case (Cons e es)
  then show ?case
    using backup_in_line_single [of "fst e" "snd e" f] by (cases e) auto
qed simp

text \<open>
  C38. Counters that were saved are read back: after a list of counters was written to the file, looking
  up the name of a counter gives its count, and any other name gives 0, provided no name of the list
  is a proper beginning of the one looked up.
\<close>

theorem ecc_backup_roundtrip:
  assumes "reliable s" "node_at s COUNT_BACKUP_FILE \<noteq> Some Dir" "is_dir (fs s) (butlast (comps COUNT_BACKUP_FILE))"
    "\<forall>(n, c)\<in>set es. backup_name n \<and> 0 \<le> c \<and> c < 2 ^ 31" "\<forall>(n, c)\<in>set es. prefix n f \<longrightarrow> n = f"
  shows "\<exists>t. run_state (set_backup_count (backup_stream es)) s = (0, t) \<and>
    fst (run_state (get_backup_count f) t) = (case map_of es f of Some c \<Rightarrow> c | None \<Rightarrow> 0)"
proof -
  let ?p = COUNT_BACKUP_FILE
  let ?t = "put ?p (File (backup_stream es)) (s\<lparr>calls := Suc (Suc (calls s))\<rparr>)"
  have "comps ?p \<noteq> []" by (simp add: COUNT_BACKUP_FILE_def LOGS_DIR_def comps_def)
  then have "run_state (set_backup_count (backup_stream es)) s = (0, ?t)"
    using assms by (simp add: set_backup_count_def open_trunc_reliable write_end_reliable)
  moreover have "fst (run_state (get_backup_count f) ?t) = backup_in_lines f (map (\<lambda>(n, c). backup_line n c) es)"
    using assms(1) by (simp add: get_backup_count_def open_read_File fgets_backup_stream [OF assms(4)])
  ultimately show ?thesis
    using backup_in_lines_lookup [OF assms(4,5)] by auto
qed

theorem ecc_backup_roundtrip_witness:
  "\<exists>t. run_state (set_backup_count (backup_stream [(''/mc0/dimm0/dimm_ce_count'', 3), (''/mc0/dimm1/dimm_ue_count'', 12)]))
       (calm [([''logs''], Dir)]) = (0, t) \<and>
     fst (run_state (get_backup_count ''/mc0/dimm1/dimm_ue_count'') t) = 12"
proof -
  let ?s = "calm [([''logs''], Dir)]"
  have "fs ?s = [([''logs''], Dir)]" by (simp add: calm_def)
  then show ?thesis
    using ecc_backup_roundtrip [of ?s "[(''/mc0/dimm0/dimm_ce_count'', 3), (''/mc0/dimm1/dimm_ue_count'', 12)]"
        "''/mc0/dimm1/dimm_ue_count''"]
    by (simp add: COUNT_BACKUP_FILE_def LOGS_DIR_def comps_def is_dir_def backup_name_def)
qed

end
