(* ===== verification/Boot.thy ===== *)
theory Boot
  imports Ecc
begin

text \<open>
  What the daemon does once at start (main.c, and ramdump.c in the mode for memory dumps): the
  environment is read, an update of the software clears the logs, crashes of the time before are looked
  for, and the reboot is reported. The modules for the fabric, the modem, the hypervisor, firmware
  updates and the IP track are not part of the build; their functions are then empty.
\<close>

section \<open>Updates of the software\<close>

definition LOGINFO_DIR :: string where "LOGINFO_DIR = LOGS_DIR @ ''/info''"
definition LOGS_GPS_DIR :: string where "LOGS_GPS_DIR = LOGS_DIR @ ''/gps''"

text \<open>The word read from the file is not bounded, the buffer holds 92 bytes.\<close>

definition swupdated :: "string \<Rightarrow> ('w, int) rop" where
  "swupdated buildname = do {
     fd \<leftarrow> open_read LOG_BUILDID;
     same \<leftarrow> (case fd of
       None \<Rightarrow> ret False
     | Some d \<Rightarrow>
         (case fst (scanf [SWord None True] d) of
            [w] \<Rightarrow> do {
              (if length w \<ge> PROPERTY_VALUE_MAX then effect (BadWrite ''swupdated'') else ret ());
              ret (w = buildname) }
          | _ \<Rightarrow> ret False));
     if same then ret 0
     else do {
       ok \<leftarrow> open_trunc LOG_BUILDID;
       if \<not> ok then ret 0
       else do {
         _ \<leftarrow> do_chown (Some LOG_BUILDID) (Some ''root'') (Some ''log'');
         _ \<leftarrow> write_end LOG_BUILDID buildname;
         ret 1 } } }"

definition reset_logdir :: "string \<Rightarrow> bool \<Rightarrow> ('w, unit) op" where
  "reset_logdir path remove_subdir = do {
     ex \<leftarrow> gets (file_exists path);
     if \<not> ex then ret ()
     else do {
       n \<leftarrow> gets (\<lambda>s. Suc (height (fs s)));
       _ \<leftarrow> rmfr_specific n path False remove_subdir;
       ret () } }"

definition reset_after_swupdate :: "('w, unit) rop" where
  "reset_after_swupdate = do {
     reset_logdir (dir_of MODE_STATS) True;
     reset_logdir LOGINFO_DIR True;
     reset_logdir APLOG_DIR True;
     reset_logdir HISTORY_CORE_DIR True;
     reset_logdir LOGS_GPS_DIR True;
     reset_file (counter_of MODE_CRASH);
     reset_file (counter_of MODE_STATS);
     reset_file (counter_of MODE_APLOGS);
     reset_file HISTORY_FILE;
     _ \<leftarrow> reset_uptime_history;
     rx \<leftarrow> gets regex;
     reset_log_data rx (Some LOGS_DIR) (Some ''^(aplogs|bz|crashlog|stats)[0-9]{1,3}_.*'') }"

definition update_history :: "('w, unit) rop" where
  "update_history = do {
     build \<leftarrow> gets gbuildversion;
     r \<leftarrow> swupdated build;
     if r = 1 then do {
       reset_after_swupdate;
       _ \<leftarrow> get_current_time_long False;
       key \<leftarrow> generate_event_id (Some ''INFO'') (Some ''SWUPDATE'');
       _ \<leftarrow> raise_event_nouptime key (Some ''INFO'') (Some ''SWUPDATE'') None None;
       ret () }
     else do { _ \<leftarrow> uptime_history; ret () } }"

section \<open>The environment\<close>

definition LOG_UUID :: string where "LOG_UUID = LOGS_DIR @ ''/uuid.txt''"
definition SYS_PROP :: string where "SYS_PROP = ''/system/build.prop''"

definition write_uuid :: "string \<Rightarrow> string \<Rightarrow> ('w, unit) op" where
  "write_uuid filename uuid_value = do {
     ok \<leftarrow> open_trunc filename;
     if \<not> ok then ret ()
     else do {
       _ \<leftarrow> write_end filename uuid_value;
       _ \<leftarrow> chown_log filename;
       ret () } }"

text \<open>
  \<open>property_get\<close> gives the length of the value, which is never negative: the property, or
  its default, is always taken and the other sources of an identity are never asked.
\<close>

definition get_device_id :: "('w, unit) dop" where
  "get_device_id = do {
     v \<leftarrow> gets (\<lambda>s. prop_get s ''ro.serialno'' ''empty_serial'');
     modify (\<lambda>s. s\<lparr>guuid := v\<rparr>);
     write_uuid LOG_UUID v }"

definition in_proc :: "string \<Rightarrow> string \<Rightarrow> string" where
  "in_proc dir name = snprintf PATHMAX (dir @ ''/'' @ name)"

record crash_env =
  boot_mode :: string
  crypt_state :: string
  encrypt_progress :: string
  decrypt :: string
  env_token :: string

definition get_crash_env :: "('w, crash_env) rop" where
  "get_crash_env = do {
     value \<leftarrow> gets (\<lambda>s. prop_get s ''vendor.crashlogd.debug.proc_path'' []);
     (if value \<noteq> [] then modify (\<lambda>s. s\<lparr>
        current_proc_fabric_error_name := in_proc value ''ipanic_fabric_err'',
        current_proc_offline_scu_log_name := in_proc value ''offline_scu_log'',
        current_panic_console_name := in_proc value ''emmc_ipanic_console'',
        current_panic_header_name := in_proc value ''emmc_ipanic_header'',
        current_kernel_cmdline := in_proc value ''cmdline''\<rparr>)
      else ret ());
     (_, build, board) \<leftarrow> get_build_board_versions SYS_PROP;
     modify (\<lambda>s. s\<lparr>gbuildversion := build, gboardversion := board\<rparr>);
     env \<leftarrow> gets (\<lambda>s. \<lparr>boot_mode = prop_get s ''ro.boot.mode'' [], crypt_state = prop_get s ''ro.crypto.state'' ''unencrypted'',
        encrypt_progress = prop_get s ''vold.encrypt_progress'' [], decrypt = prop_get s ''vold.decrypt'' [],
        env_token = prop_get s TOKEN []\<rparr>);
     get_device_id;
     ret env }"

section \<open>Early checks\<close>

text \<open>The type of the watchdog; without the fabric module a hardware watchdog is never explained.\<close>

definition crashlog_check_fw_events :: "string \<Rightarrow> string \<Rightarrow> string" where
  "crashlog_check_fw_events reason watchdog = (if contains reason ''HWWDT_'' then ''HWWDT_UNHANDLED'' else watchdog)"

definition EARLY_LOGS_PATH :: string where "EARLY_LOGS_PATH = ''/cache/cache/elogs''"
definition EARLY_LOGS_FILE :: string where "EARLY_LOGS_FILE = EARLY_LOGS_PATH @ ''/elog''"
definition EARLY_LOGS_OLD_FILE :: string where "EARLY_LOGS_OLD_FILE = EARLY_LOGS_PATH @ ''/elog-old''"

definition crashlog_check_early_logs :: "('w, unit) rop" where
  "crashlog_check_early_logs = do {
     a \<leftarrow> gets (file_exists EARLY_LOGS_FILE);
     (if a then do {
        _ \<leftarrow> copy_log EARLY_LOGS_PATH ''elog'' MATCH_EXACT LOGS_DIR ''early_aplog'' False;
        _ \<leftarrow> sys_unlink EARLY_LOGS_FILE;
        ret () }
      else ret ());
     b \<leftarrow> gets (file_exists EARLY_LOGS_OLD_FILE);
     if \<not> b then ret ()
     else do {
       key \<leftarrow> generate_event_id (Some ''ERROR'') (Some ''DECRYPT_ERROR'');
       dir \<leftarrow> generate_crashlog_dir MODE_CRASH key;
       _ \<leftarrow> raise_event key (Some ''ERROR'') (Some ''DECRYPT_ERROR'') None dir;
       _ \<leftarrow> get_current_time_long False;
       (case dir of None \<Rightarrow> ret () | Some d \<Rightarrow> do { _ \<leftarrow> copy_log_simple EARLY_LOGS_OLD_FILE d; ret () });
       _ \<leftarrow> sys_unlink EARLY_LOGS_OLD_FILE;
       ret () } }"

record build_options =
  b_boot :: boot_config
  b_early_logs :: bool
  b_ramdump :: "bool option"
  b_full_report :: bool

text \<open>A reboot or a state of the system is reported without a directory.\<close>

definition send_state :: "(string option \<Rightarrow> string option \<Rightarrow> string option \<Rightarrow> string option \<Rightarrow> string option \<Rightarrow> ('w, int) rop) \<Rightarrow>
    string \<Rightarrow> string \<Rightarrow> ('w, unit) rop" where
  "send_state send event ty = do {
     key \<leftarrow> generate_event_id (Some event) (Some ty);
     _ \<leftarrow> send key (Some event) (Some ty) None None;
     ret () }"

definition early_check_nomain :: "build_options \<Rightarrow> string \<Rightarrow> bool \<Rightarrow> ('w, unit) rop" where
  "early_check_nomain b mode test = do {
     reason \<leftarrow> read_startupreason (b_boot b);
     let watchdog = crashlog_check_fw_events reason ''WDT'';
     (_, reason', watchdog') \<leftarrow> crashlog_check_panic_events reason watchdog test;
     _ \<leftarrow> crashlog_check_startupreason reason' watchdog';
     (if b_early_logs b then crashlog_check_early_logs else ret ());
     send_state raise_event_nouptime ''REBOOT'' reason';
     _ \<leftarrow> get_current_time_long False;
     send_state raise_event_nouptime ''STATE'' mode }"

definition dump_props :: "string \<Rightarrow> ('w, unit) op" where
  "dump_props dir = do {
     let dst = snprintf PATHMAX (dir @ ''/props'');
     ok \<leftarrow> open_trunc dst;
     if \<not> ok then ret ()
     else do {
       d \<leftarrow> gets (\<lambda>s. concat (map (\<lambda>(k, v). ''['' @ k @ '']: ['' @ v @ '']'' @ [NL]) (props s)));
       _ \<leftarrow> write_end dst d;
       _ \<leftarrow> chown_log dst;
       ret () } }"

definition PROP_BOOT_LOG_DISABLED :: string where "PROP_BOOT_LOG_DISABLED = ''persist.vendor.crashlogd.no_bootlog''"
definition EFI_EFIVARS_DIR :: string where "EFI_EFIVARS_DIR = ''/sys/firmware/efi/efivars''"

fun copy_logs_simple :: "string list \<Rightarrow> string \<Rightarrow> ('w, unit) dop" where
  "copy_logs_simple [] d = ret ()"
| "copy_logs_simple (p # ps) d = do { _ \<leftarrow> copy_log_simple p d; copy_logs_simple ps d }"

definition crashlog_save_boot_logs :: "('w, unit) rop" where
  "crashlog_save_boot_logs = do {
     off \<leftarrow> gets (\<lambda>s. prop_get s PROP_BOOT_LOG_DISABLED [] = ''1'');
     if off then ret ()
     else do {
       key \<leftarrow> generate_event_id (Some ''INFO'') (Some ''BOOT_LOGS'');
       dir \<leftarrow> generate_crashlog_dir MODE_STATS key;
       (case dir of
          None \<Rightarrow> ret ()
        | Some d \<Rightarrow> do {
            copy_logs_simple [''/d/npkt_dump/mtb'', ''/d/npkt_dump/mtb_recovery'', ''/d/npkt_dump/csr'', ''/d/npkt_dump/csr_recovery''] d;
            r \<leftarrow> copy_log EFI_EFIVARS_DIR ''EfilinuxLogs'' MATCH_PATTERN d ''log_boot'' True;
            (if r \<noteq> 0 then do { _ \<leftarrow> copy_log EFI_EFIVARS_DIR ''KernelflingerLogs'' MATCH_PATTERN d ''log_boot'' False; ret () } else ret ());
            _ \<leftarrow> copy_log_simple ''/proc/cmdline'' d;
            do_last_kmsg_copy d;
            ts \<leftarrow> get_current_time_short False;
            flush_aplog APLOG_BOOT (Some ''BOOT'') (Some d) (Some ts);
            dump_props d;
            copy_logs_simple [LOGS_DIR @ ''/trap_info'', LOGS_DIR @ ''/last_vmm_log''] d;
            _ \<leftarrow> raise_event key (Some ''INFO'') (Some ''BOOT_LOGS'') None (Some d);
            ret () }) } }"

definition early_check :: "build_options \<Rightarrow> string \<Rightarrow> bool \<Rightarrow> ('w, unit) rop" where
  "early_check b encryptstate test = do {
     reason \<leftarrow> read_startupreason (b_boot b);
     let watchdog = crashlog_check_fw_events reason ''WDT'';
     (_, reason', watchdog') \<leftarrow> crashlog_check_panic_events reason watchdog test;
     _ \<leftarrow> crashlog_check_kdump test;
     _ \<leftarrow> crashlog_check_startupreason reason' watchdog';
     _ \<leftarrow> crashlog_check_recovery;
     (if b_early_logs b then crashlog_check_early_logs else ret ());
     send_state raise_event_bootuptime ''REBOOT'' reason';
     _ \<leftarrow> get_current_time_long False;
     crashlog_save_boot_logs;
     send_state raise_event_nouptime ''STATE'' encryptstate;
     check_ingredients_file }"

section \<open>Dumps of the memory\<close>

definition LBR_DUMP_FILE :: string where "LBR_DUMP_FILE = ''/d/lbr_dump/lbr_dump''"

definition crashlog_check_ramdump :: "string \<Rightarrow> ('w, int) rop" where
  "crashlog_check_ramdump reason = do {
     _ \<leftarrow> get_current_time_short True;
     key \<leftarrow> generate_event_id (Some ''CRASH'') (Some ''RAMDUMP'');
     dir \<leftarrow> generate_crashlog_dir MODE_CRASH key;
     (case dir of
        None \<Rightarrow> crash_failed key ''CRASH'' ''RAMDUMP'' False
      | Some d \<Rightarrow> do {
          dateshort \<leftarrow> date_now;
          a \<leftarrow> gets (file_exists LM_DUMP_FILE);
          (if a then copy_eof_in LM_DUMP_FILE d (''lkm_buffer_dump_'' @ dateshort @ ''.bin'') else ret ());
          c \<leftarrow> gets (file_exists LBR_DUMP_FILE);
          (if c then copy_eof_in LBR_DUMP_FILE d (''lbr_buffer_dump_'' @ dateshort @ ''.txt'') else ret ());
          do_last_kmsg_copy d;
          (if contains reason ''WDT_'' \<and> \<not> contains reason ''FAKE'' then do {
             t1 \<leftarrow> get_current_time_short False;
             flush_aplog APLOG_BOOT (Some ''WDT'') (Some d) (Some t1);
             t2 \<leftarrow> get_current_time_short False;
             do_log_copy ''WDT'' d t2 APLOG_TYPE }
           else ret ());
          _ \<leftarrow> raise_event key (Some ''CRASH'') (Some ''RAMDUMP'') None (Some d);
          _ \<leftarrow> get_current_time_long False;
          ret 0 }) }"

definition request_global_reset :: "('w, int) op" where
  "request_global_reset = do {
     stay \<leftarrow> gets (\<lambda>s. prop_get s ''ro.boot.crashlogd'' [] = ''noreboot'');
     if stay then ret (-1)
     else do {
       _ \<leftarrow> run_command ''peeknpoke w fed0304a 8 33'' 30;
       _ \<leftarrow> run_command ''reboot'' 30;
       ret 0 } }"

definition request_cold_reset :: "('w, int) op" where
  "request_cold_reset = do { _ \<leftarrow> run_command ''reboot'' 30; ret 0 }"

text \<open>The flag says whether \<open>CONFIG_RAMDUMP_CRASHLOG\<close> is defined.\<close>

definition do_ramdump_checks :: "build_options \<Rightarrow> bool \<Rightarrow> bool \<Rightarrow> ('w, int) eop" where
  "do_ramdump_checks b crashlog test = do {
     reason \<leftarrow> read_startupreason (b_boot b);
     _ \<leftarrow> uptime_history;
     fatal_ecc_err_check;
     (_, reason', watchdog) \<leftarrow> crashlog_check_panic_events reason ''WDT'' test;
     _ \<leftarrow> (if crashlog then crashlog_check_startupreason reason' watchdog else crashlog_check_ramdump reason');
     key \<leftarrow> generate_event_id (Some ''REBOOT'') (Some ''RAMCONSOLE'');
     _ \<leftarrow> raise_event key (Some ''REBOOT'') (Some ''RAMCONSOLE'') None None;
     _ \<leftarrow> get_current_time_long False;
     _ \<leftarrow> (if crashlog then request_cold_reset else request_global_reset);
     ret 0 }"

end
