(* ===== verification/Daemon_Main.thy ===== *)
theory Daemon_Main
  imports Boot
begin

text \<open>
  The program itself (main.c): the handlers of the watched files, the mode of running, the arguments,
  and the loop that waits for events.
\<close>

section \<open>Commands\<close>

text \<open>The last \<open>ACTION=\<close> and the last \<open>ARGS=\<close> of the file; each turn takes at least one byte.\<close>

definition scan_last :: "string \<Rightarrow> string \<Rightarrow> string \<Rightarrow> string" where
  "scan_last name line old =
     (case fst (scanf (slit (name @ ''='') @ [SWord None True]) line) of
        [w] \<Rightarrow> w
      | _ \<Rightarrow> old)"

fun command_lines :: "nat \<Rightarrow> string \<Rightarrow> string \<times> string \<Rightarrow> ('w, string \<times> string) op" where
  "command_lines 0 rest v = ret v"
| "command_lines (Suc n) rest v = do {
     (r, line, rest') \<leftarrow> freadline rest;
     if r \<le> 0 then ret v
     else command_lines n rest' (scan_last ''ACTION'' line (fst v), scan_last ''ARGS'' line (snd v)) }"

definition process_command_event :: "watch_entry \<Rightarrow> inotify_event \<Rightarrow> ('w, int) rop" where
  "process_command_event entry event = do {
     let path = snprintf PATHMAX (eventpath entry @ ''/'' @ ev_name event);
     fd \<leftarrow> open_read path;
     (case fd of
        None \<Rightarrow> do { _ \<leftarrow> rmfr path; e \<leftarrow> gets errno; ret (- e) }
      | Some d \<Rightarrow> do {
          (action, args) \<leftarrow> command_lines (Suc (length d)) d ([], []);
          _ \<leftarrow> rmfr path;
          if action = [] \<or> args = [] then ret (-1)
          else if action = ''DELETE'' then do { _ \<leftarrow> update_history_on_cmd_delete (Some args); ret 0 }
          else ret (-1) }) }"

section \<open>Handlers\<close>

definition process_info_and_error_inotify_callback :: "watch_entry \<Rightarrow> inotify_event \<Rightarrow> ('w, int) dop" where
  "process_info_and_error_inotify_callback entry event =
     (if ev_len event \<noteq> 0 then process_info_and_error (eventpath entry) (ev_name event) else ret (-1))"

text \<open>A vital file was removed: the process exits. The result is not used.\<close>

definition process_reset_event :: "('w, int) op" where
  "process_reset_event = do {
     property_set TOKEN CRASHLOG_ERROR_RESET;
     effect (Exit (-1));
     ret (-1) }"

fun call_handler :: "callback \<Rightarrow> watch_entry \<Rightarrow> inotify_event \<Rightarrow> ('w, int) rop" where
  "call_handler Process_anruiwdt entry event = process_anruiwdt_event entry event"
| "call_handler Process_usercrash entry event = process_usercrash_event entry event"
| "call_handler Process_hprof entry event = process_hprof_event entry event"
| "call_handler Process_stat entry event = process_stat_event entry event"
| "call_handler Process_info_and_error entry event = process_info_and_error_inotify_callback entry event"
| "call_handler Process_command entry event = process_command_event entry event"
| "call_handler Process_apcore entry event = process_apcore_event entry event"
| "call_handler Process_aplog entry event = process_aplog_event entry event"
| "call_handler Process_lost entry event = process_lost_event entry event"
| "call_handler Process_uptime entry event = process_uptime_event"
| "call_handler Process_reset entry event = process_reset_event"

text \<open>The numbers of the enumeration of event types.\<close>

fun type_number :: "event_type \<Rightarrow> nat" where
  "type_number LOST_TYPE = 0"
| "type_number SYSSERVER_TYPE = 1"
| "type_number ANR_TYPE = 2"
| "type_number TOMBSTONE_TYPE = 3"
| "type_number JAVATOMBSTONE_TYPE = 4"
| "type_number JAVACRASH_TYPE = 5"
| "type_number JAVACRASH_TYPE2 = 6"
| "type_number APCORE_TYPE = 7"
| "type_number HPROF_TYPE = 8"
| "type_number STATTRIG_TYPE = 9"
| "type_number INFOTRIG_TYPE = 10"
| "type_number ERRORTRIG_TYPE = 11"
| "type_number APLOGTRIG_TYPE = 12"
| "type_number CMDTRIG_TYPE = 13"
| "type_number BUILDID_TYPE = 14"
| "type_number UPTIME_TYPE = 15"

definition callbacks :: "bool \<Rightarrow> (event_type \<times> callback) list" where
  "callbacks full_report =
     [(SYSSERVER_TYPE, Process_anruiwdt), (ANR_TYPE, Process_anruiwdt), (TOMBSTONE_TYPE, Process_usercrash),
      (JAVATOMBSTONE_TYPE, Process_usercrash), (JAVACRASH_TYPE, Process_usercrash), (JAVACRASH_TYPE2, Process_usercrash)] @
     (if full_report then
        [(HPROF_TYPE, Process_hprof), (STATTRIG_TYPE, Process_stat), (INFOTRIG_TYPE, Process_info_and_error),
         (ERRORTRIG_TYPE, Process_info_and_error), (CMDTRIG_TYPE, Process_command), (APCORE_TYPE, Process_apcore)]
      else []) @
     [(APLOGTRIG_TYPE, Process_aplog), (LOST_TYPE, Process_lost), (UPTIME_TYPE, Process_uptime), (BUILDID_TYPE, Process_reset)]"

fun set_callbacks :: "(event_type \<times> callback) list \<Rightarrow> ('w, unit) rop" where
  "set_callbacks [] = ret ()"
| "set_callbacks ((t, cb) # cs) = do { _ \<leftarrow> set_watch_entry_callback (type_number t) cb; set_callbacks cs }"

section \<open>The loop\<close>

definition HISTORY_UPTIME :: string where "HISTORY_UPTIME = LOGS_DIR @ ''/uptime''"
definition PROP_PROC_ONGOING :: string where "PROP_PROC_ONGOING = ''crashlogd.vendor.processing.ongoing''"

text \<open>One turn of the thread that touches the uptime file every five minutes.\<close>

definition timeup_turn :: "('w, unit) op" where
  "timeup_turn = do {
     old \<leftarrow> gets (\<lambda>s. node_at s HISTORY_UPTIME);
     _ \<leftarrow> (case old of Some (File x) \<Rightarrow> open_update HISTORY_UPTIME | _ \<Rightarrow> open_trunc HISTORY_UPTIME);
     ret () }"

text \<open>What precedes the loop; whether the loop is entered.\<close>

definition start_monitor :: "(int \<Rightarrow> string) \<Rightarrow> bool \<Rightarrow> ('w, bool) eop" where
  "start_monitor strerror full_report = do {
     fd \<leftarrow> init_inotify_handler;
     if fd < 0 then ret False
     else do {
       n \<leftarrow> gets get_missing_watched_dir_nb;
       (if n \<noteq> 0 then handle_missing_watched_dir strerror else ret ());
       set_callbacks (callbacks full_report);
       init_ecc_handler;
       restore_count;
       _ \<leftarrow> enable_watchdog CRASHLOG_WD_TIMEOUT;
       ret True } }"

text \<open>
  One turn of the loop. Without the modules for the modem, the kernel and applications the inotify
  descriptor is the only one waited for; it is ready when there are events.
\<close>

definition monitor_turn :: "('w, unit) eop" where
  "monitor_turn = do {
     kick_watchdog;
     ecc_count_handle;
     property_set PROP_PROC_ONGOING ''0'';
     f \<leftarrow> syscall;
     property_set PROP_PROC_ONGOING ''1'';
     ready \<leftarrow> gets (\<lambda>s. inotify_queue s \<noteq> []);
     (case f of
        Fails e \<Rightarrow> set_errno e
      | _ \<Rightarrow> if ready then do { _ \<leftarrow> receive_inotify_events call_handler; ret () } else ret ()) }"

text \<open>The loop does not end by itself, only with the process; the model runs a number of turns of it.\<close>

definition exited :: "'w world_scheme \<Rightarrow> bool" where
  "exited s \<longleftrightarrow> (\<exists>e \<in> set (effects s). case e of Exit _ \<Rightarrow> True | _ \<Rightarrow> False)"

fun monitor :: "nat \<Rightarrow> ('w, unit) eop" where
  "monitor 0 = ret ()"
| "monitor (Suc n) = do {
     stop \<leftarrow> gets exited;
     if stop then ret () else do { monitor_turn; monitor n } }"

section \<open>The program\<close>

definition compute_crashlogd_mode :: "string \<Rightarrow> bool \<Rightarrow> ('w, int) rop" where
  "compute_crashlogd_mode mode ramdump_flag = do {
     enable \<leftarrow> gets (\<lambda>s. prop_get s ''persist.vendor.crashlogd.enable'' []);
     nominal \<leftarrow> gets nominal_flag;
     if nominal \<or> mode \<in> {''main'', ''normal'', []} then do {
       modify (\<lambda>s. s\<lparr>g_crashlog_mode := (if enable = ''0'' then MINIMAL_MODE else NOMINAL_MODE)\<rparr>);
       ret 0 }
     else if mode = ''ramconsole'' then
       (if ramdump_flag then do { modify (\<lambda>s. s\<lparr>g_crashlog_mode := RAMDUMP_MODE\<rparr>); ret 0 } else ret (-1))
     else do { modify (\<lambda>s. s\<lparr>g_crashlog_mode := MINIMAL_MODE\<rparr>); ret 0 } }"

text \<open>The arguments: whether to go on, and the flags for tests and for memory dumps.\<close>

definition read_args :: "string list \<Rightarrow> ('w, (bool \<times> bool) option) rop" where
  "read_args args =
     (case args of
        [] \<Rightarrow> ret (Some (False, False))
      | [a] \<Rightarrow>
          if a = ''-test'' then ret (Some (True, False))
          else if a = ''-ramdump'' then ret (Some (False, True))
          else if a = ''-nominal'' then do { modify (\<lambda>s. s\<lparr>nominal_flag := True\<rparr>); ret (Some (False, False)) }
          else
            (case strtoul 0 a of
               (n, rest, over) \<Rightarrow> do {
                 set_errno 0;
                 let neg = (take 1 (dropWhile isspace a) = ''-'');
                 let m = (if neg then (2 ^ 64 - n) mod 2 ^ 64 else n);
                 if over \<or> m > (if neg then 2 ^ 63 else 2 ^ 63 - 1) then do { set_errno ERANGE; ret None }
                 else do {
                   modify (\<lambda>s. s\<lparr>gmaxfiles := to_int32 (if neg then - int m else int m)\<rparr>);
                   ret (Some (False, False)) } })
      | _ \<Rightarrow> ret None)"

definition encryption_state :: "crash_env \<Rightarrow> string" where
  "encryption_state env =
     (if encrypt_progress env \<noteq> [] \<and> crypt_state env = ''unencrypted'' then ''ENCRYPTING''
      else if crypt_state env = ''unencrypted'' then ''DECRYPTED''
      else if crypt_state env = ''encrypted'' \<and> decrypt env = ''trigger_restart_framework'' then ''ENCRYPTED''
      else ''UNKNOWN_ENCRYPTION'')"

text \<open>
  \<open>main\<close> with \<open>n\<close> turns of the loop: the exit code, or none when the loop is still running. The thread
  of the uptime file is started before the loop; creating a thread never gives a negative number. The
  wait for a debugger and the setting of the mask of new files are left out.
\<close>

definition crashlogd_main :: "build_options \<Rightarrow> (int \<Rightarrow> string) \<Rightarrow> nat \<Rightarrow> string list \<Rightarrow> ('w, int option) eop" where
  "crashlogd_main b strerror n args = do {
     flags \<leftarrow> read_args args;
     (case flags of
        None \<Rightarrow> ret (Some (-1))
      | Some (test_flag, ramdump_flag) \<Rightarrow> do {
          property_set PROP_PROC_ONGOING ''1'';
          load_config;
          env \<leftarrow> get_crash_env;
          modify (\<lambda>s. s\<lparr>pytimechart_present := file_exists ''/system/vendor/bin/pytimechart-record'' s,
                        logsystemstate_available := file_exists ''/system/vendor/bin/dumpstate_dropbox.sh'' s\<rparr>);
          let alreadyran = (env_token env \<noteq> []);
          r \<leftarrow> compute_crashlogd_mode (boot_mode env) ramdump_flag;
          if r < 0 then ret (Some (-1))
          else do {
            mode \<leftarrow> gets g_crashlog_mode;
            (case mode of
               RAMDUMP_MODE \<Rightarrow>
                 (case b_ramdump b of
                    None \<Rightarrow> ret (Some 0)
                  | Some crashlog \<Rightarrow> do { c \<leftarrow> do_ramdump_checks b crashlog test_flag; ret (Some c) })
             | _ \<Rightarrow> do {
                 (if mode = MINIMAL_MODE then
                    (if \<not> alreadyran then early_check_nomain b (map toupper (boot_mode env)) test_flag else ret ())
                  else do {
                    update_history;
                    if \<not> alreadyran then early_check b (encryption_state env) test_flag else ret () });
                 check_crashlog_died;
                 go \<leftarrow> start_monitor strerror (b_full_report b);
                 if \<not> go then ret (Some (-1))
                 else do { monitor n; ret None } }) } }) }"

end
