(* ===== verification/Runtime_Frames.thy ===== *)
theory Runtime_Frames
  imports Daemon_Main Frames
begin

text \<open>
  What handling an event leaves alone. The locale \<open>keeper\<close> asks for a part of the state that does
  not depend on files, properties, effects and the caches and buffers that the handlers write; every
  handler keeps such a part. The two locales of \<open>Frames\<close> are instances of it.
\<close>

locale keeper =
  fixes f :: "'w runtime_scheme \<Rightarrow> 'x"
  assumes k_world: "f (s\<lparr>fs := a1\<rparr>) = f s" "f (s\<lparr>props := a2\<rparr>) = f s" "f (s\<lparr>errno := a3\<rparr>) = f s"
      "f (s\<lparr>calls := a4\<rparr>) = f s" "f (s\<lparr>effects := a5\<rparr>) = f s"
    and k_hist: "f (s\<lparr>historycache := b1\<rparr>) = f s" "f (s\<lparr>nextline := b2\<rparr>) = f s" "f (s\<lparr>fileentries := b3\<rparr>) = f s"
      "f (s\<lparr>lastfakeprop := b4\<rparr>) = f s" "f (s\<lparr>saved_hours := b5\<rparr>) = f s" "f (s\<lparr>saved_lastuptime := b6\<rparr>) = f s"
      "f (s\<lparr>time_long := b7\<rparr>) = f s"
    and k_daemon: "f (s\<lparr>crashreport_available := c1\<rparr>) = f s" "f (s\<lparr>modem_values := c2\<rparr>) = f s"
      "f (s\<lparr>ingredients_disabled := c3\<rparr>) = f s" "f (s\<lparr>old_values := c4\<rparr>) = f s" "f (s\<lparr>footprint := c5\<rparr>) = f s"
      "f (s\<lparr>imei := c6\<rparr>) = f s" "f (s\<lparr>sha_ready := c7\<rparr>) = f s" "f (s\<lparr>sha_inputs := c8\<rparr>) = f s"
      "f (s\<lparr>partlogfull_errorset := c9\<rparr>) = f s" "f (s\<lparr>gabortcleansd := c10\<rparr>) = f s"
    and k_runtime: "f (s\<lparr>logger_path := d1\<rparr>) = f s" "f (s\<lparr>flush_aplog_cmd := d2\<rparr>) = f s" "f (s\<lparr>flush_aplog_boot_cmd := d3\<rparr>) = f s"
      "f (s\<lparr>gcurrent_key := d4\<rparr>) = f s" "f (s\<lparr>index_prod := d5\<rparr>) = f s" "f (s\<lparr>index_cons := d6\<rparr>) = f s"
      "f (s\<lparr>previous_event_cookie := d7\<rparr>) = f s" "f (s\<lparr>previous_filename := d8\<rparr>) = f s"
      "f (s\<lparr>loop_uptime_event := d9\<rparr>) = f s" "f (s\<lparr>watches := d10\<rparr>) = f s" "f (s\<lparr>next_wd := d11\<rparr>) = f s"
      "f (s\<lparr>inotify_queue := d12\<rparr>) = f s"
begin

lemmas k_laws = k_world k_hist k_daemon k_runtime

end

sublocale keeper \<subseteq> base: daemon_frame f "\<lambda>_. True" "\<lambda>_. True"
  by unfold_locales (simp_all add: put_def del_def k_laws)

sublocale keeper \<subseteq> past: hist_frame f "\<lambda>_. True" "\<lambda>_. True"
  by unfold_locales (simp_all add: put_def del_def k_laws)

context keeper
begin

lemma keeps_case_bool [frames]:
  "(x \<Longrightarrow> keeps f a) \<Longrightarrow> (\<not> x \<Longrightarrow> keeps f b) \<Longrightarrow> keeps f (case x of True \<Rightarrow> a | False \<Rightarrow> b)"
  by (cases x) auto

lemma keeps_case_aplog_file [frames]:
  "(x = APLOG \<Longrightarrow> keeps f a) \<Longrightarrow> (x = APLOG_BOOT \<Longrightarrow> keeps f b) \<Longrightarrow> keeps f (case x of APLOG \<Rightarrow> a | APLOG_BOOT \<Rightarrow> b)"
  by (cases x) auto

lemma keeps_do_copy_pvr [frames]: "keeps f (do_copy_pvr a1 a2)"
  unfolding do_copy_pvr_def by (intro frames TrueI keeps_modify; simp add: k_laws)

lemma keeps_copy_pvr_in [frames]: "keeps f (copy_pvr_in a1 a2 a3)"
  unfolding copy_pvr_in_def by (intro frames TrueI keeps_modify; simp add: k_laws)

lemma keeps_infoerror_with [frames]: "(\<And>a. keeps f (raise a)) \<Longrightarrow> keeps f (infoerror_with raise ty sub)"
  unfolding infoerror_with_def by (intro frames TrueI; assumption?)

lemma keeps_notify_crashreport [frames]: "keeps f notify_crashreport"
  unfolding notify_crashreport_def by (intro frames TrueI keeps_modify; simp add: k_laws)

lemma keeps_raise_core [frames]: "(\<And>k n. keeps f (reboot k n)) \<Longrightarrow> keeps f (raise_core reboot a)"
  unfolding raise_core_def by (intro frames TrueI; assumption?)

lemma keeps_rebootfile_with [frames]: "(\<And>ty sub. keeps f (info ty sub)) \<Longrightarrow> keeps f (rebootfile_with info k n)"
  unfolding rebootfile_with_def by (intro frames TrueI; assumption?)

lemma keeps_priv_raise [frames]: "keeps f (priv_raise n a)"
proof (induction n arbitrary: a)
  case (Suc n)
  show ?case unfolding priv_raise.simps by (intro frames Suc)
qed (simp add: keeps_ret)

lemma keeps_priv_raise_event [frames]: "keeps f (priv_raise_event a)"
  unfolding priv_raise_event_def by (intro frames)

lemma keeps_raise_event [frames]: "keeps f (raise_event k ev ty sub l)" "keeps f (raise_event_nouptime k ev ty sub l)"
  "keeps f (raise_event_wdt k ev ty sub l)" "keeps f (raise_event_bootuptime k ev ty sub l)"
  unfolding raise_event_def raise_event_nouptime_def raise_event_wdt_def raise_event_bootuptime_def by (intro frames)+

lemma keeps_crash_failed [frames]: "keeps f (crash_failed a1 a2 a3 a4)"
  unfolding crash_failed_def by (intro frames TrueI keeps_modify; simp add: k_laws)

lemma keeps_open_both [frames]: "keeps f (open_both a1 a2)"
  unfolding open_both_def by (intro frames TrueI keeps_modify; simp add: k_laws)

lemma keeps_check_partlogfull [frames]: "keeps f (check_partlogfull a1)"
  unfolding check_partlogfull_def by (intro frames TrueI keeps_modify; simp add: k_laws)

lemma keeps_raise_infoerror [frames]: "keeps f (raise_infoerror ty sub)"
  unfolding raise_infoerror_def by (intro frames)

lemma keeps_send_part [frames]: "keeps f (send_part a1 a2 a3)"
  unfolding send_part_def by (intro frames TrueI keeps_modify; simp add: k_laws)

lemma keeps_do_copy_tail [frames]: "keeps f (do_copy_tail a1 a2 a3)"
  unfolding do_copy_tail_def by (intro frames TrueI keeps_modify; simp add: k_laws)

lemma keeps_can_attach_bplog [frames]: "keeps f (can_attach_bplog a1)"
  unfolding can_attach_bplog_def by (intro frames TrueI keeps_modify; simp add: k_laws)

lemma keeps_circular_loop [frames]: "keeps f (circular_loop n path dest ext extra len i limit rc)"
proof (induction n arbitrary: i limit rc)
  case (Suc n)
  show ?case unfolding circular_loop.simps by (intro frames TrueI keeps_modify Suc.IH; simp add: k_laws)
qed (simp add: keeps_ret)

lemma keeps_do_copy_circular [frames]: "keeps f (do_copy_circular a1 a2 a3 a4 a5 a6 a7)"
  unfolding do_copy_circular_def by (intro frames TrueI keeps_modify; simp add: k_laws)

lemma keeps_get_bplog_file [frames]: "keeps f (get_bplog_file a1 a2)"
  unfolding get_bplog_file_def by (intro frames TrueI keeps_modify; simp add: k_laws)

lemma keeps_copy_bplogs [frames]: "keeps f (copy_bplogs a1 a2 a3 a4 a5)"
  unfolding copy_bplogs_def by (intro frames TrueI keeps_modify; simp add: k_laws)

lemma keeps_bplogs_down [frames]: "keeps f (bplogs_down n tag dir limit i)"
proof (induction n)
  case (Suc n)
  show ?case unfolding bplogs_down.simps by (intro frames TrueI keeps_modify Suc.IH; simp add: k_laws)
qed (simp add: keeps_ret)

lemma keeps_c_remove [frames]: "keeps f (c_remove a1)"
  unfolding c_remove_def by (intro frames TrueI keeps_modify; simp add: k_laws)

lemma keeps_do_copy [frames]: "keeps f (do_copy a1 a2 a3)"
  unfolding do_copy_def by (intro frames TrueI keeps_modify; simp add: k_laws)

lemma keeps_get_logger_path [frames]: "keeps f get_logger_path"
  unfolding get_logger_path_def by (intro frames TrueI keeps_modify; simp add: k_laws)

lemma keeps_logger_cmd [frames]: "keeps f (logger_cmd a1)"
  unfolding logger_cmd_def by (intro frames TrueI keeps_modify; simp add: k_laws)

lemma keeps_run_child [frames]: "keeps f (run_child a1 a2)"
  unfolding run_child_def by (intro frames TrueI keeps_modify; simp add: k_laws)

lemma keeps_flush_aplog [frames]: "keeps f (flush_aplog a1 a2 a3 a4)"
  unfolding flush_aplog_def by (intro frames TrueI keeps_modify; simp add: k_laws)

lemma keeps_copy_aplogs [frames]: "keeps f (copy_aplogs a1 a2 a3 a4)"
  unfolding copy_aplogs_def by (intro frames TrueI keeps_modify; simp add: k_laws)

lemma keeps_do_logs_copy [frames]: "keeps f (do_logs_copy a1 a2 a3 a4 a5)"
  unfolding do_logs_copy_def by (intro frames TrueI keeps_modify; simp add: k_laws)

lemma keeps_do_log_copy [frames]: "keeps f (do_log_copy a1 a2 a3 a4)"
  unfolding do_log_copy_def by (intro frames TrueI keeps_modify; simp add: k_laws)

lemma keeps_create_crash_folder [frames]: "keeps f (create_crash_folder a1)"
  unfolding create_crash_folder_def by (intro frames TrueI keeps_modify; simp add: k_laws)

lemma keeps_delete_loop [frames]: "keeps f (delete_loop k p d pos)"
proof (induction k arbitrary: pos)
  case (Suc k)
  show ?case unfolding delete_loop.simps by (intro frames TrueI keeps_modify Suc.IH; simp add: k_laws)
qed (simp add: keeps_ret)

lemma keeps_history_delete_first_existent_logcrashpath [frames]: "keeps f (history_delete_first_existent_logcrashpath a1)"
  unfolding history_delete_first_existent_logcrashpath_def by (intro frames TrueI keeps_modify; simp add: k_laws)

lemma keeps_get_path_size [frames]: "keeps f (get_path_size a1)"
  unfolding get_path_size_def by (intro frames TrueI keeps_modify; simp add: k_laws)

lemma keeps_check_free_space_available [frames]: "keeps f (check_free_space_available a1 a2)"
  unfolding check_free_space_available_def by (intro frames TrueI keeps_modify; simp add: k_laws)

lemma keeps_close_file [frames]: "keeps f (close_file a1 a2 a3)"
  unfolding close_file_def by (intro frames TrueI keeps_modify; simp add: k_laws)

lemma keeps_reset_file [frames]: "keeps f (reset_file a1)"
  unfolding reset_file_def by (intro frames TrueI keeps_modify; simp add: k_laws)

lemma keeps_read_file [frames]: "keeps f (read_file a1)"
  unfolding read_file_def by (intro frames TrueI keeps_modify; simp add: k_laws)

lemma keeps_update_file [frames]: "keeps f (update_file a1 a2)"
  unfolding update_file_def by (intro frames TrueI keeps_modify; simp add: k_laws)

lemma keeps_reserve_crash_folder [frames]: "keeps f (reserve_crash_folder a1)"
  unfolding reserve_crash_folder_def by (intro frames TrueI keeps_modify; simp add: k_laws)

lemma keeps_rm_loop [frames]: "(\<And>p. keeps f (rec p)) \<Longrightarrow> keeps f (rm_loop rec path b es)"
proof (induction es)
  case (Cons e es)
  then show ?case by (cases e, simp only: rm_loop.simps) (intro frames TrueI; blast)
qed (simp add: keeps_ret)

lemma keeps_rmfr_specific [frames]: "keeps f (rmfr_specific n path a b)"
proof (induction n arbitrary: path a b)
  case (Suc n)
  show ?case unfolding rmfr_specific.simps by (intro frames TrueI Suc)
qed (simp add: keeps_ret)

lemma keeps_rmfr [frames]: "keeps f (rmfr a1)"
  unfolding rmfr_def by (intro frames TrueI keeps_modify; simp add: k_laws)

lemma keeps_rmfr_all [frames]: "keeps f (rmfr_all path ns)"
proof (induction ns)
  case (Cons n ns)
  show ?case unfolding rmfr_all.simps by (intro frames TrueI keeps_modify Cons.IH; simp add: k_laws)
qed (simp add: keeps_ret)

lemma keeps_rmfr_match [frames]: "keeps f (rmfr_match a1)"
  unfolding rmfr_match_def by (intro frames TrueI keeps_modify; simp add: k_laws)

lemma keeps_generate_crashlog_dir [frames]: "keeps f (generate_crashlog_dir a1 a2)"
  unfolding generate_crashlog_dir_def by (intro frames TrueI keeps_modify; simp add: k_laws)

lemma keeps_get_current_time_short [frames]: "keeps f (get_current_time_short a1)"
  unfolding get_current_time_short_def by (intro frames TrueI keeps_modify; simp add: k_laws)

lemma keeps_copy_and_remove [frames]: "keeps f (copy_and_remove a1 a2 a3)"
  unfolding copy_and_remove_def by (intro frames TrueI keeps_modify; simp add: k_laws)

lemma keeps_find_matching_file [frames]: "keeps f (find_matching_file a1 a2 a3)"
  unfolding find_matching_file_def by (intro frames TrueI keeps_modify; simp add: k_laws)

lemma keeps_process_info_and_error [frames]: "keeps f (process_info_and_error a1 a2)"
  unfolding process_info_and_error_def by (intro frames TrueI keeps_modify; simp add: k_laws)

lemma keeps_create_infoevent [frames]: "keeps f (create_infoevent a1 a2 a3 a4)"
  unfolding create_infoevent_def by (intro frames TrueI keeps_modify; simp add: k_laws)

lemma keeps_manage_duplicate_dropbox_events [frames]: "keeps f (manage_duplicate_dropbox_events a1)"
  unfolding manage_duplicate_dropbox_events_def by (intro frames TrueI keeps_modify; simp add: k_laws)

lemma keeps_start_daemon [frames]: "keeps f (start_daemon a1)"
  unfolding start_daemon_def by (intro frames TrueI keeps_modify; simp add: k_laws)

lemma keeps_restart_profile_srv [frames]: "keeps f (restart_profile_srv a1)"
  unfolding restart_profile_srv_def by (intro frames TrueI keeps_modify; simp add: k_laws)

lemma keeps_process_anruiwdt_event [frames]: "keeps f (process_anruiwdt_event a1 a2)"
  unfolding process_anruiwdt_event_def by (intro frames TrueI keeps_modify; simp add: k_laws)

lemma keeps_backup_apcoredump [frames]: "keeps f (backup_apcoredump a1 a2 a3)"
  unfolding backup_apcoredump_def by (intro frames TrueI keeps_modify; simp add: k_laws)

lemma keeps_find_str_in_file [frames]: "keeps f (find_str_in_file a1 a2 a3)"
  unfolding find_str_in_file_def by (intro frames TrueI keeps_modify; simp add: k_laws)

lemma keeps_priv_filter_crashevent [frames]: "keeps f (priv_filter_crashevent a1 a2)"
  unfolding priv_filter_crashevent_def by (intro frames TrueI keeps_modify; simp add: k_laws)

lemma keeps_write_core_data [frames]: "keeps f (write_core_data a1 a2)"
  unfolding write_core_data_def by (intro frames TrueI keeps_modify; simp add: k_laws)

lemma keeps_process_apcore_event [frames]: "keeps f (process_apcore_event a1 a2)"
  unfolding process_apcore_event_def by (intro frames TrueI keeps_modify; simp add: k_laws)

lemma keeps_copy_comment [frames]: "keeps f (copy_comment a1 a2 a3)"
  unfolding copy_comment_def by (intro frames TrueI keeps_modify; simp add: k_laws)

lemma keeps_screenshot_lines [frames]: "keeps f (screenshot_lines ls dir n)"
proof (induction ls arbitrary: n)
  case (Cons l ls)
  show ?case unfolding screenshot_lines.simps by (intro frames TrueI keeps_modify Cons.IH; simp add: k_laws)
qed (simp add: keeps_ret)

lemma keeps_do_screenshot_copy [frames]: "keeps f (do_screenshot_copy a1 a2)"
  unfolding do_screenshot_copy_def by (intro frames TrueI keeps_modify; simp add: k_laws)

lemma keeps_send_log_event [frames]: "keeps f (send_log_event a1 a2 a3)"
  unfolding send_log_event_def by (intro frames TrueI keeps_modify; simp add: k_laws)

lemma keeps_bz_report [frames]: "keeps f (bz_report a1 a2 a3 a4 a5)"
  unfolding bz_report_def by (intro frames TrueI keeps_modify; simp add: k_laws)

lemma keeps_get_value_in_file [frames]: "keeps f (get_value_in_file a1 a2 a3 a4)"
  unfolding get_value_in_file_def by (intro frames TrueI keeps_modify; simp add: k_laws)

lemma keeps_read_trigger [frames]: "keeps f (read_trigger a1)"
  unfolding read_trigger_def by (intro frames TrueI keeps_modify; simp add: k_laws)

lemma keeps_log_request_of [frames]: "keeps f (log_request_of a1 a2)"
  unfolding log_request_of_def by (intro frames TrueI keeps_modify; simp add: k_laws)

lemma keeps_new_log_dir [frames]: "keeps f (new_log_dir a1)"
  unfolding new_log_dir_def by (intro frames TrueI keeps_modify; simp add: k_laws)

lemma keeps_packet_logs [frames]: "keeps f (packet_logs n mode depth len p i kd)"
proof (induction n arbitrary: i kd)
  case (Suc n)
  show ?case unfolding packet_logs.simps by (intro frames TrueI keeps_modify Suc.IH; simp add: k_laws)
qed (simp add: keeps_ret)

lemma keeps_packets [frames]: "keeps f (packets n mode root trig depth len p kd)"
proof (induction n arbitrary: p kd)
  case (Suc n)
  show ?case unfolding packets.simps by (intro frames TrueI keeps_modify Suc.IH; simp add: k_laws)
qed (simp add: keeps_ret)

lemma keeps_serve_log_request [frames]: "keeps f (serve_log_request a1 a2 a3 a4)"
  unfolding serve_log_request_def by (intro frames TrueI keeps_modify; simp add: k_laws)

lemma keeps_process_log_event [frames]: "keeps f (process_log_event a1 a2 a3)"
  unfolding process_log_event_def by (intro frames TrueI keeps_modify; simp add: k_laws)

lemma keeps_process_aplog_event [frames]: "keeps f (process_aplog_event a1 a2)"
  unfolding process_aplog_event_def by (intro frames TrueI keeps_modify; simp add: k_laws)

lemma keeps_command_lines [frames]: "keeps f (command_lines n rest v)"
proof (induction n arbitrary: rest v)
  case (Suc n)
  show ?case unfolding command_lines.simps by (intro frames TrueI keeps_modify Suc.IH; simp add: k_laws)
qed (simp add: keeps_ret)

lemma keeps_mark_patterns [frames]: "keeps f (mark_patterns pats n at ev dir)"
proof (induction n arbitrary: pats)
  case (Suc n)
  show ?case unfolding mark_patterns.simps by (intro frames TrueI keeps_modify Suc.IH; simp add: k_laws)
qed (simp add: keeps_ret)

lemma keeps_cmd_delete_loop [frames]: "keeps f (cmd_delete_loop k pats n d pos)"
proof (induction k arbitrary: pos)
  case (Suc k)
  show ?case unfolding cmd_delete_loop.simps by (intro frames TrueI keeps_modify Suc.IH; simp add: k_laws)
qed (simp add: keeps_ret)

lemma keeps_alloc_many [frames]: "keeps f (alloc_many n)"
proof (induction n)
  case (Suc n)
  show ?case unfolding alloc_many.simps by (intro frames TrueI keeps_modify Suc.IH; simp add: k_laws)
qed (simp add: keeps_ret)

lemma keeps_commachain_to_fixedarray [frames]: "keeps f (commachain_to_fixedarray a1 a2 a3)"
  unfolding commachain_to_fixedarray_def by (intro frames TrueI keeps_modify; simp add: k_laws)

lemma keeps_update_history_on_cmd_delete [frames]: "keeps f (update_history_on_cmd_delete a1)"
  unfolding update_history_on_cmd_delete_def by (intro frames TrueI keeps_modify; simp add: k_laws)

lemma keeps_process_command_event [frames]: "keeps f (process_command_event a1 a2)"
  unfolding process_command_event_def by (intro frames TrueI keeps_modify; simp add: k_laws)

lemma keeps_priv_process_usercrash_event [frames]: "keeps f (priv_process_usercrash_event a1 a2)"
  unfolding priv_process_usercrash_event_def by (intro frames TrueI keeps_modify; simp add: k_laws)

lemma keeps_process_hprof_event [frames]: "keeps f (process_hprof_event a1 a2)"
  unfolding process_hprof_event_def by (intro frames TrueI keeps_modify; simp add: k_laws)

lemma keeps_process_info_and_error_inotify_callback [frames]: "keeps f (process_info_and_error_inotify_callback a1 a2)"
  unfolding process_info_and_error_inotify_callback_def by (intro frames TrueI keeps_modify; simp add: k_laws)

lemma keeps_process_lost_event [frames]: "keeps f (process_lost_event a1 a2)"
  unfolding process_lost_event_def by (intro frames TrueI keeps_modify; simp add: k_laws)

lemma keeps_property_set [frames]: "keeps f (property_set a1 a2)"
  unfolding property_set_def by (intro frames TrueI keeps_modify; simp add: k_laws)

lemma keeps_process_reset_event [frames]: "keeps f process_reset_event"
  unfolding process_reset_event_def by (intro frames TrueI keeps_modify; simp add: k_laws)

lemma keeps_copy_head_and_remove [frames]: "keeps f (copy_head_and_remove a1 a2 a3)"
  unfolding copy_head_and_remove_def by (intro frames TrueI keeps_modify; simp add: k_laws)

lemma keeps_process_stat_event [frames]: "keeps f (process_stat_event a1 a2)"
  unfolding process_stat_event_def by (intro frames TrueI keeps_modify; simp add: k_laws)

lemma keeps_history_has_event [frames]: "keeps f (history_has_event a1)"
  unfolding history_has_event_def by (intro frames TrueI keeps_modify; simp add: k_laws)

lemma keeps_clean_entries [frames]: "keeps f (clean_entries dir mx i ns)"
proof (induction ns arbitrary: i)
  case (Cons n ns)
  show ?case unfolding clean_entries.simps by (intro frames TrueI keeps_modify Cons.IH; simp add: k_laws)
qed (simp add: keeps_ret)

lemma keeps_clean_crashlog_in_sd [frames]: "keeps f (clean_crashlog_in_sd a1 a2)"
  unfolding clean_crashlog_in_sd_def by (intro frames TrueI keeps_modify; simp add: k_laws)

lemma keeps_add_uptime_event [frames]: "keeps f add_uptime_event"
  unfolding add_uptime_event_def by (intro frames TrueI keeps_modify; simp add: k_laws)

lemma keeps_clean_fake_property [frames]: "keeps f clean_fake_property"
  unfolding clean_fake_property_def by (intro frames TrueI keeps_modify; simp add: k_laws)

lemma keeps_process_uptime_event [frames]: "keeps f process_uptime_event"
  unfolding process_uptime_event_def by (intro frames TrueI keeps_modify; simp add: k_laws)

lemma keeps_process_usercrash_event [frames]: "keeps f (process_usercrash_event a1 a2)"
  unfolding process_usercrash_event_def by (intro frames TrueI keeps_modify; simp add: k_laws)

lemma keeps_read_inotify [frames]: "keeps f (read_inotify a1)"
  unfolding read_inotify_def by (intro frames TrueI keeps_modify; simp add: k_laws)

lemma keeps_finalize_dropbox_pending_event [frames]: "keeps f finalize_dropbox_pending_event"
  unfolding finalize_dropbox_pending_event_def by (intro frames TrueI keeps_modify; simp add: k_laws)

lemma keeps_get_event_entry [frames]: "keeps f (get_event_entry es w name)"
proof (induction es)
  case (Cons e es)
  show ?case unfolding get_event_entry.simps by (intro frames TrueI Cons.IH)
qed (simp add: keeps_ret)

lemma keeps_inotify_rm_watch [frames]: "keeps f (inotify_rm_watch a1)"
  unfolding inotify_rm_watch_def by (intro frames TrueI keeps_modify; simp add: k_laws)

lemma keeps_inotify_add_watch [frames]: "keeps f (inotify_add_watch a1 a2)"
  unfolding inotify_add_watch_def by (intro frames TrueI keeps_modify; simp add: k_laws)

lemma keeps_check_ecc_error [frames]: "keeps f (check_ecc_error a1)"
  unfolding check_ecc_error_def by (intro frames TrueI keeps_modify; simp add: k_laws)

lemma keeps_copy_in [frames]: "keeps f (copy_in a1 a2 a3)"
  unfolding copy_in_def by (intro frames TrueI keeps_modify; simp add: k_laws)

lemma keeps_copy_if_there [frames]: "keeps f (copy_if_there a1 a2 a3)"
  unfolding copy_if_there_def by (intro frames TrueI keeps_modify; simp add: k_laws)

lemma keeps_date_now [frames]: "keeps f date_now"
  unfolding date_now_def by (intro frames TrueI keeps_modify; simp add: k_laws)

lemma keeps_print_out [frames]: "keeps f (print_out a1 a2)"
  unfolding print_out_def by (intro frames TrueI keeps_modify; simp add: k_laws)

lemma keeps_command_out [frames]: "keeps f (command_out a1 a2 a3)"
  unfolding command_out_def by (intro frames TrueI keeps_modify; simp add: k_laws)

lemma keeps_dump_dmesg [frames]: "keeps f (dump_dmesg a1)"
  unfolding dump_dmesg_def by (intro frames TrueI keeps_modify; simp add: k_laws)

lemma keeps_set_backup_count [frames]: "keeps f (set_backup_count a1)"
  unfolding set_backup_count_def by (intro frames TrueI keeps_modify; simp add: k_laws)

lemma keeps_infoevents_for [frames]: "keeps f (infoevents_for err date es)"
proof (induction es)
  case (Cons e es)
  show ?case unfolding infoevents_for.simps by (intro frames TrueI keeps_modify Cons.IH; simp add: k_laws)
qed (simp add: keeps_ret)

lemma keeps_handle_missing_watched_dir [frames]: "keeps f (handle_missing_watched_dir a1)"
  unfolding handle_missing_watched_dir_def by (intro frames TrueI keeps_modify; simp add: k_laws)

lemma keeps_get_backup_count [frames]: "keeps f (get_backup_count a1)"
  unfolding get_backup_count_def by (intro frames TrueI keeps_modify; simp add: k_laws)

end

end
