(* ===== verification/Monitor.thy ===== *)
theory Monitor
  imports Runtime_Frames
begin

text \<open>
  The main loop as a whole: whatever events arrive and whatever fails, the settings of the daemon and
  the table of watched files stay as they were set up, so that every event of a type goes to the
  handler of that type.
\<close>

context keeper
begin

lemma keeps_call_handler [frames]: "keeps f (call_handler cb e ev)"
  by (cases cb; simp only: call_handler.simps; intro frames)

lemma keeps_next_event [frames]: "keeps f (next_event buf prev)"
  unfolding next_event_def by (intro frames TrueI)

lemma keeps_ecc_event_handle [frames]: "keeps f (ecc_event_handle e)"
  unfolding ecc_event_handle_def by (intro frames)

lemma keeps_count_entries [frames]: "keeps f (count_entries es)"
proof (induction es)
  case (Cons e es)
  show ?case unfolding count_entries.simps by (intro frames TrueI Cons.IH)
qed (simp add: keeps_ret)

lemma keeps_restore_entries [frames]: "keeps f (restore_entries es d)"
proof (induction es arbitrary: d)
  case (Cons e es)
  show ?case unfolding restore_entries.simps by (intro frames TrueI Cons.IH)
qed (simp add: keeps_ret)

end

text \<open>The columns of the table that are set up once; a watch may be renewed.\<close>

definition fixed_row :: "watch_entry \<Rightarrow> watch_entry" where
  "fixed_row e = e\<lparr>wd := 0, inotify_error := 0\<rparr>"

lemma fixed_row_fields [simp]:
  "eventtype (fixed_row e) = eventtype e" "eventpath (fixed_row e) = eventpath e"
  "eventpattern (fixed_row e) = eventpattern e" "pcallback (fixed_row e) = pcallback e"
  by (simp_all add: fixed_row_def)

locale monitor_keeper = keeper f for f :: "'w ecc_scheme \<Rightarrow> 'x" +
  assumes k_table: "map fixed_row t = map fixed_row (wd_array s) \<Longrightarrow> f (s\<lparr>wd_array := t\<rparr>) = f s"
    and k_monitor: "f (s\<lparr>modem_entries := e1\<rparr>) = f s" "f (s\<lparr>crashlog_wd_timer := e2\<rparr>) = f s"
      "f (s\<lparr>crashlog_wd_timeout := e3\<rparr>) = f s" "f (s\<lparr>pulse := e4\<rparr>) = f s" "f (s\<lparr>armed := e5\<rparr>) = f s"
      "f (s\<lparr>ecc_list := e6\<rparr>) = f s"
begin

lemma keeps_rewatch [frames]: "keeps f (rewatch ev)"
proof -
  have "f (s\<lparr>wd_array := map (\<lambda>e. if wd e = w then e\<lparr>wd := v\<rparr> else e) (wd_array s)\<rparr>) = f s" for s w v
    by (rule k_table) (simp add: fixed_row_def)
  then show ?thesis unfolding rewatch_def by (intro frames TrueI keeps_modify)
qed

lemma keeps_handle_event [frames]: "keeps f (handle_event call_handler ev)"
  unfolding handle_event_def by (intro frames TrueI)

lemma keeps_receive_loop [frames]: "keeps f (receive_loop n call_handler buf prev)"
proof (induction n arbitrary: buf prev)
  case (Suc n)
  show ?case unfolding receive_loop.simps by (intro frames Suc.IH)
qed (simp add: keeps_ret)

lemma keeps_receive_inotify_events [frames]: "keeps f (receive_inotify_events call_handler)"
  unfolding receive_inotify_events_def by (intro frames)

lemma keeps_watchdog [frames]: "keeps f (update_crashlog_watchdog_timeout n)" "keeps f kick_watchdog" "keeps f (enable_watchdog n)"
  unfolding update_crashlog_watchdog_timeout_def kick_watchdog_def enable_watchdog_def
  by (intro frames keeps_modify; simp add: k_monitor)+

lemma keeps_ecc_count_handle [frames]: "keeps f ecc_count_handle"
  unfolding ecc_count_handle_def by (intro frames keeps_modify; simp add: k_monitor)

lemma keeps_monitor_turn [frames]: "keeps f monitor_turn"
  unfolding monitor_turn_def by (intro frames)

lemma keeps_monitor [frames]: "keeps f (monitor n)"
proof (induction n)
  case (Suc n)
  show ?case unfolding monitor.simps by (intro frames Suc.IH)
qed (simp add: keeps_ret)

lemma keeps_set_entry:
  "(\<And>e. fixed_row (g e) = fixed_row e) \<Longrightarrow> keeps f (set_entry i g)"
  unfolding set_entry_def
proof (rule keeps_modify, rule k_table)
  fix s :: "'w ecc_scheme"
  assume "\<And>e. fixed_row (g e) = fixed_row e"
  then show "map fixed_row ((wd_array s)[i := g (wd_array s ! i)]) = map fixed_row (wd_array s)"
    by (metis list_update_id map_update)
qed

lemma keeps_install [frames]: "keeps f (install_entry i)" "keeps f (install_from n i)"
proof -
  show k: "keeps f (install_entry i)" for i
    unfolding install_entry_def by (intro frames keeps_set_entry; simp add: fixed_row_def)
  show "keeps f (install_from n i)" by (induction n arbitrary: i) (simp_all add: keeps_ret keeps_bind k)
qed

lemma keeps_generic_add_watch [frames]: "keeps f (generic_add_watch cs)"
  by (induction cs rule: generic_add_watch.induct) (simp only: generic_add_watch.simps, (intro frames; assumption?))+

lemma keeps_init_inotify_handler [frames]: "keeps f init_inotify_handler"
  unfolding init_inotify_handler_def by (intro frames keeps_modify; simp add: k_monitor)

lemma keeps_add_ecc_entry [frames]: "keeps f (add_ecc_entry k n p)"
  unfolding add_ecc_entry_def by (intro frames keeps_modify TrueI; simp add: k_monitor)

lemma keeps_get_ecc_path [frames]: "keeps f (get_ecc_path n p)"
proof (induction n arbitrary: p)
  case (Suc n)
  have "keeps f (ecc_entries (get_ecc_path n) p ns)" for ns
  proof (induction ns)
    case (Cons x ns)
    show ?case unfolding ecc_entries.simps by (intro frames Suc.IH Cons.IH)
  qed (simp add: keeps_ret)
  then show ?case unfolding get_ecc_path.simps by (intro frames)
qed (simp add: keeps_ret)

lemma keeps_init_ecc_handler [frames]: "keeps f init_ecc_handler"
  unfolding init_ecc_handler_def by (intro frames keeps_modify TrueI; simp add: k_monitor)

lemma keeps_restore_count [frames]: "keeps f restore_count"
  unfolding restore_count_def by (intro frames)

end

definition settings :: "'w runtime_scheme \<Rightarrow> watch_entry list \<times> crashlog_mode \<times> int \<times> bool" where
  "settings s = (map fixed_row (wd_array s), g_crashlog_mode s, gmaxfiles s, config_coredump s)"

interpretation settings: monitor_keeper settings
  by unfold_locales (simp_all add: settings_def)

section \<open>The table and its handlers\<close>

definition all_types :: "event_type list" where
  "all_types = [LOST_TYPE, SYSSERVER_TYPE, ANR_TYPE, TOMBSTONE_TYPE, JAVATOMBSTONE_TYPE, JAVACRASH_TYPE, JAVACRASH_TYPE2,
     APCORE_TYPE, HPROF_TYPE, STATTRIG_TYPE, INFOTRIG_TYPE, ERRORTRIG_TYPE, APLOGTRIG_TYPE, CMDTRIG_TYPE, BUILDID_TYPE, UPTIME_TYPE]"

lemma all_types_nth: "all_types ! type_number ty = ty" "type_number ty < length all_types" "length all_types = 16"
  by (cases ty; simp add: all_types_def)+

lemma distinct_all_types: "distinct all_types"
  by (simp add: all_types_def)

lemma type_number_nth: "i < length all_types \<Longrightarrow> type_number (all_types ! i) = i"
  using distinct_all_types all_types_nth nth_eq_iff_index_eq by metis

definition aligned :: "watch_entry list \<Rightarrow> bool" where
  "aligned rows \<longleftrightarrow> map eventtype rows = all_types"

lemma aligned_length: "aligned rows \<Longrightarrow> length rows = 16"
  unfolding aligned_def by (metis all_types_nth(3) length_map)

lemma aligned_nth: "aligned rows \<Longrightarrow> eventtype (rows ! type_number ty) = ty"
  unfolding aligned_def by (metis all_types_nth(1,2) length_map nth_map)

lemma aligned_eq: "aligned rows \<Longrightarrow> i < length rows \<Longrightarrow> eventtype (rows ! i) = ty \<longleftrightarrow> i = type_number ty"
  unfolding aligned_def by (metis all_types_nth(1) length_map nth_map type_number_nth)

text \<open>Setting the handler of a type changes the row of this type, if the mode watches it.\<close>

definition with_callback :: "(event_type \<Rightarrow> bool) \<Rightarrow> event_type \<Rightarrow> callback \<Rightarrow> watch_entry \<Rightarrow> watch_entry" where
  "with_callback en ty cb e = (if eventtype e = ty \<and> en ty then e\<lparr>pcallback := Some cb\<rparr> else e)"

abbreviation watched_types :: "'w runtime_scheme \<Rightarrow> event_type \<Rightarrow> bool" where
  "watched_types s \<equiv> event_type_enabled (config_coredump s) (g_crashlog_mode s)"

lemma set_watch_entry_callback_row:
  assumes "aligned (wd_array s)"
  shows "run_state (set_watch_entry_callback (type_number ty) cb) s =
    (0, s\<lparr>wd_array := map (with_callback (watched_types s) ty cb) (wd_array s)\<rparr>)"
proof -
  let ?i = "type_number ty" and ?rows = "wd_array s" and ?g = "with_callback (watched_types s) ty cb"
  have i: "?i < length ?rows" using aligned_length [OF assms] all_types_nth(2,3) by metis
  have "map ?g ?rows = (if watched_types s ty then ?rows[?i := (?rows ! ?i)\<lparr>pcallback := Some cb\<rparr>] else ?rows)"
    by (rule nth_equalityI) (use aligned_eq [OF assms] in \<open>auto simp: with_callback_def nth_list_update\<close>)
  then show ?thesis
    using i aligned_nth [OF assms, of ty] by (simp add: set_watch_entry_callback_def entry_enabled_def)
qed

lemma with_callback_fields [simp]:
  "eventtype (with_callback en ty cb e) = eventtype e" "eventpath (with_callback en ty cb e) = eventpath e"
  "eventpattern (with_callback en ty cb e) = eventpattern e"
  by (simp_all add: with_callback_def)

definition with_callbacks :: "(event_type \<Rightarrow> bool) \<Rightarrow> (event_type \<times> callback) list \<Rightarrow> watch_entry \<Rightarrow> watch_entry" where
  "with_callbacks en cs e = fold (\<lambda>(ty, cb). with_callback en ty cb) cs e"

lemma with_callbacks_fields [simp]:
  "eventtype (with_callbacks en cs e) = eventtype e" "eventpath (with_callbacks en cs e) = eventpath e"
  "eventpattern (with_callbacks en cs e) = eventpattern e"
  unfolding with_callbacks_def by (induction cs arbitrary: e) auto

lemma with_callbacks_handler:
  "distinct (map fst cs) \<Longrightarrow> pcallback e = None \<Longrightarrow>
   pcallback (with_callbacks en cs e) = (if en (eventtype e) then map_of cs (eventtype e) else None)"
proof -
  have other: "pcallback (fold (\<lambda>(ty, cb). with_callback en ty cb) cs e) = pcallback e" if "eventtype e \<notin> fst ` set cs" for e cs
    using that by (induction cs arbitrary: e) (auto simp: with_callback_def)
  show "distinct (map fst cs) \<Longrightarrow> pcallback e = None \<Longrightarrow> ?thesis"
    unfolding with_callbacks_def
  proof (induction cs arbitrary: e)
    case (Cons c cs)
    obtain ty cb where c: "c = (ty, cb)" by fastforce
    show ?case
    proof (cases "eventtype e = ty \<and> en ty")
      case True
      then have "with_callback en ty cb e = e\<lparr>pcallback := Some cb\<rparr>" by (simp add: with_callback_def)
      then show ?thesis using True Cons.prems other [of "e\<lparr>pcallback := Some cb\<rparr>" cs] c by auto
    next
      case False
      then have "with_callback en ty cb e = e" by (auto simp: with_callback_def)
      then show ?thesis using False Cons.prems Cons.IH [of e] c by auto
    qed
  qed simp
qed

lemma set_callbacks_rows:
  "aligned (wd_array s) \<Longrightarrow> run_state (set_callbacks cs) s =
     ((), s\<lparr>wd_array := map (with_callbacks (watched_types s) cs) (wd_array s)\<rparr>)"
proof (induction cs arbitrary: s)
  case (Cons c cs)
  obtain ty cb where c: "c = (ty, cb)" by fastforce
  let ?s = "s\<lparr>wd_array := map (with_callback (watched_types s) ty cb) (wd_array s)\<rparr>"
  have "aligned (wd_array ?s)" using Cons.prems by (simp add: aligned_def comp_def)
  from Cons.IH [OF this] show ?case
    using set_watch_entry_callback_row [OF Cons.prems, of ty cb] by (simp add: c with_callbacks_def comp_def)
qed (simp add: with_callbacks_def [abs_def])

lemma settings_aligned:
  assumes "settings v = settings s"
  shows "aligned (wd_array v) = aligned (wd_array s)" "watched_types v = watched_types s"
proof -
  have "eventtype \<circ> fixed_row = eventtype" by (simp add: fixed_row_def comp_def)
  moreover have "map fixed_row (wd_array v) = map fixed_row (wd_array s)" using assms by (simp add: settings_def)
  ultimately have "map eventtype (wd_array v) = map eventtype (wd_array s)" by (metis map_map)
  then show "aligned (wd_array v) = aligned (wd_array s)" by (simp add: aligned_def)
  show "watched_types v = watched_types s" using assms by (simp add: settings_def)
qed

lemma fixed_with_callbacks:
  "map fixed_row (map (with_callbacks en cs) rows) = map (with_callbacks en cs) (map fixed_row rows)"
proof -
  have "fixed_row (with_callback en ty cb e) = with_callback en ty cb (fixed_row e)" for ty cb e
    by (simp add: with_callback_def fixed_row_def)
  then have "fixed_row (with_callbacks en cs e) = with_callbacks en cs (fixed_row e)" for e
    unfolding with_callbacks_def by (induction cs arbitrary: e) auto
  then show ?thesis by simp
qed

text \<open>Everything in \<open>start_monitor\<close> but the setting of the handlers keeps the settings.\<close>

lemma start_monitor_rows:
  fixes s :: "'w ecc_scheme"
  assumes "aligned (wd_array s)" "run_state (start_monitor strerror full) s = (True, t)"
  shows "settings t = (map (with_callbacks (watched_types s) (callbacks full)) (fst (settings s)), snd (settings s))"
proof -
  let ?rest = "do { init_ecc_handler; restore_count; _ \<leftarrow> enable_watchdog CRASHLOG_WD_TIMEOUT; (ret True :: ('w, bool) eop) }"
  obtain fd u where u: "run_state init_inotify_handler s = (fd, u)" by fastforce
  let ?miss = "if get_missing_watched_dir_nb u \<noteq> 0 then handle_missing_watched_dir strerror else (ret () :: ('w, unit) eop)"
  obtain v where v: "run_state ?miss u = ((), v)" by (cases "run_state ?miss u") auto
  have "settings u = settings s" by (rule keepsD [OF settings.keeps_init_inotify_handler u])
  moreover have "keeps settings ?miss" by (intro frames)
  ultimately have sv: "settings v = settings s" using keepsD [of settings, OF _ v] by simp
  have al: "aligned (wd_array v)" using settings_aligned(1) [OF sv] assms(1) by simp
  let ?w = "v\<lparr>wd_array := map (with_callbacks (watched_types s) (callbacks full)) (wd_array v)\<rparr>"
  have "run_state (set_callbacks (callbacks full)) v = ((), ?w)"
    using set_callbacks_rows [OF al] settings_aligned(2) [OF sv] by simp
  then have "run_state ?rest ?w = (True, t)"
    using assms(2) u v by (auto simp: start_monitor_def split: if_splits)
  moreover have "keeps settings ?rest" by (intro frames)
  ultimately have "settings t = settings ?w" using keepsD [of settings ?rest ?w] by simp
  then show ?thesis using sv by (simp add: settings_def fixed_with_callbacks del: map_map)
qed

text \<open>
  C37. Every event goes to the handler of its type: however the daemon was started and whatever events
  it has handled, under any failures, row number \<open>ty\<close> of the table of watched files is the row of the
  event type \<open>ty\<close>, with the path and the pattern it has in the source, and its handler is the one that
  \<open>do_monitor\<close> names for this type, or none when the mode does not watch it.
\<close>

theorem events_reach_their_handlers:
  assumes "wd_array s = wd_table" "run_state (start_monitor strerror full) s = (True, u)" "run_state (monitor n) u = ((), t)"
  shows "length (wd_array t) = 16 \<and>
    eventtype (wd_array t ! type_number ty) = ty \<and>
    eventpath (wd_array t ! type_number ty) = eventpath (wd_table ! type_number ty) \<and>
    eventpattern (wd_array t ! type_number ty) = eventpattern (wd_table ! type_number ty) \<and>
    pcallback (wd_array t ! type_number ty) =
      (if event_type_enabled (config_coredump s) (g_crashlog_mode s) ty then map_of (callbacks full) ty else None)"
proof -
  let ?i = "type_number ty" and ?g = "with_callbacks (watched_types s) (callbacks full)"
  have al: "aligned (wd_array s)" by (simp add: assms(1) aligned_def wd_table_def entry_of_def all_types_def)
  have "settings t = settings u" by (rule keepsD [OF settings.keeps_monitor assms(3)])
  with start_monitor_rows [OF al assms(2)]
  have rows: "map fixed_row (wd_array t) = map ?g (map fixed_row wd_table)" by (simp add: settings_def assms(1))
  have len: "length wd_table = 16" "?i < 16" using aligned_length [OF al] assms(1) all_types_nth(2,3) by metis+
  have lt: "length (wd_array t) = 16" using rows len by (metis length_map)
  have row: "fixed_row (wd_array t ! ?i) = ?g (fixed_row (wd_table ! ?i))"
    using arg_cong [OF rows, of "\<lambda>xs. xs ! ?i"] lt len by simp
  have "distinct (map fst (callbacks full))" by (cases full) (simp_all add: callbacks_def)
  moreover have "pcallback (fixed_row (wd_table ! ?i)) = None" "eventtype (wd_table ! ?i) = ty"
    using aligned_nth [OF al, of ty] assms(1) by (cases ty; simp add: wd_table_def entry_of_def fixed_row_def)+
  ultimately have "pcallback (?g (fixed_row (wd_table ! ?i))) = (if watched_types s ty then map_of (callbacks full) ty else None)"
    using with_callbacks_handler [of "callbacks full" "fixed_row (wd_table ! ?i)"] by (simp add: fixed_row_def)
  then have "pcallback (wd_array t ! ?i) = (if watched_types s ty then map_of (callbacks full) ty else None)"
    using arg_cong [OF row, of pcallback] by simp
  moreover have "eventtype (wd_array t ! ?i) = ty" "eventpath (wd_array t ! ?i) = eventpath (wd_table ! ?i)"
    "eventpattern (wd_array t ! ?i) = eventpattern (wd_table ! ?i)"
    using arg_cong [OF row, of eventtype] arg_cong [OF row, of eventpath] arg_cong [OF row, of eventpattern]
      \<open>eventtype (wd_table ! ?i) = ty\<close> by simp_all
  ultimately show ?thesis using lt by simp
qed

lemma start_monitor_enters:
  assumes "fault s (calls s) = Works"
  shows "\<exists>u. run_state (start_monitor strerror full) s = (True, u)"
proof -
  have "fst (run_state init_inotify_handler s) = 3"
    using assms by (simp add: init_inotify_handler_def split: prod.splits)
  then show ?thesis by (auto simp: start_monitor_def split: prod.splits)
qed

definition sample_ecc :: ecc where
  "sample_ecc = watchdog.extend (wd_daemon\<lparr>wd_array := wd_table\<rparr>) (ecc.fields [])"

theorem events_reach_their_handlers_witness:
  "\<exists>u t. run_state (start_monitor (\<lambda>_. ''error'') False) sample_ecc = (True, u) \<and> run_state (monitor 5) u = ((), t) \<and>
     eventtype (wd_array t ! 3) = TOMBSTONE_TYPE \<and> pcallback (wd_array t ! 3) = Some Process_usercrash"
proof -
  have s: "wd_array sample_ecc = wd_table" "fault sample_ecc = (\<lambda>_. Works)" "g_crashlog_mode sample_ecc = NOMINAL_MODE"
    by (simp_all add: sample_ecc_def wd_daemon_def sample_runtime_def ecc.defs watchdog.defs runtime.defs daemon.defs)
  obtain u where u: "run_state (start_monitor (\<lambda>_. ''error'') False) sample_ecc = (True, u)"
    using start_monitor_enters [of sample_ecc] s by auto
  obtain t where t: "run_state (monitor 5) u = ((), t)" by (cases "run_state (monitor 5) u") auto
  show ?thesis
    using events_reach_their_handlers [OF s(1) u t, of TOMBSTONE_TYPE] u t s(3) by (auto simp: callbacks_def)
qed

section \<open>A trigger without a flag\<close>

text \<open>What an operation can return, whatever it does to the state.\<close>

named_theorems results "possible results of an operation"

definition gives :: "('a \<Rightarrow> bool) \<Rightarrow> ('s, 'a) state \<Rightarrow> bool" where
  "gives P m \<longleftrightarrow> (\<forall>s. P (fst (run_state m s)))"

lemma gives_ret [results]: "P x \<Longrightarrow> gives P (ret x)"
  by (simp add: gives_def)

lemma gives_bind [results]: "(\<And>x. gives P (k x)) \<Longrightarrow> gives P (State_Monad.bind m k)"
  by (simp add: gives_def case_prod_beta)

lemma gives_if [results]: "(b \<Longrightarrow> gives P m) \<Longrightarrow> (\<not> b \<Longrightarrow> gives P n) \<Longrightarrow> gives P (if b then m else n)"
  by simp

lemma gives_case_option [results]:
  "(x = None \<Longrightarrow> gives P m) \<Longrightarrow> (\<And>y. x = Some y \<Longrightarrow> gives P (k y)) \<Longrightarrow> gives P (case x of None \<Rightarrow> m | Some y \<Rightarrow> k y)"
  by (cases x) auto

lemma gives_case_prod [results]: "(\<And>a b. x = (a, b) \<Longrightarrow> gives P (k a b)) \<Longrightarrow> gives P (case x of (a, b) \<Rightarrow> k a b)"
  by (cases x) auto

lemma serve_log_request_result: "gives (\<lambda>r. r = -1 \<or> r = res_of_read req) (serve_log_request root trig mode req)"
  unfolding serve_log_request_def by (intro results; simp)

lemma process_log_event_result:
  assumes "res_of_read (fst (run_state (log_request_of root trig) s)) = -1"
  shows "fst (run_state (process_log_event root trig mode) s) = -1"
proof -
  obtain req u where "run_state (log_request_of root trig) s = (req, u)" by fastforce
  then show ?thesis
    using assms serve_log_request_result [of req root trig mode] by (auto simp: process_log_event_def gives_def)
qed

lemma log_request_without_flag:
  assumes "reliable s" "node_at s (trigger_path (Some root) (Some trig)) = Some (File d)"
    "\<forall>b\<in>set (map cstr (fgets_lines MAXLINESIZE d)). \<not> contains b ''BPLOG=''"
  shows "res_of_read (fst (run_state (log_request_of (Some root) (Some trig)) s)) = -1"
proof -
  let ?p = "trigger_path (Some root) (Some trig)"
  have ex: "file_exists ?p s" using assms(2) by (simp add: file_exists_def)
  let ?t = "s\<lparr>calls := Suc (calls s)\<rparr>"
  have "snd (run_state (get_value_in_file (Some ?p) (Some ''APLOG='') True PATHMAX) s) = ?t"
    using assms(1,2) ex
    by (cases "find (\<lambda>b. contains b ''APLOG='') (map cstr (fgets_lines MAXLINESIZE d))")
       (simp_all add: get_value_in_file_def open_read_File PATHMAX_def Let_def)
  then obtain r1 v1 where r1: "run_state (get_value_in_file (Some ?p) (Some ''APLOG='') True PATHMAX) s = ((r1, v1), ?t)"
    by (metis prod.collapse)
  have "find (\<lambda>b. contains b ''BPLOG='') (map cstr (fgets_lines MAXLINESIZE d)) = None"
    using assms(3) by (simp add: find_None_iff)
  moreover have "file_exists ?p ?t" "node_at ?t ?p = Some (File d)" "reliable ?t" using assms ex by (simp_all add: file_exists_def)
  ultimately have "run_state (get_value_in_file (Some ?p) (Some ''BPLOG='') True PATHMAX) ?t = ((-1, None), ?t\<lparr>calls := Suc (calls ?t)\<rparr>)"
    by (simp add: get_value_in_file_def open_read_File PATHMAX_def)
  then show ?thesis
    using r1 ex by (simp add: log_request_of_def read_trigger_def Let_def split: option.splits)
qed

text \<open>
  A trigger file that says nothing about baseband logs ends the handling of the buffer: although the
  logs asked for are saved, the handler returns the result of the last look into the file, which is
  negative when the file has no \<open>BPLOG=\<close>, and the loop takes this for an error.
\<close>

theorem plain_trigger_stops_loop:
  assumes "reliable s" "ev_mask e AND IN_ISDIR = 0" "ev_len e \<noteq> 0"
    "run_state (get_event_entry (wd_array s) (ev_wd e) (Some (ev_name e))) s = (Some row, s)" "pcallback row = Some Process_aplog"
    "node_at s (trigger_path (Some (eventpath row)) (Some (ev_name e))) = Some (File d)"
    "\<forall>b\<in>set (map cstr (fgets_lines MAXLINESIZE d)). \<not> contains b ''BPLOG=''"
  shows "\<exists>t. run_state (handle_event call_handler e) s = (False, t)"
proof -
  have "fst (run_state (process_aplog_event row e) s) = -1"
    unfolding process_aplog_event_def
    by (rule process_log_event_result, rule log_request_without_flag [OF assms(1,6,7)])
  then show ?thesis
    using assms(2-5) by (auto simp: handle_event_def split: prod.splits)
qed

definition trigger_row :: watch_entry where
  "trigger_row = (entry_of APLOG_DIR_MASK APLOGTRIG_TYPE ''APLOGTRIG'' APLOG_DIR (Some ''_trigger''))\<lparr>wd := 7, pcallback := Some Process_aplog\<rparr>"

definition trigger_event :: inotify_event where
  "trigger_event = \<lparr>ev_wd = 7, ev_mask = IN_CLOSE_WRITE, ev_cookie = 0, ev_len = 16, ev_name = ''my_trigger''\<rparr>"

definition triggered :: runtime where
  "triggered = sample_runtime\<lparr>wd_array := [trigger_row],
     fs := [([''logs''], Dir), ([''logs'', ''aplogs''], Dir), ([''logs'', ''aplogs'', ''my_trigger''], File (''APLOG=1'' @ [NL]))]\<rparr>"

theorem plain_trigger_stops_loop_witness:
  "\<exists>t. run_state (handle_event call_handler trigger_event) triggered = (False, t)"
proof (rule plain_trigger_stops_loop)
  show "reliable triggered" by (simp add: triggered_def reliable_def)
  show "ev_mask trigger_event AND IN_ISDIR = 0" "ev_len trigger_event \<noteq> 0"
    by (simp_all add: trigger_event_def in_defs)
  show "run_state (get_event_entry (wd_array triggered) (ev_wd trigger_event) (Some (ev_name trigger_event))) triggered = (Some trigger_row, triggered)"
    by (simp add: triggered_def trigger_event_def trigger_row_def entry_of_def contains_def)
  show "pcallback trigger_row = Some Process_aplog" by (simp add: trigger_row_def)
  show "node_at triggered (trigger_path (Some (eventpath trigger_row)) (Some (ev_name trigger_event))) = Some (File (''APLOG=1'' @ [NL]))"
    by (simp add: triggered_def trigger_path_def trigger_row_def trigger_event_def entry_of_def APLOG_DIR_def LOGS_DIR_def
        node_at_def comps_def PATHMAX_def)
  show "\<forall>b\<in>set (map cstr (fgets_lines MAXLINESIZE (''APLOG=1'' @ [NL]))). \<not> contains b ''BPLOG=''"
    using fgets_lines_one [of "''APLOG=1''" MAXLINESIZE] by (simp add: contains_def cstr_def MAXLINESIZE_def)
qed

end
