(* ===== verification/Ct_Packet.thy ===== *)
theory Ct_Packet
  imports Ecc
begin

text \<open>
  Events that applications send to the daemon: the layout of \<open>struct ct_event\<close> (kct_stub.h), the
  library that builds an event and sends it (liblctsock.c, liblct.c), the program lctclient, and the
  walk over the attachments of an event on the other side.

  An event is the block of bytes the code allocates for it, with the layout of 64-bit Linux: the
  attachments start at the offset 84, but \<open>sizeof(struct ct_event)\<close> is 88, since the structure is
  aligned to the 8 bytes of its time stamp. Bytes that \<open>malloc\<close> and \<open>realloc\<close> leave as they are come
  from the parameter \<open>junk\<close>, by offset.
\<close>

section \<open>Layout\<close>

definition MAX_SB_N :: nat where "MAX_SB_N = 32"
definition MAX_EV_N :: nat where "MAX_EV_N = 32"
definition SIZEOF_EVENT :: nat where "SIZEOF_EVENT = 88"
definition ATTACHMENTS :: nat where "ATTACHMENTS = 84"
definition SIZEOF_ATTCHMT :: nat where "SIZEOF_ATTCHMT = 8"
definition ATTCHMT_ALIGNMENT :: nat where "ATTCHMT_ALIGNMENT = 4"

definition CT_EV_STAT :: nat where "CT_EV_STAT = 0"
definition CT_EV_INFO :: nat where "CT_EV_INFO = 1"
definition CT_EV_ERROR :: nat where "CT_EV_ERROR = 2"
definition CT_EV_LAST :: nat where "CT_EV_LAST = 3"

definition CT_ATTCHMT_DATA0 :: nat where "CT_ATTCHMT_DATA0 = 0"
definition CT_ATTCHMT_DATA1 :: nat where "CT_ATTCHMT_DATA1 = 1"
definition CT_ATTCHMT_DATA5 :: nat where "CT_ATTCHMT_DATA5 = 5"
definition CT_ATTCHMT_BINARY :: nat where "CT_ATTCHMT_BINARY = 6"
definition CT_ATTCHMT_FILELIST :: nat where "CT_ATTCHMT_FILELIST = 7"
definition CT_ATTCHMT_ADDITIONAL :: nat where "CT_ATTCHMT_ADDITIONAL = 8"

lemmas ct_layout = MAX_SB_N_def MAX_EV_N_def SIZEOF_EVENT_def ATTACHMENTS_def SIZEOF_ATTCHMT_def ATTCHMT_ALIGNMENT_def

definition ev_submitter :: "string \<Rightarrow> string" where "ev_submitter ev = cstr (drop 8 ev)"
definition ev_event :: "string \<Rightarrow> string" where "ev_event ev = cstr (drop 40 ev)"
definition ev_type :: "string \<Rightarrow> nat" where "ev_type ev = le (field_at 72 4 ev)"
definition ev_attchmt_size :: "string \<Rightarrow> nat" where "ev_attchmt_size ev = le (field_at 76 4 ev)"
definition ev_flags :: "string \<Rightarrow> 32 word" where "ev_flags ev = of_nat (le (field_at 80 4 ev))"

definition poke :: "nat \<Rightarrow> string \<Rightarrow> string \<Rightarrow> string" where
  "poke off d b = take off b @ d @ drop (off + length d) b"

text \<open>\<open>KCT_ALIGN\<close> on \<open>size_t\<close>.\<close>

definition KCT_ALIGN :: "64 word \<Rightarrow> 64 word \<Rightarrow> 64 word" where
  "KCT_ALIGN x a = (x + (a - 1)) AND NOT (a - 1)"

definition align :: "nat \<Rightarrow> nat" where
  "align n = unat (KCT_ALIGN (of_nat n) (of_nat ATTCHMT_ALIGNMENT))"

section \<open>Building an event\<close>

definition name_field :: "nat \<Rightarrow> string \<Rightarrow> string" where
  "name_field n s = take (n - 1) s @ replicate (n - length (take (n - 1) s)) NUL"

definition lct_alloc_event :: "string option \<Rightarrow> string option \<Rightarrow> nat \<Rightarrow> nat \<Rightarrow> ('w, string option) op" where
  "lct_alloc_event submitter_name event_name ty flags =
     (case (submitter_name, event_name) of
        (Some sb, Some en) \<Rightarrow> do {
          ok \<leftarrow> alloc;
          if \<not> ok then ret None
          else do {
            now \<leftarrow> gets (\<lambda>s. clock s (calls s));
            ret (Some (put_le 8 (nat now) @ name_field MAX_SB_N sb @ name_field MAX_EV_N en @
                       put32 ty @ put32 0 @ put32 flags @ replicate 4 NUL)) } }
      | _ \<Rightarrow> ret None)"

text \<open>
  The new size is a 32-bit number; when it wraps around, the attachment is written past the block.
  Without memory the event stays as it is.
\<close>

definition lct_attach :: "(nat \<Rightarrow> char) \<Rightarrow> string \<Rightarrow> nat \<Rightarrow> nat \<Rightarrow> string \<Rightarrow> ('w, int \<times> string) op" where
  "lct_attach junk ev ty sz data = do {
     let new_size = (SIZEOF_EVENT + ev_attchmt_size ev + align (sz + SIZEOF_ATTCHMT)) mod 2 ^ 32;
     ok \<leftarrow> alloc;
     if \<not> ok then ret (- ENOMEM, ev)
     else do {
       let mem = take new_size ev @ map junk [length ev..<new_size];
       let off = ATTACHMENTS + ev_attchmt_size ev;
       (if new_size < off + SIZEOF_ATTCHMT + sz then effect (BadWrite ''lct_attach'') else ret ());
       let mem2 = poke off (put32 sz @ put32 ty @ take sz data) mem;
       ret (0, poke 76 (put32 (nat (to_uint32 (int new_size - int SIZEOF_EVENT)))) mem2) } }"

text \<open>The attachments that are given, in the order of the list.\<close>

fun lct_attach_all :: "(nat \<Rightarrow> char) \<Rightarrow> (nat \<times> string option) list \<Rightarrow> string \<Rightarrow> ('w, string) op" where
  "lct_attach_all junk [] ev = ret ev"
| "lct_attach_all junk ((ty, d) # ds) ev =
     (case d of
        None \<Rightarrow> lct_attach_all junk ds ev
      | Some x \<Rightarrow> do {
          (_, ev') \<leftarrow> lct_attach junk ev ty (length x mod 2 ^ 32) x;
          lct_attach_all junk ds ev' })"

section \<open>Sending it\<close>

text \<open>
  The socket of the daemon with the datagrams that wait there, its descriptor, and whether the
  library of the application has found the function that logs.
\<close>

record link = ecc +
  sock_fd :: int
  lct_bound :: bool
  lct_queue :: "string list"
  lct_log_fn :: bool

type_synonym ('w, 'a) lop = "('w link_scheme, 'a) state"

definition ECONNREFUSED :: int where "ECONNREFUSED = 111"

definition PKT_SIZE :: "string \<Rightarrow> nat" where
  "PKT_SIZE ev = ev_attchmt_size ev + SIZEOF_EVENT"

definition sendto :: "string \<Rightarrow> ('w, int) lop" where
  "sendto d = do {
     f \<leftarrow> syscall;
     bound \<leftarrow> gets lct_bound;
     (case f of
        Fails e \<Rightarrow> do { set_errno e; ret (-1) }
      | _ \<Rightarrow> if \<not> bound then do { set_errno ECONNREFUSED; ret (-1) }
              else do {
                modify (\<lambda>s. s\<lparr>lct_queue := lct_queue s @ [d]\<rparr>);
                ret (int (length d)) }) }"

definition lct_log_event :: "string \<Rightarrow> ('w, int) lop" where
  "lct_log_event ev = do {
     f \<leftarrow> syscall;
     (case f of
        Fails e \<Rightarrow> do { set_errno e; ret (-1) }
      | _ \<Rightarrow> sendto (take (PKT_SIZE ev) ev)) }"

definition c_text :: "string option \<Rightarrow> string option" where
  "c_text d = (case d of None \<Rightarrow> None | Some x \<Rightarrow> Some (x @ [NUL]))"

text \<open>The attachments, in the order in which they are made.\<close>

definition lct_list :: "string option \<Rightarrow> string option \<Rightarrow> string option \<Rightarrow> string option \<Rightarrow> string option \<Rightarrow> string option \<Rightarrow>
    string option \<Rightarrow> nat \<Rightarrow> (nat \<times> string option) list" where
  "lct_list d0 d1 d2 d3 d4 d5 flist add_steps =
     [(0, c_text d0), (1, c_text d1), (2, c_text d2), (3, c_text d3), (4, c_text d4), (5, c_text d5),
      (CT_ATTCHMT_FILELIST, c_text flist),
      (CT_ATTCHMT_ADDITIONAL, if add_steps = 0 then None else Some (put32 add_steps))]"

definition lct_log_all :: "(nat \<Rightarrow> char) \<Rightarrow> nat \<Rightarrow> string option \<Rightarrow> string option \<Rightarrow> nat \<Rightarrow> string option \<Rightarrow> string option \<Rightarrow>
    string option \<Rightarrow> string option \<Rightarrow> string option \<Rightarrow> string option \<Rightarrow> string option \<Rightarrow> nat \<Rightarrow> ('w, int) lop" where
  "lct_log_all junk ty submitter event flags d0 d1 d2 d3 d4 d5 flist add_steps = do {
     ev \<leftarrow> lct_alloc_event submitter event ty flags;
     (case ev of
        None \<Rightarrow> ret (- ENOMEM)
      | Some e \<Rightarrow> do {
          e' \<leftarrow> lct_attach_all junk (lct_list d0 d1 d2 d3 d4 d5 flist add_steps) e;
          lct_log_event e' }) }"

text \<open>The wrapper of applications: it logs only on debuggable builds that have the library.\<close>

definition lib_init :: "('w, unit) lop" where
  "lib_init = do {
     dbg \<leftarrow> gets (\<lambda>s. prop_get s ''ro.debuggable'' ''0'');
     if take 1 dbg = ''0'' then ret ()
     else do {
       h \<leftarrow> syscall;
       (case h of
          Fails _ \<Rightarrow> ret ()
        | _ \<Rightarrow> do {
            sym \<leftarrow> syscall;
            modify (\<lambda>s. s\<lparr>lct_log_fn := (case sym of Fails _ \<Rightarrow> False | _ \<Rightarrow> True)\<rparr>) }) } }"

definition lib_destruct :: "('w, unit) lop" where
  "lib_destruct = modify (\<lambda>s. s\<lparr>lct_log_fn := False\<rparr>)"

definition lct_log :: "(nat \<Rightarrow> char) \<Rightarrow> nat \<Rightarrow> string option \<Rightarrow> string option \<Rightarrow> nat \<Rightarrow> string option \<Rightarrow> string option \<Rightarrow>
    string option \<Rightarrow> string option \<Rightarrow> string option \<Rightarrow> string option \<Rightarrow> string option \<Rightarrow> nat \<Rightarrow> ('w, int) lop" where
  "lct_log junk ty submitter event flags d0 d1 d2 d3 d4 d5 flist add_steps = do {
     fn \<leftarrow> gets lct_log_fn;
     if fn then lct_log_all junk ty submitter event flags d0 d1 d2 d3 d4 d5 flist add_steps else ret (-1) }"

section \<open>The program lctclient\<close>

record lct_args =
  a_type :: nat
  a_steps :: nat
  a_flags :: nat
  a_data :: "string option list"
  a_submitter :: string
  a_event :: "string option"
  a_files :: "string option"

definition sscanf_10u :: "string \<Rightarrow> nat \<Rightarrow> nat" where
  "sscanf_10u s old = (case fst (scanf [SNum (Some 10)] s) of v # _ \<Rightarrow> read_nat 0 v mod 2 ^ 32 | [] \<Rightarrow> old)"

datatype lct_parse = Run lct_args | Macro_test | Usage

text \<open>The options as \<open>getopt_long\<close> returns them: the letter and the argument.\<close>

fun lct_options :: "(char \<times> string) list \<Rightarrow> lct_args \<Rightarrow> lct_parse" where
  "lct_options [] a = Run a"
| "lct_options ((c, optarg) # os) a =
     (if c = CHR ''t'' then
        lct_options os (a\<lparr>a_type :=
          (if take 1 optarg = ''S'' \<or> take 1 optarg = ''s'' then CT_EV_STAT
           else if take 1 optarg = ''I'' \<or> take 1 optarg = ''i'' then CT_EV_INFO
           else if take 1 optarg = ''E'' \<or> take 1 optarg = ''e'' then CT_EV_ERROR
           else a_type a)\<rparr>)
      else if c = CHR ''s'' then lct_options os (a\<lparr>a_submitter := optarg\<rparr>)
      else if c = CHR ''e'' then lct_options os (a\<lparr>a_event := Some optarg\<rparr>)
      else if c = CHR ''f'' then lct_options os (a\<lparr>a_flags := sscanf_10u optarg (a_flags a)\<rparr>)
      else if c \<in> set ''012345'' then lct_options os (a\<lparr>a_data := (a_data a)[of_char c - 48 := Some optarg]\<rparr>)
      else if c = CHR ''F'' then lct_options os (a\<lparr>a_files := Some optarg\<rparr>)
      else if c = CHR ''a'' then lct_options os (a\<lparr>a_steps := sscanf_10u optarg (a_steps a)\<rparr>)
      else if c = CHR ''m'' then Macro_test
      else Usage)"

text \<open>The calls of \<open>lct_macrotest\<close>: five with more and more data, then files and additional steps.\<close>

definition lct_macrotest :: "(nat \<Rightarrow> char) \<Rightarrow> ('w, unit) lop" where
  "lct_macrotest junk = do {
     let sub = Some ''lctapp'';
     let d = (\<lambda>k i. if i < k then Some (''event Data'' @ show_nat i) else None);
     let log = (\<lambda>name k files steps. lct_log junk CT_EV_INFO sub (Some name) 0 (d k 0) (d k 1) (d k 2) (d k 3) (d k 4) (d k 5) files steps);
     _ \<leftarrow> log ''ev_p4'' (0::nat) None 0;
     _ \<leftarrow> log ''ev_p5'' 1 None 0;
     _ \<leftarrow> log ''ev_p6'' 2 None 0;
     _ \<leftarrow> log ''ev_p7'' 3 None 0;
     _ \<leftarrow> log ''ev_p8'' 4 None 0;
     _ \<leftarrow> log ''ev_p9'' 5 None 0;
     _ \<leftarrow> log ''ev_p10'' 6 None 0;
     _ \<leftarrow> log ''ev_p11'' 6 (Some ''/init.rc'') 0;
     _ \<leftarrow> log ''ev_p12'' 6 (Some ''/init.rc'') 1;
     ret () }"

definition lctclient_main :: "(nat \<Rightarrow> char) \<Rightarrow> nat \<Rightarrow> (char \<times> string) list \<Rightarrow> ('w, int) lop" where
  "lctclient_main junk argc opts =
     (if argc < 2 then ret 1
      else (case lct_options opts \<lparr>a_type = CT_EV_STAT, a_steps = 0, a_flags = 0, a_data = replicate 6 None,
                   a_submitter = ''lctclient'', a_event = None, a_files = None\<rparr> of
              Usage \<Rightarrow> ret 2
            | Macro_test \<Rightarrow> do { lct_macrotest junk; ret 0 }
            | Run a \<Rightarrow>
                (case a_event a of
                   None \<Rightarrow> ret 3
                 | Some e \<Rightarrow> do {
                     let d = a_data a;
                     _ \<leftarrow> lct_log junk (a_type a) (Some (a_submitter a)) (Some e) (a_flags a)
                            (d ! 0) (d ! 1) (d ! 2) (d ! 3) (d ! 4) (d ! 5) (a_files a) (a_steps a);
                     ret 0 })))"

section \<open>The attachments of an event\<close>

record attchmt =
  at_pos :: nat
  at_size :: nat
  at_type :: nat
  at_mem :: string

text \<open>
  The attachment at the position \<open>pos\<close> behind the start of the attachments; \<open>at_mem\<close> is the memory
  from its data to the end of the block. The block is aligned, so are the attachments behind it.
\<close>

definition attchmt_at :: "string \<Rightarrow> nat \<Rightarrow> attchmt" where
  "attchmt_at ev pos =
     \<lparr>at_pos = pos, at_size = le (field_at (ATTACHMENTS + pos) 4 ev), at_type = le (field_at (ATTACHMENTS + pos + 4) 4 ev),
      at_mem = drop (ATTACHMENTS + pos + SIZEOF_ATTCHMT) ev\<rparr>"

definition next_attchmt :: "string \<Rightarrow> nat \<Rightarrow> nat" where
  "next_attchmt ev pos = align (pos + SIZEOF_ATTCHMT + at_size (attchmt_at ev pos))"

lemma and_not_mask_unat: "unat (w AND NOT (mask n) :: 64 word) = unat w div 2 ^ n * 2 ^ n"
proof -
  have less: "unat w < 2 ^ 64" using unsigned_less [of w] by simp
  have "w AND NOT (mask n) = push_bit n (drop_bit n w)"
    by (rule bit_word_eqI) (auto simp: bit_simps)
  moreover have "unat (drop_bit n w) = unat w div 2 ^ n"
    unfolding unsigned_drop_bit_eq using less by (simp add: drop_bit_eq_div take_bit_eq_mod)
  moreover have "unat w div 2 ^ n * 2 ^ n < 2 ^ 64"
    using less div_times_less_eq_dividend [of "unat w" "2 ^ n"] by (rule le_less_trans [rotated])
  ultimately show ?thesis
    by (simp only: unsigned_push_bit_eq) (simp add: push_bit_eq_mult take_bit_eq_mod)
qed

lemma align_eq: "n + 3 < 2 ^ 64 \<Longrightarrow> align n = (n + 3) div 4 * 4"
proof -
  assume n: "n + 3 < 2 ^ 64"
  have "(4 - 1 :: 64 word) = mask 2" by (simp add: mask_eq_exp_minus_1)
  then have "align n = unat ((of_nat n + 3 :: 64 word) AND NOT (mask 2))"
    by (simp add: align_def KCT_ALIGN_def ATTCHMT_ALIGNMENT_def)
  also have "\<dots> = unat (of_nat n + 3 :: 64 word) div 4 * 4"
    by (simp add: and_not_mask_unat)
  also have "unat (of_nat n + 3 :: 64 word) = n + 3"
    using n by (simp add: unat_word_ariths unsigned_of_nat take_bit_eq_mod mod_add_left_eq)
  finally show ?thesis .
qed

lemma align_bounds: "n + 3 < 2 ^ 64 \<Longrightarrow> n \<le> align n" "n + 3 < 2 ^ 64 \<Longrightarrow> align n \<le> n + 3"
  by (simp_all add: align_eq)

lemma le_less: "le b < 256 ^ length b"
proof (induction b)
  case (Cons c b)
  have *: "x < 256 \<Longrightarrow> y < p \<Longrightarrow> x + 256 * y < 256 * p" for x y p :: nat by simp
  show ?case using * [OF nat_of_char_less_256 Cons] by simp
qed simp

lemma le_field_less: "le (field_at off 4 b) < 2 ^ 32"
proof -
  have "length (field_at off 4 b) \<le> 4" by (simp add: field_at_def)
  then have "(256::nat) ^ length (field_at off 4 b) \<le> 256 ^ 4" by (rule power_increasing) simp
  then show ?thesis using le_less [of "field_at off 4 b"] by simp
qed

lemma next_attchmt_greater:
  assumes "pos < 2 ^ 32"
  shows "pos + SIZEOF_ATTCHMT \<le> next_attchmt ev pos"
proof -
  have "at_size (attchmt_at ev pos) < 2 ^ 32" using le_field_less [of "ATTACHMENTS + pos" ev] by (simp add: attchmt_at_def)
  then have "pos + SIZEOF_ATTCHMT + at_size (attchmt_at ev pos) + 3 < 2 ^ 64"
    using assms by (simp add: SIZEOF_ATTCHMT_def)
  from align_bounds(1) [OF this] show ?thesis by (simp add: next_attchmt_def)
qed

text \<open>The loop of \<open>foreach_attchmt\<close>: it ends, since every attachment has a header of eight bytes.\<close>

function attchmts_from :: "string \<Rightarrow> nat \<Rightarrow> attchmt list" where
  "attchmts_from ev pos =
     (if pos < ev_attchmt_size ev then attchmt_at ev pos # attchmts_from ev (next_attchmt ev pos) else [])"
  by auto

termination
proof (relation "measure (\<lambda>(ev, pos). ev_attchmt_size ev - pos)")
  fix ev pos
  assume "pos < ev_attchmt_size ev"
  moreover from this have "pos + SIZEOF_ATTCHMT \<le> next_attchmt ev pos"
    using le_field_less [of 76 ev] by (intro next_attchmt_greater) (simp add: ev_attchmt_size_def)
  ultimately show "((ev, next_attchmt ev pos), ev, pos) \<in> measure (\<lambda>(ev, pos). ev_attchmt_size ev - pos)"
    by (simp add: SIZEOF_ATTCHMT_def)
qed simp

declare attchmts_from.simps [simp del]

definition attchmts :: "string \<Rightarrow> attchmt list" where
  "attchmts ev = attchmts_from ev 0"

text \<open>Whether every header the loop reads lies in the block.\<close>

definition headers_inside :: "string \<Rightarrow> bool" where
  "headers_inside ev \<longleftrightarrow> (\<forall>a\<in>set (attchmts ev). ATTACHMENTS + at_pos a + SIZEOF_ATTCHMT \<le> length ev)"

section \<open>What is attached is found\<close>

text \<open>An attachment in the block: its type, its data, and the bytes that fill it up.\<close>

type_synonym item = "nat \<times> string \<times> string"

fun enc_item :: "item \<Rightarrow> string" where
  "enc_item (ty, d, pad) = put32 (length d) @ put32 ty @ d @ pad"

fun good_item :: "item \<Rightarrow> bool" where
  "good_item (ty, d, pad) \<longleftrightarrow> ty < 2 ^ 32 \<and> length d < 2 ^ 32 \<and> length (enc_item (ty, d, pad)) = align (length d + SIZEOF_ATTCHMT)"

definition enc_items :: "item list \<Rightarrow> string" where
  "enc_items xs = concat (map enc_item xs)"

definition packet :: "string \<Rightarrow> string \<Rightarrow> item list \<Rightarrow> string \<Rightarrow> string" where
  "packet pre fl xs tail = pre @ put32 (length (enc_items xs)) @ fl @ enc_items xs @ tail"

definition good_packet :: "string \<Rightarrow> string \<Rightarrow> item list \<Rightarrow> string \<Rightarrow> bool" where
  "good_packet pre fl xs tail \<longleftrightarrow> length pre = 76 \<and> length fl = 4 \<and> length tail = 4 \<and>
     (\<forall>x\<in>set xs. good_item x) \<and> length (enc_items xs) + SIZEOF_EVENT < 2 ^ 32"

lemma enc_items_append [simp]: "enc_items (xs @ ys) = enc_items xs @ enc_items ys"
  by (simp add: enc_items_def)

lemma enc_items_Cons: "enc_items (x # xs) = enc_item x @ enc_items xs"
  by (simp add: enc_items_def)

lemma packet_size:
  assumes "good_packet pre fl xs tail"
  shows "ev_attchmt_size (packet pre fl xs tail) = length (enc_items xs)"
    "length (packet pre fl xs tail) = SIZEOF_EVENT + length (enc_items xs)"
  using assms by (simp_all add: good_packet_def packet_def ev_attchmt_size_def field_at_def SIZEOF_EVENT_def)

lemma length_align4: "4 dvd align n" if "n + 3 < 2 ^ 64"
  using that by (simp add: align_eq)

lemma enc_items_aligned:
  assumes "\<forall>x\<in>set xs. good_item x"
  shows "4 dvd length (enc_items xs)"
  using assms
proof (induction xs)
  case (Cons x xs)
  obtain ty d pad where x: "x = (ty, d, pad)" by (cases x)
  have "4 dvd length (enc_item x)"
    using Cons.prems length_align4 [of "length d + SIZEOF_ATTCHMT"] by (simp add: x SIZEOF_ATTCHMT_def)
  then show ?case using Cons by (simp add: enc_items_Cons)
qed (simp add: enc_items_def)

lemma align_shift:
  assumes "4 dvd p" "p + n + 3 < 2 ^ 64"
  shows "align (p + n) = p + align n"
proof -
  obtain k where k: "p = 4 * k" using assms(1) by blast
  have "(4 * k + n + 3) div 4 = k + (n + 3) div 4" by presburger
  then show ?thesis using assms(2) by (simp add: align_eq k)
qed

lemma attchmt_at_item:
  assumes "good_packet pre fl (xs @ (ty, d, pad) # ys) tail"
  defines "ev \<equiv> packet pre fl (xs @ (ty, d, pad) # ys) tail" and "pos \<equiv> length (enc_items xs)"
  shows "attchmt_at ev pos = \<lparr>at_pos = pos, at_size = length d, at_type = ty, at_mem = d @ pad @ enc_items ys @ tail\<rparr>"
    "next_attchmt ev pos = length (enc_items (xs @ [(ty, d, pad)]))"
proof -
  have g: "good_item (ty, d, pad)" "\<forall>x\<in>set xs. good_item x" "pos < 2 ^ 32"
    using assms(1) by (auto simp: good_packet_def pos_def)
  have b: "drop (ATTACHMENTS + pos) ev = put32 (length d) @ put32 ty @ d @ pad @ enc_items ys @ tail"
    using assms(1) by (simp add: ev_def pos_def packet_def good_packet_def ATTACHMENTS_def enc_items_Cons)
  have b4: "drop (ATTACHMENTS + pos + n) ev = drop n (put32 (length d) @ put32 ty @ d @ pad @ enc_items ys @ tail)" for n
    using arg_cong [OF b, of "drop n"] by (simp add: add.commute)
  show at: "attchmt_at ev pos = \<lparr>at_pos = pos, at_size = length d, at_type = ty, at_mem = d @ pad @ enc_items ys @ tail\<rparr>"
    using g(1) by (simp add: attchmt_at_def field_at_def b b4 SIZEOF_ATTCHMT_def)
  have "next_attchmt ev pos = align (pos + (length d + SIZEOF_ATTCHMT))"
    by (simp add: next_attchmt_def at ac_simps)
  also have "\<dots> = pos + align (length d + SIZEOF_ATTCHMT)"
    using g enc_items_aligned [OF g(2)] by (intro align_shift) (simp_all add: pos_def SIZEOF_ATTCHMT_def)
  also have "\<dots> = length (enc_items (xs @ [(ty, d, pad)]))"
    using g(1) by (simp add: pos_def enc_items_Cons) (simp add: enc_items_def)
  finally show "next_attchmt ev pos = length (enc_items (xs @ [(ty, d, pad)]))" .
qed

text \<open>What the loop over the attachments sees of an item with others behind it.\<close>

definition seen_as :: "item \<Rightarrow> attchmt \<Rightarrow> bool" where
  "seen_as x a \<longleftrightarrow> at_size a = length (fst (snd x)) \<and> at_type a = fst x \<and> prefix (fst (snd x)) (at_mem a)"

lemma attchmts_from_packet:
  assumes "good_packet pre fl (xs @ ys) tail"
  shows "list_all2 seen_as ys (attchmts_from (packet pre fl (xs @ ys) tail) (length (enc_items xs))) \<and>
    (\<forall>a\<in>set (attchmts_from (packet pre fl (xs @ ys) tail) (length (enc_items xs))).
       ATTACHMENTS + at_pos a + SIZEOF_ATTCHMT \<le> length (packet pre fl (xs @ ys) tail))"
  using assms
proof (induction ys arbitrary: xs)
  case Nil
  then show ?case by (subst (1 2) attchmts_from.simps) (simp add: packet_size)
next
  case (Cons y ys)
  obtain ty d pad where y: "y = (ty, d, pad)" by (cases y)
  let ?ev = "packet pre fl (xs @ y # ys) tail"
  have less: "length (enc_items xs) < ev_attchmt_size ?ev"
    using Cons.prems by (simp add: packet_size enc_items_Cons y)
  have "good_packet pre fl ((xs @ [y]) @ ys) tail" using Cons.prems by simp
  note ih = Cons.IH [OF this]
  have at: "attchmt_at ?ev (length (enc_items xs)) =
      \<lparr>at_pos = length (enc_items xs), at_size = length d, at_type = ty, at_mem = d @ pad @ enc_items ys @ tail\<rparr>"
    "next_attchmt ?ev (length (enc_items xs)) = length (enc_items (xs @ [y]))"
    using attchmt_at_item [of pre fl xs ty d pad ys tail] Cons.prems by (simp_all add: y)
  have "ATTACHMENTS + length (enc_items xs) + SIZEOF_ATTCHMT \<le> length ?ev"
    using Cons.prems by (simp add: packet_size enc_items_Cons y ct_layout)
  moreover have "seen_as y (attchmt_at ?ev (length (enc_items xs)))" unfolding at(1) by (simp add: seen_as_def y)
  moreover have "attchmts_from ?ev (length (enc_items xs)) =
      attchmt_at ?ev (length (enc_items xs)) # attchmts_from ?ev (length (enc_items (xs @ [y])))"
    using less by (subst attchmts_from.simps) (simp add: at(2))
  ultimately show ?case using ih by (simp add: at(1))
qed

lemma attchmts_packet:
  assumes "good_packet pre fl xs tail"
  shows "list_all2 seen_as xs (attchmts (packet pre fl xs tail))" "headers_inside (packet pre fl xs tail)"
  using attchmts_from_packet [of pre fl "[]" xs tail] assms
  by (simp_all add: attchmts_def headers_inside_def) (simp_all add: enc_items_def)

text \<open>Attaching puts one more item behind the others.\<close>

lemma lct_attach_packet:
  assumes "good_packet pre fl xs tail" "reliable s" "ty < 2 ^ 32" "sz = length d"
    "length (enc_items xs) + length d + SIZEOF_EVENT + 11 < 2 ^ 32"
  shows "\<exists>pad tail'. run_state (lct_attach junk (packet pre fl xs tail) ty sz d) s =
      ((0, packet pre fl (xs @ [(ty, d, pad)]) tail'), s\<lparr>calls := Suc (calls s)\<rparr>) \<and>
    good_packet pre fl (xs @ [(ty, d, pad)]) tail'"
proof -
  let ?ev = "packet pre fl xs tail" and ?L = "length (enc_items xs)"
  define A where "A = align (length d + SIZEOF_ATTCHMT)"
  have A: "length d + SIZEOF_ATTCHMT \<le> A" "A \<le> length d + 11"
    using align_bounds [of "length d + SIZEOF_ATTCHMT"] assms(5) by (simp_all add: A_def SIZEOF_ATTCHMT_def)
  have g: "length pre = 76" "length fl = 4" "length tail = 4" using assms(1) by (simp_all add: good_packet_def)
  let ?n = "SIZEOF_EVENT + ?L + A"
  have n: "?n mod 2 ^ 32 = ?n" using A assms(5) by (simp add: SIZEOF_EVENT_def)
  define rest where "rest = drop (SIZEOF_ATTCHMT + length d) (tail @ map junk [SIZEOF_EVENT + ?L..<?n])"
  have lrest: "length rest = A - (length d + SIZEOF_ATTCHMT) + 4"
    using A g by (simp add: rest_def SIZEOF_ATTCHMT_def)
  define pad where "pad = take (A - (length d + SIZEOF_ATTCHMT)) rest"
  define tail' where "tail' = drop (A - (length d + SIZEOF_ATTCHMT)) rest"
  have mem: "take ?n ?ev @ map junk [length ?ev..<?n] =
      pre @ put32 ?L @ fl @ enc_items xs @ tail @ map junk [SIZEOF_EVENT + ?L..<?n]"
    using packet_size(2) [OF assms(1)] g by (simp add: packet_def SIZEOF_EVENT_def)
  have p1: "poke (ATTACHMENTS + ?L) (put32 (length d) @ put32 ty @ d) (take ?n ?ev @ map junk [length ?ev..<?n]) =
      pre @ put32 ?L @ fl @ enc_items xs @ put32 (length d) @ put32 ty @ d @ rest"
    unfolding mem poke_def rest_def using g by (simp add: ct_layout)
  have item: "length (enc_item (ty, d, pad)) = A"
    using A lrest by (simp add: pad_def SIZEOF_ATTCHMT_def)
  have p2: "poke 76 (put32 (?L + A)) (pre @ put32 ?L @ fl @ enc_items xs @ put32 (length d) @ put32 ty @ d @ rest) =
      packet pre fl (xs @ [(ty, d, pad)]) tail'"
    using g item by (simp add: poke_def packet_def enc_items_Cons pad_def tail'_def) (simp add: enc_items_def)
  have "good_packet pre fl (xs @ [(ty, d, pad)]) tail'"
    using assms A g item lrest by (simp add: good_packet_def enc_items_Cons A_def tail'_def SIZEOF_EVENT_def) (simp add: enc_items_def)
  moreover have "\<not> ?n < ATTACHMENTS + ?L + SIZEOF_ATTCHMT + length d" using A by (simp add: ct_layout)
  moreover have "nat (to_uint32 (int ?n - int SIZEOF_EVENT)) = ?L + A"
    using n by (simp add: to_uint32_def SIZEOF_EVENT_def)
  ultimately show ?thesis
    using assms(2) p1 p2 n
    by (intro exI [of _ pad] exI [of _ tail'])
      (simp add: lct_attach_def Let_def alloc_def packet_size [OF assms(1)] assms(4) A_def [symmetric])
qed

fun given :: "(nat \<times> string option) list \<Rightarrow> (nat \<times> string) list" where
  "given [] = []"
| "given ((ty, None) # ds) = given ds"
| "given ((ty, Some x) # ds) = (ty, x) # given ds"

definition room :: "(nat \<times> string) list \<Rightarrow> nat" where
  "room ds = sum_list (map (\<lambda>(_, x). length x + 11) ds)"

lemma room_simps [simp]: "room [] = 0" "room ((ty, x) # ds) = length x + 11 + room ds"
  by (simp_all add: room_def)

lemma good_packet_grown:
  assumes "good_packet pre fl (xs @ [(ty, d, pad)]) tail"
  shows "length (enc_items (xs @ [(ty, d, pad)])) \<le> length (enc_items xs) + length d + 11"
proof -
  have g: "good_item (ty, d, pad)" using assms by (simp add: good_packet_def)
  then have "length (enc_item (ty, d, pad)) = align (length d + SIZEOF_ATTCHMT)" by simp
  also have "\<dots> \<le> length d + 11"
    using g align_bounds(2) [of "length d + SIZEOF_ATTCHMT"] by (simp add: SIZEOF_ATTCHMT_def)
  finally show ?thesis by (simp add: enc_items_Cons) (simp add: enc_items_def)
qed

lemma lct_attach_all_packet:
  assumes "good_packet pre fl xs tail" "reliable s" "\<forall>(ty, _)\<in>set ds. ty < 2 ^ 32"
    "length (enc_items xs) + room (given ds) + SIZEOF_EVENT < 2 ^ 32"
  shows "\<exists>ys tail' n. run_state (lct_attach_all junk ds (packet pre fl xs tail)) s =
      (packet pre fl (xs @ ys) tail', s\<lparr>calls := n\<rparr>) \<and>
    good_packet pre fl (xs @ ys) tail' \<and> map (\<lambda>(ty, d, _). (ty, d)) ys = given ds"
  using assms
proof (induction ds arbitrary: xs tail s)
  case Nil
  then show ?case by (intro exI [of _ "[]"] exI [of _ tail] exI [of _ "calls s"]) simp
next
  case (Cons e ds)
  obtain ty d where e: "e = (ty, d)" by (cases e)
  show ?case
  proof (cases d)
    case None
    then show ?thesis using Cons by (simp add: e)
  next
    case (Some x)
    have len: "length x < 2 ^ 32" "length (enc_items xs) + length x + SIZEOF_EVENT + 11 < 2 ^ 32"
      using Cons.prems(4) by (simp_all add: e Some)
    obtain pad tail' where 1: "run_state (lct_attach junk (packet pre fl xs tail) ty (length x) x) s =
        ((0, packet pre fl (xs @ [(ty, x, pad)]) tail'), s\<lparr>calls := Suc (calls s)\<rparr>)"
      and 2: "good_packet pre fl (xs @ [(ty, x, pad)]) tail'"
      using lct_attach_packet [of pre fl xs tail s ty "length x" x junk] Cons.prems len by (auto simp: e)
    have "length (enc_items (xs @ [(ty, x, pad)])) + room (given ds) + SIZEOF_EVENT < 2 ^ 32"
      using good_packet_grown [OF 2] Cons.prems(4) by (simp add: e Some)
    from Cons.IH [OF 2 _ _ this, of "s\<lparr>calls := Suc (calls s)\<rparr>"] obtain ys tail'' n where
      3: "run_state (lct_attach_all junk ds (packet pre fl (xs @ [(ty, x, pad)]) tail')) (s\<lparr>calls := Suc (calls s)\<rparr>) =
          (packet pre fl ((xs @ [(ty, x, pad)]) @ ys) tail'', s\<lparr>calls := n\<rparr>)"
        "good_packet pre fl ((xs @ [(ty, x, pad)]) @ ys) tail''" "map (\<lambda>(ty, d, _). (ty, d)) ys = given ds"
      using Cons.prems by auto
    show ?thesis
      using 1 3 len(1) by (intro exI [of _ "(ty, x, pad) # ys"] exI [of _ tail''] exI [of _ n]) (simp add: e Some)
  qed
qed

text \<open>The head of an event that has just been allocated.\<close>

lemma alloc_event_packet:
  assumes "reliable s"
  shows "run_state (lct_alloc_event (Some sb) (Some en) ty flags) s =
      (Some (packet (put_le 8 (nat (clock s (Suc (calls s)))) @ name_field MAX_SB_N sb @ name_field MAX_EV_N en @ put32 ty)
               (put32 flags) [] (replicate 4 NUL)), s\<lparr>calls := Suc (calls s)\<rparr>)"
  using assms by (simp add: lct_alloc_event_def alloc_def packet_def) (simp add: enc_items_def)

lemma length_name_field [simp]: "0 < n \<Longrightarrow> length (name_field n s) = n"
  by (simp add: name_field_def)

lemma good_head:
  "good_packet (put_le 8 now @ name_field MAX_SB_N sb @ name_field MAX_EV_N en @ put32 ty) (put32 flags) [] (replicate 4 NUL)"
  by (simp add: good_packet_def ct_layout) (simp add: enc_items_def)

lemma cstr_name_field:
  assumes "NUL \<notin> set s" "0 < n"
  shows "cstr (name_field n s @ r) = take (n - 1) s"
proof -
  let ?k = "n - length (take (n - 1) s)"
  have "NUL \<notin> set (take (n - 1) s)" using assms(1) by (auto dest: in_set_takeD)
  from cstr_padded [OF this, of ?k r] have "cstr (name_field n s @ r) = (if ?k = 0 then take (n - 1) s @ cstr r else take (n - 1) s)"
    unfolding name_field_def append_assoc .
  moreover have "?k \<noteq> 0" using assms(2) by (cases n) auto
  ultimately show ?thesis by presburger
qed

lemma packet_head:
  fixes now xs tail
  assumes "NUL \<notin> set sb" "NUL \<notin> set en" "ty < 2 ^ 32" "flags < 2 ^ 32"
  defines "ev \<equiv> packet (put_le 8 now @ name_field MAX_SB_N sb @ name_field MAX_EV_N en @ put32 ty) (put32 flags) xs tail"
  shows "ev_submitter ev = take 31 sb" "ev_event ev = take 31 en" "ev_type ev = ty" "ev_flags ev = of_nat flags"
  using assms(1-4) cstr_name_field [of sb MAX_SB_N] cstr_name_field [of en MAX_EV_N]
  by (simp_all add: ev_def packet_def ev_submitter_def ev_event_def ev_type_def ev_flags_def field_at_def ct_layout)

end
