(* ===== verification/Ct_Event.thy ===== *)
theory Ct_Event
  imports Ct_Packet
begin

text \<open>
  The daemon's side of application events: receiving them (lct_link.c), the filter, the files made
  from the attachments (ct_utils.c), and the check of attached files (ct_eventintegrity.c).
\<close>

section \<open>Receiving\<close>

definition EINTR :: int where "EINTR = 4"

definition lct_server_init :: "('w, int) lop" where
  "lct_server_init = do {
     f \<leftarrow> syscall;
     (case f of
        Fails e \<Rightarrow> do { set_errno e; ret (-1) }
      | _ \<Rightarrow> do {
          b \<leftarrow> syscall;
          (case b of
             Fails e \<Rightarrow> do { set_errno e; ret (-1) }
           | _ \<Rightarrow> do { modify (\<lambda>s. s\<lparr>lct_bound := True\<rparr>); ret 3 }) }) }"

definition lct_link_init_comm :: "('w, unit) lop" where
  "lct_link_init_comm = do {
     fd \<leftarrow> lct_server_init;
     modify (\<lambda>s. s\<lparr>sock_fd := fd\<rparr>) }"

text \<open>
  \<open>recv\<close> of at most \<open>n\<close> bytes of the next datagram, which stays in the queue with \<open>MSG_PEEK\<close>, again and
  again while it is interrupted; the fuel \<open>k\<close> bounds the interruptions. With an empty queue the call
  would wait; the model reports an error.
\<close>

fun recv :: "nat \<Rightarrow> nat \<Rightarrow> bool \<Rightarrow> ('w, string option) lop" where
  "recv 0 n peek = ret None"
| "recv (Suc k) n peek = do {
     f \<leftarrow> syscall;
     q \<leftarrow> gets lct_queue;
     (case f of
        Fails e \<Rightarrow> do { set_errno e; if e = EINTR then recv k n peek else ret None }
      | _ \<Rightarrow> (case q of
                 [] \<Rightarrow> do { set_errno EBADF; ret None }
               | d # ds \<Rightarrow> do {
                   modify (\<lambda>s. s\<lparr>lct_queue := (if peek then d # ds else ds)\<rparr>);
                   ret (Some (take n d)) })) }"

text \<open>What is not received of a buffer of \<open>n\<close> bytes keeps its old content.\<close>

definition fill_up :: "(nat \<Rightarrow> char) \<Rightarrow> nat \<Rightarrow> string \<Rightarrow> string" where
  "fill_up junk n d = d @ map junk [length d..<n]"

definition lct_link_get_event :: "nat \<Rightarrow> (nat \<Rightarrow> char) \<Rightarrow> (nat \<Rightarrow> char) \<Rightarrow> ('w, string option) lop" where
  "lct_link_get_event k stack heap = do {
     h \<leftarrow> recv k SIZEOF_EVENT True;
     (case h of
        None \<Rightarrow> ret None
      | Some b \<Rightarrow> do {
          let len = ev_attchmt_size (fill_up stack SIZEOF_EVENT b) + SIZEOF_EVENT;
          ok \<leftarrow> alloc;
          if \<not> ok then ret None
          else do {
            r \<leftarrow> recv k len False;
            (case r of None \<Rightarrow> ret None | Some d \<Rightarrow> ret (Some (fill_up heap len d))) } }) }"

section \<open>Attachments\<close>

definition walk :: "string \<Rightarrow> ('w, attchmt list) op" where
  "walk ev = do {
     (if headers_inside ev then ret () else effect (BadRead ''foreach_attchmt''));
     ret (attchmts ev) }"

text \<open>The text of an attachment that is printed with \<open>%s\<close>: up to a null byte, wherever it is.\<close>

definition attchmt_text :: "attchmt \<Rightarrow> ('w, string) op" where
  "attchmt_text a = do {
     (if NUL \<in> set (at_mem a) then ret () else effect (BadRead ''attachment text''));
     ret (cstr (at_mem a)) }"

text \<open>The first \<open>at_size\<close> bytes of an attachment.\<close>

definition attchmt_bytes :: "attchmt \<Rightarrow> ('w, string) op" where
  "attchmt_bytes a = do {
     (if at_size a \<le> length (at_mem a) then ret () else effect (BadRead ''attachment bytes''));
     ret (take (at_size a) (at_mem a)) }"

fun data_lines :: "attchmt list \<Rightarrow> ('w, string) op" where
  "data_lines [] = ret []"
| "data_lines (a # as) =
     (if at_type a \<le> CT_ATTCHMT_DATA5 then do {
        t \<leftarrow> attchmt_text a;
        ls \<leftarrow> data_lines as;
        ret (''DATA'' @ show_nat (at_type a) @ ''='' @ t @ [NL] @ ls) }
      else data_lines as)"

definition print_all :: "string \<Rightarrow> string \<Rightarrow> ('w, unit) op" where
  "print_all path t = (if t = [] then ret () else do { _ \<leftarrow> write_end path t; ret () })"

definition dump_data_in_file :: "string \<Rightarrow> string \<Rightarrow> ('w, int) op" where
  "dump_data_in_file ev file_path = do {
     ok \<leftarrow> open_trunc file_path;
     if \<not> ok then ret (-1)
     else do {
       as \<leftarrow> walk ev;
       t \<leftarrow> data_lines as;
       print_all file_path t;
       _ \<leftarrow> chown_log file_path;
       ret 0 } }"

subsection \<open>Binary attachments\<close>

definition b64_char :: "nat \<Rightarrow> char" where
  "b64_char n = (''ABCDEFGHIJKLMNOPQRSTUVWXYZabcdefghijklmnopqrstuvwxyz0123456789+/'') ! (n mod 64)"

fun b64 :: "nat list \<Rightarrow> string" where
  "b64 [] = []"
| "b64 [a] = [b64_char (a div 4), b64_char (a mod 4 * 16), CHR ''='', CHR ''='']"
| "b64 [a, b] = [b64_char (a div 4), b64_char (a mod 4 * 16 + b div 16), b64_char (b mod 16 * 4), CHR ''='']"
| "b64 (a # b # c # r) =
     b64_char (a div 4) # b64_char (a mod 4 * 16 + b div 16) # b64_char (b mod 16 * 4 + c div 64) # b64_char (c mod 64) # b64 r"

text \<open>
  The buffer of \<open>n\<close> zero bytes after \<open>b64_ntop\<close>: groups of four letters as long as they fit, and a
  terminator only when there is room for it.
\<close>

definition b64_ntop :: "string \<Rightarrow> nat \<Rightarrow> string" where
  "b64_ntop src n = (let t = take (n div 4 * 4) (b64 (map of_char src)) in t @ replicate (n - length t) NUL)"

definition b64_room :: "nat \<Rightarrow> nat" where
  "b64_room sz = (sz + 2) * 4 mod 2 ^ 32 div 3"

definition binary_line :: "attchmt \<Rightarrow> nat \<Rightarrow> ('w, string) op" where
  "binary_line a nr = do {
     ok \<leftarrow> alloc;
     if \<not> ok then do { effect (NullDeref ''dump_binary_attchmts_in_file''); ret [] }
     else do {
       src \<leftarrow> attchmt_bytes a;
       let buf = b64_ntop src (b64_room (at_size a));
       (if NUL \<in> set buf then ret () else effect (BadRead ''dump_binary_attchmts_in_file''));
       ret (''BINARY'' @ show_nat nr @ ''='' @ cstr buf @ [NL]) } }"

fun binary_lines :: "attchmt list \<Rightarrow> nat \<Rightarrow> ('w, string \<times> nat) op" where
  "binary_lines [] nr = ret ([], nr)"
| "binary_lines (a # as) nr =
     (if at_type a = CT_ATTCHMT_BINARY then do {
        t \<leftarrow> binary_line a nr;
        (ts, n) \<leftarrow> binary_lines as (Suc nr);
        ret (t @ ts, n) }
      else binary_lines as nr)"

definition dump_binary_attchmts_in_file :: "string \<Rightarrow> string \<Rightarrow> ('w, int) op" where
  "dump_binary_attchmts_in_file ev file_path = do {
     ok \<leftarrow> open_trunc file_path;
     if \<not> ok then ret (-1)
     else do {
       as \<leftarrow> walk ev;
       (t, nr_binary) \<leftarrow> binary_lines as 0;
       print_all file_path t;
       (if nr_binary = 0 then c_remove file_path else do { _ \<leftarrow> chown_log file_path; ret () });
       ret 0 } }"

subsection \<open>Attached files\<close>

fun words_at :: "(char \<Rightarrow> bool) \<Rightarrow> string \<Rightarrow> string \<Rightarrow> string list" where
  "words_at sep acc [] = (if acc = [] then [] else [rev acc])"
| "words_at sep acc (c # s) =
     (if sep c then (if acc = [] then words_at sep [] s else rev acc # words_at sep [] s)
      else words_at sep (c # acc) s)"

definition strtok :: "string \<Rightarrow> string \<Rightarrow> string list" where
  "strtok seps s = words_at (\<lambda>c. c \<in> set seps) [] s"

definition copy_file_to_crashdir :: "string \<Rightarrow> string \<Rightarrow> ('w, bool) dop" where
  "copy_file_to_crashdir sourcefile destpath =
     (case strrchr sourcefile (CHR ''/'') of
        None \<Rightarrow> ret False
      | Some t \<Rightarrow> do {
          r \<leftarrow> do_copy_eof (Some sourcefile) (Some (snprintf PATHMAX (destpath @ ''/'' @ tl t)));
          ret (r = 0) })"

fun copy_file_list :: "string list \<Rightarrow> string \<Rightarrow> ('w, unit) dop" where
  "copy_file_list [] dst = ret ()"
| "copy_file_list (f # files) dst = do {
     _ \<leftarrow> copy_file_to_crashdir f dst;
     copy_file_list files dst }"

fun copy_listed :: "attchmt list \<Rightarrow> string \<Rightarrow> ('w, unit) dop" where
  "copy_listed [] dst = ret ()"
| "copy_listed (a # as) dst = do {
     (if at_type a = CT_ATTCHMT_FILELIST \<and> at_size a \<noteq> 0 then do {
        ok \<leftarrow> alloc;
        (if \<not> ok then ret ()
         else do {
           b \<leftarrow> attchmt_bytes a;
           copy_file_list (strtok '';,'' (cstr b)) dst }) }
      else ret ());
     copy_listed as dst }"

definition copy_attached_files :: "string \<Rightarrow> string \<Rightarrow> ('w, int) dop" where
  "copy_attached_files ev copy_dst = do {
     as \<leftarrow> walk ev;
     copy_listed as copy_dst;
     ret 0 }"

definition CT_ADDITIONAL_APLOG :: "32 word" where "CT_ADDITIONAL_APLOG = 1"
definition CT_ADDITIONAL_LAST_KMSG :: "32 word" where "CT_ADDITIONAL_LAST_KMSG = 2"
definition CT_ADDITIONAL_FWMSG :: "32 word" where "CT_ADDITIONAL_FWMSG = 4"
definition PROC_ONLINE_SCU_LOG_NAME :: string where "PROC_ONLINE_SCU_LOG_NAME = ''/proc/online_scu_log''"

definition additional_steps :: "32 word \<Rightarrow> string \<Rightarrow> ('w, unit) dop" where
  "additional_steps steps dst = do {
     ap \<leftarrow> gets (file_exists APLOG_FILE_0);
     (if steps AND CT_ADDITIONAL_APLOG \<noteq> 0 \<and> ap then copy_in APLOG_FILE_0 dst ''aplog'' else ret ());
     (if steps AND CT_ADDITIONAL_LAST_KMSG \<noteq> 0 then do {
        a \<leftarrow> gets (file_exists LAST_KMSG);
        b \<leftarrow> gets (file_exists CONSOLE_RAMOOPS);
        c \<leftarrow> gets (file_exists CONSOLE_RAMOOPS_0);
        (if a then copy_in LAST_KMSG dst ''last_kmsg''
         else if b then copy_in CONSOLE_RAMOOPS dst ''console-ramoops''
         else if c then copy_in CONSOLE_RAMOOPS_0 dst ''console-ramoops''
         else ret ());
        d \<leftarrow> gets (file_exists FTRACE_RAMOOPS);
        (if d then copy_in FTRACE_RAMOOPS dst ''ftrace-ramoops'' else ret ()) }
      else ret ());
     scu \<leftarrow> gets (file_exists PROC_ONLINE_SCU_LOG_NAME);
     (if steps AND CT_ADDITIONAL_FWMSG \<noteq> 0 \<and> scu then do {
        _ \<leftarrow> do_copy_eof (Some PROC_ONLINE_SCU_LOG_NAME) (Some (snprintf PATHMAX (dst @ ''/online_scu_log.txt'')));
        ret () }
      else ret ()) }"

fun steps_of :: "attchmt list \<Rightarrow> string \<Rightarrow> ('w, unit) dop" where
  "steps_of [] dst = ret ()"
| "steps_of (a # as) dst = do {
     (if at_type a = CT_ATTCHMT_ADDITIONAL \<and> at_size a = 4 then do {
        b \<leftarrow> attchmt_bytes a;
        additional_steps (of_nat (le b)) dst }
      else ret ());
     steps_of as dst }"

definition do_additionl_steps :: "string \<Rightarrow> string \<Rightarrow> ('w, int) dop" where
  "do_additionl_steps ev destination = do {
     as \<leftarrow> walk ev;
     steps_of as destination;
     ret 0 }"

section \<open>The integrity of attached files\<close>

definition DATA_MAX_LEN :: nat where "DATA_MAX_LEN = 128"
definition FABRIC_RECOV_NAME :: string where "FABRIC_RECOV_NAME = ''ipanic_fabric_recv_err''"

definition last_data1 :: "attchmt list \<Rightarrow> string option" where
  "last_data1 as = (case filter (\<lambda>a. at_type a = CT_ATTCHMT_DATA1) as of
      [] \<Rightarrow> None | bs \<Rightarrow> Some (take DATA_MAX_LEN (cstr (at_mem (last bs)))))"

text \<open>The file is looked for beside the directory of the event: no slash stands between the names.\<close>

definition check_integrity_Fabric_Recov :: "string \<Rightarrow> string \<Rightarrow> ('w, int) op" where
  "check_integrity_Fabric_Recov ev event_dir = do {
     as \<leftarrow> walk ev;
     (if \<exists>a\<in>set as. at_type a = CT_ATTCHMT_DATA1 \<and> NUL \<notin> set (at_mem a) \<and> length (at_mem a) < DATA_MAX_LEN
      then effect (BadRead ''check_integrity_Fabric_Recov'') else ret ());
     (case last_data1 as of
        None \<Rightarrow> ret 1
      | Some data1 \<Rightarrow> do {
          let filename = snprintf PATHMAX (event_dir @ FABRIC_RECOV_NAME);
          fd \<leftarrow> open_read filename;
          (case fd of
             None \<Rightarrow> ret (-1)
           | Some d \<Rightarrow>
               if \<exists>l\<in>set (map cstr (fgets_lines DATA_MAX_LEN d)). take 14 l = take 14 data1 then ret 0
               else do {
                 dir \<leftarrow> gets (directory_exists filename);
                 ok \<leftarrow> (if dir then sys_rmdir filename else sys_unlink filename);
                 ret (if ok then 2 else -2) }) }) }"

definition check_event_integrity :: "string \<Rightarrow> string \<Rightarrow> ('w, int) op" where
  "check_event_integrity ev event_dir =
     (if take MAX_SB_N (ev_submitter ev) = ''Fabric'' \<and> take MAX_EV_N (ev_event ev) = ''Recov''
      then check_integrity_Fabric_Recov ev event_dir else ret 0)"

section \<open>Handling an event\<close>

definition PROPERTY_KEY_MAX :: nat where "PROPERTY_KEY_MAX = 32"
definition EV_FLAGS_PRIORITY_LOW :: "32 word" where "EV_FLAGS_PRIORITY_LOW = 1"

definition event_pass_filter :: "string \<Rightarrow> 'w world_scheme \<Rightarrow> bool" where
  "event_pass_filter ev s \<longleftrightarrow>
     ev_type ev < CT_EV_LAST \<and>
     (ev_flags ev AND EV_FLAGS_PRIORITY_LOW \<noteq> 0 \<longrightarrow>
        prop_get s (snprintf PROPERTY_KEY_MAX (''dev.log.'' @ ev_submitter ev)) [] = ''ON'')"

text \<open>\<open>strrplc\<close> on the name at the offset \<open>off\<close> of the event.\<close>

definition strrplc :: "char \<Rightarrow> char \<Rightarrow> nat \<Rightarrow> string \<Rightarrow> string" where
  "strrplc from to off ev = poke off (map (\<lambda>c. if c = from then to else c) (cstr (drop off ev))) ev"

definition suffixes :: "string list" where
  "suffixes = [''_trigger'', ''_infoevent'', ''_errorevent'', ''_ignored'']"

definition convert_name_to_upper_case :: "string \<Rightarrow> string" where
  "convert_name_to_upper_case name = map toupper name"

text \<open>The directory mode and the name of the event, by its type.\<close>

definition event_kind :: "nat \<Rightarrow> (dir_mode \<times> string) option" where
  "event_kind ty =
     (if ty = CT_EV_STAT then Some (MODE_STATS, ''STATS'')
      else if ty = CT_EV_INFO then Some (MODE_STATS, ''INFO'')
      else if ty = CT_EV_ERROR then Some (MODE_CRASH, ''ERROR'')
      else None)"

definition event_file :: "string \<Rightarrow> string \<Rightarrow> string \<Rightarrow> string" where
  "event_file ev dir ending = snprintf PATHMAX (dir @ ''/'' @ ev_submitter ev @ ''_'' @ ev_event ev @ ending)"

definition event_files_from :: "string \<Rightarrow> string \<Rightarrow> ('w, unit) dop" where
  "event_files_from ev dir = do {
     (if ev_attchmt_size ev \<noteq> 0 then do {
        _ \<leftarrow> dump_binary_attchmts_in_file ev (event_file ev dir ''.bin'');
        _ \<leftarrow> copy_attached_files ev dir;
        _ \<leftarrow> do_additionl_steps ev dir;
        _ \<leftarrow> check_event_integrity ev dir;
        ret () }
      else ret ());
     _ \<leftarrow> dump_data_in_file ev (event_file ev dir (suffixes ! ev_type ev));
     ret () }"

definition process_msg :: "string \<Rightarrow> ('w, unit) rop" where
  "process_msg ev0 =
     (case event_kind (ev_type ev0) of
        None \<Rightarrow> ret ()
      | Some (mode, name_event) \<Rightarrow> do {
          let ev = strrplc (CHR 0x20) (CHR ''_'') 40 (strrplc (CHR 0x20) (CHR ''_'') 8 ev0);
          let name = convert_name_to_upper_case
                (snprintf (MAX_SB_N + MAX_EV_N + 2) (ev_submitter ev @ ''_'' @ ev_event ev));
          key \<leftarrow> generate_event_id (Some name_event) (Some name);
          dir \<leftarrow> generate_crashlog_dir mode key;
          (case dir of
             None \<Rightarrow> do {
               _ \<leftarrow> raise_event key (Some name_event) (Some name) None None;
               _ \<leftarrow> get_current_time_long False;
               ret () }
           | Some d \<Rightarrow> do {
               event_files_from ev d;
               _ \<leftarrow> raise_event key (Some name_event) (Some name) None (Some d);
               _ \<leftarrow> get_current_time_long False;
               ret () }) })"

definition lct_link_handle_msg :: "nat \<Rightarrow> (nat \<Rightarrow> char) \<Rightarrow> (nat \<Rightarrow> char) \<Rightarrow> ('w, unit) lop" where
  "lct_link_handle_msg k stack heap = do {
     r \<leftarrow> lct_link_get_event k stack heap;
     (case r of
        None \<Rightarrow> ret ()
      | Some ev \<Rightarrow> do {
          pass \<leftarrow> gets (event_pass_filter ev);
          (if pass then process_msg ev else ret ()) }) }"

section \<open>From the application to the daemon\<close>

abbreviation head_of :: "nat \<Rightarrow> string \<Rightarrow> string \<Rightarrow> nat \<Rightarrow> string" where
  "head_of now sb en ty \<equiv> put_le 8 now @ name_field MAX_SB_N sb @ name_field MAX_EV_N en @ put32 ty"

lemma lct_log_all_queued:
  assumes "reliable s" "lct_bound s" "ty < 2 ^ 32" "flags < 2 ^ 32" "NUL \<notin> set sb" "NUL \<notin> set en"
    "room (given (lct_list d0 d1 d2 d3 d4 d5 flist add_steps)) + SIZEOF_EVENT < 2 ^ 32"
  shows "\<exists>now xs tail n. let pre = head_of now sb en ty;
        ev = packet pre (put32 flags) xs tail in
      run_state (lct_log_all junk ty (Some sb) (Some en) flags d0 d1 d2 d3 d4 d5 flist add_steps) s =
        (int (length ev), s\<lparr>calls := n, lct_queue := lct_queue s @ [ev]\<rparr>) \<and>
      good_packet pre (put32 flags) xs tail \<and>
      map (\<lambda>(ty, d, _). (ty, d)) xs = given (lct_list d0 d1 d2 d3 d4 d5 flist add_steps)"
proof -
  let ?now = "nat (clock s (Suc (calls s)))"
  let ?pre = "head_of ?now sb en ty"
  let ?t = "s\<lparr>calls := Suc (calls s)\<rparr>" and ?L = "lct_list d0 d1 d2 d3 d4 d5 flist add_steps"
  have "\<forall>(ty, _)\<in>set ?L. ty < 2 ^ 32"
    by (auto simp: lct_list_def CT_ATTCHMT_FILELIST_def CT_ATTCHMT_ADDITIONAL_def)
  then obtain xs tail n where
    1: "run_state (lct_attach_all junk ?L (packet ?pre (put32 flags) [] (replicate 4 NUL))) ?t =
        (packet ?pre (put32 flags) xs tail, ?t\<lparr>calls := n\<rparr>)"
      "good_packet ?pre (put32 flags) xs tail" "map (\<lambda>(ty, d, _). (ty, d)) xs = given ?L"
    using lct_attach_all_packet [OF good_head [of ?now sb en ty flags], of ?t ?L junk] assms(1,7)
    by (auto simp: enc_items_def)
  have "take (PKT_SIZE (packet ?pre (put32 flags) xs tail)) (packet ?pre (put32 flags) xs tail) = packet ?pre (put32 flags) xs tail"
    using packet_size [OF 1(2)] by (simp add: PKT_SIZE_def)
  then show ?thesis
    using 1 assms(1,2)
    by (intro exI [of _ ?now] exI [of _ xs] exI [of _ tail] exI [of _ "Suc (Suc n)"])
      (simp add: Let_def lct_log_all_def alloc_event_packet lct_log_event_def sendto_def)
qed

lemma reliable_lct_queue [simp]: "reliable (s\<lparr>lct_queue := q\<rparr>) = reliable s"
  by (simp add: reliable_def)

lemma recv_reliable:
  assumes "reliable s" "lct_queue s = d # ds" "0 < k"
  shows "run_state (recv k n peek) s =
    (Some (take n d), s\<lparr>calls := Suc (calls s), lct_queue := (if peek then d # ds else ds)\<rparr>)"
  using assms by (cases k) simp_all

lemma get_event_packet:
  assumes "good_packet pre fl xs tail" "reliable s" "lct_queue s = [packet pre fl xs tail]" "0 < k"
  shows "\<exists>n. run_state (lct_link_get_event k stack heap) s = (Some (packet pre fl xs tail), s\<lparr>calls := n, lct_queue := []\<rparr>)"
proof -
  let ?p = "packet pre fl xs tail"
  have len: "length ?p = ev_attchmt_size ?p + SIZEOF_EVENT" using packet_size [OF assms(1)] by simp
  have "ev_attchmt_size (take SIZEOF_EVENT b) = ev_attchmt_size b" for b
    by (simp add: ev_attchmt_size_def field_at_def SIZEOF_EVENT_def drop_take)
  moreover have "fill_up stack SIZEOF_EVENT (take SIZEOF_EVENT ?p) = take SIZEOF_EVENT ?p"
    using len by (simp add: fill_up_def)
  moreover have "fill_up heap (ev_attchmt_size ?p + SIZEOF_EVENT) ?p = ?p" using len by (simp add: fill_up_def)
  ultimately show ?thesis
    using assms(2-4) len by (simp add: lct_link_get_event_def recv_reliable alloc_def Let_def) blast
qed

text \<open>What the loop over the attachments finds: types and bytes.\<close>

definition found :: "string \<Rightarrow> (nat \<times> string) list" where
  "found ev = map (\<lambda>a. (at_type a, take (at_size a) (at_mem a))) (attchmts ev)"

lemma found_packet:
  assumes "good_packet pre fl xs tail"
  shows "found (packet pre fl xs tail) = map (\<lambda>(ty, d, _). (ty, d)) xs"
proof -
  have "list_all2 seen_as xs as \<Longrightarrow>
      map (\<lambda>a. (at_type a, take (at_size a) (at_mem a))) as = map (\<lambda>(ty, d, _). (ty, d)) xs" for as
    by (induction rule: list_all2_induct) (auto simp: seen_as_def prefix_def)
  then show ?thesis using attchmts_packet(1) [OF assms] by (simp add: found_def)
qed

definition sample_link :: link where
  "sample_link = ecc.extend (watchdog.extend wd_daemon (ecc.fields [])) (link.fields 3 True [] True)"

lemma sample_link_fields [simp]:
  "reliable sample_link" "lct_bound sample_link" "lct_queue sample_link = []" "fs sample_link = fs (sample_world [])"
  by (simp_all add: sample_link_def reliable_def wd_daemon_def runtime.defs watchdog.defs ecc.defs link.defs)

text \<open>
  C9. What an application logs is what the daemon receives: the event that comes out of the socket has
  the names (31 bytes of each), the type and the flags that were given, every header the loop over the
  attachments reads lies in its block, and the loop finds exactly the attachments that were given, in
  order, with their bytes, whatever \<open>realloc\<close> left in the bytes between them.
\<close>

theorem lct_event_roundtrip:
  assumes "reliable s" "lct_bound s" "lct_queue s = []" "0 < k" "ty < 2 ^ 32" "flags < 2 ^ 32"
    "NUL \<notin> set sb" "NUL \<notin> set en"
    "room (given (lct_list d0 d1 d2 d3 d4 d5 flist add_steps)) + SIZEOF_EVENT < 2 ^ 32"
  shows "\<exists>ev. fst (run_state (lct_link_get_event k stack heap)
        (snd (run_state (lct_log_all junk ty (Some sb) (Some en) flags d0 d1 d2 d3 d4 d5 flist add_steps) s))) = Some ev \<and>
      ev_submitter ev = take 31 sb \<and> ev_event ev = take 31 en \<and> ev_type ev = ty \<and> ev_flags ev = of_nat flags \<and>
      headers_inside ev \<and> found ev = given (lct_list d0 d1 d2 d3 d4 d5 flist add_steps)"
proof -
  obtain now xs tail n where
    1: "run_state (lct_log_all junk ty (Some sb) (Some en) flags d0 d1 d2 d3 d4 d5 flist add_steps) s =
        (int (length (packet (head_of now sb en ty) (put32 flags) xs tail)),
         s\<lparr>calls := n, lct_queue := [packet (head_of now sb en ty) (put32 flags) xs tail]\<rparr>)"
      "good_packet (head_of now sb en ty) (put32 flags) xs tail"
      "map (\<lambda>(ty, d, _). (ty, d)) xs = given (lct_list d0 d1 d2 d3 d4 d5 flist add_steps)"
    using lct_log_all_queued [OF assms(1,2,5-9), of junk] assms(3) by (auto simp: Let_def)
  show ?thesis
    using get_event_packet [OF 1(2), of "snd (run_state (lct_log_all junk ty (Some sb) (Some en) flags d0 d1 d2 d3 d4 d5 flist add_steps) s)" k stack heap]
      assms(1,4) packet_head [OF assms(7,8,5,6)] attchmts_packet(2) [OF 1(2)] found_packet [OF 1(2)] 1
    by auto
qed

theorem lct_event_roundtrip_witness:
  "\<exists>ev. fst (run_state (lct_link_get_event 1 (\<lambda>_. NUL) (\<lambda>_. NUL))
      (snd (run_state (lct_log_all (\<lambda>_. CHR ''x'') CT_EV_ERROR (Some ''app'') (Some ''ev'') 1 (Some ''hi'') None None None None None
          (Some ''/a;/b'') 6) sample_link))) = Some ev \<and>
    ev_submitter ev = ''app'' \<and> ev_type ev = CT_EV_ERROR \<and>
    found ev = [(0, ''hi'' @ [NUL]), (CT_ATTCHMT_FILELIST, ''/a;/b'' @ [NUL]), (CT_ATTCHMT_ADDITIONAL, put32 6)]"
  using lct_event_roundtrip [of sample_link 1 CT_EV_ERROR 1 "''app''" "''ev''" "Some ''hi''" None None None None None "Some ''/a;/b''" 6
      "\<lambda>_. NUL" "\<lambda>_. NUL" "\<lambda>_. CHR ''x''"]
  by (auto simp: lct_list_def c_text_def SIZEOF_EVENT_def CT_EV_ERROR_def)

subsection \<open>The data file\<close>

definition text_line :: "nat \<times> string \<Rightarrow> string" where
  "text_line x = (if fst x \<le> CT_ATTCHMT_DATA5 then ''DATA'' @ show_nat (fst x) @ ''='' @ cstr (snd x) @ [NL] else [])"

lemma cstr_append: "NUL \<in> set a \<Longrightarrow> cstr (a @ b) = cstr a"
  by (auto simp: cstr_def takeWhile_append1)

lemma data_lines_seen:
  assumes "list_all2 seen_as xs as" "\<forall>x\<in>set xs. fst x \<le> CT_ATTCHMT_DATA5 \<longrightarrow> NUL \<in> set (fst (snd x))"
  shows "run_state (data_lines as) s = (concat (map (\<lambda>(ty, d, _). text_line (ty, d)) xs), s)"
  using assms
proof (induction rule: list_all2_induct)
  case (Cons x xs a as)
  then show ?case
    by (cases x) (auto simp: seen_as_def prefix_def attchmt_text_def text_line_def cstr_append)
qed simp

lemma dump_data_text:
  fixes s :: "'w world_scheme"
  assumes "reliable s" "comps path \<noteq> []" "node_at s path \<noteq> Some Dir" "is_dir (fs s) (butlast (comps path))"
    "headers_inside ev" "\<And>t :: 'w world_scheme. run_state (data_lines (attchmts ev)) t = (txt, t)"
  shows "content (snd (run_state (dump_data_in_file ev path) s)) path = txt"
proof -
  let ?u = "put path (File []) (s\<lparr>calls := Suc (calls s)\<rparr>)"
  have u: "run_state (open_trunc path) s = (True, ?u)" using assms(1-4) by (rule open_trunc_reliable)
  obtain k where v: "run_state (print_all path txt) ?u = ((), put path (File txt) (?u\<lparr>calls := k\<rparr>))"
  proof (cases "txt = []")
    case True
    then show ?thesis using that [of "calls ?u"] by (simp add: print_all_def put_def)
  next
    case False
    then show ?thesis using that [of "Suc (calls ?u)"] assms(1) by (simp add: print_all_def write_end_reliable)
  qed
  obtain j where "run_state (chown_log path) (put path (File txt) (?u\<lparr>calls := k\<rparr>)) =
      (0, (put path (File txt) (?u\<lparr>calls := k\<rparr>))\<lparr>calls := j\<rparr>)"
    using chown_log_reliable [of "put path (File txt) (?u\<lparr>calls := k\<rparr>)" path] assms(1) by auto
  then show ?thesis using u v assms(5,6) by (simp add: dump_data_in_file_def walk_def)
qed

fun numbered :: "nat \<Rightarrow> string option list \<Rightarrow> string" where
  "numbered i [] = []"
| "numbered i (None # ds) = numbered (Suc i) ds"
| "numbered i (Some x # ds) = ''DATA'' @ show_nat i @ ''='' @ x @ [NL] @ numbered (Suc i) ds"

lemma numbered_lines:
  assumes "\<forall>x. Some x \<in> set [d0, d1, d2, d3, d4, d5] \<longrightarrow> NUL \<notin> set x"
  shows "concat (map text_line (given (lct_list d0 d1 d2 d3 d4 d5 flist add_steps))) = numbered 0 [d0, d1, d2, d3, d4, d5]"
proof -
  have 1: "concat (map text_line (given ((i, c_text d) # ds))) = numbered i [d] @ concat (map text_line (given ds))"
    if "\<forall>x. d = Some x \<longrightarrow> NUL \<notin> set x" "i \<le> 5" for i d ds
    using that cstr_padded [of "the d" 1 "[]"] by (cases d) (auto simp: c_text_def text_line_def CT_ATTCHMT_DATA5_def)
  have 2: "concat (map text_line (given [(CT_ATTCHMT_FILELIST, f), (CT_ATTCHMT_ADDITIONAL, g)])) = []" for f g
    by (cases f; cases g) (simp_all add: text_line_def CT_ATTCHMT_DATA5_def CT_ATTCHMT_FILELIST_def CT_ATTCHMT_ADDITIONAL_def)
  have 3: "numbered i (d # ds) = numbered i [d] @ numbered (Suc i) ds" for i d ds by (cases d) simp_all
  show ?thesis
    unfolding lct_list_def using assms
    by (simp add: 1 2 3 [of _ _ "_ # _"] numeral_eq_Suc del: given.simps)
qed

text \<open>
  C14. The texts an application logs are the lines of the data file: when the daemon receives the event and
  writes its data, the file holds a line for each text that was given, numbered by its place, and
  nothing else.
\<close>

theorem lct_data_file:
  fixes s :: "'w link_scheme"
  assumes "reliable s" "lct_bound s" "lct_queue s = []" "0 < k" "ty < 2 ^ 32" "flags < 2 ^ 32"
    "NUL \<notin> set sb" "NUL \<notin> set en"
    "room (given (lct_list d0 d1 d2 d3 d4 d5 flist add_steps)) + SIZEOF_EVENT < 2 ^ 32"
    "\<forall>x. Some x \<in> set [d0, d1, d2, d3, d4, d5] \<longrightarrow> NUL \<notin> set x"
    "comps path \<noteq> []" "node_at s path \<noteq> Some Dir" "is_dir (fs s) (butlast (comps path))"
  shows "content (snd (run_state (do {
      _ \<leftarrow> lct_log_all junk ty (Some sb) (Some en) flags d0 d1 d2 d3 d4 d5 flist add_steps;
      r \<leftarrow> lct_link_get_event k stack heap;
      (case r of None \<Rightarrow> ret (-1) | Some ev \<Rightarrow> dump_data_in_file ev path) }) s)) path =
    numbered 0 [d0, d1, d2, d3, d4, d5]"
proof -
  let ?L = "lct_list d0 d1 d2 d3 d4 d5 flist add_steps"
  obtain now xs tail n where
    1: "run_state (lct_log_all junk ty (Some sb) (Some en) flags d0 d1 d2 d3 d4 d5 flist add_steps) s =
        (int (length (packet (head_of now sb en ty) (put32 flags) xs tail)),
         s\<lparr>calls := n, lct_queue := [packet (head_of now sb en ty) (put32 flags) xs tail]\<rparr>)"
      "good_packet (head_of now sb en ty) (put32 flags) xs tail" "map (\<lambda>(ty, d, _). (ty, d)) xs = given ?L"
    using lct_log_all_queued [OF assms(1,2,5-9), of junk] assms(3) by (auto simp: Let_def)
  let ?ev = "packet (head_of now sb en ty) (put32 flags) xs tail"
  obtain m where 2: "run_state (lct_link_get_event k stack heap) (s\<lparr>calls := n, lct_queue := [?ev]\<rparr>) =
      (Some ?ev, s\<lparr>calls := m, lct_queue := []\<rparr>)"
    using get_event_packet [OF 1(2), of "s\<lparr>calls := n, lct_queue := [?ev]\<rparr>" k stack heap] assms(1,4) by auto
  have "\<forall>(i, d)\<in>set (given ?L). i \<le> CT_ATTCHMT_DATA5 \<longrightarrow> NUL \<in> set d"
    by (auto simp: lct_list_def c_text_def CT_ATTCHMT_DATA5_def CT_ATTCHMT_FILELIST_def CT_ATTCHMT_ADDITIONAL_def split: option.splits)
  then have "\<forall>x\<in>set xs. fst x \<le> CT_ATTCHMT_DATA5 \<longrightarrow> NUL \<in> set (fst (snd x))"
    unfolding 1(3) [symmetric] by auto
  then have "run_state (data_lines (attchmts ?ev)) t = (concat (map (\<lambda>(ty, d, _). text_line (ty, d)) xs), t)" for t :: "'w link_scheme"
    by (rule data_lines_seen [OF attchmts_packet(1) [OF 1(2)]])
  moreover have "concat (map (\<lambda>(ty, d, _). text_line (ty, d)) xs) = numbered 0 [d0, d1, d2, d3, d4, d5]"
    using numbered_lines [OF assms(10)] arg_cong [OF 1(3), of "\<lambda>l. concat (map text_line l)"]
    by (simp add: comp_def case_prod_unfold)
  ultimately have "content (snd (run_state (dump_data_in_file ?ev path) (s\<lparr>calls := m, lct_queue := []\<rparr>))) path = numbered 0 [d0, d1, d2, d3, d4, d5]"
    using assms(1,11-13) attchmts_packet(2) [OF 1(2)]
    by (intro dump_data_text) (simp_all add: node_at_def)
  then show ?thesis using 1(1) 2 assms(3) by simp
qed

theorem lct_data_file_witness:
  "content (snd (run_state (do {
      _ \<leftarrow> lct_log_all (\<lambda>_. CHR ''x'') CT_EV_ERROR (Some ''app'') (Some ''ev'') 1 (Some ''hi'') None (Some ''you'') None None None None 0;
      r \<leftarrow> lct_link_get_event 1 (\<lambda>_. NUL) (\<lambda>_. NUL);
      (case r of None \<Rightarrow> ret (-1) | Some ev \<Rightarrow> dump_data_in_file ev ''/x'') }) sample_link)) ''/x'' =
    ''DATA0=hi'' @ [NL] @ ''DATA2=you'' @ [NL]"
proof -
  have "comps ''/x'' = [''x'']" by (simp add: comps_def)
  moreover have "show_nat 0 = ''0''" "show_nat (Suc (Suc 0)) = ''2''" by code_simp+
  moreover have "node_at sample_link ''/x'' = None"
    by (simp add: node_at_def sample_world_def boot_def comps_def)
  ultimately show ?thesis
    using lct_data_file [of sample_link 1 CT_EV_ERROR 1 "''app''" "''ev''" "Some ''hi''" None "Some ''you''" None None None None 0
        "''/x''" "\<lambda>_. CHR ''x''" "\<lambda>_. NUL" "\<lambda>_. NUL"]
    by (simp add: lct_list_def c_text_def SIZEOF_EVENT_def CT_EV_ERROR_def is_dir_def)
qed

section \<open>Binary attachments end where they should, or not\<close>

lemma b64_char_not_NUL: "b64_char n \<noteq> NUL"
proof -
  let ?t = "''ABCDEFGHIJKLMNOPQRSTUVWXYZabcdefghijklmnopqrstuvwxyz0123456789+/''"
  have "b64_char n \<in> set ?t" unfolding b64_char_def by (rule nth_mem) simp
  moreover have "NUL \<notin> set ?t" by simp
  ultimately show ?thesis by metis
qed

lemma b64_length: "length (b64 l) = 4 * ((length l + 2) div 3)"
  by (induction l rule: b64.induct) (simp_all, presburger)

lemma b64_no_NUL: "NUL \<notin> set (b64 l)"
  by (induction l rule: b64.induct) (auto simp: b64_char_not_NUL [symmetric])

text \<open>The room is that of the groups, and up to two bytes more: none at one byte above a multiple of three.\<close>

lemma b64_room_eq:
  assumes "n < 2 ^ 29"
  shows "b64_room n = 4 * ((n + 2) div 3) + (if n mod 3 = 1 then 0 else if n mod 3 = 2 then 1 else 2)"
proof -
  have "(n + 2) * 4 mod 2 ^ 32 = (n + 2) * 4" using assms by (intro mod_less) simp
  then have "b64_room n = (n * 4 + 8) div 3" by (simp add: b64_room_def)
  also have "\<dots> = 4 * ((n + 2) div 3) + (if n mod 3 = 1 then 0 else if n mod 3 = 2 then 1 else 2)"
    by (split if_split, split if_split) presburger
  finally show ?thesis .
qed

lemma b64_ntop_eq:
  assumes "length src < 2 ^ 29"
  shows "b64_ntop src (b64_room (length src)) = b64 (map of_char src) @
    replicate (if length src mod 3 = 1 then 0 else if length src mod 3 = 2 then 1 else 2) NUL"
  using assms by (simp add: b64_ntop_def b64_room_eq Let_def b64_length)

text \<open>
  C29. A binary attachment is printed in base 64, and the printing stays in its buffer, unless the size is
  one above a multiple of three: then the buffer is filled to its last byte, no terminator is
  written, and the call that prints it reads past its end.
\<close>

theorem binary_line_overread:
  assumes "reliable s" "at_size a \<le> length (at_mem a)" "at_size a < 2 ^ 29"
  shows "run_state (binary_line a nr) s =
    (''BINARY'' @ show_nat nr @ ''='' @ b64 (map of_char (take (at_size a) (at_mem a))) @ [NL],
     s\<lparr>calls := Suc (calls s), effects := effects s @
         (if at_size a mod 3 = 1 then [BadRead ''dump_binary_attchmts_in_file''] else [])\<rparr>)"
proof -
  let ?b = "take (at_size a) (at_mem a)"
  have l: "length ?b = at_size a" using assms(2) by simp
  have "b64_ntop ?b (b64_room (at_size a)) = b64 (map of_char ?b) @
      replicate (if at_size a mod 3 = 1 then 0 else if at_size a mod 3 = 2 then 1 else 2) NUL"
    using b64_ntop_eq [of ?b] assms(3) unfolding l by simp
  moreover have "cstr (b64 l @ replicate n NUL) = b64 l" "NUL \<in> set (b64 l @ replicate n NUL) \<longleftrightarrow> n \<noteq> 0" for l n
    using cstr_padded [OF b64_no_NUL, of l n "[]"] b64_no_NUL [of l] by (auto simp: cstr_def)
  ultimately show ?thesis
    using assms(1,2) by (simp add: binary_line_def alloc_def attchmt_bytes_def Let_def effect_def)
qed

theorem binary_line_overread_witness:
  "effects (snd (run_state (binary_line \<lparr>at_pos = 0, at_size = 4, at_type = 6, at_mem = ''abcdef''\<rparr> 0) sample_link)) =
    effects sample_link @ [BadRead ''dump_binary_attchmts_in_file'']"
  using binary_line_overread [of sample_link "\<lparr>at_pos = 0, at_size = 4, at_type = 6, at_mem = ''abcdef''\<rparr>" 0] by simp

end
