(* ===== verification/Partition.thy ===== *)
theory Partition
  imports Ct_Event
begin

text \<open>
  Checks of the partitions (check_partition.c) and the checksums they use (checksum.c).

  SHA-1 is OpenSSL's: the three functions are a parameter \<open>h\<close>. The properties use one law of them,
  that feeding two pieces one after the other is feeding them joined.
\<close>

record 'c sha =
  sha_init :: 'c
  sha_update :: "'c \<Rightarrow> string \<Rightarrow> 'c"
  sha_final :: "'c \<Rightarrow> string"

definition streaming :: "'c sha \<Rightarrow> bool" where
  "streaming h \<longleftrightarrow> (\<forall>c a b. sha_update h (sha_update h c a) b = sha_update h c (a @ b))"

definition CRASHLOG_CHECKSUM_SIZE :: nat where "CRASHLOG_CHECKSUM_SIZE = 20"

section \<open>Checksums\<close>

text \<open>The loop over a buffer, in pieces of twenty bytes.\<close>

function feed :: "'c sha \<Rightarrow> 'c \<Rightarrow> string \<Rightarrow> 'c" where
  "feed h c b = (if b = [] then c
     else feed h (sha_update h c (take CRASHLOG_CHECKSUM_SIZE b)) (drop CRASHLOG_CHECKSUM_SIZE b))"
  by auto

termination
  by (relation "measure (\<lambda>(_, _, b). length b)") (auto simp: CRASHLOG_CHECKSUM_SIZE_def)

declare feed.simps [simp del]

definition calculate_checksum_buffer :: "'c sha \<Rightarrow> string option \<Rightarrow> int \<Rightarrow> bool \<Rightarrow> int \<times> string option" where
  "calculate_checksum_buffer h buffer buffer_size result =
     (case buffer of
        None \<Rightarrow> (- EINVAL, None)
      | Some b \<Rightarrow> if \<not> result \<or> buffer_size \<le> 0 then (- EINVAL, None)
                 else (0, Some (sha_final h (feed h (sha_init h) (take (nat buffer_size) b)))))"

text \<open>
  The loop over a file: it stops at the first read that is short. The descriptor is never closed.
  Every turn but the last takes twenty bytes, so one more turn than bytes is enough.
\<close>

fun feed_file :: "nat \<Rightarrow> 'c sha \<Rightarrow> 'c \<Rightarrow> string \<Rightarrow> ('w, 'c option) op" where
  "feed_file 0 h c rest = ret (Some c)"
| "feed_file (Suc n) h c rest = do {
     r \<leftarrow> read_chunk CRASHLOG_CHECKSUM_SIZE rest;
     (case r of
        None \<Rightarrow> ret None
      | Some b \<Rightarrow>
          if b = [] then ret (Some c)
          else if length b < CRASHLOG_CHECKSUM_SIZE then ret (Some (sha_update h c b))
          else feed_file n h (sha_update h c b) (drop (length b) rest)) }"

definition calculate_checksum_file :: "'c sha \<Rightarrow> string option \<Rightarrow> bool \<Rightarrow> ('w, int \<times> string option) op" where
  "calculate_checksum_file h filename result =
     (case filename of
        None \<Rightarrow> ret (- EINVAL, None)
      | Some f \<Rightarrow>
          if \<not> result then ret (- EINVAL, None)
          else do {
            fd \<leftarrow> open_read f;
            (case fd of
               None \<Rightarrow> do { e \<leftarrow> gets errno; ret (- e, None) }
             | Some d \<Rightarrow> do {
                 c \<leftarrow> feed_file (Suc (length d)) h (sha_init h) d;
                 (case c of
                    None \<Rightarrow> do { e \<leftarrow> gets errno; ret (- e, None) }
                  | Some x \<Rightarrow> ret (0, Some (sha_final h x))) }) })"

text \<open>The functions that feed the checksum of a directory; the context is kept on an error as it is then.\<close>

fun feed_file_kept :: "nat \<Rightarrow> 'c sha \<Rightarrow> 'c \<Rightarrow> string \<Rightarrow> ('w, 'c) op" where
  "feed_file_kept 0 h c rest = ret c"
| "feed_file_kept (Suc n) h c rest = do {
     r \<leftarrow> read_chunk CRASHLOG_CHECKSUM_SIZE rest;
     (case r of
        None \<Rightarrow> ret c
      | Some b \<Rightarrow>
          if b = [] then ret c
          else if length b < CRASHLOG_CHECKSUM_SIZE then ret (sha_update h c b)
          else feed_file_kept n h (sha_update h c b) (drop (length b) rest)) }"

definition calculate_checksum_file_feed :: "'c sha \<Rightarrow> 'c \<Rightarrow> string \<Rightarrow> ('w, 'c) op" where
  "calculate_checksum_file_feed h c filename = do {
     fd \<leftarrow> open_read filename;
     (case fd of None \<Rightarrow> ret c | Some d \<Rightarrow> feed_file_kept (Suc (length d)) h c d) }"

definition calculate_checksum_buffer_feed :: "'c sha \<Rightarrow> 'c \<Rightarrow> string \<Rightarrow> 'c" where
  "calculate_checksum_buffer_feed h c buffer = feed h c buffer"

definition priv_filter_path :: "string \<Rightarrow> string list \<Rightarrow> bool" where
  "priv_filter_path path file_exceptions \<longleftrightarrow> path \<in> set file_exceptions"

text \<open>
  What is done at each entry of the tree: the content of a file that is not excepted, then its path.
  The world has only regular files and directories, so the callback for other entries is never made.
\<close>

definition calculate_checksum_path :: "'c sha \<Rightarrow> string list \<Rightarrow> 'c \<Rightarrow> string \<Rightarrow> ('w, 'c) op" where
  "calculate_checksum_path h file_exceptions c fpath = do {
     n \<leftarrow> gets (\<lambda>s. node_at s fpath);
     c' \<leftarrow> (case n of
              Some (File _) \<Rightarrow> if \<not> priv_filter_path fpath file_exceptions then calculate_checksum_file_feed h c fpath else ret c
            | _ \<Rightarrow> ret c);
     ret (calculate_checksum_buffer_feed h c' fpath) }"

text \<open>
  \<open>nftw\<close> without flags: a directory is reported before its entries, in the order of \<open>readdir\<close>. The
  fuel is the height of the tree; a directory that cannot be opened is reported alone.
\<close>

fun nftw_entries :: "('c \<Rightarrow> string \<Rightarrow> ('w, 'c) op) \<Rightarrow> string \<Rightarrow> string list \<Rightarrow> 'c \<Rightarrow> ('w, 'c) op" where
  "nftw_entries visit path [] c = ret c"
| "nftw_entries visit path (n # ns) c = do {
     c' \<leftarrow> visit c (path @ ''/'' @ n);
     nftw_entries visit path ns c' }"

primrec nftw :: "nat \<Rightarrow> ('c \<Rightarrow> string \<Rightarrow> ('w, 'c) op) \<Rightarrow> 'c \<Rightarrow> string \<Rightarrow> ('w, 'c) op" where
  "nftw 0 f c path = f c path"
| "nftw (Suc k) f c path = do {
     isdir \<leftarrow> gets (directory_exists path);
     if \<not> isdir then f c path
     else do {
       c' \<leftarrow> f c path;
       names \<leftarrow> sys_opendir path;
       (case names of None \<Rightarrow> ret c' | Some ns \<Rightarrow> nftw_entries (nftw k f) path ns c') } }"

definition calculate_checksum_directory :: "'c sha \<Rightarrow> string \<Rightarrow> string list \<Rightarrow> ('w, int \<times> string option) op" where
  "calculate_checksum_directory h path path_exceptions = do {
     ex \<leftarrow> gets (file_exists path);
     if \<not> ex then do { set_errno ENOENT; ret (-1, None) }
     else do {
       k \<leftarrow> gets (\<lambda>s. Suc (height (fs s)));
       c \<leftarrow> nftw k (calculate_checksum_path h path_exceptions) (sha_init h) path;
       ret (0, Some (sha_final h c)) } }"

section \<open>The factory partition\<close>

definition FACTORY_PARTITION_DIR :: string where "FACTORY_PARTITION_DIR = ''/factory''"
definition FACTORY_SUM_FILE :: string where "FACTORY_SUM_FILE = LOGS_DIR @ ''/factory_sum''"

text \<open>
  The old checksum keeps what its memory held where the file has fewer bytes than a checksum;
  \<open>garbage\<close> stands for that memory.
\<close>

definition check_factory_partition_checksum :: "'c sha \<Rightarrow> ('w, unit) rop" where
  "check_factory_partition_checksum h = do {
     isdir \<leftarrow> gets (directory_exists FACTORY_PARTITION_DIR);
     if \<not> isdir then ret ()
     else do {
       (r, checksum) \<leftarrow> calculate_checksum_directory h FACTORY_PARTITION_DIR [''/factory/userdata_footer''];
       (case checksum of
          None \<Rightarrow> ret ()
        | Some chk \<Rightarrow> do {
            ex \<leftarrow> gets (file_exists FACTORY_SUM_FILE);
            if ex then do {
              (_, old) \<leftarrow> read_binary_file (Some FACTORY_SUM_FILE) True CRASHLOG_CHECKSUM_SIZE;
              g \<leftarrow> gets garbage;
              if take CRASHLOG_CHECKSUM_SIZE chk \<noteq> take CRASHLOG_CHECKSUM_SIZE (old @ drop (length old) g) then do {
                key \<leftarrow> generate_event_id (Some ''INFO'') (Some ''FACTORY_SUM'');
                _ \<leftarrow> raise_event key (Some ''INFO'') (Some ''FACTORY_SUM'') None None;
                _ \<leftarrow> write_binary_file (Some FACTORY_SUM_FILE) (Some chk) CRASHLOG_CHECKSUM_SIZE;
                ret () }
              else ret () }
            else do {
              _ \<leftarrow> write_binary_file (Some FACTORY_SUM_FILE) (Some chk) CRASHLOG_CHECKSUM_SIZE;
              ret () } }) } }"

section \<open>Mounted partitions\<close>

text \<open>The static variables of the optional modules.\<close>

record platform = link +
  partition_notified :: int
  need_update :: int
  bar_addr :: "32 word"
  sdcard_write_failure :: bool
  crash_generated :: bool
  sd_path :: string
  coredump_dir_path :: string
  memorize_trap_info :: bool
  vmm_crashfolder :: "string option"
  vmm_key :: "string option"
  vmm_index :: int

type_synonym ('w, 'a) pop = "('w platform_scheme, 'a) state"

definition PROC_MOUNTS :: string where "PROC_MOUNTS = ''/proc/mounts''"

definition mountpoints :: "string list" where
  "mountpoints = [''/system'', ''/cache'', ''/config'', ''/logs'', ''/factory'']"

definition check_mounted_partition :: "string \<Rightarrow> bool" where
  "check_mounted_partition partition_name \<longleftrightarrow> (\<exists>m\<in>set mountpoints. prefix m partition_name)"

text \<open>The conversions of \<open>fscanf\<close> one by one: \<open>%255s\<close>, and \<open>%d\<close> without its value; none at the end of input.\<close>

definition scan_word :: "string \<Rightarrow> (string \<times> string) option" where
  "scan_word s =
     (let t = dropWhile isspace s; v = take 255 (takeWhile (\<lambda>c. \<not> isspace c) t)
      in if t = [] then None else Some (v, drop (length v) t))"

definition scan_skip_int :: "string \<Rightarrow> string option" where
  "scan_skip_int s =
     (let t = dropWhile isspace s;
          u = (if t \<noteq> [] \<and> hd t \<in> {CHR ''-'', CHR ''+''} then tl t else t)
      in if u = [] \<or> \<not> isdigit (hd u) then None else Some (dropWhile isdigit u))"

text \<open>
  One \<open>fscanf\<close> of a line of the mount table. Fields that are not reached keep their values; the device
  is cleared before each call. The result is nothing at the end of the file.
\<close>

record mount_line =
  mount_dev :: string
  mount_dir :: string
  mount_opts :: string

definition scan_ints :: "string \<Rightarrow> string" where
  "scan_ints r =
     (case scan_skip_int r of
        None \<Rightarrow> dropWhile isspace r
      | Some r5 \<Rightarrow> (case scan_skip_int r5 of None \<Rightarrow> dropWhile isspace r5 | Some r6 \<Rightarrow> dropWhile isspace r6))"

definition scan_mount :: "mount_line \<Rightarrow> string \<Rightarrow> (mount_line \<times> string) option" where
  "scan_mount m s =
     (case scan_word s of
        None \<Rightarrow> None
      | Some (dev, r1) \<Rightarrow>
          (case scan_word r1 of
             None \<Rightarrow> Some (m\<lparr>mount_dev := dev\<rparr>, [])
           | Some (dir, r2) \<Rightarrow>
               (case scan_word r2 of
                  None \<Rightarrow> Some (m\<lparr>mount_dev := dev, mount_dir := dir\<rparr>, [])
                | Some (_, r3) \<Rightarrow>
                    (case scan_word r3 of
                       None \<Rightarrow> Some (m\<lparr>mount_dev := dev, mount_dir := dir\<rparr>, [])
                     | Some (opts, r4) \<Rightarrow>
                         Some (m\<lparr>mount_dev := dev, mount_dir := dir, mount_opts := opts\<rparr>, scan_ints r4)))))"

text \<open>
  The loop over the table, with the number of partitions seen, their list in its 256 bytes, and the
  result. Every turn reads at least a byte, so one more turn than bytes is enough.
\<close>

fun mounts_loop :: "nat \<Rightarrow> mount_line \<Rightarrow> string \<Rightarrow> nat \<times> string \<times> int \<Rightarrow> ('w, nat \<times> string \<times> int) dop" where
  "mounts_loop 0 m s acc = ret acc"
| "mounts_loop (Suc k) m s (nb_partition, list_partition, output) =
     (case scan_mount m s of
        None \<Rightarrow> ret (nb_partition, list_partition, output)
      | Some (m', s') \<Rightarrow>
          if contains (mount_dev m') ''by-name'' \<and> check_mounted_partition (mount_dir m') then do {
            let lst = list_partition @ take (255 - length list_partition) (mount_dir m');
            out \<leftarrow> (if prefix ''/logs'' (mount_dir m') \<and> contains (mount_opts m') ''ro,''
                    then notify_partition_error ERROR_LOGS_RO else ret output);
            mounts_loop k m' s' (Suc nb_partition, lst, out) }
          else mounts_loop k m' s' (nb_partition, list_partition, output))"

definition check_mounted_partitions :: "('w, int) pop" where
  "check_mounted_partitions = do {
     notified \<leftarrow> gets partition_notified;
     if notified = 0 then ret 1
     else do {
       fd \<leftarrow> open_read PROC_MOUNTS;
       (case fd of
          None \<Rightarrow> ret 1
        | Some d \<Rightarrow> do {
            g \<leftarrow> gets garbage;
            (nb, lst, out) \<leftarrow> mounts_loop (Suc (length d)) \<lparr>mount_dev = [], mount_dir = g, mount_opts = g\<rparr> d (0, [], 1);
            out' \<leftarrow> (if nb < length mountpoints then
                       notify_partition_error (if \<not> contains lst ''/logs'' then ERROR_LOGS_MISSING else ERROR_PARTITIONS_MISSING)
                     else ret out);
            (if out' = 0 then modify (\<lambda>s. s\<lparr>partition_notified := 0\<rparr>) else ret ());
            ret out' }) } }"

section \<open>One checksum\<close>

lemma streamingD: "streaming h \<Longrightarrow> sha_update h (sha_update h c a) b = sha_update h c (a @ b)"
  by (simp add: streaming_def)

lemma feed_eq: "streaming h \<Longrightarrow> feed h c b = (if b = [] then c else sha_update h c b)"
proof (induction h c b rule: feed.induct)
  case (1 h c b)
  show ?case
  proof (cases "b = []")
    case False
    with 1 have ih: "feed h (sha_update h c (take CRASHLOG_CHECKSUM_SIZE b)) (drop CRASHLOG_CHECKSUM_SIZE b) =
        (if drop CRASHLOG_CHECKSUM_SIZE b = [] then sha_update h c (take CRASHLOG_CHECKSUM_SIZE b)
         else sha_update h (sha_update h c (take CRASHLOG_CHECKSUM_SIZE b)) (drop CRASHLOG_CHECKSUM_SIZE b))" by simp
    have "feed h c b = feed h (sha_update h c (take CRASHLOG_CHECKSUM_SIZE b)) (drop CRASHLOG_CHECKSUM_SIZE b)"
      using False by (subst feed.simps) simp
    then show ?thesis using ih False streamingD [OF "1.prems"] by (auto simp: CRASHLOG_CHECKSUM_SIZE_def)
  qed (simp add: feed.simps)
qed

lemma feed_file_reliable:
  assumes "streaming h" "reliable s" "length rest < n"
  shows "\<exists>k. run_state (feed_file n h c rest) s = (Some (if rest = [] then c else sha_update h c rest), s\<lparr>calls := k\<rparr>)"
  using assms(2,3)
proof (induction n arbitrary: rest c s)
  case (Suc n)
  let ?b = "take CRASHLOG_CHECKSUM_SIZE rest"
  have r: "run_state (read_chunk CRASHLOG_CHECKSUM_SIZE rest) s = (Some ?b, s\<lparr>calls := Suc (calls s)\<rparr>)"
    using Suc.prems(1) by (simp add: read_chunk_def)
  consider "rest = []" | "rest \<noteq> []" "length rest < CRASHLOG_CHECKSUM_SIZE" | "CRASHLOG_CHECKSUM_SIZE \<le> length rest"
    by linarith
  then show ?case
  proof cases
    case 3
    then have l: "length ?b = CRASHLOG_CHECKSUM_SIZE" "rest \<noteq> []" "?b \<noteq> []" by (auto simp: CRASHLOG_CHECKSUM_SIZE_def)
    have len: "length (drop CRASHLOG_CHECKSUM_SIZE rest) < n"
      using Suc.prems(2) 3 by (simp add: CRASHLOG_CHECKSUM_SIZE_def)
    obtain k where k: "run_state (feed_file n h (sha_update h c ?b) (drop CRASHLOG_CHECKSUM_SIZE rest)) (s\<lparr>calls := Suc (calls s)\<rparr>) =
        (Some (if drop CRASHLOG_CHECKSUM_SIZE rest = [] then sha_update h c ?b
               else sha_update h (sha_update h c ?b) (drop CRASHLOG_CHECKSUM_SIZE rest)), s\<lparr>calls := k\<rparr>)"
      using Suc.IH [OF _ len, of "s\<lparr>calls := Suc (calls s)\<rparr>" "sha_update h c ?b"] Suc.prems(1) by auto
    have "(if drop CRASHLOG_CHECKSUM_SIZE rest = [] then sha_update h c ?b
           else sha_update h (sha_update h c ?b) (drop CRASHLOG_CHECKSUM_SIZE rest)) = sha_update h c rest"
      using streamingD [OF assms(1)] by simp
    with k r l show ?thesis by (intro exI [of _ k]) simp
  qed (use r in auto)
qed simp

text \<open>
  C30. One checksum, however it is computed: when no call fails, the checksum of a file with content is
  that of a buffer with its bytes, and both are SHA-1 of the bytes in one piece, although the file is
  read and the buffer fed in pieces of twenty bytes.
\<close>

theorem calculate_checksum_file_buffer:
  assumes "streaming h" "reliable s" "node_at s f = Some (File d)" "d \<noteq> []"
  shows "fst (run_state (calculate_checksum_file h (Some f) True) s) = (0, Some (sha_final h (sha_update h (sha_init h) d))) \<and>
    calculate_checksum_buffer h (Some d) (int (length d)) True = (0, Some (sha_final h (sha_update h (sha_init h) d)))"
proof -
  have o: "run_state (open_read f) s = (Some d, s\<lparr>calls := Suc (calls s)\<rparr>)"
    using assms(2,3) by (simp add: open_read_def)
  obtain k where "run_state (feed_file (Suc (length d)) h (sha_init h) d) (s\<lparr>calls := Suc (calls s)\<rparr>) =
      (Some (sha_update h (sha_init h) d), s\<lparr>calls := k\<rparr>)"
    using feed_file_reliable [OF assms(1), of "s\<lparr>calls := Suc (calls s)\<rparr>" d "Suc (length d)" "sha_init h"] assms(2,4) by auto
  with o show ?thesis
    using assms(4) feed_eq [OF assms(1)]
    by (simp add: calculate_checksum_file_def calculate_checksum_buffer_def del: feed_file.simps)
qed

definition sum_sha :: "string sha" where
  "sum_sha = \<lparr>sha_init = [], sha_update = (\<lambda>c a. c @ a), sha_final = (\<lambda>c. take 20 (rev c))\<rparr>"

theorem calculate_checksum_file_buffer_witness:
  "fst (run_state (calculate_checksum_file sum_sha (Some ''/f'') True) (put ''/f'' (File ''0123456789abcdefghijklmn'') sample_link)) =
    (0, Some ''nmlkjihgfedcba987654'')"
proof -
  have "streaming sum_sha" by (simp add: streaming_def sum_sha_def)
  from calculate_checksum_file_buffer [OF this, of "put ''/f'' (File ''0123456789abcdefghijklmn'') sample_link" "''/f''" "''0123456789abcdefghijklmn''"]
  show ?thesis by (simp add: sum_sha_def)
qed

section \<open>The check of the mounts gives up\<close>

lemma scan_word_sublist: "scan_word s = Some (v, r) \<Longrightarrow> sublist v s \<and> sublist r s"
proof -
  assume a: "scan_word s = Some (v, r)"
  let ?t = "dropWhile isspace s"
  have t: "sublist ?t s" by (simp add: suffix_dropWhile suffix_imp_sublist)
  have "v = take 255 (takeWhile (\<lambda>c. \<not> isspace c) ?t)" "r = drop (length v) ?t"
    using a by (auto simp: scan_word_def Let_def split: if_splits)
  then have "prefix v ?t" "suffix r ?t"
    by (auto simp: suffix_drop intro: prefix_order.trans [OF take_is_prefix takeWhile_is_prefix])
  then show ?thesis using t by (meson prefix_imp_sublist suffix_imp_sublist sublist_order.order.trans)
qed

lemma scan_skip_int_suffix: "scan_skip_int s = Some r \<Longrightarrow> suffix r s"
proof -
  assume a: "scan_skip_int s = Some r"
  let ?t = "dropWhile isspace s"
  have "r = dropWhile isdigit ?t \<or> r = dropWhile isdigit (tl ?t)"
    using a by (auto simp: scan_skip_int_def Let_def split: if_splits)
  then have "suffix r ?t"
    using suffix_order.trans [OF suffix_dropWhile suffix_tl] suffix_dropWhile by metis
  then show ?thesis using suffix_dropWhile suffix_order.trans by blast
qed

lemma scan_ints_suffix: "suffix (scan_ints s) s"
proof -
  have d: "suffix r s \<Longrightarrow> suffix (dropWhile isspace r) s" for r
    using suffix_dropWhile suffix_order.trans by blast
  show ?thesis
  proof (cases "scan_skip_int s")
    case None
    then show ?thesis using d [of s] by (simp add: scan_ints_def)
  next
    case (Some r)
    then have r: "suffix r s" by (rule scan_skip_int_suffix)
    show ?thesis
    proof (cases "scan_skip_int r")
      case None
      then show ?thesis using d [OF r] Some by (simp add: scan_ints_def)
    next
      case (Some q)
      then have "suffix q s" using scan_skip_int_suffix [OF Some] r suffix_order.trans by blast
      from d [OF this] show ?thesis using Some \<open>scan_skip_int s = Some r\<close> by (simp add: scan_ints_def)
    qed
  qed
qed

lemma scan_mount_sublist:
  assumes "scan_mount m s = Some (m', s')"
  shows "sublist (mount_dev m') s \<and> sublist s' s"
proof (cases "scan_word s")
  case (Some w)
  obtain dev r1 where w: "w = (dev, r1)" by (cases w)
  have 1: "sublist dev s" "sublist r1 s" using scan_word_sublist [of s dev r1] Some w by auto
  have dev: "mount_dev m' = dev"
    using assms Some w by (auto simp: scan_mount_def split: option.splits prod.splits)
  have "sublist s' r1"
  proof (cases "s' = []")
    case False
    then obtain dir r2 ty r3 opts r4 where 2: "scan_word r1 = Some (dir, r2)" "scan_word r2 = Some (ty, r3)"
        "scan_word r3 = Some (opts, r4)" "s' = scan_ints r4"
      using assms Some w by (auto simp: scan_mount_def split: option.splits prod.splits)
    have "sublist r2 r1" "sublist r3 r2" "sublist r4 r3" "sublist s' r4"
      using 2 scan_word_sublist scan_ints_suffix suffix_imp_sublist by blast+
    then show ?thesis by (meson sublist_order.order.trans)
  qed simp
  then show ?thesis using dev 1 sublist_order.order.trans by blast
qed (use assms in \<open>simp add: scan_mount_def\<close>)

lemma mounts_loop_none:
  assumes "\<not> contains s ''by-name''"
  shows "run_state (mounts_loop k m s acc) t = (acc, t)"
  using assms
proof (induction k arbitrary: m s)
  case (Suc k)
  obtain nb lst out where acc: "acc = (nb, lst, out)" by (cases acc)
  show ?case
  proof (cases "scan_mount m s")
    case (Some p)
    obtain m' s' where p: "p = (m', s')" by (cases p)
    have "sublist (mount_dev m') s" "sublist s' s" using scan_mount_sublist [of m s m' s'] Some p by auto
    then have "\<not> contains (mount_dev m') ''by-name''" "\<not> contains s' ''by-name''"
      using Suc.prems by (auto simp: contains_sublist dest: sublist_order.order.trans)
    then show ?thesis using Suc.IH Some p acc by simp
  qed (simp add: acc)
qed simp

text \<open>
  The check of the mounts gives up at the wrong time: if partitions are missing before the system
  has booted, when no notification can be sent, the missing notification is noted as sent, and
  every later check reports that all is well without reading the table.
\<close>

theorem check_mounted_partitions_gives_up:
  fixes s :: "'w platform_scheme"
  assumes "reliable s" "partition_notified s \<noteq> 0" "node_at s PROC_MOUNTS = Some (File d)" "\<not> contains d ''by-name''"
    "prop_get s PROP_BOOT_STATUS ''-1'' \<noteq> ''1''"
  shows "fst (run_state check_mounted_partitions s) = 0 \<and>
    effects (snd (run_state check_mounted_partitions s)) = effects s \<and>
    (\<forall>t :: 'w platform_scheme. partition_notified t = partition_notified (snd (run_state check_mounted_partitions s)) \<longrightarrow>
       run_state check_mounted_partitions t = (1, t))"
proof -
  let ?u = "s\<lparr>calls := Suc (calls s)\<rparr>"
  have o: "run_state (open_read PROC_MOUNTS) s = (Some d, ?u)" using assms(1,3) by (simp add: open_read_def)
  have n: "run_state (notify_partition_error e) ?u = (0, ?u)" for e
    using assms(5) by (simp add: notify_partition_error_def prop_get_def)
  have m: "run_state (mounts_loop k x d acc) (t :: 'w platform_scheme) = (acc, t)" for k x acc t
    using assms(4) by (rule mounts_loop_none)
  have "run_state check_mounted_partitions s = (0, ?u\<lparr>partition_notified := 0\<rparr>)"
    using assms(2) o n m by (simp add: check_mounted_partitions_def mountpoints_def del: mounts_loop.simps)
  then show ?thesis by (simp add: check_mounted_partitions_def)
qed

definition sample_platform :: platform where
  "sample_platform = link.extend sample_link (platform.fields 1 1 0 False False [] [] False None None (-1))"

lemma sample_platform_fields [simp]:
  "reliable sample_platform" "partition_notified sample_platform = 1" "need_update sample_platform = 1"
  "props sample_platform = []" "fs sample_platform = fs (sample_world [])" "effects sample_platform = []"
  "fault sample_platform = (\<lambda>_. Works)"
  by (simp_all add: sample_platform_def sample_link_def reliable_def wd_daemon_def runtime.defs watchdog.defs ecc.defs link.defs platform.defs)

theorem check_mounted_partitions_gives_up_witness:
  "fst (run_state check_mounted_partitions (put PROC_MOUNTS (File ''rootfs / rootfs rw 0 0'') sample_platform)) = 0"
  using check_mounted_partitions_gives_up [of "put PROC_MOUNTS (File ''rootfs / rootfs rw 0 0'') sample_platform" "''rootfs / rootfs rw 0 0''"]
  by (simp add: contains_def prop_get_def PROP_BOOT_STATUS_def) (simp add: put_def)

end
