(* ===== verification/Firmware.thy ===== *)
theory Firmware
  imports Partition
begin

text \<open>
  Optional modules of intel_specific/ that report errors of the hardware and its firmware: fabric.c,
  intelfwcrash.c, fw_update.c, modem.c, and the small files spid.c, iptrak.c and last_vmm_log.c.
\<close>

section \<open>Fabric errors\<close>

record fabric_type =
  keyword :: string
  tail_word :: string
  fabric_name :: string

definition fabric :: "string \<Rightarrow> string \<Rightarrow> string \<Rightarrow> fabric_type" where
  "fabric k t n = \<lparr>keyword = k, tail_word = t, fabric_name = n\<rparr>"

definition fabric_types_array :: "fabric_type list" where
  "fabric_types_array =
     [fabric ''DW0:'' ''f501'' ''MEMERR'', fabric ''DW0:'' ''f502'' ''INSTERR'', fabric ''DW0:'' ''f504'' ''SRAMECCERR'',
      fabric ''DW0:'' ''00dd'' ''HWWDTLOGERR'', fabric ''DW3:'' ''0000e101'' ''MEMERR'', fabric ''DW3:'' ''0000e102'' ''INSTERR'',
      fabric ''DW3:'' ''0000e104'' ''SRAMECCERR'', fabric ''DW3:'' ''0000e106'' ''NORTHFUSEERR'',
      fabric ''DW3:'' ''0000e10a'' ''KERNELHANG'', fabric ''DW3:'' ''0000e10b'' ''KERNELWDT'', fabric ''DW3:'' ''0000e10c'' ''SCUWDT'',
      fabric ''DW3:'' ''0000e10d'' ''FABRICXML'', fabric ''DW3:'' ''0000e10e'' ''CHAABIWDT'', fabric ''DW3:'' ''0000e601'' ''PLLLOCKERR'',
      fabric ''DW3:'' ''0000e603'' ''UNDEFL1ERR'', fabric ''DW3:'' ''0000e604'' ''PUNITMBBTIMEOUT'',
      fabric ''DW3:'' ''0000e605'' ''VOLTKERR'', fabric ''DW3:'' ''0000e606'' ''VOLTSAIATKERR'', fabric ''DW3:'' ''0000e607'' ''LPEINTERR'',
      fabric ''DW3:'' ''0000e608'' ''PSHINTERR'', fabric ''DW3:'' ''0000e609'' ''FUSEINTERR'', fabric ''DW3:'' ''0000e60a'' ''IPC2ERR'',
      fabric ''DW3:'' ''0000e60b'' ''KWDTIPCERR'']"

definition fabric_fakes_array :: "fabric_type list" where
  "fabric_fakes_array = [fabric ''DW2:'' ''02608002'' ''FABRIC_FAKE'', fabric ''DW3:'' ''ff222230'' ''FABRIC_FAKE'',
     fabric ''DW3:'' ''0000e103'' ''FABRIC_FAKE'', fabric ''DW11:'' ''ff222230'' ''FABRIC_FAKE'']"

definition fabric_event :: fabric_type where
  "fabric_event = fabric ''DW0:'' ''f506'' ''FIRMWARE''"

definition LOG_FABRICTEMP :: string where "LOG_FABRICTEMP = LOGS_DIR @ ''/fabric_temp''"

definition fabric_found :: "string \<Rightarrow> fabric_type \<Rightarrow> ('w, bool) op" where
  "fabric_found destination ft = do {
     r \<leftarrow> find_str_in_file (Some destination) (Some (keyword ft)) (Some (tail_word ft));
     ret (r > 0) }"

definition fabric_both :: "string \<Rightarrow> nat \<Rightarrow> nat \<Rightarrow> ('w, bool) op" where
  "fabric_both destination i j = do {
     a \<leftarrow> fabric_found destination (fabric_fakes_array ! i);
     if a then fabric_found destination (fabric_fakes_array ! j) else ret False }"

definition fabric_is_fake :: "string \<Rightarrow> ('w, bool) op" where
  "fabric_is_fake destination = do {
     a \<leftarrow> fabric_both destination 0 1;
     if a then ret True else fabric_both destination 2 3 }"

fun first_fabric :: "string \<Rightarrow> fabric_type list \<Rightarrow> ('w, string option) op" where
  "first_fabric destination [] = ret None"
| "first_fabric destination (ft # fts) = do {
     a \<leftarrow> fabric_found destination ft;
     if a then ret (Some (fabric_name ft)) else first_fabric destination fts }"

text \<open>The name of the event and the type of the crash, from the copy of the error.\<close>

definition fabric_kind :: "string \<Rightarrow> ('w, bool \<times> string \<times> string) op" where
  "fabric_kind destination = do {
     fake \<leftarrow> fabric_is_fake destination;
     (event_name, crashtype) \<leftarrow>
       (if fake then ret (''CRASH'', ''FABRIC_FAKE'')
        else do {
          ty \<leftarrow> first_fabric destination fabric_types_array;
          (case ty of
             None \<Rightarrow> ret (''CRASH'', ''FABRICERR'')
           | Some t \<Rightarrow> ret (if contains t ''HANG'' then ''INFO'' else ''CRASH'', t)) });
     info \<leftarrow> fabric_found destination fabric_event;
     ret (fake, if info then (''INFO'', ''FIRMWARE'') else (event_name, crashtype)) }"

text \<open>The result with the reason of the start, to which the suffix of fakes may be added.\<close>

definition crashlog_check_fabric :: "string \<Rightarrow> bool \<Rightarrow> ('w, int \<times> string) rop" where
  "crashlog_check_fabric reason test = do {
     dateshort \<leftarrow> get_current_time_short True;
     src \<leftarrow> gets current_proc_fabric_error_name;
     ex \<leftarrow> gets (file_exists src);
     if \<not> test \<and> \<not> ex then ret (1, reason)
     else do {
       key \<leftarrow> generate_event_id (Some ''CRASH'') (Some []);
       dir \<leftarrow> generate_crashlog_dir MODE_CRASH key;
       let destination = (case dir of None \<Rightarrow> snprintf PATHMAX LOG_FABRICTEMP
                          | Some d \<Rightarrow> snprintf PATHMAX (d @ ''/ipanic_fabric_err_'' @ dateshort @ ''.txt''));
       _ \<leftarrow> do_copy_eof (Some src) (Some destination);
       (fake, event_name, crashtype) \<leftarrow> fabric_kind destination;
       let reason' = (if fake \<and> prefix ''HWWDT_RESET'' reason then reason @ FAKE_EVENT_SUFFIX else reason);
       (case dir of
          Some d \<Rightarrow> do {
            do_wdt_log_copy d;
            do_last_kmsg_copy d;
            _ \<leftarrow> raise_event key (Some event_name) (Some crashtype) None (Some d);
            _ \<leftarrow> get_current_time_long False;
            _ \<leftarrow> process_log_event None None MODE_APLOGS;
            ret (0, reason') }
        | None \<Rightarrow> do {
            _ \<leftarrow> raise_event key (Some event_name) (Some crashtype) None None;
            _ \<leftarrow> get_current_time_long False;
            c_remove LOG_FABRICTEMP;
            ret (0, reason') }) } }"

section \<open>Crashes of the firmware\<close>

definition SSRAM_ATTR_FILE_NAME :: string where "SSRAM_ATTR_FILE_NAME = ''/sys/devices/platform/INT34D2:00/ssrambase''"
definition SSRAM_BAR_MASK :: "32 word" where "SSRAM_BAR_MASK = 0xFFFFFFF0"
definition CRASHLOG_LENGTH :: nat where "CRASHLOG_LENGTH = 5120"

text \<open>\<open>sscanf\<close> with \<open>%x\<close>: the number, or the old value when there is none.\<close>

definition sscanf_x :: "string \<Rightarrow> 32 word \<Rightarrow> 32 word" where
  "sscanf_x s old =
     (case strtoul 16 s of (n, rest, _) \<Rightarrow> if rest = s then old else of_nat n)"

definition get_ssram_base_addr :: "('w, 32 word) pop" where
  "get_ssram_base_addr = do {
     b \<leftarrow> gets bar_addr;
     if b \<noteq> 0 then ret b
     else do {
       (r, buf) \<leftarrow> file_read_string (Some SSRAM_ATTR_FILE_NAME) True;
       if r \<le> 0 then ret 0
       else do {
         let v = (sscanf_x (case buf of Some t \<Rightarrow> t | None \<Rightarrow> []) b) AND SSRAM_BAR_MASK;
         modify (\<lambda>s. s\<lparr>bar_addr := v\<rparr>);
         ret (if v = 0 \<or> v = SSRAM_BAR_MASK then 0 else v) } } }"

text \<open>Words of the crash log, one after the other, as long as they can be read.\<close>

fun read_words :: "32 word list \<Rightarrow> ('w, 32 word list option) op" where
  "read_words [] = ret (Some [])"
| "read_words (a # as) = do {
     r \<leftarrow> read_dev_mem_region (unat a) 4;
     (case r of
        None \<Rightarrow> ret None
      | Some b \<Rightarrow> do {
          rs \<leftarrow> read_words as;
          ret (case rs of None \<Rightarrow> None | Some vs \<Rightarrow> Some (of_nat (le b) # vs)) }) }"

definition crashlog_fields :: "32 word \<Rightarrow> 32 word list" where
  "crashlog_fields base =
     [base + 0x680, base + 0x708, base + 0x718, base + 0x724, base + 0x4, base + 0x28C, base + 0x900,
      base + 0x934, base + 0x934 + 4, base + 0x934 + 8, base + 0x934 + 12]"

text \<open>
  The fields are, in this order: version, reason, global cause and event cause of the power controller,
  version and reason of the power unit, version of the processor's log, and the flags of four cores.
\<close>

definition crashlog_has_error :: "32 word list \<Rightarrow> bool" where
  "crashlog_has_error v \<longleftrightarrow>
     (v ! 0 \<noteq> 0 \<and> (bit (v ! 1) 1 \<and> \<not> bit (v ! 2) 19 \<or> bit (v ! 3) 14)) \<or>
     (v ! 4 \<noteq> 0 \<and> v ! 5 \<noteq> 0) \<or>
     (v ! 6 \<noteq> 0 \<and> (\<exists>c\<in>set (drop 7 v). c \<noteq> 0))"

definition check_fw_crashlog :: "('w, int) pop" where
  "check_fw_crashlog = do {
     ex \<leftarrow> gets (file_exists DEV_MEM_FILE);
     if \<not> ex then ret 0
     else do {
       crashlog_addr \<leftarrow> get_ssram_base_addr;
       if crashlog_addr = 0 then ret 0
       else do {
         v \<leftarrow> read_words (crashlog_fields crashlog_addr);
         (case v of None \<Rightarrow> ret 0 | Some vs \<Rightarrow> ret (if crashlog_has_error vs then 1 else 0)) } } }"

text \<open>\<open>open(p, O_WRONLY | O_CREAT)\<close>: the content of an existing file is kept.\<close>

definition open_create :: "string \<Rightarrow> ('w, bool) op" where
  "open_create p = do {
     n \<leftarrow> gets (\<lambda>s. node_at s p);
     (case n of Some (File _) \<Rightarrow> open_update p | _ \<Rightarrow> open_trunc p) }"

definition do_fw_crashlog_copy :: "string \<Rightarrow> ('w, int) pop" where
  "do_fw_crashlog_copy dir = do {
     ex \<leftarrow> gets (file_exists DEV_MEM_FILE);
     if \<not> ex then ret (-1)
     else do {
       crashlog_addr \<leftarrow> get_ssram_base_addr;
       if crashlog_addr = 0 then ret (-1)
       else do {
         ok \<leftarrow> alloc;
         if \<not> ok then ret (-1)
         else do {
           region \<leftarrow> read_dev_mem_region (unat crashlog_addr) CRASHLOG_LENGTH;
           (case region of
              None \<Rightarrow> ret (-1)
            | Some d \<Rightarrow> do {
                now \<leftarrow> get_current_time_short False;
                let dstfile = snprintf PATHMAX (dir @ ''/fwerr_ssram-dump_'' @ now @ ''.bin'');
                w \<leftarrow> open_create dstfile;
                if \<not> w then ret (-1)
                else do {
                  n \<leftarrow> write_at dstfile 0 d;
                  _ \<leftarrow> chown_log dstfile;
                  ret (if n = -1 then -1 else 0) } }) } } } }"

text \<open>
  A base address that was refused is used: a value that masks to 0xFFFFFFF0 is reported as invalid,
  but it is kept in the static variable, and the next call returns it.
\<close>

theorem ssram_invalid_base_kept:
  assumes "reliable s" "bar_addr s = 0" "node_at s SSRAM_ATTR_FILE_NAME = Some (File d)"
    "scanf [SWord None True] d = ([w], e)" "NUL \<notin> set w" "w \<noteq> []" "sscanf_x w 0 AND SSRAM_BAR_MASK = SSRAM_BAR_MASK"
  shows "fst (run_state get_ssram_base_addr s) = 0 \<and>
    fst (run_state get_ssram_base_addr (snd (run_state get_ssram_base_addr s))) = SSRAM_BAR_MASK"
proof -
  have "run_state (file_read_string (Some SSRAM_ATTR_FILE_NAME) True) s = ((int (length w), Some w), s\<lparr>calls := Suc (Suc (calls s))\<rparr>)"
    using assms by (simp add: file_read_string_def file_exists_def open_read_def del: scanf.simps)
  then have "run_state get_ssram_base_addr s = (0, s\<lparr>calls := Suc (Suc (calls s)), bar_addr := SSRAM_BAR_MASK\<rparr>)"
    using assms(2,6,7) by (simp add: get_ssram_base_addr_def Let_def)
  then show ?thesis by (simp add: get_ssram_base_addr_def SSRAM_BAR_MASK_def)
qed

theorem ssram_invalid_base_kept_witness:
  "fst (run_state get_ssram_base_addr (snd (run_state get_ssram_base_addr
     (put SSRAM_ATTR_FILE_NAME (File ''0xfffffff4'') sample_platform)))) = SSRAM_BAR_MASK"
proof -
  have "strtoul 16 ''0xfffffff4'' = (4294967284, [], False)"
  proof -
    have v: "alnum_val (CHR ''f'') = 15" "alnum_val (CHR ''4'') = 4" by code_simp+
    have "takeWhile (\<lambda>c. alnum_val c < 16) ''fffffff4'' = ''fffffff4''" by (simp add: v)
    moreover have "dropWhile isspace ''0xfffffff4'' = ''0xfffffff4''" by (simp add: isspace_def)
    ultimately show ?thesis by (simp add: strtoul_def Let_def v)
  qed
  then have "sscanf_x ''0xfffffff4'' 0 AND SSRAM_BAR_MASK = SSRAM_BAR_MASK"
    by (simp add: sscanf_x_def SSRAM_BAR_MASK_def)
  moreover have "scanf [SWord None True] ''0xfffffff4'' = ([''0xfffffff4''], False)" by code_simp
  moreover have "bar_addr (put SSRAM_ATTR_FILE_NAME (File ''0xfffffff4'') sample_platform) = 0"
    by (simp add: put_def sample_platform_def platform.defs link.defs)
  ultimately show ?thesis
    using ssram_invalid_base_kept [of "put SSRAM_ATTR_FILE_NAME (File ''0xfffffff4'') sample_platform" "''0xfffffff4''" "''0xfffffff4''" False]
    by simp
qed

section \<open>Updates of the firmware\<close>

definition FW_UPDATE_STATUS_PATH :: string where "FW_UPDATE_STATUS_PATH = ''/sys/firmware/osnib/fw_update_status''"
definition FW_UPDATE_ERROR :: string where "FW_UPDATE_ERROR = ''FW_UPDATE_ERROR_errorevent''"
definition FW_UPDATE_NO_STATUS :: string where "FW_UPDATE_NO_STATUS = ''FW_UPDATE_NO_STATUS''"
definition PREFIX :: string where "PREFIX = ''Failures detected during firmware update:''"

text \<open>The name of the reset source stays empty when \<open>read_resetsource\<close> has none.\<close>

definition edk2_get_fw_update_status :: "('w, int) dop" where
  "edk2_get_fw_update_status = do {
     (r, src) \<leftarrow> read_resetsource;
     if r \<noteq> 0 then ret (-1)
     else if (case src of Some n \<Rightarrow> n | None \<Rightarrow> []) \<noteq> ''RESET_FW_UPDATE'' then ret 0
     else do {
       (r2, v) \<leftarrow> uefi_var ''CapsuleUpdateStatus'';
       if r2 \<noteq> 0 then ret (-1) else ret (to_int32 (int (case v of Some n \<Rightarrow> n | None \<Rightarrow> 0))) } }"

text \<open>Three characters at most; when nothing can be read the buffer keeps what it held.\<close>

definition fdk_get_fw_update_status :: "('w, int) dop" where
  "fdk_get_fw_update_status = do {
     fd \<leftarrow> open_read FW_UPDATE_STATUS_PATH;
     (case fd of
        None \<Rightarrow> ret (-1)
      | Some d \<Rightarrow> do {
          g \<leftarrow> gets garbage;
          let reason = (if d = [] then cstr g else cstr (fst (fgets_line 3 d)));
          (case strtoul 10 reason of
             (v, rest, over) \<Rightarrow>
               if take 1 rest \<noteq> [NL] \<or> over then do {
                 _ \<leftarrow> raise_infoerror ''ERROR'' FW_UPDATE_NO_STATUS;
                 ret (-1) }
               else ret (to_int32 (int v))) }) }"

definition fdk_clear_fw_update_status :: "string \<Rightarrow> string \<Rightarrow> ('w, int \<times> string) op" where
  "fdk_clear_fw_update_status msg_reason msg_status = do {
     ok \<leftarrow> open_update FW_UPDATE_STATUS_PATH;
     if \<not> ok then ret (-1, ''Cannot open sys_fs to clear fw status'')
     else do {
       n \<leftarrow> write_at FW_UPDATE_STATUS_PATH 0 (take 1 (msg_reason @ [NUL]));
       ret (if n = -1 then (-1, ''Cannot write sys_fs to clear fw status'') else (0, msg_status)) } }"

definition fw_status :: "boot_config \<Rightarrow> ('w, int) dop" where
  "fw_status cfg = (case cfg of DEFAULT_BOOT \<Rightarrow> ret (-1) | EFILINUX \<Rightarrow> edk2_get_fw_update_status | FDK \<Rightarrow> fdk_get_fw_update_status)"

definition fw_clear :: "boot_config \<Rightarrow> string \<Rightarrow> string \<Rightarrow> ('w, int \<times> string) op" where
  "fw_clear cfg msg_reason msg_status =
     (if cfg = FDK then fdk_clear_fw_update_status msg_reason msg_status else ret (0, msg_status))"

definition BIT_TO_REASON :: "string list" where
  "BIT_TO_REASON = [''Failed'', ''Capsule format problem'', ''Problem with IAFW'', ''Problem with PDR'', ''Problem with SecFW'']"

definition fw_reasons :: "int \<Rightarrow> string" where
  "fw_reasons status = concat (map (\<lambda>i. if bit status i then take 22 (BIT_TO_REASON ! i) @ '', '' else []) [0..<5])"

definition crashlog_check_fw_update_status :: "boot_config \<Rightarrow> ('w, int) dop" where
  "crashlog_check_fw_update_status cfg =
     (if cfg = DEFAULT_BOOT then ret (-1)
      else do {
        status \<leftarrow> fw_status cfg;
        if status = -1 then ret (-1)
        else if status = 0 then ret 0
        else do {
          let msg_reason = fw_reasons status;
          (r, msg_status) \<leftarrow> fw_clear cfg msg_reason ''Successfully cleared fw status'';
          create_infoevent FW_UPDATE_ERROR (Some PREFIX) (Some msg_reason) (Some msg_status);
          ret r } })"

text \<open>
  With the EFI boot no failed update of the firmware is ever reported: \<open>read_resetsource\<close> answers 1
  when it knows the source of the reset, which its caller takes for an error; so the status is asked
  for only when the name is empty, which is not the name of an update.
\<close>

theorem fw_update_status_never_read:
  "run_state (crashlog_check_fw_update_status EFILINUX) s =
    (case run_state read_resetsource s of ((r, _), t) \<Rightarrow> (if r = 0 then 0 else -1, t))"
proof -
  have "run_state (edk2_get_fw_update_status) s =
      (case run_state read_resetsource s of ((r, _), t) \<Rightarrow> (if r = 0 then 0 else -1, t))"
    by (auto simp: edk2_get_fw_update_status_def read_resetsource_def read_uefi_name_def split: prod.splits)
  then show ?thesis
    by (auto simp: crashlog_check_fw_update_status_def fw_status_def split: prod.splits)
qed

section \<open>Identifiers of the platform\<close>

definition SYS_SPID :: "string list" where
  "SYS_SPID = map (\<lambda>n. ''/sys/spid/'' @ n)
     [''vendor_id'', ''manufacturer_id'', ''customer_id'', ''platform_family_id'', ''product_line_id'', ''hardware_id'']"

text \<open>The first word of a file, in a buffer of five bytes; \<open>XXXX\<close> when there is none.\<close>

definition spid_word :: "string \<Rightarrow> ('w, string) op" where
  "spid_word path = do {
     fd \<leftarrow> open_read path;
     (case fd of
        None \<Rightarrow> ret ''XXXX''
      | Some d \<Rightarrow>
          (case scanf [SWord None True] d of
             ([v], _) \<Rightarrow> do {
               (if length v > 4 then effect (BadWrite ''spid_read_concat'') else ret ());
               ret (cstr v) }
           | _ \<Rightarrow> ret ''XXXX'')) }"

fun spid_concat :: "string list \<Rightarrow> ('w, string) op" where
  "spid_concat [] = ret []"
| "spid_concat (p # ps) = do {
     w \<leftarrow> spid_word p;
     ws \<leftarrow> spid_concat ps;
     ret (''-'' @ take 5 w @ ws) }"

definition read_sys_spid :: "string option \<Rightarrow> ('w, unit) op" where
  "read_sys_spid filename =
     (case filename of
        None \<Rightarrow> ret ()
      | Some f \<Rightarrow> do {
          first \<leftarrow> spid_word (hd SYS_SPID);
          rest \<leftarrow> spid_concat (tl SYS_SPID);
          ok \<leftarrow> open_trunc f;
          (if ok then do { _ \<leftarrow> write_end f (snprintf 256 first @ rest); ret () } else ret ());
          _ \<leftarrow> chown_log f;
          ret () })"

section \<open>The file of versions\<close>

definition IPTRAK_FILE :: string where "IPTRAK_FILE = LOGS_DIR @ ''/iptrak''"

datatype iptrak_gen_policy = ONLY_IF_REQUIRED | FORCE_GENERATION | RETRY_ONCE

definition retrieve_pmic_values :: "string \<times> string" where
  "retrieve_pmic_values = (''unknown'', ''unknown'')"

definition iptrak_line :: "string \<Rightarrow> string \<Rightarrow> string" where
  "iptrak_line name v = name @ ''='' @ v @ [NL]"

definition write_iptrak_file :: "string \<Rightarrow> string \<Rightarrow> string \<Rightarrow> string \<Rightarrow> string \<Rightarrow> string \<Rightarrow> ('w, int) op" where
  "write_iptrak_file ifwi os bkc pmic soc uptime = do {
     ok \<leftarrow> open_trunc IPTRAK_FILE;
     if \<not> ok then ret (-1)
     else do {
       _ \<leftarrow> write_end IPTRAK_FILE (iptrak_line ''IFWI Version'' ifwi @ iptrak_line ''OS Version'' os @ iptrak_line ''BKC Version'' bkc @
              iptrak_line ''PMIC Version'' pmic @ iptrak_line ''SOC Version'' soc @ iptrak_line ''Uptime'' uptime);
       r \<leftarrow> do_chmod IPTRAK_FILE ''640'';
       if r \<noteq> 0 then ret (-1)
       else do {
         r2 \<leftarrow> chown_log IPTRAK_FILE;
         ret (if r2 \<noteq> 0 then -1 else 0) } } }"

text \<open>
  One \<open>fscanf\<close> with the format \<open>%s=%s\<close>: the value, when the literal was reached, and what is left of the
  input. A word takes every character up to the next white space, the equals sign included.
\<close>

definition scan_name_value :: "string \<Rightarrow> string option \<times> string" where
  "scan_name_value s =
     (let t = dropWhile isspace s; r = dropWhile (\<lambda>c. \<not> isspace c) t
      in if t = [] then (None, [])
         else (case r of
                 [] \<Rightarrow> (None, [])
               | c # r' \<Rightarrow>
                   if c \<noteq> CHR ''='' then (None, c # r')
                   else (let u = dropWhile isspace r'
                         in (if u = [] then None else Some (takeWhile (\<lambda>x. \<not> isspace x) u),
                             dropWhile isspace (dropWhile (\<lambda>x. \<not> isspace x) u)))))"

text \<open>The values of so many lines; a value that is not read is unknown. The name has 32 bytes.\<close>

fun scan_values :: "nat \<Rightarrow> string \<Rightarrow> ('w, string list) op" where
  "scan_values 0 s = ret []"
| "scan_values (Suc n) s = do {
     (if length (takeWhile (\<lambda>c. \<not> isspace c) (dropWhile isspace s)) > 31
      then effect (BadWrite ''retrieve_iptrak_properties'') else ret ());
     (case scan_name_value s of
        (v, r) \<Rightarrow> do {
          vs \<leftarrow> scan_values n r;
          ret ((case v of Some x \<Rightarrow> if x = [] then ''unknown'' else x | None \<Rightarrow> ''unknown'') # vs) }) }"

text \<open>The versions of IFWI, OS, BKC, PMIC and SOC that the file has now.\<close>

definition retrieve_iptrak_properties :: "('w, string list) op" where
  "retrieve_iptrak_properties = do {
     fd \<leftarrow> open_read IPTRAK_FILE;
     (case fd of
        None \<Rightarrow> ret (replicate 5 ''unknown'')
      | Some d \<Rightarrow> scan_values 5 d) }"

definition get_total_uptime :: "string \<Rightarrow> ('w, string) dop" where
  "get_total_uptime uptime = do {
     fd \<leftarrow> open_read HISTORY_FILE;
     (case fd of
        None \<Rightarrow> ret uptime
      | Some d \<Rightarrow> do {
          g \<leftarrow> gets garbage;
          let vs = fst (scanf (slit ''#V1.0'' @ [SWs, SWord (Some 16) True, SWord (Some 24) True, SWs]) d);
          let name = (case vs of n # _ \<Rightarrow> n | [] \<Rightarrow> g);
          let last = (case vs of _ # u # _ \<Rightarrow> u | _ \<Rightarrow> ''0000:00:00'');
          (if length last \<ge> 11 then effect (BadWrite ''get_total_uptime'') else ret ());
          ret (if cstr name \<noteq> ''CURRENTUPTIME'' then uptime else take 11 last) }) }"

definition update_iptrak_file :: "('w, int) dop" where
  "update_iptrak_file = do {
     old \<leftarrow> retrieve_iptrak_properties;
     ifwi \<leftarrow> gets (\<lambda>s. prop_get s ''sys.ifwi.version'' (old ! 0));
     os \<leftarrow> gets (\<lambda>s. prop_get s ''ro.build.version.release'' (old ! 1));
     bkc \<leftarrow> gets (\<lambda>s. prop_get s ''ro.build.version.incremental'' (old ! 2));
     soc \<leftarrow> gets (\<lambda>s. prop_get s ''ro.board.platform'' (old ! 4));
     uptime \<leftarrow> get_total_uptime ''0000:00:00'';
     let pmic = snprintf PROPERTY_VALUE_MAX (fst retrieve_pmic_values @ '':'' @ snd retrieve_pmic_values);
     r \<leftarrow> write_iptrak_file ifwi os bkc pmic soc uptime;
     ret (if r < 0 \<or> (\<exists>v\<in>set [ifwi, os, bkc, soc]. prefix ''unknown'' v) then 0 else 1) }"

definition check_iptrak_file :: "iptrak_gen_policy \<Rightarrow> ('w, unit) pop" where
  "check_iptrak_file update = do {
     (if update = FORCE_GENERATION then modify (\<lambda>s. s\<lparr>need_update := 1\<rparr>) else ret ());
     need \<leftarrow> gets need_update;
     if need = 0 then ret ()
     else do {
       success \<leftarrow> update_iptrak_file;
       modify (\<lambda>s. s\<lparr>need_update := (if update = RETRY_ONCE \<and> success = 0 then 1 else 0)\<rparr>) } }"

text \<open>
  The versions in the file are never read back: whatever the file holds, and whichever calls fail,
  every value counts as unknown, since the word before the equals sign ends at white space only.
\<close>

theorem iptrak_never_read_back:
  fixes s :: "'a world_scheme"
  shows "fst (run_state retrieve_iptrak_properties s) = replicate 5 ''unknown''"
proof -
  have "fst (scan_name_value t) = None" for t
  proof (cases "dropWhile (\<lambda>c. \<not> isspace c) (dropWhile isspace t)")
    case (Cons c r)
    then have "isspace c" using hd_dropWhile [of "\<lambda>c. \<not> isspace c" "dropWhile isspace t"] by auto
    then have "c \<noteq> CHR ''=''" by (auto simp: isspace_def)
    then show ?thesis using Cons by (simp add: scan_name_value_def Let_def)
  next
    case Nil
    then show ?thesis by (simp add: scan_name_value_def Let_def del: dropWhile_eq_Nil_conv)
  qed
  then have "fst (run_state (scan_values n t) u) = replicate n ''unknown''" for n t and u :: "'a world_scheme"
    by (induction n arbitrary: t u) (auto split: prod.splits option.splits, (metis fst_conv option.distinct(1))+)
  then show ?thesis
    by (auto simp: retrieve_iptrak_properties_def split: prod.splits option.splits)
qed

section \<open>Aborted dumps of the modem\<close>

definition MCD_PROCESSING :: string where "MCD_PROCESSING = LOGS_DIR @ ''/mcd_processing''"
definition MPANIC_ABORT :: string where "MPANIC_ABORT = ''COREDUMP_ABORTED_BY_PLATFORM_SHUTDOWN''"

definition mcd_file :: "nat \<Rightarrow> string" where
  "mcd_file i = snprintf PATHMAX (MCD_PROCESSING @ ''-'' @ show_nat i)"

text \<open>Compressed dumps are moved; nothing calls this function.\<close>

fun copy_coredumps :: "string list \<Rightarrow> string \<Rightarrow> string \<Rightarrow> ('w, unit) dop" where
  "copy_coredumps [] spath dpath = ret ()"
| "copy_coredumps (n # ns) spath dpath = do {
     (if prefix ''cd'' n \<and> contains n ''.tar.gz'' then do {
        let src = snprintf PATHMAX (spath @ ''/'' @ n);
        _ \<leftarrow> do_copy_tail (Some src) (Some (snprintf PATHMAX (dpath @ ''/'' @ n))) 0;
        c_remove src }
      else ret ());
     copy_coredumps ns spath dpath }"

definition copy_modemcoredump :: "string \<Rightarrow> string \<Rightarrow> ('w, int) dop" where
  "copy_modemcoredump spath dpath = do {
     a \<leftarrow> gets (file_exists spath);
     b \<leftarrow> gets (file_exists dpath);
     if \<not> a \<or> \<not> b then do { set_errno ENOENT; ret (- ENOENT) }
     else do {
       d \<leftarrow> sys_opendir spath;
       (case d of
          None \<Rightarrow> do { e \<leftarrow> gets errno; ret (- e) }
        | Some ns \<Rightarrow> do { copy_coredumps ns spath dpath; ret 0 }) } }"

text \<open>The last modem below \<open>n\<close> that has a mark of a dump under way.\<close>

fun last_marked :: "nat \<Rightarrow> 'w world_scheme \<Rightarrow> nat option" where
  "last_marked 0 s = None"
| "last_marked (Suc i) s = (if file_exists (mcd_file i) s then Some i else last_marked i s)"

fun collect_marked :: "nat \<Rightarrow> bool \<Rightarrow> string \<Rightarrow> string \<Rightarrow> ('w, unit) rop" where
  "collect_marked 0 copied dir tag = ret ()"
| "collect_marked (Suc i) copied dir tag = do {
     ex \<leftarrow> gets (file_exists (mcd_file i));
     (if ex then do {
        mode \<leftarrow> gets cfg_collection_mode_modem;
        (if mode \<noteq> COLLECT_BPLOG_CRASHING_ALL \<or> \<not> copied then do_logs_copy BPLOG_TYPE_OLD (int i) dir (Some tag) MAXFILESIZE else ret ());
        c_remove (mcd_file i) }
      else ret ());
     collect_marked i (copied \<or> ex) dir tag }"

definition crashlog_check_mpanic_abort :: "('w, int) rop" where
  "crashlog_check_mpanic_abort = do {
     n \<leftarrow> gets modem_count;
     m \<leftarrow> gets (last_marked n);
     (case m of
        None \<Rightarrow> ret 0
      | Some i \<Rightarrow> do {
          key \<leftarrow> generate_event_id (Some ''CRASH'') (Some MDMCRASH_EVNAME);
          dir \<leftarrow> generate_crashlog_dir MODE_CRASH key;
          (case dir of
             None \<Rightarrow> do {
               _ \<leftarrow> raise_event key (Some ''CRASH'') (Some MDMCRASH_EVNAME) None None;
               _ \<leftarrow> get_current_time_long False;
               ret (-1) }
           | Some d \<Rightarrow> do {
               dateshort \<leftarrow> get_current_time_short True;
               let tag = snprintf PATHMAX (''_'' @ MDMCRASH_EVNAME @ ''_'' @ dateshort);
               do_log_copy MDMCRASH_EVNAME d dateshort APLOG_TYPE;
               collect_marked (Suc i) False d tag;
               let fullpath = snprintf (PATHMAX - 1) (d @ ''/'' @ MDMCRASH_EVNAME @ ''_crashdata'');
               ok \<leftarrow> open_trunc fullpath;
               (if ok then do {
                  _ \<leftarrow> write_end fullpath (''DATA0='' @ MPANIC_ABORT @ [NL] @ ''_END'' @ [NL]);
                  _ \<leftarrow> chown_log fullpath;
                  ret () }
                else ret ());
               _ \<leftarrow> raise_event key (Some ''CRASH'') (Some MDMCRASH_EVNAME) None (Some d);
               _ \<leftarrow> get_current_time_long False;
               ret 0 }) }) }"

section \<open>The log of the hypervisor\<close>

definition LAST_VMM_LOG_FILE :: string where "LAST_VMM_LOG_FILE = LOGS_DIR @ ''/last_vmm_log''"
definition LAST_VMM_LOG_PROC :: string where "LAST_VMM_LOG_PROC = ''/proc/last_vmm_log''"

definition crashlog_check_last_vmm_log :: "('w, unit) dop" where
  "crashlog_check_last_vmm_log = do {
     c_remove LAST_VMM_LOG_FILE;
     ex \<leftarrow> gets (file_exists LAST_VMM_LOG_PROC);
     (if ex then do { _ \<leftarrow> do_copy_eof (Some LAST_VMM_LOG_PROC) (Some LAST_VMM_LOG_FILE); ret () } else ret ()) }"

end
