(* ===== verification/Vmmtrap.thy ===== *)
theory Vmmtrap
  imports Firmware
begin

text \<open>
  Dumps of the virtual machine monitor (vmmtrap.c), found in a directory of the external card; the
  argument \<open>sofia\<close> tells the build CONFIG_SOFIA from CONFIG_SOFIA_LEGACY. A symbolic link is shown in the
  log of effects as the command that makes it.
\<close>

definition VMM_DUMP_EXTENSION :: string where "VMM_DUMP_EXTENSION = ''.istp''"
definition VMM_DUMP_INFO_EXTENSION :: string where "VMM_DUMP_INFO_EXTENSION = ''.txt''"
definition VMM_DUMP_PATTERN :: string where "VMM_DUMP_PATTERN = ''coredump_''"
definition ISTP_LIMIT :: nat where "ISTP_LIMIT = 200 * (1024 * 1024)"
definition VDUMP_TRAP_INFO_PATH :: string where "VDUMP_TRAP_INFO_PATH = ''/dev/vdump''"
definition TRAP_INFO :: string where "TRAP_INFO = ''trap_info''"
definition TRAP_INFO_FILE :: string where "TRAP_INFO_FILE = LOGS_DIR @ ''/'' @ TRAP_INFO"
definition EXTSDCARD_DIR :: string where "EXTSDCARD_DIR = ''/mnt/media_rw''"

section \<open>The trap information of the last boot\<close>

definition excec_get_command :: "('w, int) op" where
  "excec_get_command = do {
     ex \<leftarrow> gets (file_exists VDUMP_TRAP_INFO_PATH);
     if \<not> ex then ret (- ENOENT)
     else do {
       ok \<leftarrow> open_update VDUMP_TRAP_INFO_PATH;
       if \<not> ok then do { e \<leftarrow> gets errno; ret (- e) }
       else do { _ \<leftarrow> write_at VDUMP_TRAP_INFO_PATH 0 ''get_coredump_prev_boot''; ret 0 } } }"

text \<open>The lines of the device up to its end; the fuel is one more than its bytes.\<close>

fun trap_lines :: "nat \<Rightarrow> string \<Rightarrow> ('w, string \<times> bool) op" where
  "trap_lines 0 rest = ret ([], False)"
| "trap_lines (Suc n) rest = do {
     (r, line, rest') \<leftarrow> freadline rest;
     if r \<le> 0 then ret ([], False)
     else do {
       (ls, found) \<leftarrow> trap_lines n rest';
       ret (cstr line @ ls, contains (cstr line) ''Owner:'' \<or> found) } }"

definition extract_trap_info :: "string \<Rightarrow> ('w, bool) op" where
  "extract_trap_info filename = do {
     ok \<leftarrow> open_trunc filename;
     if \<not> ok then ret False
     else do {
       fd \<leftarrow> open_read VDUMP_TRAP_INFO_PATH;
       (case fd of
          None \<Rightarrow> do { c_remove filename; ret False }
        | Some d \<Rightarrow> do {
            (text, trap_detected) \<leftarrow> trap_lines (Suc (length d)) d;
            _ \<leftarrow> write_end filename text;
            ret trap_detected }) } }"

definition read_trap_info :: "string \<Rightarrow> ('w, bool) op" where
  "read_trap_info filename = do {
     r \<leftarrow> excec_get_command;
     if r < 0 then ret False else extract_trap_info filename }"

section \<open>Copies of dumps\<close>

definition istp_path_of :: "string \<Rightarrow> string option" where
  "istp_path_of cd_path =
     (if contains cd_path VMM_DUMP_INFO_EXTENSION
      then Some (snprintf PATHMAX (take (length cd_path - length VMM_DUMP_INFO_EXTENSION) cd_path @ VMM_DUMP_EXTENSION))
      else if contains cd_path VMM_DUMP_EXTENSION then Some cd_path else None)"

definition handle_istp_file :: "bool \<Rightarrow> string \<Rightarrow> string \<Rightarrow> ('w, unit) dop" where
  "handle_istp_file copy_istp dir cd_path =
     (case istp_path_of cd_path of
        None \<Rightarrow> ret ()
      | Some istp_path \<Rightarrow> do {
          ex \<leftarrow> gets (file_exists istp_path);
          sz \<leftarrow> gets (\<lambda>s. length (content s istp_path));
          if \<not> ex then ret ()
          else (case strrchr istp_path (CHR ''/'') of
                  None \<Rightarrow> effect (BadRead ''handle_istp_file'')
                | Some t \<Rightarrow> do {
                    linked \<leftarrow> (if \<not> copy_istp then ret True
                      else if sz > ISTP_LIMIT then do {
                        _ \<leftarrow> create_empty_file (snprintf PATHMAX (dir @ ''/istp_too_big_'' @ show_nat (sz mod 2 ^ 32 div (1024 * 1024)) @ ''MB''));
                        ret True }
                      else do {
                        _ \<leftarrow> do_copy_tail (Some istp_path) (Some (snprintf PATHMAX (dir @ ''/'' @ tl t))) 0;
                        ret False });
                    (if linked then effect (Command (''ln -s '' @ istp_path @ '' '' @ snprintf PATHMAX (dir @ ''/noupload_'' @ tl t)))
                     else ret ()) }) })"

text \<open>The first event of a boot is a crash, the others are errors.\<close>

definition new_vmm_event :: "string \<Rightarrow> ('w, string \<times> string option \<times> string option) pop" where
  "new_vmm_event ty = do {
     done \<leftarrow> gets crash_generated;
     let event = (if done then ''ERROR'' else ''CRASH'');
     key \<leftarrow> generate_event_id (Some event) (Some ty);
     dir \<leftarrow> generate_crashlog_dir (if done then MODE_STATS else MODE_CRASH) key;
     modify (\<lambda>s. s\<lparr>crash_generated := True\<rparr>);
     ret (event, key, dir) }"

definition vmm_dump_copies :: "bool \<Rightarrow> string \<Rightarrow> string \<Rightarrow> string option \<Rightarrow> string \<Rightarrow> bool \<Rightarrow> bool \<Rightarrow> ('w, unit) rop" where
  "vmm_dump_copies fresh dir ty cd_path name copy_file copy_istp = do {
     (if fresh then do_last_kmsg_copy dir else ret ());
     (case cd_path of
        None \<Rightarrow> ret ()
      | Some p \<Rightarrow> do {
          (if copy_file then do {
             (if fresh then do {
                dateshort \<leftarrow> get_current_time_short True;
                do_log_copy ty dir dateshort APLOG_TYPE }
              else ret ());
             _ \<leftarrow> do_copy_tail (Some p) (Some (snprintf PATHMAX (dir @ ''/'' @ name))) 0;
             ret () }
           else ret ());
          (if contains p EXTSDCARD_DIR then handle_istp_file copy_istp dir p else ret ()) }) }"

section \<open>Events\<close>

definition generate_event_by_type_legacy :: "string \<Rightarrow> string option \<Rightarrow> string \<Rightarrow> bool \<Rightarrow> bool \<Rightarrow> ('w, unit) pop" where
  "generate_event_by_type_legacy ty cd_path name copy_file copy_istp = do {
     (event, key, dir) \<leftarrow> new_vmm_event ty;
     (case dir of None \<Rightarrow> ret () | Some d \<Rightarrow> vmm_dump_copies True d ty cd_path name copy_file copy_istp);
     _ \<leftarrow> raise_event key (Some event) (Some ty) None dir;
     _ \<leftarrow> get_current_time_long False;
     ret () }"

text \<open>
  A dump with the index of the trap that was reported is added to the directory of that event; while
  the trap is being reported its key, directory and index are kept.
\<close>

definition generate_event_by_type :: "string \<Rightarrow> string option \<Rightarrow> string \<Rightarrow> bool \<Rightarrow> bool \<Rightarrow> int \<Rightarrow> ('w, unit) pop" where
  "generate_event_by_type ty cd_path name copy_file copy_istp index_trap = do {
     i \<leftarrow> gets vmm_index;
     if i \<ge> 0 \<and> i = index_trap then do {
       dir \<leftarrow> gets vmm_crashfolder;
       (case dir of None \<Rightarrow> ret () | Some d \<Rightarrow> vmm_dump_copies False d ty cd_path name copy_file copy_istp) }
     else do {
       (event, key, dir) \<leftarrow> new_vmm_event ty;
       (case dir of None \<Rightarrow> ret () | Some d \<Rightarrow> vmm_dump_copies True d ty cd_path name copy_file copy_istp);
       _ \<leftarrow> get_current_time_long True;
       memorize \<leftarrow> gets memorize_trap_info;
       if memorize then do {
         _ \<leftarrow> raise_event_dataready key (Some event) (Some ty) None dir 0;
         modify (\<lambda>s. s\<lparr>vmm_crashfolder := dir, vmm_key := key, vmm_index := index_trap\<rparr>) }
       else do {
         _ \<leftarrow> raise_event key (Some event) (Some ty) None dir;
         ret () } } }"

text \<open>\<open>sscanf\<close> with \<open>coredump_%4d\<close>: at most four characters, the sign included.\<close>

definition scan_coredump_index :: "string \<Rightarrow> int option" where
  "scan_coredump_index name =
     (if \<not> prefix ''coredump_'' name then None
      else let t = take 4 (dropWhile isspace (drop 9 name));
               u = (if t \<noteq> [] \<and> hd t \<in> {CHR ''-'', CHR ''+''} then tl t else t)
           in if u = [] \<or> \<not> isdigit (hd u) then None else Some (strtol10 t))"

definition get_trap_index :: "string \<Rightarrow> string \<Rightarrow> ('w, int) op" where
  "get_trap_index path name =
     (if contains name TRAP_INFO then do {
        (r, v) \<leftarrow> get_value_in_file (Some path) (Some ''Coredump_index:'') True PATHMAX;
        ret (if r \<ge> 0 then atoi (case v of Some x \<Rightarrow> x | None \<Rightarrow> []) else -1) }
      else ret (if contains name ''coredump''
                then (case scan_coredump_index name of Some i \<Rightarrow> i | None \<Rightarrow> -1) else -1))"

definition str_val :: "string option \<Rightarrow> string" where
  "str_val v = (case v of Some x \<Rightarrow> x | None \<Rightarrow> [])"

definition handle_dump_file :: "string \<Rightarrow> string \<Rightarrow> ('w, unit) pop" where
  "handle_dump_file path name = do {
     trap_index \<leftarrow> get_trap_index path name;
     (res, v) \<leftarrow> get_value_in_file (Some path) (Some ''Owner:'') True PATHMAX;
     let owner = str_val v;
     let gen = (\<lambda>ty istp. generate_event_by_type ty (Some path) name True istp trap_index);
     if res < 0 then ret ()
     else if res = 0 then
       (if contains owner ''VMM'' then gen ''VMMTRAP'' False
        else if contains owner ''LINUX'' then do {
          (_, cause) \<leftarrow> get_value_in_file (Some path) (Some ''Cause:'') True PATHMAX;
          if contains (str_val cause) ''Watchdog'' then gen ''SWWDT'' False else gen ''IPANIC'' False }
        else if contains owner ''MODEM'' then gen ''MPANIC'' True
        else if contains owner ''SECURITY'' then gen ''SECPANIC'' False
        else gen ''VMM_UNHANDLED'' False)
     else gen ''VMM_UNHANDLED'' False }"

definition replaced :: "string \<Rightarrow> string \<Rightarrow> string \<Rightarrow> string" where
  "replaced path search rep = snd (str_simple_replace (take (PATHMAX - 1) path) search rep)"

definition standard_check :: "string \<Rightarrow> string \<Rightarrow> ('w, unit) pop" where
  "standard_check coredump_path name =
     (if \<not> prefix VMM_DUMP_PATTERN name \<or> contains name ''status_ok'' then ret ()
      else do {
        let processed_path = replaced coredump_path VMM_DUMP_INFO_EXTENSION ''.inf'';
        ex \<leftarrow> gets (file_exists processed_path);
        if ex then ret ()
        else do {
          let temp_path = replaced coredump_path VMM_DUMP_INFO_EXTENSION ''.tmp'';
          r \<leftarrow> create_empty_file temp_path;
          modify (\<lambda>s. s\<lparr>sdcard_write_failure := (r \<noteq> 0)\<rparr>);
          if r \<noteq> 0 then ret ()
          else do {
            handle_dump_file coredump_path name;
            _ \<leftarrow> sys_rename temp_path processed_path;
            ret () } } })"

definition legacy_check :: "string \<Rightarrow> string \<Rightarrow> ('w, unit) pop" where
  "legacy_check coredump_path name = do {
     let processed_path = replaced coredump_path VMM_DUMP_EXTENSION ''.info'';
     ex \<leftarrow> gets (file_exists processed_path);
     if ex then ret ()
     else do {
       r \<leftarrow> create_empty_file processed_path;
       modify (\<lambda>s. s\<lparr>sdcard_write_failure := (r \<noteq> 0)\<rparr>);
       if r \<noteq> 0 then ret ()
       else generate_event_by_type_legacy ''VMMTRAP'' (Some coredump_path) name False True } }"

section \<open>The directory of dumps\<close>

definition compute_sd_card_path :: "('w, unit) pop" where
  "compute_sd_card_path = do {
     p \<leftarrow> gets cfg_vmmtrap_root_path;
     modify (\<lambda>s. s\<lparr>sd_path := (if p = [] then EXTSDCARD_DIR else take PATHMAX p)\<rparr>) }"

text \<open>The first mount whose directory has the path of the card in it, or the last of the table at its end.\<close>

fun find_mount :: "nat \<Rightarrow> mount_line \<Rightarrow> string \<Rightarrow> string \<Rightarrow> string option" where
  "find_mount 0 m path s = None"
| "find_mount (Suc k) m path s =
     (case scan_mount m s of
        None \<Rightarrow> if contains (mount_dir m) path then Some (mount_dir m) else None
      | Some (m', s') \<Rightarrow> if contains (mount_dir m') path then Some (mount_dir m') else find_mount k m' path s')"

definition update_sd_path :: "('w, unit) pop" where
  "update_sd_path = do {
     fd \<leftarrow> open_read PROC_MOUNTS;
     (case fd of
        None \<Rightarrow> ret ()
      | Some d \<Rightarrow> do {
          g \<leftarrow> gets garbage;
          sd \<leftarrow> gets sd_path;
          (case find_mount (Suc (length d)) \<lparr>mount_dev = [], mount_dir = g, mount_opts = g\<rparr> sd d of
             None \<Rightarrow> ret ()
           | Some dir \<Rightarrow> modify (\<lambda>s. s\<lparr>coredump_dir_path := snprintf PATHMAX (dir @ ''/Coredump'')\<rparr>)) }) }"

definition notify_dataready_on_vmtrap :: "('w, unit) pop" where
  "notify_dataready_on_vmtrap = do {
     k \<leftarrow> gets vmm_key;
     (case k of
        None \<Rightarrow> ret ()
      | Some key \<Rightarrow> do {
          _ \<leftarrow> run_command (snprintf (PATHMAX - 1) (''am broadcast -n com.intel.crashreport/.specific.NotificationReceiver '' @
            ''-a com.intel.crashreport.intent.CRASH_LOGS_COPY_FINISHED -c android.intent.category.ALTERNATIVE '' @
            ''--es com.intel.crashreport.extra.EVENT_ID '' @ key)) 30;
          ret () });
     modify (\<lambda>s. s\<lparr>vmm_crashfolder := None, vmm_key := None\<rparr>) }"

definition regular_files :: "string \<Rightarrow> string list \<Rightarrow> 'w world_scheme \<Rightarrow> string list" where
  "regular_files dir names s = filter (\<lambda>n. is_file_at (fs s) (comps dir @ [n])) names"

fun check_dumps :: "bool \<Rightarrow> string \<Rightarrow> string list \<Rightarrow> ('w, unit) pop" where
  "check_dumps sofia dir [] = ret ()"
| "check_dumps sofia dir (n # ns) =
     (case strrchr n (CHR ''.'') of
        None \<Rightarrow> check_dumps sofia dir ns
      | Some ext \<Rightarrow> do {
          let path = snprintf PATHMAX (dir @ ''/'' @ n);
          (if sofia \<and> ext = VMM_DUMP_INFO_EXTENSION then standard_check path n
           else if \<not> sofia \<and> ext = VMM_DUMP_EXTENSION then legacy_check path n
           else ret ());
          failed \<leftarrow> gets sdcard_write_failure;
          if failed then do {
            key \<leftarrow> generate_event_id (Some ''ERROR'') (Some ''SDCARD_FULL'');
            _ \<leftarrow> raise_event key (Some ''ERROR'') (Some ''SDCARD_FULL'') None None;
            _ \<leftarrow> get_current_time_long False;
            ret () }
          else check_dumps sofia dir ns })"

fun clean_dumps :: "string \<Rightarrow> string list \<Rightarrow> ('w, unit) op" where
  "clean_dumps dir [] = ret ()"
| "clean_dumps dir (n # ns) = do {
     (if strrchr n (CHR ''.'') = Some VMM_DUMP_EXTENSION
      then do { _ \<leftarrow> sys_unlink (snprintf PATHMAX (dir @ ''/'' @ n)); ret () } else ret ());
     clean_dumps dir ns }"

definition crashlog_check_vmm :: "bool \<Rightarrow> ('w, unit) pop" where
  "crashlog_check_vmm sofia = do {
     dir \<leftarrow> gets coredump_dir_path;
     ex \<leftarrow> gets (file_exists dir);
     if \<not> ex then ret ()
     else do {
       names \<leftarrow> sys_opendir dir;
       (case names of
          None \<Rightarrow> ret ()
        | Some ns \<Rightarrow> do {
            files \<leftarrow> gets (regular_files dir ns);
            check_dumps sofia dir files;
            (if sofia then notify_dataready_on_vmtrap else ret ());
            prop \<leftarrow> gets (\<lambda>s. prop_get s ''persist.vendor.crashlogd.istp_clean'' []);
            (if take 1 prop \<noteq> ''1'' then ret ()
             else do {
               files2 \<leftarrow> gets (\<lambda>s. regular_files dir (children (fs s) (comps dir)) s);
               clean_dumps dir files2 }) }) } }"

definition check_external_sdcard_mounted :: "('w, int) pop" where
  "check_external_sdcard_mounted = do {
     sd \<leftarrow> gets sd_path;
     r \<leftarrow> find_str_in_standard_file (Some PROC_MOUNTS) (Some sd) None;
     if r \<noteq> 0 then do { update_sd_path; ret 1 } else ret 0 }"

text \<open>
  The thread that waits for the card: the argument lists the mount tables that the kernel shows, one
  after the other, each announced to the \<open>select\<close> the thread sleeps in.
\<close>

fun sdcard_changes :: "bool \<Rightarrow> string list \<Rightarrow> ('w, unit) pop" where
  "sdcard_changes sofia [] = ret ()"
| "sdcard_changes sofia (t # ts) = do {
     modify (put PROC_MOUNTS (File t));
     m \<leftarrow> check_external_sdcard_mounted;
     if m \<noteq> 0 then crashlog_check_vmm sofia else sdcard_changes sofia ts }"

definition external_sdcard_monitor_mainloop :: "bool \<Rightarrow> string list \<Rightarrow> ('w, unit) pop" where
  "external_sdcard_monitor_mainloop sofia changes = do {
     m \<leftarrow> check_external_sdcard_mounted;
     if m \<noteq> 0 then crashlog_check_vmm sofia
     else do {
       _ \<leftarrow> open_read PROC_MOUNTS;
       sdcard_changes sofia changes } }"

text \<open>The text about the watchdog is replaced when a crash was found; the thread, when needed, runs at its creation.\<close>

definition crashlog_check_vmmtrap :: "bool \<Rightarrow> string list \<Rightarrow> bool \<Rightarrow> string \<Rightarrow> ('w, string) pop" where
  "crashlog_check_vmmtrap sofia changes panic_found watchdog = do {
     compute_sd_card_path;
     modify (\<lambda>s. s\<lparr>crash_generated := panic_found\<rparr>);
     (if sofia then do {
        c_remove TRAP_INFO_FILE;
        found \<leftarrow> read_trap_info TRAP_INFO_FILE;
        if found then do {
          modify (\<lambda>s. s\<lparr>memorize_trap_info := True\<rparr>);
          handle_dump_file TRAP_INFO_FILE TRAP_INFO;
          modify (\<lambda>s. s\<lparr>memorize_trap_info := False\<rparr>) }
        else ret () }
      else ret ());
     crash \<leftarrow> gets crash_generated;
     m \<leftarrow> check_external_sdcard_mounted;
     (if m \<noteq> 0 then crashlog_check_vmm sofia
      else do {
        f \<leftarrow> syscall;
        (case f of Fails _ \<Rightarrow> ret () | _ \<Rightarrow> external_sdcard_monitor_mainloop sofia changes) });
     ret (if crash then ''WDT'' else watchdog) }"

section \<open>A dump without an owner\<close>

lemma get_value_absent:
  assumes "reliable s" "node_at s path = Some (File d)" "\<forall>b\<in>set (map cstr (fgets_lines MAXLINESIZE d)). \<not> contains b k"
  shows "run_state (get_value_in_file (Some path) (Some k) True PATHMAX) s = ((-1, None), s\<lparr>calls := Suc (calls s)\<rparr>)"
proof -
  have "find (\<lambda>b. contains b k) (map cstr (fgets_lines MAXLINESIZE d)) = None"
    using assms(3) by (auto simp: find_None_iff)
  then show ?thesis
    using assms(1,2) by (simp add: get_value_in_file_def file_exists_def open_read_def PATHMAX_def)
qed

text \<open>
  A dump that names no owner is dropped: \<open>get_value_in_file\<close> answers -1 when the keyword is not
  found, which \<open>handle_dump_file\<close> takes for an unreadable file, so the event for unknown owners is
  never raised. Nothing is written and nothing but the index of the trap is read.
\<close>

theorem dump_without_owner_dropped:
  assumes "reliable s" "node_at s path = Some (File d)" "\<not> contains name TRAP_INFO"
    "\<forall>b\<in>set (map cstr (fgets_lines MAXLINESIZE d)). \<not> contains b ''Owner:''"
  shows "run_state (handle_dump_file path name) s = ((), s\<lparr>calls := Suc (calls s)\<rparr>)"
  using assms get_value_absent [of s path d "''Owner:''"]
  by (simp add: handle_dump_file_def get_trap_index_def Let_def)

theorem dump_without_owner_dropped_witness:
  "run_state (handle_dump_file ''/d'' ''coredump_0001.txt'') (put ''/d'' (File (''Cause: x'' @ [NL])) sample_platform) =
    ((), (put ''/d'' (File (''Cause: x'' @ [NL])) sample_platform)\<lparr>calls := Suc (calls sample_platform)\<rparr>)"
proof -
  have f: "fgets_lines MAXLINESIZE (''Cause: x'' @ [NL]) = [''Cause: x'' @ [NL]]"
    by (rule fgets_lines_one) (simp_all add: MAXLINESIZE_def)
  show ?thesis
    using dump_without_owner_dropped [of "put ''/d'' (File (''Cause: x'' @ [NL])) sample_platform" "''/d''" "''Cause: x'' @ [NL]" "''coredump_0001.txt''"]
    using f by (simp add: contains_def TRAP_INFO_def cstr_def)
qed

end
