(* ===== verification/Lw_Items.thy ===== *)
theory Lw_Items
  imports Posix "HOL-Library.Word"
begin

text \<open>
  The data of log-watch: times (TimeVal.cpp), items of a log (LogItem.cpp), patterns
  (ItemPattern.cpp) and records of items (EventRecord.cpp). The regular expressions of the C library
  are a parameter: which patterns compile, and for a pattern and a text the offsets of the match and
  of its groups, -1 for a group that takes no part. A time keeps \<open>long\<close> values as integers: kernel
  times are below 2^45 seconds. What an operation cannot return from is a value of \<open>failure\<close>.
\<close>

datatype failure = Out_of_range | Never_returns | Empty_front | Null_string

section \<open>Times\<close>

datatype timeval = TimeVal (sec: int) (usec: int)

definition USEC_IN_SEC :: int where "USEC_IN_SEC = 1000000"

function carry :: "timeval \<Rightarrow> timeval" where
  "carry (TimeVal s u) = (if u \<ge> USEC_IN_SEC then carry (TimeVal (s + 1) (u - USEC_IN_SEC)) else TimeVal s u)"
  by pat_completeness auto
termination
  by (relation "measure (\<lambda>t. nat (usec t))") (auto simp: USEC_IN_SEC_def)

function borrow :: "timeval \<Rightarrow> timeval" where
  "borrow (TimeVal s u) = (if u < 0 then borrow (TimeVal (s - 1) (u + USEC_IN_SEC)) else TimeVal s u)"
  by pat_completeness auto
termination
  by (relation "measure (\<lambda>t. nat (- usec t))") (auto simp: USEC_IN_SEC_def)

declare carry.simps [simp del] borrow.simps [simp del]

definition redist :: "timeval \<Rightarrow> timeval" where
  "redist t = borrow (carry t)"

definition mk_timeval :: "int \<Rightarrow> int \<Rightarrow> timeval" where
  "mk_timeval s us = redist (TimeVal s us)"

definition tv_add :: "timeval \<Rightarrow> int \<Rightarrow> int \<Rightarrow> timeval" where
  "tv_add t s us = redist (TimeVal (sec t + s) (usec t + us))"

definition tv_plus :: "timeval \<Rightarrow> timeval \<Rightarrow> timeval" where
  "tv_plus t p = redist (tv_add (mk_timeval (sec t) (usec t)) (sec p) (usec p))"

definition tv_minus :: "timeval \<Rightarrow> timeval \<Rightarrow> timeval" where
  "tv_minus t p = redist (tv_add (mk_timeval (sec t) (usec t)) (- sec p) (- usec p))"

instantiation timeval :: linorder
begin

definition less_timeval :: "timeval \<Rightarrow> timeval \<Rightarrow> bool" where
  "less_timeval t p \<longleftrightarrow> (if sec t < sec p then True else if sec t = sec p then usec t < usec p else False)"

definition less_eq_timeval :: "timeval \<Rightarrow> timeval \<Rightarrow> bool" where
  "less_eq_timeval t p \<longleftrightarrow> t < p \<or> t = p"

instance
proof
  fix x y z :: timeval
  show "x < y \<longleftrightarrow> x \<le> y \<and> \<not> y \<le> x"
    by (auto simp: less_timeval_def less_eq_timeval_def split: if_splits)
  show "x \<le> x" by (simp add: less_eq_timeval_def)
  show "x \<le> y \<Longrightarrow> y \<le> z \<Longrightarrow> x \<le> z"
    by (auto simp: less_timeval_def less_eq_timeval_def split: if_splits)
  show "x \<le> y \<Longrightarrow> y \<le> x \<Longrightarrow> x = y"
    by (auto simp: less_timeval_def less_eq_timeval_def split: if_splits)
  show "x \<le> y \<or> y \<le> x"
    by (cases x; cases y) (auto simp: less_timeval_def less_eq_timeval_def split: if_splits)
qed

end

text \<open>The microseconds of a time, and times in normal form.\<close>

definition tv_us :: "timeval \<Rightarrow> int" where
  "tv_us t = sec t * USEC_IN_SEC + usec t"

definition normal_time :: "timeval \<Rightarrow> bool" where
  "normal_time t \<longleftrightarrow> 0 \<le> usec t \<and> usec t < USEC_IN_SEC"

lemma carry_us [simp]: "tv_us (carry t) = tv_us t"
  by (induction t rule: carry.induct) (subst carry.simps, simp add: tv_us_def algebra_simps)

lemma borrow_us [simp]: "tv_us (borrow t) = tv_us t"
  by (induction t rule: borrow.induct) (subst borrow.simps, simp add: tv_us_def algebra_simps)

lemma carry_below: "usec (carry t) < USEC_IN_SEC"
  by (induction t rule: carry.induct) (subst carry.simps, simp)

lemma borrow_normal: "usec t < USEC_IN_SEC \<Longrightarrow> normal_time (borrow t)"
  by (induction t rule: borrow.induct) (subst borrow.simps, simp add: normal_time_def)

lemma redist_us [simp]: "tv_us (redist t) = tv_us t"
  by (simp add: redist_def)

lemma redist_normal [simp]: "normal_time (redist t)"
  by (simp add: redist_def borrow_normal carry_below)

lemma normal_time_eq: "normal_time t \<Longrightarrow> t = TimeVal (tv_us t div USEC_IN_SEC) (tv_us t mod USEC_IN_SEC)"
  by (cases t) (simp add: normal_time_def tv_us_def USEC_IN_SEC_def)

lemma redist_div_mod:
  "redist t = TimeVal (tv_us t div USEC_IN_SEC) (tv_us t mod USEC_IN_SEC)"
  using normal_time_eq [OF redist_normal, of t] by simp

lemma mk_timeval_us [simp]: "tv_us (mk_timeval s us) = s * USEC_IN_SEC + us"
  by (simp add: mk_timeval_def) (simp add: tv_us_def)

lemma mk_timeval_normal [simp]: "normal_time (mk_timeval s us)"
  by (simp add: mk_timeval_def)

lemma tv_add_us [simp]: "tv_us (tv_add t s us) = tv_us t + s * USEC_IN_SEC + us"
  by (simp add: tv_add_def) (simp add: tv_us_def algebra_simps)

lemma tv_plus_us [simp]: "tv_us (tv_plus t p) = tv_us t + tv_us p"
  by (simp add: tv_plus_def) (simp add: tv_us_def)

lemma tv_minus_us [simp]: "tv_us (tv_minus t p) = tv_us t - tv_us p"
  by (simp add: tv_minus_def) (simp add: tv_us_def)

lemma tv_plus_normal [simp]: "normal_time (tv_plus t p)" "normal_time (tv_minus t p)"
  by (simp_all add: tv_plus_def tv_minus_def)

lemma normal_less: "normal_time t \<Longrightarrow> normal_time p \<Longrightarrow> t < p \<longleftrightarrow> tv_us t < tv_us p"
  by (cases t; cases p) (auto simp: normal_time_def tv_us_def less_timeval_def USEC_IN_SEC_def)

lemma normal_less_eq: "normal_time t \<Longrightarrow> normal_time p \<Longrightarrow> t \<le> p \<longleftrightarrow> tv_us t \<le> tv_us p"
  by (simp add: normal_less linorder_not_less [symmetric])

section \<open>Items of a log\<close>

record log_item =
  prio :: nat
  timestamp :: timeval
  msg :: string
  eof :: bool
  is_empty :: bool

definition new_item :: log_item where
  "new_item = \<lparr>prio = 0, timestamp = mk_timeval 0 0, msg = '''', eof = False, is_empty = False\<rparr>"

definition eof_item :: log_item where
  "eof_item = new_item\<lparr>eof := True\<rparr>"

lemma new_item_fields [simp]: "eof eof_item" "\<not> eof new_item" "timestamp eof_item = mk_timeval 0 0"
  by (simp_all add: eof_item_def new_item_def)

section \<open>Patterns\<close>

record regex =
  compiles :: "string \<Rightarrow> bool"
  groups :: "string \<Rightarrow> string \<Rightarrow> (int \<times> int) list option"

text \<open>\<open>regexec\<close> fills an array of the given length; what has no group gets -1.\<close>

definition regexec :: "regex \<Rightarrow> string \<Rightarrow> string \<Rightarrow> nat \<Rightarrow> (int \<times> int) list option" where
  "regexec rx p s n = map_option (\<lambda>g. take n (g @ replicate (n - length g) (-1, -1))) (groups rx p s)"

record item_pattern =
  pattern :: string
  match_count :: nat
  pmatches :: "(int \<times> int) list"
  last_error :: bool
  last_string :: string

fun count_open :: "char \<Rightarrow> string \<Rightarrow> nat" where
  "count_open p [] = 0"
| "count_open p (c # s) = (if c = CHR ''('' \<and> p \<noteq> CHR 0x5C then 1 else 0) + count_open c s"

definition countCaptures :: "string \<Rightarrow> nat" where
  "countCaptures p = (case p of [] \<Rightarrow> 1 | c # s \<Rightarrow> (if c = CHR ''('' then 2 else 1) + count_open c s)"

definition new_pattern :: "regex \<Rightarrow> string \<Rightarrow> item_pattern" where
  "new_pattern rx p =
    (if \<not> compiles rx p
     then \<lparr>pattern = p, match_count = 0, pmatches = [], last_error = True, last_string = ''''\<rparr>
     else \<lparr>pattern = p, match_count = countCaptures p, pmatches = [], last_error = False, last_string = ''''\<rparr>)"

definition pattern_valid :: "item_pattern \<Rightarrow> bool" where
  "pattern_valid p \<longleftrightarrow> match_count p > 0"

definition check_pattern :: "regex \<Rightarrow> item_pattern \<Rightarrow> string \<Rightarrow> bool \<times> item_pattern" where
  "check_pattern rx p s =
    (case regexec rx (pattern p) s (match_count p) of
       None \<Rightarrow> (False, p\<lparr>last_error := True\<rparr>)
     | Some m \<Rightarrow> (True, p\<lparr>last_error := False, pmatches := m, last_string := s\<rparr>))"

text \<open>\<open>std::string::substr\<close> throws when the position is past the end; -1 as \<open>size_t\<close> is.\<close>

definition substr :: "string \<Rightarrow> int \<Rightarrow> int \<Rightarrow> failure + string" where
  "substr s pos n = (if pos < 0 \<or> pos > int (length s) then Inl Out_of_range
                     else Inr (if n < 0 then drop (nat pos) s else take (nat n) (drop (nat pos) s)))"

fun sub_matches :: "string \<Rightarrow> (int \<times> int) list \<Rightarrow> failure + string list" where
  "sub_matches s [] = Inr []"
| "sub_matches s ((so, eo) # m) =
    (case substr s so (eo - so) of
       Inl e \<Rightarrow> Inl e
     | Inr x \<Rightarrow> (case sub_matches s m of Inl e \<Rightarrow> Inl e | Inr xs \<Rightarrow> Inr (x # xs)))"

definition getLastMatches :: "item_pattern \<Rightarrow> failure + string list" where
  "getLastMatches p = (if last_error p \<or> last_string p = '''' then Inr [] else sub_matches (last_string p) (pmatches p))"

text \<open>
  A pattern has no group that is left out when the offsets of every match lie in the text and there
  are as many of them as the count of parentheses says.
\<close>

definition full_groups :: "regex \<Rightarrow> string \<Rightarrow> bool" where
  "full_groups rx p \<longleftrightarrow> (\<forall>s g. groups rx p s = Some g \<longrightarrow>
     countCaptures p \<le> length g \<and> (\<forall>(so, eo) \<in> set g. 0 \<le> so \<and> so \<le> eo \<and> eo \<le> int (length s)))"

lemma sub_matches_in_range:
  "\<forall>(so, eo) \<in> set m. 0 \<le> so \<and> so \<le> eo \<and> eo \<le> int (length s) \<Longrightarrow>
   sub_matches s m = Inr (map (\<lambda>(so, eo). take (nat (eo - so)) (drop (nat so) s)) m)"
  by (induction s m rule: sub_matches.induct) (auto simp: substr_def)

lemma sub_matches_throws:
  "(so, eo) \<in> set m \<Longrightarrow> so < 0 \<Longrightarrow> sub_matches s m = Inl Out_of_range"
proof (induction m)
  case (Cons a m)
  obtain so' eo' where a: "a = (so', eo')" by (cases a)
  show ?case
  proof (cases "substr s so' (eo' - so')")
    case (Inl e)
    then show ?thesis by (simp add: a substr_def split: if_splits)
  next
    case (Inr x)
    then have "(so, eo) \<in> set m" using Cons.prems a by (auto simp: substr_def split: if_splits)
    then show ?thesis using Cons.IH Cons.prems Inr by (simp add: a)
  qed
qed simp

lemma check_pattern_fields [simp]:
  "pattern (snd (check_pattern rx p s)) = pattern p"
  "match_count (snd (check_pattern rx p s)) = match_count p"
  by (simp_all add: check_pattern_def split: option.split)

section \<open>Records of items\<close>

record event_record =
  items :: "log_item list"
  captures :: "string list"
  valid :: bool

definition new_record :: event_record where
  "new_record = \<lparr>items = [], captures = [], valid = False\<rparr>"

definition addItem :: "log_item \<Rightarrow> event_record \<Rightarrow> event_record" where
  "addItem li r = r\<lparr>items := items r @ [li]\<rparr>"

definition rec_time :: "event_record \<Rightarrow> timeval" where
  "rec_time r = (case items r of [] \<Rightarrow> mk_timeval 0 0 | li # _ \<Rightarrow> timestamp li)"

definition itemCount :: "event_record \<Rightarrow> nat" where
  "itemCount r = length (items r)"

end
