(* ===== verification/Lw_Format.thy ===== *)
theory Lw_Format
  imports Lw_Items
begin

text \<open>
  Texts built from a format and the captures of a pattern (DataFormat.cpp). Both loops search the whole
  text again after each replacement; a loop that does not end is the value \<open>None\<close>. The two regular
  expressions are fixed, a percent sign followed by the longest run of letters or of digits, so their
  matching is written out. A key the code inserts in the map by looking it up holds the empty text,
  which is treated as a missing one; the model leaves it out.
\<close>

abbreviation PC :: char where "PC \<equiv> CHR 0x25"

section \<open>The loops\<close>

fun split_escape :: "(char \<Rightarrow> bool) \<Rightarrow> string \<Rightarrow> (string \<times> string \<times> string) option" where
  "split_escape P [] = None"
| "split_escape P (c # s) =
    (if c = PC \<and> s \<noteq> [] \<and> P (hd s) then Some ([], takeWhile P s, dropWhile P s)
     else map_option (\<lambda>(b, k, a). (c # b, k, a)) (split_escape P s))"

partial_function (option) replace_loop :: "(char \<Rightarrow> bool) \<Rightarrow> (string \<Rightarrow> string) \<Rightarrow> string \<Rightarrow> string option" where
  "replace_loop key f str =
    (case split_escape key str of
       None \<Rightarrow> Some str
     | Some (b, k, a) \<Rightarrow> replace_loop key f (b @ f k @ a))"

record data_format =
  source :: string
  h_map :: "char \<Rightarrow> string option"
  df_captures :: "string list"
  repeat :: bool

definition new_format :: "string \<Rightarrow> bool \<Rightarrow> data_format" where
  "new_format str rep = \<lparr>source = str, h_map = (\<lambda>_. None), df_captures = [], repeat = rep\<rparr>"

definition setMap :: "char \<Rightarrow> string \<Rightarrow> data_format \<Rightarrow> data_format" where
  "setMap key str d = d\<lparr>h_map := (h_map d)(key \<mapsto> str)\<rparr>"

definition setCaptures :: "string list \<Rightarrow> data_format \<Rightarrow> data_format" where
  "setCaptures cap d = d\<lparr>df_captures := cap\<rparr>"

definition map_value :: "data_format \<Rightarrow> string \<Rightarrow> string" where
  "map_value d k = (case h_map d (hd k) of Some v \<Rightarrow> if v = '''' then ''-?-'' else v | None \<Rightarrow> ''-?-'')"

definition formatMap :: "data_format \<Rightarrow> string \<Rightarrow> string option" where
  "formatMap d str = replace_loop isalpha (map_value d) str"

text \<open>\<open>atoi\<close> of digits: \<open>strtol\<close> stops at the greatest \<open>long\<close>, which is -1 as an \<open>int\<close>.\<close>

definition atoi_digits :: "string \<Rightarrow> int" where
  "atoi_digits k = to_int32 (min (strtol10 k) (2 ^ 63 - 1))"

definition cap_value :: "string list \<Rightarrow> string \<Rightarrow> string" where
  "cap_value cap k =
    (let i = atoi_digits k in if i \<ge> 0 \<and> i < int (length cap) then cap ! nat i else ''-?-'')"

definition formatCap :: "data_format \<Rightarrow> string \<Rightarrow> string option" where
  "formatCap d str = replace_loop isdigit (cap_value (df_captures d)) str"

text \<open>The map given to \<open>format\<close> is always the default, an empty one, which changes nothing.\<close>

definition format :: "string list \<Rightarrow> data_format \<Rightarrow> string option \<times> data_format" where
  "format cap d =
    (let d = (if cap \<noteq> [] then setCaptures cap d else d)
     in (case formatMap d (source d) of None \<Rightarrow> None | Some t \<Rightarrow> formatCap d t, d))"

section \<open>When the loops end\<close>

lemma split_escape_SomeD:
  "split_escape P s = Some (b, k, a) \<Longrightarrow>
   s = b @ PC # k @ a \<and> k \<noteq> [] \<and> (\<forall>c \<in> set k. P c) \<and> (a = [] \<or> \<not> P (hd a))"
proof (induction s arbitrary: b)
  case (Cons c s)
  show ?case
  proof (cases "c = PC \<and> s \<noteq> [] \<and> P (hd s)")
    case True
    then have "takeWhile P s \<noteq> []" by (cases s) auto
    with True Cons.prems show ?thesis
      by (auto dest: set_takeWhileD simp: hd_dropWhile)
  next
    case False
    with Cons show ?thesis by (auto split: if_splits)
  qed
qed simp

lemma split_escape_no_percent: "PC \<notin> set s \<Longrightarrow> split_escape P s = None"
  by (induction s) auto

lemma count_step:
  assumes "split_escape P s = Some (b, k, a)" "PC \<notin> set (f k)" "\<not> P PC"
  shows "count_list s PC = Suc (count_list (b @ f k @ a) PC)"
proof -
  have "PC \<notin> set k" using split_escape_SomeD [OF assms(1)] assms(3) by auto
  with assms show ?thesis
    by (auto dest!: split_escape_SomeD simp: count_list_append count_notin)
qed

lemma replace_loop_ends:
  assumes "\<And>k. PC \<notin> set (f k)" "\<not> P PC"
  shows "\<exists>y. replace_loop P f s = Some y"
proof (induction "count_list s PC" arbitrary: s rule: less_induct)
  case less
  show ?case
  proof (cases "split_escape P s")
    case None
    then show ?thesis by (subst replace_loop.simps) simp
  next
    case (Some t)
    obtain b k a where t: "t = (b, k, a)" by (cases t) auto
    have "count_list (b @ f k @ a) PC < count_list s PC"
      using count_step [of P s b k a f] Some t assms by simp
    then have "\<exists>y. replace_loop P f (b @ f k @ a) = Some y" by (rule less)
    with Some t show ?thesis by (subst replace_loop.simps) simp
  qed
qed

text \<open>The reference: every escape of the format is replaced once, what is put in is not read again.\<close>

function replace_once :: "(char \<Rightarrow> bool) \<Rightarrow> (string \<Rightarrow> string) \<Rightarrow> string \<Rightarrow> string" where
  "replace_once P f [] = []"
| "replace_once P f (c # s) =
    (if c = PC \<and> s \<noteq> [] \<and> P (hd s) then f (takeWhile P s) @ replace_once P f (dropWhile P s)
     else c # replace_once P f s)"
  by pat_completeness auto
termination
  by (relation "measure (\<lambda>(P, f, s). length s)") (auto simp: le_imp_less_Suc length_dropWhile_le)

lemma replace_once_split:
  "split_escape P s = Some (b, k, a) \<Longrightarrow> replace_once P f s = b @ f k @ replace_once P f a"
  by (induction s arbitrary: b) (auto split: if_splits)

lemma replace_once_none: "split_escape P s = None \<Longrightarrow> replace_once P f s = s"
  by (induction s) (auto split: if_splits)

lemma split_escape_append:
  "split_escape P u = None \<Longrightarrow> a = [] \<or> \<not> P (hd a) \<Longrightarrow>
   split_escape P (u @ a) = map_option (\<lambda>(b, k, r). (u @ b, k, r)) (split_escape P a)"
proof (induction u)
  case Nil
  then show ?case by (simp add: case_prod_unfold option.map_ident)
next
  case (Cons c u)
  have "\<not> (c = PC \<and> u @ a \<noteq> [] \<and> P (hd (u @ a)))"
    using Cons.prems by (cases u) (auto split: if_splits)
  with Cons show ?case
    by (auto simp: option.map_comp comp_def case_prod_unfold split: if_splits)
qed

lemma replace_once_append:
  "split_escape P u = None \<Longrightarrow> a = [] \<or> \<not> P (hd a) \<Longrightarrow> replace_once P f (u @ a) = u @ replace_once P f a"
proof (induction u)
  case (Cons c u)
  have "\<not> (c = PC \<and> u @ a \<noteq> [] \<and> P (hd (u @ a)))"
    using Cons.prems by (cases u) (auto split: if_splits)
  with Cons show ?case by (auto split: if_splits)
qed simp

definition no_double :: "string \<Rightarrow> bool" where
  "no_double s \<longleftrightarrow> successively (\<lambda>x y. x \<noteq> PC \<or> y \<noteq> PC) s"

text \<open>What stands before the first escape has none, also with a text put after it.\<close>

lemma split_escape_before:
  "split_escape P s = Some (b, k, a) \<Longrightarrow> PC \<notin> set x \<Longrightarrow>
   (x = [] \<or> \<not> P (hd x)) \<or> no_double s \<Longrightarrow> split_escape P (b @ x) = None"
proof (induction s arbitrary: b)
  case (Cons c s)
  show ?case
  proof (cases "c = PC \<and> s \<noteq> [] \<and> P (hd s)")
    case True
    with Cons.prems show ?thesis by (simp add: split_escape_no_percent)
  next
    case False
    then obtain b' where b: "split_escape P s = Some (b', k, a)" "b = c # b'"
      using Cons.prems by (auto split: if_splits)
    have "(x = [] \<or> \<not> P (hd x)) \<or> no_double s"
      using Cons.prems(3) by (auto simp: no_double_def successively_Cons)
    then have r: "split_escape P (b' @ x) = None" by (rule Cons.IH [OF b(1) Cons.prems(2)])
    have s: "s = b' @ PC # k @ a" using split_escape_SomeD [OF b(1)] by simp
    have "\<not> (c = PC \<and> b' @ x \<noteq> [] \<and> P (hd (b' @ x)))"
    proof (cases b')
      case Nil
      then have "no_double (c # s) \<Longrightarrow> c \<noteq> PC" using s by (auto simp: no_double_def successively_Cons)
      with Cons.prems(3) Nil show ?thesis by auto
    qed (use False s in auto)
    with r b show ?thesis by simp
  qed
qed simp

lemma no_percent_no_double: "PC \<notin> set x \<Longrightarrow> no_double x"
  by (induction x) (auto simp: no_double_def successively_Cons)

lemma no_double_step:
  assumes "split_escape P s = Some (b, k, a)" "PC \<notin> set x" "no_double s"
  shows "no_double (b @ x @ a)"
proof -
  have s: "s = b @ PC # k @ a" and k: "k \<noteq> []" using split_escape_SomeD [OF assms(1)] by auto
  then have "no_double b" "no_double a" "b = [] \<or> last b \<noteq> PC"
    using assms(3) by (auto simp: no_double_def successively_append_iff successively_Cons)
  moreover have "x = [] \<or> last x \<noteq> PC" using assms(2) last_in_set by fastforce
  ultimately show ?thesis
    using no_percent_no_double [OF assms(2)] by (auto simp: no_double_def successively_append_iff)
qed

lemma replace_loop_once:
  assumes f: "\<And>k. PC \<notin> set (f k)" and P: "\<not> P PC"
    and c: "(\<forall>k. f k = [] \<or> \<not> P (hd (f k))) \<or> no_double s"
  shows "replace_loop P f s = Some (replace_once P f s)"
  using c
proof (induction "count_list s PC" arbitrary: s rule: less_induct)
  case less
  show ?case
  proof (cases "split_escape P s")
    case None
    then show ?thesis by (subst replace_loop.simps) (simp add: replace_once_none)
  next
    case (Some t)
    obtain b k a where t: "t = (b, k, a)" by (cases t) auto
    have sp: "split_escape P s = Some (b, k, a)" using Some t by simp
    have "(\<forall>k. f k = [] \<or> \<not> P (hd (f k))) \<or> no_double (b @ f k @ a)"
      using less.prems no_double_step [OF sp f] by blast
    then have i: "replace_loop P f (b @ f k @ a) = Some (replace_once P f (b @ f k @ a))"
      using less.hyps [of "b @ f k @ a"] count_step [of P s b k a f, OF sp f P] by simp
    have "split_escape P (b @ f k) = None"
      using less.prems split_escape_before [OF sp f] by blast
    then have "replace_once P f ((b @ f k) @ a) = (b @ f k) @ replace_once P f a"
      using split_escape_SomeD [OF sp] by (intro replace_once_append) simp_all
    with i sp show ?thesis by (subst replace_loop.simps) (simp add: replace_once_split)
  qed
qed

section \<open>When they do not\<close>

lemma split_escape_later:
  assumes "\<not> P PC" "ds \<noteq> []" "\<forall>c \<in> set ds. P c" "q = [] \<or> \<not> P (hd q)"
  shows "\<exists>b k a. split_escape P (p @ PC # ds @ q) = Some (b, k, a) \<and>
    (b = p \<and> k = ds \<and> a = q \<or> (\<exists>a'. a = a' @ PC # ds @ q))"
proof (induction p)
  case Nil
  have "takeWhile P (ds @ q) = ds" "dropWhile P (ds @ q) = q" "P (hd (ds @ q))"
    using assms by (cases q; cases ds; auto simp: takeWhile_append dropWhile_append)+
  with assms show ?case by simp
next
  case (Cons c p)
  let ?s = "p @ PC # ds @ q"
  show ?case
  proof (cases "c = PC \<and> P (hd ?s)")
    case True
    have "dropWhile P ?s = dropWhile P p @ PC # ds @ q"
      using assms(1) by (induction p) auto
    with True show ?thesis by auto
  next
    case False
    with Cons show ?thesis by auto
  qed
qed

lemma replace_loop_never:
  assumes P: "\<not> P PC" and ds: "ds \<noteq> []" "\<forall>c \<in> set ds. P c"
    and f: "f ds = x @ PC # ds @ y" "y = [] \<or> \<not> P (hd y)"
    and q: "q = [] \<or> \<not> P (hd q)"
  shows "replace_loop P f (p @ PC # ds @ q) = None"
proof (rule ccontr)
  assume "replace_loop P f (p @ PC # ds @ q) \<noteq> None"
  then obtain r where "replace_loop P f (p @ PC # ds @ q) = Some r" by auto
  then have "P = P \<longrightarrow> f = f \<longrightarrow>
      (\<nexists>p' q'. p @ PC # ds @ q = p' @ PC # ds @ q' \<and> (q' = [] \<or> \<not> P (hd q')))"
  proof (rule replace_loop.raw_induct [where P = "\<lambda>P' f' s r. P' = P \<longrightarrow> f' = f \<longrightarrow>
      (\<nexists>p' q'. s = p' @ PC # ds @ q' \<and> (q' = [] \<or> \<not> P (hd q')))", rotated])
    fix loop P' f' s r
    assume IH: "\<And>P' f' s r. loop P' f' s = Some r \<Longrightarrow> P' = P \<longrightarrow> f' = f \<longrightarrow>
        (\<nexists>p' q'. s = p' @ PC # ds @ q' \<and> (q' = [] \<or> \<not> P (hd q')))"
      and eq: "(case split_escape P' s of None \<Rightarrow> Some s
                | Some (b, k, a) \<Rightarrow> loop P' f' (b @ f' k @ a)) = Some r"
    show "P' = P \<longrightarrow> f' = f \<longrightarrow> (\<nexists>p' q'. s = p' @ PC # ds @ q' \<and> (q' = [] \<or> \<not> P (hd q')))"
    proof (intro impI notI)
      assume [simp]: "P' = P" "f' = f"
      assume "\<exists>p' q'. s = p' @ PC # ds @ q' \<and> (q' = [] \<or> \<not> P (hd q'))"
      then obtain p' q' where s: "s = p' @ PC # ds @ q'" and q': "q' = [] \<or> \<not> P (hd q')" by blast
      obtain b k a where sp: "split_escape P s = Some (b, k, a)"
        and c: "b = p' \<and> k = ds \<and> a = q' \<or> (\<exists>a'. a = a' @ PC # ds @ q')"
        using split_escape_later [OF P ds q', of p'] s by blast
      have "loop P f (b @ f k @ a) = Some r" using eq sp by simp
      moreover have "\<exists>p' q'. b @ f k @ a = p' @ PC # ds @ q' \<and> (q' = [] \<or> \<not> P (hd q'))"
        using c
      proof
        assume "b = p' \<and> k = ds \<and> a = q'"
        with f q' have "b @ f k @ a = (p' @ x) @ PC # ds @ (y @ q')" "y @ q' = [] \<or> \<not> P (hd (y @ q'))"
          by (auto simp: hd_append)
        then show ?thesis by blast
      next
        assume "\<exists>a'. a = a' @ PC # ds @ q'"
        then obtain a' where "b @ f k @ a = (b @ f k @ a') @ PC # ds @ q'" by auto
        with q' show ?thesis by blast
      qed
      ultimately show False using IH by blast
    qed
  qed
  with q show False by blast
qed

section \<open>What a format gives\<close>

lemma letters_digits [simp]: "\<not> isalpha PC" "\<not> isdigit PC"
  by (simp_all add: isalpha_def isdigit_def)

lemma replace_once_no_double:
  assumes "\<forall>k. PC \<notin> set (f k)" "no_double s"
  shows "no_double (replace_once P f s)"
  using assms
proof (induction P f s rule: replace_once.induct)
  case (2 P f c s)
  show ?case
  proof (cases "c = PC \<and> s \<noteq> [] \<and> P (hd s)")
    case True
    have "no_double (takeWhile P s @ dropWhile P s)"
      using 2 True by (auto simp: no_double_def successively_Cons)
    then have "no_double (dropWhile P s)" unfolding no_double_def successively_append_iff by blast
    then have r: "no_double (replace_once P f (dropWhile P s))" using 2 True by simp
    let ?f = "f (takeWhile P s)"
    have f: "PC \<notin> set ?f" using 2 by blast
    then have "?f = [] \<or> last ?f \<noteq> PC" using last_in_set by fastforce
    with r no_percent_no_double [OF f] True show ?thesis
      by (auto simp: no_double_def successively_append_iff)
  next
    case False
    then have "no_double (replace_once P f s)"
      using 2 by (auto simp: no_double_def successively_Cons)
    moreover have "c = PC \<Longrightarrow> replace_once P f s = [] \<or> hd (replace_once P f s) \<noteq> PC"
      using 2 False by (cases s) (auto simp: no_double_def successively_Cons)
    ultimately show ?thesis using False by (auto simp: no_double_def successively_Cons)
  qed
qed (simp add: no_double_def)

lemma map_value_no_percent:
  "(\<And>k v. h_map d k = Some v \<Longrightarrow> PC \<notin> set v) \<Longrightarrow> PC \<notin> set (map_value d k)"
  by (auto simp: map_value_def split: option.split)

lemma cap_value_no_percent:
  "(\<And>c. c \<in> set cap \<Longrightarrow> PC \<notin> set c) \<Longrightarrow> PC \<notin> set (cap_value cap k)"
  by (auto simp: cap_value_def Let_def)

definition used_captures :: "string list \<Rightarrow> data_format \<Rightarrow> string list" where
  "used_captures cap d = (if cap \<noteq> [] then cap else df_captures d)"

lemma format_ends:
  assumes "\<And>k v. h_map d k = Some v \<Longrightarrow> PC \<notin> set v"
    and "\<And>c. c \<in> set (used_captures cap d) \<Longrightarrow> PC \<notin> set c"
  shows "\<exists>t. fst (format cap d) = Some t"
proof -
  let ?d = "if cap \<noteq> [] then setCaptures cap d else d"
  have h: "h_map ?d = h_map d" "source ?d = source d" "df_captures ?d = used_captures cap d"
    by (simp_all add: setCaptures_def used_captures_def)
  obtain t where "formatMap ?d (source ?d) = Some t"
    using replace_loop_ends [of "map_value ?d" isalpha] map_value_no_percent [of ?d] assms(1) h
    unfolding formatMap_def by (metis letters_digits(1))
  moreover have "\<exists>u. formatCap ?d t = Some u"
    using replace_loop_ends [of "cap_value (used_captures cap d)" isdigit] assms(2) h
      cap_value_no_percent [of "used_captures cap d"]
    unfolding formatCap_def by (metis letters_digits(2))
  ultimately show ?thesis by (auto simp: format_def Let_def)
qed

lemma format_value:
  assumes m: "\<And>k v. h_map d k = Some v \<Longrightarrow> PC \<notin> set v"
    and c: "\<And>c. c \<in> set (used_captures cap d) \<Longrightarrow> PC \<notin> set c"
    and s: "no_double (source d)"
  shows "fst (format cap d) =
    Some (replace_once isdigit (cap_value (used_captures cap d)) (replace_once isalpha (map_value d) (source d)))"
proof -
  have mv: "PC \<notin> set (map_value d k)" for k using map_value_no_percent [of d] m by blast
  have cv: "PC \<notin> set (cap_value (used_captures cap d) k)" for k
    using cap_value_no_percent [of "used_captures cap d"] c by blast
  have "replace_loop isalpha (map_value d) (source d) = Some (replace_once isalpha (map_value d) (source d))"
    by (rule replace_loop_once) (use mv s in auto)
  moreover have "no_double (replace_once isalpha (map_value d) (source d))"
    by (rule replace_once_no_double) (use mv s in auto)
  then have "replace_loop isdigit (cap_value (used_captures cap d)) (replace_once isalpha (map_value d) (source d)) =
      Some (replace_once isdigit (cap_value (used_captures cap d)) (replace_once isalpha (map_value d) (source d)))"
    by (intro replace_loop_once) (use cv in auto)
  moreover have "map_value (setCaptures cap d) = map_value d"
    by (simp add: fun_eq_iff map_value_def setCaptures_def)
  ultimately show ?thesis
    by (cases "cap = []")
       (simp_all add: format_def formatMap_def formatCap_def used_captures_def setCaptures_def Let_def)
qed

text \<open>C21. The two loops of a format search the text again after every replacement (DataFormat.cpp). When
  no value put in holds a percent sign and the format has no two in a row, they end, and the text is
  that of one pass from left to right: first each escape of letters by the value of its first
  letter, then each escape of digits by the capture of that number, -?- for what is missing.\<close>

theorem format_single_pass:
  assumes "\<forall>k v. h_map d k = Some v \<longrightarrow> PC \<notin> set v"
    and "\<forall>c \<in> set (if cap \<noteq> [] then cap else df_captures d). PC \<notin> set c"
    and "no_double (source d)"
  shows "fst (format cap d) =
    Some (replace_once isdigit (cap_value (if cap \<noteq> [] then cap else df_captures d))
      (replace_once isalpha (map_value d) (source d)))"
  using format_value [of d cap] assms unfolding used_captures_def by blast

theorem format_single_pass_witness:
  "fst (format [''all'', ''wifi''] (setMap (CHR ''r'') ''7'' (new_format ''%1 died (%r of %R): %3'' True))) =
    Some ''wifi died (7 of -?-): -?-''"
proof -
  let ?d = "setMap (CHR ''r'') ''7'' (new_format ''%1 died (%r of %R): %3'' True)"
  let ?cap = "[''all'', ''wifi'']"
  have "fst (format ?cap ?d) = Some (replace_once isdigit (cap_value ?cap) (replace_once isalpha (map_value ?d) (source ?d)))"
    using format_single_pass [of ?d ?cap]
    by (simp add: setMap_def new_format_def no_double_def split: if_splits)
  also have "replace_once isalpha (map_value ?d) (source ?d) = ''%1 died (7 of -?-): %3''"
    by (simp add: setMap_def new_format_def map_value_def isalpha_def)
  also have "replace_once isdigit (cap_value ?cap) \<dots> = ''wifi died (7 of -?-): -?-''"
    by (simp add: isdigit_def cap_value_def atoi_digits_def strtol10_def isspace_def digit_val_def Let_def)
  finally show ?thesis .
qed

text \<open>C16. Captures are text of the log. When the format names capture i and the text of capture i
  holds that same escape, the loop puts the escape back with every replacement: building the data
  field never returns, whatever the rest of the format and the other captures are.\<close>

theorem format_never_returns:
  assumes "source d = p @ PC # ds @ q" and "split_escape isalpha (source d) = None"
    and "ds \<noteq> []" and "\<forall>c \<in> set ds. isdigit c" and "q = [] \<or> \<not> isdigit (hd q)"
    and "cap_value (if cap \<noteq> [] then cap else df_captures d) ds = x @ PC # ds @ y"
    and "y = [] \<or> \<not> isdigit (hd y)"
  shows "fst (format cap d) = None"
proof -
  have "replace_loop isdigit (cap_value (used_captures cap d)) (source d) = None"
    unfolding assms(1)
    by (rule replace_loop_never [of _ _ _ x y]) (use assms(3-) in \<open>simp_all add: used_captures_def\<close>)
  moreover have "formatMap d' (source d) = Some (source d)" for d'
    unfolding formatMap_def using assms(2) by (subst replace_loop.simps) simp
  ultimately show ?thesis
    by (cases "cap = []")
       (simp_all add: format_def formatCap_def used_captures_def setCaptures_def Let_def)
qed

theorem format_never_returns_witness:
  "fst (format [''app %1 died'', ''%1''] (new_format ''crash of %1'' False)) = None"
  by (rule format_never_returns [where p = "''crash of ''" and ds = "''1''" and q = "[]" and x = "[]" and y = "[]"])
     (simp_all add: new_format_def isalpha_def isdigit_def cap_value_def atoi_digits_def strtol10_def
        isspace_def digit_val_def Let_def)

end
