(* ===== verification/Lw_Files.thy ===== *)
theory Lw_Files
  imports Lw_Format Fsutils_Perm
begin

text \<open>
  Files of log-watch: the helpers of utils.cpp and the attachments of an event (EventAttachment.cpp).
  What a program writes and when it ends is the parameter \<open>prog\<close>: for the arguments it is started
  with, \<open>None\<close> when it cannot be executed, otherwise its output and the call of \<open>waitpid\<close> that reports
  its end or fails.
\<close>

section \<open>Files and directories\<close>

definition isDir :: "string \<Rightarrow> 'w world_scheme \<Rightarrow> bool" where
  "isDir dir s \<longleftrightarrow> directory_exists dir s"

definition isFile :: "string \<Rightarrow> 'w world_scheme \<Rightarrow> bool" where
  "isFile path s \<longleftrightarrow> (case node_at s path of Some (File _) \<Rightarrow> True | _ \<Rightarrow> False)"

text \<open>A failing \<open>read\<close> ends the loop; what \<open>write\<close> returns is not looked at.\<close>

function copy_chunks :: "string \<Rightarrow> string \<Rightarrow> ('w, unit) op" where
  "copy_chunks d rest = do {
     f \<leftarrow> syscall;
     (case f of
        Fails e \<Rightarrow> set_errno e
      | _ \<Rightarrow> if rest = [] then ret ()
              else do {
                _ \<leftarrow> write_end d (take 4096 rest);
                copy_chunks d (drop 4096 rest) }) }"
  by pat_completeness auto
termination
  by (relation "measure (\<lambda>(d, rest). length rest)") auto

declare copy_chunks.simps [simp del]

definition copyFile :: "string \<Rightarrow> string \<Rightarrow> ('w, bool) op" where
  "copyFile s d = do {
     source \<leftarrow> open_read s;
     (case source of
        None \<Rightarrow> ret False
      | Some _ \<Rightarrow> do {
          dest \<leftarrow> open_trunc d;
          if \<not> dest then ret False
          else do {
            data \<leftarrow> gets (\<lambda>w. content w s);
            copy_chunks d data;
            ret True } }) }"

fun rm_entries :: "(string \<Rightarrow> ('w, bool) op) \<Rightarrow> string \<Rightarrow> string list \<Rightarrow> ('w, bool) op" where
  "rm_entries rec path [] = ret True"
| "rm_entries rec path (x # xs) = do {
     ok \<leftarrow> rec (path @ ''/'' @ x);
     if \<not> ok then ret False else rm_entries rec path xs }"

text \<open>The fuel is the height of the tree.\<close>

primrec rmRec_fuel :: "nat \<Rightarrow> string \<Rightarrow> bool \<Rightarrow> ('w, bool) op" where
  "rmRec_fuel 0 path rem_root = ret False"
| "rmRec_fuel (Suc n) path rem_root = do {
     dir \<leftarrow> gets (isDir path);
     if dir then do {
       d \<leftarrow> sys_opendir path;
       (case d of
          None \<Rightarrow> ret False
        | Some names \<Rightarrow> do {
            ok \<leftarrow> rm_entries (\<lambda>p. rmRec_fuel n p True) path names;
            if \<not> ok then ret False
            else do {
              _ \<leftarrow> (if rem_root then sys_rmdir path else ret True);
              ret True } }) }
     else do {
       ok \<leftarrow> sys_unlink path;
       ret ok } }"

definition rmRec :: "string \<Rightarrow> bool \<Rightarrow> ('w, bool) op" where
  "rmRec path rem_root = do {
     n \<leftarrow> gets (\<lambda>s. Suc (height (fs s)));
     rmRec_fuel n path rem_root }"

section \<open>Attachments\<close>

datatype att_type = ATT_INVALID | ATT_PASS_ON | ATT_COPY | ATT_EXEC

record event_attachment =
  att_type :: att_type
  max_wait :: nat
  src :: string
  dst :: string

definition new_attachment :: "string \<Rightarrow> string \<Rightarrow> bool \<Rightarrow> nat \<Rightarrow> event_attachment" where
  "new_attachment s d exec wait =
    (if s = '''' then \<lparr>att_type = ATT_INVALID, max_wait = 0, src = s, dst = d\<rparr>
     else if exec then \<lparr>att_type = (if d = '''' then ATT_INVALID else ATT_EXEC), max_wait = wait, src = s, dst = d\<rparr>
     else \<lparr>att_type = (if d = '''' then ATT_PASS_ON else ATT_COPY), max_wait = 0, src = s, dst = d\<rparr>)"

datatype wait_end = Ends_at nat | Wait_fails_at nat

type_synonym programs = "string list \<Rightarrow> (string \<times> wait_end) option"

function exec_args :: "string \<Rightarrow> string list" where
  "exec_args s =
    (if s = [] then []
     else if CHR '' '' \<in> set s
          then takeWhile (\<lambda>c. c \<noteq> CHR '' '') s # exec_args (tl (dropWhile (\<lambda>c. c \<noteq> CHR '' '') s))
     else [s])"
  by pat_completeness auto
termination
proof (relation "measure length", simp)
  fix s :: string
  assume s: "s \<noteq> []" and "CHR '' '' \<in> set s"
  then have "dropWhile (\<lambda>c. c \<noteq> CHR '' '') s \<noteq> []" by auto
  moreover have "length (dropWhile (\<lambda>c. c \<noteq> CHR '' '') s) \<le> length s" by (rule length_dropWhile_le)
  ultimately show "(tl (dropWhile (\<lambda>c. c \<noteq> CHR '' '') s), s) \<in> measure length"
    by (cases "dropWhile (\<lambda>c. c \<noteq> CHR '' '') s") auto
qed

declare exec_args.simps [simp del]

definition kill_note :: "string \<Rightarrow> nat \<Rightarrow> string" where
  "kill_note command wait =
    NL # ''==================================================='' @ [NL] @ ''Exec of '' @ [CHR 0x22] @ command @
    [CHR 0x22] @ '' took more that '' @ show_nat wait @ ''ms, process killed''"

text \<open>
  The child's output replaces the file it is sent to. The parent asks for the end of the child every
  quarter of a millisecond, as many times as an \<open>unsigned int\<close> holds.
\<close>

definition att_exec :: "programs \<Rightarrow> event_attachment \<Rightarrow> string \<Rightarrow> string \<Rightarrow> ('w, bool) op" where
  "att_exec prog att d command0 =
    (let command = (if command0 = '''' then src att else command0);
         (output, fin) = (case prog (exec_args command) of
            None \<Rightarrow> (''Execvp failed for, '' @ command, Ends_at 0) | Some p \<Rightarrow> p);
         tries = (max_wait att * 4) mod 2 ^ 32
     in do {
       ok \<leftarrow> open_trunc d;
       if \<not> ok then ret False
       else do {
         f \<leftarrow> syscall;
         (case f of
            Fails e \<Rightarrow> do { set_errno e; ret False }
          | _ \<Rightarrow> do {
              _ \<leftarrow> write_end d output;
              (case fin of
                 Wait_fails_at k \<Rightarrow> if k < tries then ret False
                   else do { _ \<leftarrow> write_end d (kill_note command (max_wait att)); ret True }
               | Ends_at k \<Rightarrow> if k < tries then ret True
                   else do { _ \<leftarrow> write_end d (kill_note command (max_wait att)); ret True }) }) } })"

definition att_format :: "string list \<Rightarrow> string \<Rightarrow> string option" where
  "att_format cap str = (if cap = [] then Some str else fst (format cap (new_format str False)))"

definition att_get :: "programs \<Rightarrow> string \<Rightarrow> string list \<Rightarrow> event_attachment \<Rightarrow> ('w, failure + string) op" where
  "att_get prog base cap att =
    (case att_format cap (src att) of
       None \<Rightarrow> ret (Inl Never_returns)
     | Some f_src \<Rightarrow>
      (case att_format cap (dst att) of
         None \<Rightarrow> ret (Inl Never_returns)
       | Some f_dst \<Rightarrow>
          let full_dest = base @ ''/'' @ f_dst in
          (case att_type att of
             ATT_INVALID \<Rightarrow> ret (Inr '''')
           | ATT_PASS_ON \<Rightarrow> do {
               file \<leftarrow> gets (isFile f_src);
               ret (Inr (if \<not> file then '''' else f_src)) }
           | ATT_COPY \<Rightarrow> do {
               file \<leftarrow> gets (isFile f_src);
               if \<not> file then ret (Inr '''')
               else do {
                 ok \<leftarrow> copyFile f_src full_dest;
                 ret (Inr (if ok then full_dest else '''')) } }
           | ATT_EXEC \<Rightarrow> do {
               ok \<leftarrow> att_exec prog att full_dest f_src;
               ret (Inr (if ok then full_dest else '''')) })))"

section \<open>What they do when no call fails\<close>

lemma put_calls_out: "put p n (s\<lparr>calls := k\<rparr>) = (put p n s)\<lparr>calls := k\<rparr>"
  by (simp add: put_def)

lemma put_twice: "put p n (put p m s) = put p n s"
  by (simp add: put_def)

lemma copy_chunks_reliable:
  fixes s :: "'w world_scheme"
  assumes "reliable s" "node_at s d = Some (File old)"
  shows "\<exists>k. run_state (copy_chunks d rest) s = ((), (put d (File (old @ rest)) s)\<lparr>calls := k\<rparr>)"
  using assms
proof (induction "length rest" arbitrary: rest s old rule: less_induct)
  case less
  show ?case
  proof (cases "rest = []")
    case True
    have "put d (File old) s = s" using less.prems(2) by (simp add: put_def node_at_def update_triv)
    with True less.prems show ?thesis by (subst copy_chunks.simps) auto
  next
    case False
    let ?s = "(put d (File (old @ take 4096 rest)) s)\<lparr>calls := Suc (Suc (calls s))\<rparr>"
    have c: "content (s\<lparr>calls := Suc (calls s)\<rparr>) d = old" using less.prems(2) by (simp add: content_def)
    obtain k where "run_state (copy_chunks d (drop 4096 rest)) ?s =
        ((), (put d (File ((old @ take 4096 rest) @ drop 4096 rest)) ?s)\<lparr>calls := k\<rparr>)"
      using less.hyps [of "drop 4096 rest" ?s "old @ take 4096 rest"] False less.prems(1) by auto
    then show ?thesis
      using False less.prems(1) c
      by (subst copy_chunks.simps) (auto simp: write_end_def write_at_def put_calls_out put_twice)
  qed
qed

lemma copyFile_reliable:
  assumes "reliable s" "node_at s a = Some (File d)" "comps b \<noteq> comps a" "comps b \<noteq> []"
    "node_at s b \<noteq> Some Dir" "is_dir (fs s) (butlast (comps b))"
  shows "\<exists>k. run_state (copyFile a b) s = (True, (put b (File d) s)\<lparr>calls := k\<rparr>)"
proof -
  let ?s = "(put b (File []) s)\<lparr>calls := Suc (Suc (calls s))\<rparr>"
  obtain k where "run_state (copy_chunks b d) ?s = ((), (put b (File ([] @ d)) ?s)\<lparr>calls := k\<rparr>)"
    using copy_chunks_reliable [of ?s b "[]" d] assms by auto
  moreover have "content ?s a = d" using assms by (simp add: content_def)
  ultimately show ?thesis
    using assms by (auto simp: copyFile_def open_read_def open_trunc_def put_calls_out put_twice)
qed

text \<open>Removing a tree; \<open>deep n p t\<close>: no entry lies \<open>n\<close> levels or more below the path.\<close>

definition deep :: "nat \<Rightarrow> string \<Rightarrow> tree \<Rightarrow> bool" where
  "deep n p t \<longleftrightarrow> (\<forall>rel. comps p @ rel \<in> fst ` set t \<longrightarrow> length rel < n)"

lemma deep_subset: "deep n p t \<Longrightarrow> set t' \<subseteq> set t \<Longrightarrow> deep n p t'"
  unfolding deep_def by blast

lemma comps_child:
  assumes "wf_tree t" "comps p @ [x] \<in> fst ` set t"
  shows "comps (p @ ''/'' @ x) = comps p @ [x]"
proof -
  have "\<forall>n \<in> set (comps p @ [x]). n \<noteq> [] \<and> CHR ''/'' \<notin> set n"
    using assms unfolding wf_tree_def by blast
  then show ?thesis by simp
qed

lemma deep_child:
  assumes "deep (Suc n) p t" "comps (p @ ''/'' @ x) = comps p @ [x]"
  shows "deep n (p @ ''/'' @ x) t"
  unfolding deep_def assms(2)
proof (intro allI impI)
  fix rel assume "(comps p @ [x]) @ rel \<in> fst ` set t"
  then have "comps p @ (x # rel) \<in> fst ` set t" by simp
  with assms(1) have "length (x # rel) < Suc n" unfolding deep_def by blast
  then show "length rel < n" by simp
qed

lemma rm_entries_reliable:
  fixes s :: "'w world_scheme"
  assumes rec: "\<And>x s :: 'w world_scheme. reliable s \<Longrightarrow> wf_tree (fs s) \<Longrightarrow> comps p @ [x] \<in> fst ` set (fs s) \<Longrightarrow>
      deep (Suc n) p (fs s) \<Longrightarrow>
      \<exists>k. run_state (rec (p @ ''/'' @ x)) s = (True, s\<lparr>fs := without (comps p @ [x]) (fs s), calls := k\<rparr>)"
  shows "reliable s \<Longrightarrow> wf_tree (fs s) \<Longrightarrow> deep (Suc n) p (fs s) \<Longrightarrow>
    distinct xs \<Longrightarrow> \<forall>x \<in> set xs. comps p @ [x] \<in> fst ` set (fs s) \<Longrightarrow>
    \<exists>k. run_state (rm_entries rec p xs) s =
      (True, s\<lparr>fs := filter (\<lambda>e. \<forall>x \<in> set xs. \<not> prefix (comps p @ [x]) (fst e)) (fs s), calls := k\<rparr>)"
proof (induction xs arbitrary: s)
  case Nil
  show ?case by (rule exI [of _ "calls s"]) simp
next
  case (Cons x xs)
  let ?t = "without (comps p @ [x]) (fs s)"
  obtain k where rc: "run_state (rec (p @ ''/'' @ x)) s = (True, s\<lparr>fs := ?t, calls := k\<rparr>)"
    using rec [of s x] Cons.prems by auto
  let ?s = "s\<lparr>fs := ?t, calls := k\<rparr>"
  have "\<not> prefix (comps p @ [x]) (comps p @ [y])" if "y \<in> set xs" for y
    using that Cons.prems(4) by auto
  moreover have "comps p @ [y] \<in> fst ` set (fs s)" if "y \<in> set xs" for y
    using that Cons.prems(5) by (simp only: set_simps insert_iff ball_simps)
  ultimately have "\<forall>y \<in> set xs. comps p @ [y] \<in> fst ` set (fs ?s)" by (simp add: keys_without)
  moreover have "wf_tree (fs ?s)" "deep (Suc n) p (fs ?s)" "reliable ?s" "distinct xs"
    using Cons.prems wf_tree_without deep_subset [OF Cons.prems(3), of ?t] by (auto simp: without_def)
  ultimately obtain k' where "run_state (rm_entries rec p xs) ?s =
      (True, ?s\<lparr>fs := filter (\<lambda>e. \<forall>x \<in> set xs. \<not> prefix (comps p @ [x]) (fst e)) (fs ?s), calls := k'\<rparr>)"
    using Cons.IH [of ?s] by blast
  then have "run_state (rm_entries rec p (x # xs)) s = (True, s\<lparr>fs := filter (\<lambda>e. \<forall>x \<in> set (x # xs).
        \<not> prefix (comps p @ [x]) (fst e)) (fs s), calls := k'\<rparr>)"
    using rc by (simp add: without_def conj_commute)
  then show ?case by blast
qed

definition emptied :: "string list \<Rightarrow> tree \<Rightarrow> tree" where
  "emptied k t = filter (\<lambda>e. \<not> strict_prefix k (fst e)) t"

lemma emptied_children:
  assumes "wf_tree t"
  shows "filter (\<lambda>e. \<forall>x \<in> set (children t k). \<not> prefix (k @ [x]) (fst e)) t = emptied k t"
  unfolding emptied_def
proof (rule filter_cong [OF refl])
  fix e assume e: "e \<in> set t"
  have "\<exists>x \<in> set (children t k). prefix (k @ [x]) (fst e)" if p: "strict_prefix k (fst e)"
  proof -
    from p obtain x rel where j: "fst e = k @ x # rel"
      by (auto simp: strict_prefix_def prefix_def) (metis neq_Nil_conv)
    have "k @ [x] \<in> fst ` set t"
    proof (cases "rel = []")
      case False
      then have "strict_prefix (k @ [x]) (fst e)" using j by (auto simp: strict_prefix_def)
      with wf_tree_parent [OF assms(1), of "fst e" "k @ [x]"] e show ?thesis
        by (metis append_is_Nil_conv domI dom_map_of_conv_image_fst image_eqI list.distinct(1))
    qed (use e j in \<open>auto simp: image_iff intro: bexI [of _ e]\<close>)
    with j show ?thesis by (auto simp: children_iff intro!: bexI [of _ x])
  qed
  then show "(\<forall>x \<in> set (children t k). \<not> prefix (k @ [x]) (fst e)) = (\<not> strict_prefix k (fst e))"
    by (auto simp: strict_prefix_def dest: append_prefixD)
qed

lemma emptied_without: "filter (\<lambda>e. fst e \<noteq> k) (emptied k t) = without k t"
  unfolding emptied_def without_def filter_filter by (rule filter_cong) (auto simp: strict_prefix_def)

lemma emptied_no_children: "children (emptied k t) k = []"
proof -
  have "x \<notin> set (children (emptied k t) k)" for x
    by (auto simp: children_iff emptied_def strict_prefix_def)
  then show ?thesis by (metis list.set_intros(1) neq_Nil_conv)
qed

lemma map_of_emptied [simp]: "map_of (emptied k t) j = (if strict_prefix k j then None else map_of t j)"
  using map_of_filter_key [of "\<lambda>j. \<not> strict_prefix k j" t j] by (simp add: emptied_def)

lemma rmRec_fuel_reliable:
  fixes s :: "'w world_scheme"
  shows "reliable s \<Longrightarrow> wf_tree (fs s) \<Longrightarrow> comps p \<noteq> [] \<Longrightarrow> comps p \<in> fst ` set (fs s) \<Longrightarrow> deep n p (fs s) \<Longrightarrow>
    (\<exists>k. run_state (rmRec_fuel n p True) s = (True, s\<lparr>fs := without (comps p) (fs s), calls := k\<rparr>)) \<and>
    (map_of (fs s) (comps p) = Some Dir \<longrightarrow>
      (\<exists>k. run_state (rmRec_fuel n p False) s = (True, s\<lparr>fs := emptied (comps p) (fs s), calls := k\<rparr>)))"
proof (induction n arbitrary: p s)
  case 0
  then have "comps p @ [] \<in> fst ` set (fs s)" by simp
  with 0(5) show ?case unfolding deep_def by blast
next
  case (Suc n)
  from Suc.prems(4) obtain nd where nd: "map_of (fs s) (comps p) = Some nd"
    by (metis domD dom_map_of_conv_image_fst)
  show ?case
  proof (cases nd)
    case (File d)
    with nd Suc.prems wf_file_alone [OF Suc.prems(2), of "comps p" d] show ?thesis
      by (auto simp: sys_unlink_def isDir_def directory_exists_def is_dir_def node_at_def del_def delete_filter
          intro: exI [of _ "Suc (calls s)"])
  next
    case Dir
    let ?ns = "children (fs s) (comps p)"
    let ?s = "s\<lparr>calls := Suc (calls s)\<rparr>"
    have rec: "\<exists>k. run_state (rmRec_fuel n (p @ ''/'' @ x) True) u =
        (True, u\<lparr>fs := without (comps p @ [x]) (fs u), calls := k\<rparr>)"
      if "reliable u" "wf_tree (fs u)" "comps p @ [x] \<in> fst ` set (fs u)" "deep (Suc n) p (fs u)"
      for x and u :: "'w world_scheme"
      using Suc.IH [of u "p @ ''/'' @ x"] comps_child [OF that(2,3)] deep_child [OF that(4)] that by simp
    obtain k where loop: "run_state (rm_entries (\<lambda>p. rmRec_fuel n p True) p ?ns) ?s =
        (True, s\<lparr>fs := emptied (comps p) (fs s), calls := k\<rparr>)"
      using rm_entries_reliable [of p n "\<lambda>p. rmRec_fuel n p True" ?s ?ns, OF rec] Suc.prems
        children_distinct [OF Suc.prems(2)] emptied_children [OF Suc.prems(2)]
      by (auto simp: children_iff)
    have "run_state (sys_rmdir p) (s\<lparr>fs := emptied (comps p) (fs s), calls := k\<rparr>) =
        (True, s\<lparr>fs := without (comps p) (fs s), calls := Suc k\<rparr>)"
      using Suc.prems nd Dir
      by (simp add: sys_rmdir_def node_at_def del_def delete_filter emptied_no_children emptied_without)
    moreover have "run_state (sys_opendir p) s = (Some ?ns, ?s)"
      using nd Dir Suc.prems by (simp add: sys_opendir_def is_dir_def)
    ultimately show ?thesis
      using nd Dir loop by (auto simp: isDir_def directory_exists_def is_dir_def)
  qed
qed

lemma deep_height: "deep (Suc (height t)) p t"
  unfolding deep_def
proof (intro allI impI)
  fix rel assume "comps p @ rel \<in> fst ` set t"
  then have "length (comps p @ rel) \<in> set (map (\<lambda>(k, _). length k) t) \<union> {0}" by force
  then have "length (comps p @ rel) \<le> height t" unfolding height_def by (intro Max_ge) auto
  then show "length rel < Suc (height t)" by simp
qed

lemma rmRec_reliable:
  assumes "reliable s" "wf_tree (fs s)" "comps p \<noteq> []" "node_at s p \<noteq> None"
  shows "\<exists>k. run_state (rmRec p True) s = (True, s\<lparr>fs := without (comps p) (fs s), calls := k\<rparr>)"
    and "node_at s p = Some Dir \<Longrightarrow>
      \<exists>k. run_state (rmRec p False) s = (True, s\<lparr>fs := emptied (comps p) (fs s), calls := k\<rparr>)"
proof -
  have "comps p \<in> fst ` set (fs s)"
    using assms(4) by (metis domIff dom_map_of_conv_image_fst node_at_def)
  with rmRec_fuel_reliable [OF assms(1-3) _ deep_height]
  show "\<exists>k. run_state (rmRec p True) s = (True, s\<lparr>fs := without (comps p) (fs s), calls := k\<rparr>)"
    and "node_at s p = Some Dir \<Longrightarrow>
      \<exists>k. run_state (rmRec p False) s = (True, s\<lparr>fs := emptied (comps p) (fs s), calls := k\<rparr>)"
    by (auto simp: rmRec_def node_at_def)
qed

lemma rmRec_missing:
  assumes "reliable s" "comps p \<noteq> []" "node_at s p = None"
  shows "\<exists>k e. run_state (rmRec p r) s = (False, s\<lparr>calls := k, errno := e\<rparr>)"
  using assms
  by (auto simp: rmRec_def isDir_def directory_exists_def is_dir_def node_at_def sys_unlink_def)

end
