(* ===== verification/Lw_Watch.thy ===== *)
theory Lw_Watch
  imports Lw_Files
begin

text \<open>
  A watch of log-watch (EventWatch.cpp): the items of a log it is given become records, records
  become events with files of their own. The model is of the build for a host, where an event is
  written to event_submission.txt instead of being sent to the log capture tool. Counters of the C++
  type \<open>unsigned int\<close> are natural numbers, with the remainder by 2^32 written out where arithmetic may
  wrap around; sizes of lists do not overflow. A front of an empty list, which C++ leaves undefined, is
  the failure \<open>Empty_front\<close>.
\<close>

definition MAILBOX_MAX_LIMIT :: nat where "MAILBOX_MAX_LIMIT = 5000"
definition SUSPEND_RECORDS_MAX_LIMIT :: nat where "SUSPEND_RECORDS_MAX_LIMIT = 50"
definition DEFAULT_MAX_COUNT :: nat where "DEFAULT_MAX_COUNT = 10"
definition DEFAULT_MAX_INTERVAL :: nat where "DEFAULT_MAX_INTERVAL = 60"

section \<open>The state of a watch\<close>

datatype thread_state = READY | RUNNING | STOPPED
datatype kill_reason = UNKNOWN | LAZY | NOISY | MAX_EVENTS

record watch =
  name :: string
  max_event_count :: nat
  max_event_interval :: nat
  event_suspend_interval :: nat
  keep_last :: nat
  mailbox_max :: nat
  start_pattern :: "item_pattern option"
  end_pattern :: "item_pattern option"
  valid_pattern :: "item_pattern option"
  body_patterns :: "item_pattern list"
  min_level :: nat
  max_level :: nat
  max_items :: nat
  event_level :: nat
  data_formats :: "data_format list"
  attachments :: "event_attachment list"
  max_records :: nat
  max_suspend_records :: nat
  flush_timeout :: nat
  records :: "event_record list"
  suspend_records :: "event_record list"
  cur_record :: "event_record option"
  mailbox :: "log_item list"
  event_log :: "timeval list"
  accept_data :: bool
  flush_count :: nat
  suspend_records_count :: nat
  suspend_until :: timeval
  thread_state :: thread_state
  kill_reason :: kill_reason

text \<open>What a watch shares with the program: the regular expressions, programs and configuration.\<close>

record lw_env =
  rx :: regex
  prog :: programs
  work_dir :: string
  instance_name :: string
  watcher_stats :: bool

definition new_watch :: "string option \<Rightarrow> watch" where
  "new_watch n = \<lparr>name = (case n of Some x \<Rightarrow> x | None \<Rightarrow> ''Unnamed''),
     max_event_count = DEFAULT_MAX_COUNT, max_event_interval = DEFAULT_MAX_INTERVAL,
     event_suspend_interval = 0, keep_last = 3, mailbox_max = MAILBOX_MAX_LIMIT,
     start_pattern = None, end_pattern = None, valid_pattern = None, body_patterns = [],
     min_level = 0, max_level = 7, max_items = 1, event_level = 0, data_formats = [], attachments = [],
     max_records = 10, max_suspend_records = 0, flush_timeout = 120,
     records = [], suspend_records = [], cur_record = None, mailbox = [], event_log = [],
     accept_data = True, flush_count = 0, suspend_records_count = 0, suspend_until = mk_timeval (-1) 0,
     thread_state = READY, kill_reason = UNKNOWN\<rparr>"

section \<open>Configuration\<close>

definition checked_pattern :: "regex \<Rightarrow> string \<Rightarrow> item_pattern option" where
  "checked_pattern r p = (let pat = new_pattern r p in if pattern_valid pat then Some pat else None)"

definition addBodyPattern :: "regex \<Rightarrow> string \<Rightarrow> watch \<Rightarrow> watch" where
  "addBodyPattern r p w =
    (case checked_pattern r p of None \<Rightarrow> w | Some pat \<Rightarrow> w\<lparr>body_patterns := body_patterns w @ [pat]\<rparr>)"

definition setEndPattern :: "regex \<Rightarrow> string \<Rightarrow> watch \<Rightarrow> watch" where
  "setEndPattern r p w = w\<lparr>end_pattern := checked_pattern r p\<rparr>"

definition setStartPattern :: "regex \<Rightarrow> string \<Rightarrow> watch \<Rightarrow> watch" where
  "setStartPattern r p w = w\<lparr>start_pattern := checked_pattern r p\<rparr>"

definition setValidPattern :: "regex \<Rightarrow> string \<Rightarrow> watch \<Rightarrow> watch" where
  "setValidPattern r p w = w\<lparr>valid_pattern := checked_pattern r p\<rparr>"

definition watch_valid :: "watch \<Rightarrow> bool" where
  "watch_valid w \<longleftrightarrow> (case start_pattern w of None \<Rightarrow> False | Some p \<Rightarrow> pattern_valid p)"

definition setDataFormats :: "nat \<Rightarrow> string \<Rightarrow> bool \<Rightarrow> watch \<Rightarrow> watch" where
  "setDataFormats i p rep w =
    (if i > 5 then w
     else w\<lparr>data_formats := (data_formats w @ replicate (Suc i - length (data_formats w)) (new_format '''' False))
              [i := new_format p rep]\<rparr>)"

definition setMaxEvents :: "nat \<Rightarrow> nat \<Rightarrow> watch \<Rightarrow> watch" where
  "setMaxEvents maxEventCount maxEventInterval w =
    (if maxEventInterval \<noteq> 0 \<and>
        ((maxEventCount * 100) mod 2 ^ 32) div maxEventInterval > (DEFAULT_MAX_COUNT * 100) div DEFAULT_MAX_INTERVAL
     then w\<lparr>max_event_count := DEFAULT_MAX_COUNT, max_event_interval := DEFAULT_MAX_INTERVAL\<rparr>
     else w\<lparr>max_event_count := maxEventCount, max_event_interval := maxEventInterval\<rparr>)"

definition setMaxSuspendRecords :: "nat \<Rightarrow> watch \<Rightarrow> watch" where
  "setMaxSuspendRecords m w =
    (if m > SUSPEND_RECORDS_MAX_LIMIT then w\<lparr>mailbox_max := SUSPEND_RECORDS_MAX_LIMIT\<rparr>
     else w\<lparr>max_suspend_records := m\<rparr>)"

definition setMailboxMax :: "nat \<Rightarrow> watch \<Rightarrow> watch" where
  "setMailboxMax m w = w\<lparr>mailbox_max := (if m > MAILBOX_MAX_LIMIT then MAILBOX_MAX_LIMIT else m)\<rparr>"

definition setEventLevel :: "nat \<Rightarrow> watch \<Rightarrow> watch" where
  "setEventLevel l w = w\<lparr>event_level := l\<rparr>"

section \<open>Records\<close>

definition addRecord :: "event_record \<Rightarrow> watch \<Rightarrow> watch" where
  "addRecord r w =
    (if \<not> valid r then w
     else if event_suspend_interval w \<noteq> 0 \<and> rec_time r \<le> suspend_until w then
       let n = Suc (suspend_records_count w); l = suspend_records w @ [r] in
       if max_suspend_records w \<noteq> 0
       then w\<lparr>suspend_records_count := n,
              suspend_records := (if n > max_suspend_records w then tl l else l)\<rparr>
       else w\<lparr>suspend_records_count := n\<rparr>
     else w\<lparr>records := records w @ [r]\<rparr>)"

text \<open>The record in hand is added, and there is none any more.\<close>

definition close_record :: "watch \<Rightarrow> watch" where
  "close_record w = (case cur_record w of None \<Rightarrow> w | Some r \<Rightarrow> (addRecord r w)\<lparr>cur_record := None\<rparr>)"

definition start_record :: "log_item \<Rightarrow> item_pattern \<Rightarrow> watch \<Rightarrow> failure + watch" where
  "start_record li sp w =
    (let w = close_record w; r = addItem li new_record in
     if valid_pattern w = None
     then (case getLastMatches sp of
             Inl e \<Rightarrow> Inl e
           | Inr c \<Rightarrow> Inr (w\<lparr>cur_record := Some (r\<lparr>captures := c, valid := True\<rparr>)\<rparr>))
     else Inr (w\<lparr>cur_record := Some r\<rparr>))"

fun check_body :: "regex \<Rightarrow> string \<Rightarrow> item_pattern list \<Rightarrow> bool \<times> item_pattern list" where
  "check_body r m [] = (False, [])"
| "check_body r m (p # ps) =
    (case check_pattern r p m of
       (True, p') \<Rightarrow> (True, p' # ps)
     | (False, p') \<Rightarrow> (case check_body r m ps of (b, ps') \<Rightarrow> (b, p' # ps')))"

definition body_item :: "regex \<Rightarrow> log_item \<Rightarrow> event_record \<Rightarrow> watch \<Rightarrow> bool \<times> watch" where
  "body_item r li rec w =
    (if body_patterns w \<noteq> [] then
       (case check_body r (msg li) (body_patterns w) of
          (True, ps) \<Rightarrow> (True, w\<lparr>body_patterns := ps, cur_record := Some (addItem li rec)\<rparr>)
        | (False, ps) \<Rightarrow> (False, w\<lparr>body_patterns := ps\<rparr>))
     else (True, w\<lparr>cur_record := Some (addItem li rec)\<rparr>))"

definition valid_item :: "regex \<Rightarrow> log_item \<Rightarrow> event_record \<Rightarrow> watch \<Rightarrow> failure + bool \<times> watch" where
  "valid_item r li rec w =
    (case valid_pattern w of
       None \<Rightarrow> Inr (body_item r li rec w)
     | Some vp \<Rightarrow>
        (case check_pattern r vp (msg li) of
           (False, vp') \<Rightarrow> Inr (body_item r li rec (w\<lparr>valid_pattern := Some vp'\<rparr>))
         | (True, vp') \<Rightarrow>
             (case getLastMatches vp' of
                Inl e \<Rightarrow> Inl e
              | Inr c \<Rightarrow> Inr (True, w\<lparr>valid_pattern := Some vp',
                                      cur_record := Some ((addItem li rec)\<lparr>captures := c, valid := True\<rparr>)\<rparr>))))"

definition continue_record :: "regex \<Rightarrow> log_item \<Rightarrow> watch \<Rightarrow> failure + bool \<times> watch" where
  "continue_record r li w =
    (case cur_record w of
       None \<Rightarrow> Inr (False, w)
     | Some rec \<Rightarrow>
        (case end_pattern w of
           None \<Rightarrow> valid_item r li rec w
         | Some ep \<Rightarrow>
            (case check_pattern r ep (msg li) of
               (True, ep') \<Rightarrow> Inr (True, (addRecord (addItem li rec) (w\<lparr>end_pattern := Some ep'\<rparr>))\<lparr>cur_record := None\<rparr>)
             | (False, ep') \<Rightarrow> valid_item r li rec (w\<lparr>end_pattern := Some ep'\<rparr>))))"

definition take_item :: "regex \<Rightarrow> log_item \<Rightarrow> watch \<Rightarrow> failure + bool \<times> watch" where
  "take_item r li w =
    (case start_pattern w of
       None \<Rightarrow> continue_record r li w
     | Some sp \<Rightarrow>
        (case check_pattern r sp (msg li) of
           (True, sp') \<Rightarrow> (case start_record li sp' (w\<lparr>start_pattern := Some sp'\<rparr>) of
                             Inl e \<Rightarrow> Inl e | Inr w \<Rightarrow> Inr (True, w))
         | (False, sp') \<Rightarrow> continue_record r li (w\<lparr>start_pattern := Some sp'\<rparr>)))"

text \<open>A record that is full or older than the timeout is closed.\<close>

definition full_record :: "bool \<Rightarrow> watch \<Rightarrow> watch" where
  "full_record taken w =
    (case cur_record w of
       Some r \<Rightarrow> if taken \<and> itemCount r \<ge> max_items w then close_record w else w
     | None \<Rightarrow> w)"

definition stale_record :: "log_item \<Rightarrow> watch \<Rightarrow> watch" where
  "stale_record li w =
    (case cur_record w of
       Some r \<Rightarrow> if tv_minus (timestamp li) (rec_time r) \<ge> mk_timeval (int (flush_timeout w)) 0
                 then close_record w else w
     | None \<Rightarrow> w)"

definition gather :: "regex \<Rightarrow> log_item \<Rightarrow> watch \<Rightarrow> failure + watch" where
  "gather r li w =
    (if \<not> eof li
     then (case take_item r li w of
             Inl e \<Rightarrow> Inl e
           | Inr (taken, w) \<Rightarrow> Inr (stale_record li (full_record taken w)))
     else Inr (stale_record li (close_record w)))"

end
