(* ===== verification/Lw_Flush.thy ===== *)
theory Lw_Flush
  imports Lw_Watch
begin

text \<open>
  The events of a watch (EventWatch.cpp, \<open>flush\<close> and \<open>process\<close>): the directory of an event and its
  files, the data fields, the limit on the number of events in an interval.
\<close>

section \<open>The directory of an event\<close>

definition PATH_MAX :: nat where "PATH_MAX = 4096"

definition getWorkDir :: "lw_env \<Rightarrow> string" where
  "getWorkDir e = (if work_dir e = '''' then ''.'' else work_dir e)"

definition getInstanceName :: "lw_env \<Rightarrow> string" where
  "getInstanceName e = (if instance_name e = '''' then ''LW'' else instance_name e)"

definition getOutputDirName :: "lw_env \<Rightarrow> watch \<Rightarrow> nat \<Rightarrow> string" where
  "getOutputDirName e w i =
    snprintf PATH_MAX (getWorkDir e @ ''/'' @ name w @ ''/'' @ pad_left (CHR ''0'') 3 (show_nat i))"

definition make_or_empty :: "string \<Rightarrow> ('w, bool) op" where
  "make_or_empty p = do {
     d \<leftarrow> gets (isDir p);
     if \<not> d then sys_mkdir p else rmRec p False }"

definition setupOutputDir :: "lw_env \<Rightarrow> watch \<Rightarrow> string \<Rightarrow> ('w, bool) op" where
  "setupOutputDir e w path = do {
     ok \<leftarrow> (if flush_count w = 0 then do {
              d \<leftarrow> gets (isDir (getWorkDir e));
              ok \<leftarrow> (if \<not> d then sys_mkdir (getWorkDir e) else ret True);
              if \<not> ok then ret False else make_or_empty (getWorkDir e @ ''/'' @ name w) }
            else ret True);
     if \<not> ok then ret False else make_or_empty path }"

section \<open>The files of an event\<close>

definition record_text :: "nat \<Rightarrow> event_record \<Rightarrow> string" where
  "record_text i r =
    ''Record '' @ show_nat i @ '':'' @ [NL] @ concat (map (\<lambda>li. msg li @ [NL]) (items r)) @ [NL]"

fun records_text :: "nat \<Rightarrow> event_record list \<Rightarrow> string" where
  "records_text i [] = ''''"
| "records_text i (r # rs) = record_text i r @ records_text (Suc i) rs"

definition write_file :: "string \<Rightarrow> string \<Rightarrow> ('w, unit) op" where
  "write_file p text = do {
     ok \<leftarrow> open_trunc p;
     if ok then do { _ \<leftarrow> write_end p text; ret () } else ret () }"

definition suspend_text :: "watch \<Rightarrow> string" where
  "suspend_text w =
    (if suspend_records_count w > max_suspend_records w
     then show_nat (suspend_records_count w - max_suspend_records w) @ '' records dropped '' @ [NL] @
          ''---------------------'' @ [NL, NL]
     else '''') @ records_text 0 (suspend_records w)"

definition write_suspend :: "string \<Rightarrow> watch \<Rightarrow> ('w, string \<times> watch) op" where
  "write_suspend root w =
    (if suspend_records_count w \<noteq> 0 \<and> max_suspend_records w \<noteq> 0 then do {
       write_file (root @ ''/suspend.txt'') (suspend_text w);
       ret ('';'' @ root @ ''/suspend.txt'', w\<lparr>suspend_records := []\<rparr>) }
     else ret ('''', w))"

text \<open>
  The data fields: for every record, the formats in order, each with the field of the same number.
\<close>

definition set_counts :: "nat \<Rightarrow> nat \<Rightarrow> nat \<Rightarrow> data_format \<Rightarrow> data_format" where
  "set_counts i n s f =
    setMap (CHR ''S'') (show_nat s) (setMap (CHR ''R'') (show_nat n) (setMap (CHR ''r'') (show_nat i) f))"

definition add_field :: "nat \<Rightarrow> string \<Rightarrow> string \<Rightarrow> string" where
  "add_field i d tmp = (if tmp = '''' then d else if i \<noteq> 0 then d @ '', '' @ tmp else d @ tmp)"

fun format_fields :: "nat \<Rightarrow> nat \<Rightarrow> nat \<Rightarrow> string list \<Rightarrow> data_format list \<Rightarrow> string list \<Rightarrow>
    failure + data_format list \<times> string list" where
  "format_fields i n s cap [] ds = Inr ([], ds)"
| "format_fields i n s cap (f # fmts) [] = Inl Out_of_range"
| "format_fields i n s cap (f # fmts) (d # ds) =
    (case (if i = 0 \<or> repeat f
           then (case format cap (set_counts i n s f) of
                   (None, _) \<Rightarrow> Inl Never_returns
                 | (Some tmp, f') \<Rightarrow> Inr (f', add_field i d tmp))
           else Inr (f, d)) of
       Inl e \<Rightarrow> Inl e
     | Inr (f', d') \<Rightarrow>
        (case format_fields i n s cap fmts ds of
           Inl e \<Rightarrow> Inl e
         | Inr (fmts', ds') \<Rightarrow> Inr (f' # fmts', d' # ds')))"

fun record_fields :: "nat \<Rightarrow> nat \<Rightarrow> nat \<Rightarrow> event_record list \<Rightarrow> data_format list \<Rightarrow> string list \<Rightarrow>
    failure + data_format list \<times> string list" where
  "record_fields i n s [] fmts ds = Inr (fmts, ds)"
| "record_fields i n s (r # rs) fmts ds =
    (case format_fields i n s (captures r) fmts ds of
       Inl e \<Rightarrow> Inl e
     | Inr (fmts', ds') \<Rightarrow> record_fields (Suc i) n s rs fmts' ds')"

fun get_attachments :: "programs \<Rightarrow> string \<Rightarrow> string list \<Rightarrow> event_attachment list \<Rightarrow> string \<Rightarrow>
    ('w, failure + string) op" where
  "get_attachments pr root cap [] files = ret (Inr files)"
| "get_attachments pr root cap (a # as) files = do {
     r \<leftarrow> att_get pr root cap a;
     (case r of
        Inl e \<Rightarrow> ret (Inl e)
      | Inr p \<Rightarrow> get_attachments pr root cap as (if p = '''' then files else files @ '';'' @ p)) }"

fun event_data_lines :: "nat \<Rightarrow> string list \<Rightarrow> string" where
  "event_data_lines i [] = ''''"
| "event_data_lines i (d # ds) =
    (if d = '''' then '''' else ''Data['' @ show_nat i @ '']: '' @ d @ [NL]) @ event_data_lines (Suc i) ds"

definition submission_text :: "lw_env \<Rightarrow> watch \<Rightarrow> string list \<Rightarrow> string \<Rightarrow> string" where
  "submission_text e w texts files =
    ''lct_level: '' @ show_nat (event_level w) @ [NL] @
    ''lct_submitter: '' @ getInstanceName e @ [NL] @
    ''lct_event: '' @ name w @ [NL] @ '' 0,'' @ [NL] @ event_data_lines 0 texts @ ''Att: '' @ files @ [NL]"

text \<open>\<open>flush\<close> up to the files, in two parts; what it leaves in the watch.\<close>

definition finish_files :: "lw_env \<Rightarrow> string \<Rightarrow> string \<Rightarrow> watch \<Rightarrow> ('w, failure + watch) op" where
  "finish_files e root files0 w =
    (case record_fields 0 (length (records w)) (suspend_records_count w) (records w) (data_formats w)
             (replicate 6 '''') of
        Inl err \<Rightarrow> ret (Inl err)
      | Inr (formats, texts) \<Rightarrow> do {
          r \<leftarrow> (if attachments w = [] then ret (Inr files0)
                else (case records w of
                        [] \<Rightarrow> ret (Inl Empty_front)
                      | r # _ \<Rightarrow> get_attachments (prog e) root (captures r) (attachments w) files0));
          (case r of
             Inl err \<Rightarrow> ret (Inl err)
           | Inr files \<Rightarrow> do {
               write_file (root @ ''/event_submission.txt'') (submission_text e w texts files);
               ret (Inr (w\<lparr>data_formats := formats, suspend_records_count := 0\<rparr>)) }) })"

definition flush_files :: "lw_env \<Rightarrow> watch \<Rightarrow> ('w, failure + watch) op" where
  "flush_files e w = do {
     _ \<leftarrow> (if flush_count w \<ge> keep_last w
           then rmRec (getOutputDirName e w (flush_count w - keep_last w)) True else ret True);
     let root = getOutputDirName e w (flush_count w);
     _ \<leftarrow> setupOutputDir e w root;
     write_file (root @ ''/summary.txt'') (records_text 0 (records w));
     (suspended, w) \<leftarrow> write_suspend root w;
     finish_files e root (root @ ''/summary.txt'' @ suspended) w }"

section \<open>The limit on events\<close>

definition logEvent :: "timeval \<Rightarrow> watch \<Rightarrow> watch" where
  "logEvent ts w =
    (if max_event_interval w = 0 then w
     else let l = ts # event_log w in
       w\<lparr>event_log := (if length l > (max_event_count w + 1) mod 2 ^ 32 then butlast l else l)\<rparr>)"

definition logContinue :: "watch \<Rightarrow> failure + bool" where
  "logContinue w =
    (if max_event_interval w = 0 \<and> max_event_count w \<noteq> 0 then Inr (flush_count w < max_event_count w)
     else if flush_count w \<le> max_event_count w then Inr True
     else if event_log w = [] then Inl Empty_front
     else Inr (tv_minus (hd (event_log w)) (last (event_log w)) \<ge> mk_timeval (int (max_event_interval w)) 0))"

definition kill_watch :: "watch \<Rightarrow> watch" where
  "kill_watch w = w\<lparr>kill_reason := (if max_event_interval w \<noteq> 0 then NOISY else MAX_EVENTS),
                     accept_data := False, mailbox := [eof_item]\<rparr>"

definition flush_log :: "watch \<Rightarrow> failure + watch" where
  "flush_log w0 =
    (let w = w0\<lparr>flush_count := (flush_count w0 + 1) mod 2 ^ 32\<rparr> in
     case records w of
       [] \<Rightarrow> Inl Empty_front
     | r # _ \<Rightarrow>
        (case items r of
           [] \<Rightarrow> Inl Empty_front
         | li # _ \<Rightarrow>
            let w = logEvent (timestamp li) w in
            if accept_data w then
              (case logContinue w of
                 Inl e \<Rightarrow> Inl e
               | Inr go \<Rightarrow> Inr ((if \<not> go then kill_watch w else w)\<lparr>records := []\<rparr>))
            else Inr (w\<lparr>records := []\<rparr>)))"

definition flush :: "lw_env \<Rightarrow> watch \<Rightarrow> ('w, failure + watch) op" where
  "flush e w = do {
     r \<leftarrow> flush_files e w;
     ret (case r of Inl err \<Rightarrow> Inl err | Inr w \<Rightarrow> flush_log w) }"

section \<open>One item\<close>

text \<open>The next event waits for the suspend interval, counted from the first record of this one.\<close>

definition suspend_watch :: "watch \<Rightarrow> failure + watch" where
  "suspend_watch w =
    (if event_suspend_interval w = 0 then Inr w
     else (case records w of
             [] \<Rightarrow> Inl Empty_front
           | r # _ \<Rightarrow> Inr (w\<lparr>suspend_until := tv_plus (rec_time r) (mk_timeval (int (event_suspend_interval w)) 0)\<rparr>)))"

definition due :: "log_item \<Rightarrow> watch \<Rightarrow> bool" where
  "due li w \<longleftrightarrow> length (records w) \<ge> max_records w \<or>
    (records w \<noteq> [] \<and>
     tv_minus (timestamp li) (rec_time (hd (records w))) \<ge> mk_timeval (int (flush_timeout w)) 0)"

definition emit :: "lw_env \<Rightarrow> log_item \<Rightarrow> watch \<Rightarrow> ('w, failure + watch) op" where
  "emit e li w =
    (if due li w then
       (case suspend_watch w of Inl err \<Rightarrow> ret (Inl err) | Inr w \<Rightarrow> flush e w)
     else if eof li then do {
       r \<leftarrow> (if records w \<noteq> [] then flush e w else ret (Inr w));
       ret (case r of Inl err \<Rightarrow> Inl err | Inr w \<Rightarrow> Inr (w\<lparr>suspend_records := []\<rparr>)) }
     else ret (Inr w))"

definition process :: "lw_env \<Rightarrow> log_item \<Rightarrow> watch \<Rightarrow> ('w, failure + bool \<times> watch) op" where
  "process e li w =
    (case gather (rx e) li w of
       Inl err \<Rightarrow> ret (Inl err)
     | Inr w \<Rightarrow> do {
         r \<leftarrow> emit e li w;
         ret (case r of Inl err \<Rightarrow> Inl err | Inr w \<Rightarrow> Inr (\<not> eof li, w)) })"

text \<open>The thread of a watch over a list of items, until \<open>process\<close> says to stop.\<close>

fun run_items :: "lw_env \<Rightarrow> log_item list \<Rightarrow> watch \<Rightarrow> ('w, failure + watch) op" where
  "run_items e [] w = ret (Inr w)"
| "run_items e (li # lis) w = do {
     r \<leftarrow> process e li w;
     (case r of
        Inl err \<Rightarrow> ret (Inl err)
      | Inr (go, w) \<Rightarrow> if go then run_items e lis w else ret (Inr w)) }"

end
