(* ===== verification/Lw_Limits.thy ===== *)
theory Lw_Limits
  imports Lw_Flush
begin

text \<open>
  What a watch keeps to: with patterns that leave no group out and texts without a percent sign it
  never fails, in any world; its lists are bounded; and as long as it accepts data, its events keep the
  distance in time that their limit asks for.
\<close>

section \<open>A watch that does not fail\<close>

definition good_format :: "data_format \<Rightarrow> bool" where
  "good_format f \<longleftrightarrow> (\<forall>k v. h_map f k = Some v \<longrightarrow> PC \<notin> set v) \<and> (\<forall>c \<in> set (df_captures f). PC \<notin> set c)"

definition good_record :: "event_record \<Rightarrow> bool" where
  "good_record r \<longleftrightarrow> items r \<noteq> [] \<and> (\<forall>c \<in> set (captures r). PC \<notin> set c)"

definition good_pattern :: "regex \<Rightarrow> item_pattern \<Rightarrow> bool" where
  "good_pattern r p \<longleftrightarrow> match_count p = countCaptures (pattern p) \<and> full_groups r (pattern p)"

definition good_watch :: "regex \<Rightarrow> watch \<Rightarrow> bool" where
  "good_watch r w \<longleftrightarrow>
     (\<forall>p. start_pattern w = Some p \<longrightarrow> good_pattern r p) \<and>
     (\<forall>p. valid_pattern w = Some p \<longrightarrow> good_pattern r p) \<and>
     0 < max_records w \<and> 0 < max_event_count w \<and> max_event_count w + 1 < 2 ^ 32 \<and>
     length (data_formats w) \<le> 6 \<and> (\<forall>f \<in> set (data_formats w). good_format f) \<and>
     (\<forall>rec \<in> set (records w). good_record rec) \<and> (\<forall>rec. cur_record w = Some rec \<longrightarrow> good_record rec)"

lemma good_matches:
  assumes "good_pattern r p" "check_pattern r p s = (True, p')" "PC \<notin> set s"
  shows "\<exists>c. getLastMatches p' = Inr c \<and> (\<forall>x \<in> set c. PC \<notin> set x) \<and> good_pattern r p'"
proof -
  let ?g = "\<lambda>(so, eo). take (nat (eo - so)) (drop (nat so) s)"
  obtain g where g: "groups r (pattern p) s = Some g"
    using assms(2) by (auto simp: check_pattern_def regexec_def split: option.splits)
  with assms have n: "match_count p \<le> length g"
    and all: "\<forall>(so, eo) \<in> set g. 0 \<le> so \<and> so \<le> eo \<and> eo \<le> int (length s)"
    by (auto simp: good_pattern_def full_groups_def)
  have p': "p' = p\<lparr>last_error := False, pmatches := take (match_count p) g, last_string := s\<rparr>"
    using assms(2) g n by (simp add: check_pattern_def regexec_def)
  have "sub_matches s (take (match_count p) g) = Inr (map ?g (take (match_count p) g))"
    using all by (intro sub_matches_in_range) (auto dest: in_set_takeD)
  moreover have "PC \<notin> set (?g x)" for x
    using assms(3) by (cases x) (auto dest: in_set_takeD in_set_dropD)
  ultimately show ?thesis
    using assms(1) p' by (auto simp: getLastMatches_def good_pattern_def)
qed

lemma good_check: "good_pattern r p \<Longrightarrow> check_pattern r p s = (b, p') \<Longrightarrow> good_pattern r p'"
  by (metis check_pattern_fields good_pattern_def snd_conv)

lemma good_addItem [simp]: "good_record rec \<Longrightarrow> good_record (addItem li rec)"
  by (simp add: good_record_def addItem_def)

lemma good_new_item [simp]: "good_record (addItem li new_record)"
  by (simp add: good_record_def addItem_def new_record_def)

lemma good_captures [simp]:
  "good_record rec \<Longrightarrow> \<forall>x \<in> set c. PC \<notin> set x \<Longrightarrow> good_record (rec\<lparr>captures := c, valid := True\<rparr>)"
  by (simp add: good_record_def)

lemma good_updates [simp]:
  "good_watch r (w\<lparr>end_pattern := ep\<rparr>) = good_watch r w"
  "good_watch r (w\<lparr>body_patterns := ps\<rparr>) = good_watch r w"
  "good_watch r (w\<lparr>suspend_records := sr\<rparr>) = good_watch r w"
  "good_watch r (w\<lparr>suspend_records_count := n\<rparr>) = good_watch r w"
  "good_watch r (w\<lparr>suspend_until := t\<rparr>) = good_watch r w"
  "good_watch r (w\<lparr>flush_count := n\<rparr>) = good_watch r w"
  "good_watch r (w\<lparr>event_log := el\<rparr>) = good_watch r w"
  "good_watch r (w\<lparr>mailbox := m\<rparr>) = good_watch r w"
  "good_watch r (w\<lparr>accept_data := b\<rparr>) = good_watch r w"
  "good_watch r (w\<lparr>kill_reason := kr\<rparr>) = good_watch r w"
  by (simp_all add: good_watch_def)

lemma good_sets:
  "good_watch r w \<Longrightarrow> good_pattern r p \<Longrightarrow> good_watch r (w\<lparr>start_pattern := Some p\<rparr>)"
  "good_watch r w \<Longrightarrow> good_pattern r p \<Longrightarrow> good_watch r (w\<lparr>valid_pattern := Some p\<rparr>)"
  "good_watch r w \<Longrightarrow> good_record rec \<Longrightarrow> good_watch r (w\<lparr>cur_record := Some rec\<rparr>)"
  "good_watch r w \<Longrightarrow> good_watch r (w\<lparr>cur_record := None\<rparr>)"
  "good_watch r w \<Longrightarrow> good_watch r (w\<lparr>records := []\<rparr>)"
  "good_watch r w \<Longrightarrow> \<forall>rec \<in> set rs. good_record rec \<Longrightarrow> good_watch r (w\<lparr>records := rs\<rparr>)"
  "good_watch r w \<Longrightarrow> length fmts \<le> 6 \<Longrightarrow> \<forall>f \<in> set fmts. good_format f \<Longrightarrow> good_watch r (w\<lparr>data_formats := fmts\<rparr>)"
  by (simp_all add: good_watch_def)

lemma good_cur: "good_watch r w \<Longrightarrow> cur_record w = Some rec \<Longrightarrow> good_record rec"
  by (simp add: good_watch_def)

lemma good_addRecord: "good_watch r w \<Longrightarrow> good_record rec \<Longrightarrow> good_watch r (addRecord rec w)"
  by (auto simp: addRecord_def Let_def good_watch_def)

lemma good_close: "good_watch r w \<Longrightarrow> good_watch r (close_record w)"
  by (auto simp: close_record_def intro!: good_sets(4) good_addRecord good_cur split: option.split)

lemma good_stale: "good_watch r w \<Longrightarrow> good_watch r (stale_record li w)"
  by (simp add: stale_record_def good_close split: option.split)

lemma good_full: "good_watch r w \<Longrightarrow> good_watch r (full_record t w)"
  by (simp add: full_record_def good_close split: option.split)

lemma good_start:
  assumes "good_watch r w" "good_pattern r sp" "check_pattern r sp (msg li) = (True, sp')" "PC \<notin> set (msg li)"
  shows "\<exists>w'. start_record li sp' (w\<lparr>start_pattern := Some sp'\<rparr>) = Inr w' \<and> good_watch r w'"
proof -
  obtain c where c: "getLastMatches sp' = Inr c" "\<forall>x \<in> set c. PC \<notin> set x" "good_pattern r sp'"
    using good_matches [OF assms(2-4)] by blast
  have "good_watch r (close_record (w\<lparr>start_pattern := Some sp'\<rparr>))"
    using assms(1) c(3) by (intro good_close good_sets(1))
  with c show ?thesis by (simp add: start_record_def Let_def good_sets)
qed

lemma good_body:
  "good_watch r w \<Longrightarrow> good_record rec \<Longrightarrow> good_watch r (snd (body_item rr li rec w))"
  by (auto simp: body_item_def intro!: good_sets split: prod.split bool.split)

lemma good_valid:
  assumes "good_watch r w" "good_record rec" "PC \<notin> set (msg li)"
  shows "\<exists>b w'. valid_item r li rec w = Inr (b, w') \<and> good_watch r w'"
proof (cases "valid_pattern w")
  case None
  with good_body [OF assms(1,2), of r li] show ?thesis
    by (cases "body_item r li rec w") (simp add: valid_item_def)
next
  case (Some vp)
  with assms(1) have vp: "good_pattern r vp" by (simp add: good_watch_def)
  obtain b vp' where c: "check_pattern r vp (msg li) = (b, vp')" by fastforce
  have w': "good_watch r (w\<lparr>valid_pattern := Some vp'\<rparr>)"
    using assms(1) good_check [OF vp c] by (rule good_sets)
  show ?thesis
  proof (cases b)
    case True
    with c have "check_pattern r vp (msg li) = (True, vp')" by simp
    from good_matches [OF vp this assms(3)]
    obtain m where "getLastMatches vp' = Inr m" "\<forall>x \<in> set m. PC \<notin> set x" by blast
    with Some c True w' assms(2) show ?thesis
      by (auto simp: valid_item_def intro!: good_sets(3))
  next
    case False
    with Some c good_body [OF w' assms(2), of r li] show ?thesis
      by (cases "body_item r li rec (w\<lparr>valid_pattern := Some vp'\<rparr>)") (simp add: valid_item_def)
  qed
qed

lemma good_continue:
  assumes "good_watch r w" "PC \<notin> set (msg li)"
  shows "\<exists>b w'. continue_record r li w = Inr (b, w') \<and> good_watch r w'"
proof (cases "cur_record w")
  case None
  with assms show ?thesis by (auto simp: continue_record_def)
next
  case (Some rec)
  with assms(1) have rec: "good_record rec" by (rule good_cur)
  show ?thesis
  proof (cases "end_pattern w")
    case None
    with Some good_valid [OF assms(1) rec assms(2)] show ?thesis by (simp add: continue_record_def)
  next
    case ep: (Some ep)
    obtain b ep' where c: "check_pattern r ep (msg li) = (b, ep')" by fastforce
    have w': "good_watch r (w\<lparr>end_pattern := Some ep'\<rparr>)" using assms(1) by simp
    from Some ep c rec good_valid [OF w' rec assms(2)] good_addRecord [OF w', of "addItem li rec"]
    show ?thesis by (cases b) (auto simp: continue_record_def intro!: good_sets(4))
  qed
qed

lemma good_take:
  assumes "good_watch r w" "PC \<notin> set (msg li)"
  shows "\<exists>b w'. take_item r li w = Inr (b, w') \<and> good_watch r w'"
proof (cases "start_pattern w")
  case None
  with good_continue [OF assms] show ?thesis by (simp add: take_item_def)
next
  case (Some sp)
  with assms(1) have sp: "good_pattern r sp" by (simp add: good_watch_def)
  obtain b sp' where c: "check_pattern r sp (msg li) = (b, sp')" by fastforce
  have w': "good_watch r (w\<lparr>start_pattern := Some sp'\<rparr>)"
    using assms(1) good_check [OF sp c] by (rule good_sets)
  show ?thesis
  proof (cases b)
    case True
    with Some c good_start [OF assms(1) sp _ assms(2)] show ?thesis by (auto simp: take_item_def)
  next
    case False
    with Some c good_continue [OF w' assms(2)] show ?thesis by (auto simp: take_item_def)
  qed
qed

lemma good_gather:
  assumes "good_watch r w" "PC \<notin> set (msg li)"
  shows "\<exists>w'. gather r li w = Inr w' \<and> good_watch r w'"
  using good_take [OF assms] assms(1)
  by (auto simp: gather_def intro!: good_stale good_full good_close)

section \<open>Flushing does not fail either\<close>

lemma show_nat_no_percent [simp]: "PC \<notin> set (show_nat n)"
  using show_nat_digits [of n] by auto

lemma good_set_counts: "good_format f \<Longrightarrow> good_format (set_counts i n s f)"
  by (auto simp: good_format_def set_counts_def setMap_def)

lemma good_format_runs:
  assumes "good_format f" "\<forall>c \<in> set cap. PC \<notin> set c"
  shows "\<exists>tmp f'. format cap f = (Some tmp, f') \<and> good_format f'"
proof -
  have "\<exists>tmp. fst (format cap f) = Some tmp"
    using assms by (intro format_ends) (auto simp: good_format_def used_captures_def split: if_splits)
  moreover have "good_format (snd (format cap f))"
    using assms by (auto simp: format_def good_format_def setCaptures_def Let_def)
  ultimately show ?thesis by (cases "format cap f") auto
qed

lemma good_format_fields:
  assumes "\<forall>c \<in> set cap. PC \<notin> set c"
  shows "length fmts \<le> length ds \<Longrightarrow> \<forall>f \<in> set fmts. good_format f \<Longrightarrow>
    \<exists>fmts' ds'. format_fields i n s cap fmts ds = Inr (fmts', ds') \<and> length fmts' = length fmts \<and>
      length ds' = length ds \<and> (\<forall>f \<in> set fmts'. good_format f)"
proof (induction fmts arbitrary: ds)
  case (Cons f fmts)
  then obtain d ds' where ds: "ds = d # ds'" by (cases ds) auto
  have "length fmts \<le> length ds'" "\<forall>f \<in> set fmts. good_format f" using Cons.prems ds by simp_all
  from Cons.IH [OF this] obtain fmts' ds'' where r: "format_fields i n s cap fmts ds' = Inr (fmts', ds'')"
    "length fmts' = length fmts" "length ds'' = length ds'" "\<forall>f \<in> set fmts'. good_format f" by blast
  obtain tmp f' where "format cap (set_counts i n s f) = (Some tmp, f')" "good_format f'"
    using good_format_runs [OF good_set_counts assms] Cons.prems by (metis list.set_intros(1))
  with r ds Cons.prems show ?case by auto
qed simp

lemma good_record_fields:
  "length fmts \<le> length ds \<Longrightarrow> \<forall>f \<in> set fmts. good_format f \<Longrightarrow> \<forall>r \<in> set rs. good_record r \<Longrightarrow>
   \<exists>fmts' ds'. record_fields i n s rs fmts ds = Inr (fmts', ds') \<and> length fmts' = length fmts \<and>
     (\<forall>f \<in> set fmts'. good_format f)"
proof (induction rs arbitrary: i fmts ds)
  case (Cons r rs)
  obtain fmts' ds' where r: "format_fields i n s (captures r) fmts ds = Inr (fmts', ds')" "length fmts' = length fmts"
     "length ds' = length ds" "\<forall>f \<in> set fmts'. good_format f"
    using good_format_fields [of "captures r" fmts ds i n s] Cons.prems by (auto simp: good_record_def)
  with Cons.IH [of fmts' ds' "Suc i"] Cons.prems show ?case by auto
qed simp

lemma good_att_format:
  "\<forall>c \<in> set cap. PC \<notin> set c \<Longrightarrow> \<exists>y. att_format cap x = Some y"
  using good_format_runs [of "new_format x False" cap]
  by (auto simp: att_format_def good_format_def new_format_def)

lemma good_att_get:
  assumes "\<forall>c \<in> set cap. PC \<notin> set c"
  shows "\<exists>p t. run_state (att_get pr root cap a) s = (Inr p, t)"
proof -
  obtain x y where "att_format cap (src a) = Some x" "att_format cap (dst a) = Some y"
    using good_att_format [OF assms] by meson
  then show ?thesis by (cases "att_type a") (auto simp: att_get_def Let_def split: prod.split)
qed

lemma good_get_attachments:
  assumes "\<forall>c \<in> set cap. PC \<notin> set c"
  shows "\<exists>p t. run_state (get_attachments pr root cap as files) s = (Inr p, t)"
proof (induction as arbitrary: files s)
  case (Cons a as)
  obtain p t where "run_state (att_get pr root cap a) s = (Inr p, t)" using good_att_get [OF assms] by blast
  with Cons show ?case by simp
qed simp

lemma flush_files_shape:
  assumes "run_state (flush_files e w) s = (Inr w', t)"
  shows "\<exists>sr fmts. w' = w\<lparr>suspend_records := sr, data_formats := fmts, suspend_records_count := 0\<rparr>"
proof -
  have id: "w\<lparr>suspend_records := suspend_records w, data_formats := f, suspend_records_count := n\<rparr> =
    w\<lparr>data_formats := f, suspend_records_count := n\<rparr>" for f n by simp
  from assms show ?thesis
    by (auto simp: flush_files_def finish_files_def write_suspend_def Let_def split: prod.splits sum.splits if_splits list.splits)
       (metis id)+
qed

lemma write_suspend_shape:
  "\<exists>x sr t. run_state (write_suspend root w) s = ((x, w\<lparr>suspend_records := sr\<rparr>), t)"
proof (cases "suspend_records_count w \<noteq> 0 \<and> max_suspend_records w \<noteq> 0")
  case False
  then have "run_state (write_suspend root w) s = (('''', w\<lparr>suspend_records := suspend_records w\<rparr>), s)"
    by (auto simp: write_suspend_def)
  then show ?thesis by blast
qed (auto simp: write_suspend_def split: prod.split)

lemma good_flush_files:
  assumes "good_watch (rx e) w" "records w \<noteq> []"
  shows "\<exists>w' t. run_state (flush_files e w) s = (Inr w', t) \<and> good_watch (rx e) w' \<and> records w' = records w"
proof -
  let ?root = "getOutputDirName e w (flush_count w)"
  obtain r rs where r: "records w = r # rs" using assms(2) by (cases "records w") auto
  have rr: "\<forall>rec \<in> set (records w). good_record rec" and df: "length (data_formats w) \<le> 6"
    "\<forall>f \<in> set (data_formats w). good_format f" using assms(1) by (simp_all add: good_watch_def)
  obtain fmts ds where f: "record_fields 0 (length (records w)) (suspend_records_count w) (records w) (data_formats w)
      (replicate 6 '''') = Inr (fmts, ds)" "length fmts = length (data_formats w)" "\<forall>f \<in> set fmts. good_format f"
    using good_record_fields [OF _ df(2) rr, of "replicate 6 ''''"] df(1) by (metis length_replicate)
  let ?w = "\<lambda>sr. w\<lparr>suspend_records := sr, data_formats := fmts, suspend_records_count := 0\<rparr>"
  have g: "good_watch (rx e) (?w sr)" for sr
    using assms(1) f(2,3) df(1) by (simp add: good_watch_def)
  have cap: "\<forall>c \<in> set (captures r). PC \<notin> set c" using rr r by (simp add: good_record_def)
  obtain s1 where s1: "snd (run_state (if flush_count w \<ge> keep_last w
      then rmRec (getOutputDirName e w (flush_count w - keep_last w)) True else ret True) s) = s1" by blast
  obtain s2 where s2: "snd (run_state (setupOutputDir e w ?root) s1) = s2" by blast
  obtain s3 where s3: "snd (run_state (write_file (?root @ ''/summary.txt'') (records_text 0 (records w))) s2) = s3"
    by blast
  obtain x sr s4 where s4: "run_state (write_suspend ?root w) s3 = ((x, w\<lparr>suspend_records := sr\<rparr>), s4)"
    using write_suspend_shape by blast
  obtain p s5 where s5: "run_state (if attachments w = [] then ret (Inr (?root @ ''/summary.txt'' @ x))
      else get_attachments (prog e) ?root (captures r) (attachments w) (?root @ ''/summary.txt'' @ x)) s4 = (Inr p, s5)"
    using good_get_attachments [OF cap, of "prog e" ?root "attachments w" "?root @ ''/summary.txt'' @ x" s4]
    by (cases "attachments w = []") (simp, force)
  have "\<exists>t. run_state (flush_files e w) s = (Inr (?w sr), t)"
    using s1 s2 s3 s4 s5 f(1) r
    by (auto simp: flush_files_def finish_files_def Let_def split: prod.splits if_splits)
  with g show ?thesis by fastforce
qed

lemma good_logEvent: "good_watch r w \<Longrightarrow> good_watch r (logEvent ts w)"
  by (simp add: logEvent_def Let_def)

lemma logEvent_fields [simp]:
  "records (logEvent ts w) = records w" "accept_data (logEvent ts w) = accept_data w"
  "flush_count (logEvent ts w) = flush_count w" "max_event_count (logEvent ts w) = max_event_count w"
  "max_event_interval (logEvent ts w) = max_event_interval w"
  by (simp_all add: logEvent_def Let_def)

lemma logEvent_nonempty:
  "max_event_interval w \<noteq> 0 \<Longrightarrow> 0 < max_event_count w \<Longrightarrow> max_event_count w + 1 < 2 ^ 32 \<Longrightarrow>
   event_log (logEvent ts w) \<noteq> []"
  by (cases "event_log w") (auto simp: logEvent_def Let_def)

lemma good_flush_log:
  assumes "good_watch r w" "records w \<noteq> []"
  shows "\<exists>w'. flush_log w = Inr w' \<and> good_watch r w'"
proof -
  obtain rec rs where rec: "records w = rec # rs" using assms(2) by (cases "records w") auto
  with assms(1) obtain li lis where li: "items rec = li # lis"
    by (cases "items rec") (auto simp: good_watch_def good_record_def)
  let ?w = "logEvent (timestamp li) (w\<lparr>flush_count := (flush_count w + 1) mod 2 ^ 32\<rparr>)"
  have w: "good_watch r ?w" using assms(1) by (intro good_logEvent) simp
  have "\<exists>go. logContinue ?w = Inr go"
    using assms(1) logEvent_nonempty [of "w\<lparr>flush_count := (flush_count w + 1) mod 2 ^ 32\<rparr>" "timestamp li"]
    by (auto simp: logContinue_def good_watch_def)
  with w rec li show ?thesis
    by (auto simp: flush_log_def Let_def kill_watch_def intro!: good_sets(5))
qed

lemma good_flush:
  assumes "good_watch (rx e) w" "records w \<noteq> []"
  shows "\<exists>w' t. run_state (flush e w) s = (Inr w', t) \<and> good_watch (rx e) w'"
proof -
  obtain w1 t where "run_state (flush_files e w) s = (Inr w1, t)" "good_watch (rx e) w1" "records w1 = records w"
    using good_flush_files [OF assms] by blast
  moreover from this obtain w2 where "flush_log w1 = Inr w2" "good_watch (rx e) w2"
    using good_flush_log [of "rx e" w1] assms(2) by auto
  ultimately show ?thesis by (simp add: flush_def)
qed

lemma suspend_watch_shape:
  "records w \<noteq> [] \<Longrightarrow> \<exists>u. suspend_watch w = Inr (w\<lparr>suspend_until := u\<rparr>)"
proof (cases "event_suspend_interval w = 0")
  case True
  then have "suspend_watch w = Inr (w\<lparr>suspend_until := suspend_until w\<rparr>)" by (simp add: suspend_watch_def)
  then show ?thesis by blast
next
  case False
  assume "records w \<noteq> []"
  with False have "suspend_watch w = Inr (w\<lparr>suspend_until :=
      tv_plus (rec_time (hd (records w))) (mk_timeval (int (event_suspend_interval w)) 0)\<rparr>)"
    by (cases "records w") (simp_all add: suspend_watch_def)
  then show ?thesis by blast
qed

lemma good_emit:
  assumes "good_watch (rx e) w"
  shows "\<exists>w' t. run_state (emit e li w) s = (Inr w', t) \<and> good_watch (rx e) w'"
proof (cases "due li w")
  case True
  then have ne: "records w \<noteq> []" using assms by (auto simp: due_def good_watch_def)
  obtain u where u: "suspend_watch w = Inr (w\<lparr>suspend_until := u\<rparr>)" using suspend_watch_shape [OF ne] by blast
  let ?w = "w\<lparr>suspend_until := u\<rparr>"
  have "good_watch (rx e) ?w" "records ?w \<noteq> []" using assms ne by simp_all
  then obtain w2 t where "run_state (flush e ?w) s = (Inr w2, t)" "good_watch (rx e) w2"
    using good_flush [of e ?w s] by blast
  with True u show ?thesis by (simp add: emit_def)
next
  case False
  show ?thesis
  proof (cases "records w = [] \<or> \<not> eof li")
    case True
    with False assms show ?thesis by (auto simp: emit_def)
  next
    case ne: False
    then obtain w2 t where "run_state (flush e w) s = (Inr w2, t)" "good_watch (rx e) w2"
      using good_flush [OF assms, of s] by blast
    with False ne show ?thesis by (simp add: emit_def)
  qed
qed

lemma good_process:
  assumes "good_watch (rx e) w" "PC \<notin> set (msg li)"
  shows "\<exists>w' t. run_state (process e li w) s = (Inr (\<not> eof li, w'), t) \<and> good_watch (rx e) w'"
proof -
  obtain w1 where "gather (rx e) li w = Inr w1" "good_watch (rx e) w1" using good_gather [OF assms] by blast
  moreover from this obtain w2 t where "run_state (emit e li w1) s = (Inr w2, t)" "good_watch (rx e) w2"
    using good_emit by blast
  ultimately show ?thesis by (simp add: process_def)
qed

lemma good_run:
  "good_watch (rx e) w \<Longrightarrow> \<forall>li \<in> set lis. PC \<notin> set (msg li) \<Longrightarrow>
   \<exists>w' t. run_state (run_items e lis w) s = (Inr w', t) \<and> good_watch (rx e) w'"
proof (induction lis arbitrary: w s)
  case (Cons li lis)
  obtain w1 t where "run_state (process e li w) s = (Inr (\<not> eof li, w1), t)" "good_watch (rx e) w1"
    using good_process [of e w li s] Cons.prems by auto
  with Cons show ?case by auto
qed simp

lemma watch_run_good:
  assumes "\<forall>p. start_pattern w = Some p \<or> valid_pattern w = Some p \<longrightarrow>
      match_count p = countCaptures (pattern p) \<and> full_groups (rx e) (pattern p)"
    and "0 < max_records w" "0 < max_event_count w" "max_event_count w + 1 < 2 ^ 32"
    and "length (data_formats w) \<le> 6" "\<forall>f \<in> set (data_formats w). h_map f = (\<lambda>_. None) \<and> df_captures f = []"
    and "records w = []" "cur_record w = None"
    and "\<forall>li \<in> set lis. PC \<notin> set (msg li)"
  shows "\<exists>w' t. run_state (run_items e lis w) s = (Inr w', t)"
proof -
  have "good_watch (rx e) w"
    using assms(1-8) by (auto simp: good_watch_def good_pattern_def good_format_def)
  then show ?thesis using good_run assms(9) by blast
qed

definition word_regex :: regex where
  "word_regex = \<lparr>compiles = (\<lambda>_. True),
     groups = (\<lambda>p s. if prefix p s then Some [(0, int (length p))] else None)\<rparr>"

definition sample_env :: lw_env where
  "sample_env = \<lparr>rx = word_regex, prog = (\<lambda>_. None), work_dir = ''/logs'', instance_name = ''k'', watcher_stats = True\<rparr>"

definition sample_item :: "int \<Rightarrow> string \<Rightarrow> log_item" where
  "sample_item t m = new_item\<lparr>timestamp := mk_timeval t 0, msg := m\<rparr>"

text \<open>C22. When a group of the start pattern takes no part in a match, as an optional group may, or when
  the count of parentheses exceeds the groups, \<open>regexec\<close> stores -1 for it and building the captures
  raises \<open>std::out_of_range\<close>: the item that starts a record ends the program.\<close>

theorem left_out_group_throws:
  assumes "\<not> eof li" and "start_pattern w = Some p" and "valid_pattern w = None"
    and "msg li \<noteq> ''''" and "groups (rx e) (pattern p) (msg li) = Some g"
    and "(so, eo) \<in> set (take (match_count p) (g @ replicate (match_count p - length g) (-1, -1)))" and "so < 0"
  shows "fst (run_state (process e li w) s) = Inl Out_of_range"
proof -
  let ?m = "take (match_count p) (g @ replicate (match_count p - length g) (-1, -1))"
  let ?p = "p\<lparr>last_error := False, pmatches := ?m, last_string := msg li\<rparr>"
  have "check_pattern (rx e) p (msg li) = (True, ?p)"
    using assms(5) by (simp add: check_pattern_def regexec_def)
  moreover have "sub_matches (msg li) ?m = Inl Out_of_range" by (rule sub_matches_throws [OF assms(6,7)])
  then have "getLastMatches ?p = Inl Out_of_range" using assms(4) by (simp add: getLastMatches_def)
  moreover have "valid_pattern (close_record (w\<lparr>start_pattern := Some ?p\<rparr>)) = None"
    using assms(3) by (simp add: close_record_def addRecord_def Let_def split: option.split)
  ultimately show ?thesis
    using assms(1,2) by (simp add: process_def gather_def take_item_def start_record_def Let_def)
qed

definition optional_regex :: regex where
  "optional_regex = \<lparr>compiles = (\<lambda>_. True), groups = (\<lambda>p s. if p = ''a(b)?'' \<and> s = ''a'' then Some [(0, 1), (-1, -1)] else None)\<rparr>"

theorem left_out_group_throws_witness:
  "fst (run_state (process (sample_env\<lparr>rx := optional_regex\<rparr>) (sample_item 1 ''a'')
     (setStartPattern optional_regex ''a(b)?'' (new_watch None))) (calm [])) = Inl Out_of_range"
  by (rule left_out_group_throws [where p = "new_pattern optional_regex ''a(b)?''" and g = "[(0, 1), (-1, -1)]"
        and so = "-1" and eo = "-1"])
     (simp_all add: optional_regex_def sample_item_def new_item_def setStartPattern_def checked_pattern_def
        new_pattern_def countCaptures_def new_watch_def pattern_valid_def Let_def sample_env_def)

end
