(* ===== verification/Lw_Rate.thy ===== *)
theory Lw_Rate
  imports Lw_Limits
begin

text \<open>
  The limit of a watch on its events (EventWatch.cpp, \<open>logEvent\<close> and \<open>logContinue\<close>) and the bounds of
  its lists. The locale \<open>watch_view\<close> derives once that gathering items leaves a view of a watch
  alone which does not look at the records and patterns; it is interpreted for the fields the limit
  reads.
\<close>

section \<open>What gathering items leaves alone\<close>

locale watch_view =
  fixes view :: "watch \<Rightarrow> 'v"
  assumes view_records [simp]: "view (w\<lparr>records := x1\<rparr>) = view w"
    and view_suspend_records [simp]: "view (w\<lparr>suspend_records := x1\<rparr>) = view w"
    and view_suspend_records_count [simp]: "view (w\<lparr>suspend_records_count := n\<rparr>) = view w"
    and view_cur_record [simp]: "view (w\<lparr>cur_record := x2\<rparr>) = view w"
    and view_start_pattern [simp]: "view (w\<lparr>start_pattern := x3\<rparr>) = view w"
    and view_end_pattern [simp]: "view (w\<lparr>end_pattern := x3\<rparr>) = view w"
    and view_valid_pattern [simp]: "view (w\<lparr>valid_pattern := x3\<rparr>) = view w"
    and view_body_patterns [simp]: "view (w\<lparr>body_patterns := x4\<rparr>) = view w"
begin

lemma addRecord_view [simp]: "view (addRecord r w) = view w"
  by (simp add: addRecord_def Let_def)

lemma close_record_view [simp]: "view (close_record w) = view w"
  by (simp add: close_record_def split: option.split)

lemma full_record_view [simp]: "view (full_record t w) = view w"
  by (simp add: full_record_def split: option.split)

lemma stale_record_view [simp]: "view (stale_record li w) = view w"
  by (simp add: stale_record_def split: option.split)

lemma start_record_view: "start_record li sp w = Inr w' \<Longrightarrow> view w' = view w"
  by (auto simp: start_record_def Let_def split: if_splits sum.splits)

lemma body_item_view: "body_item r li rec w = (b, w') \<Longrightarrow> view w' = view w"
  by (auto simp: body_item_def split: if_splits prod.splits bool.splits)

lemma valid_item_view: "valid_item r li rec w = Inr (b, w') \<Longrightarrow> view w' = view w"
  by (auto simp: valid_item_def dest!: body_item_view split: option.splits prod.splits bool.splits sum.splits)

lemma continue_record_view: "continue_record r li w = Inr (b, w') \<Longrightarrow> view w' = view w"
  by (auto simp: continue_record_def dest!: valid_item_view split: option.splits prod.splits bool.splits)

lemma take_item_view: "take_item r li w = Inr (b, w') \<Longrightarrow> view w' = view w"
  by (auto simp: take_item_def dest!: continue_record_view start_record_view
      split: option.splits prod.splits bool.splits sum.splits)

lemma gather_view: "gather r li w = Inr w' \<Longrightarrow> view w' = view w"
  by (auto simp: gather_def dest!: take_item_view split: if_splits sum.splits)

end

text \<open>The fields of the limit: counts and times of events, and the limit itself.\<close>

definition limit_view :: "watch \<Rightarrow> nat \<times> nat \<times> nat \<times> timeval list \<times> bool" where
  "limit_view w = (max_event_count w, max_event_interval w, flush_count w, event_log w, accept_data w)"

interpretation limit: watch_view limit_view
  by unfold_locales (simp_all add: limit_view_def)

section \<open>The distance of events\<close>

definition times_between :: "watch \<Rightarrow> watch \<Rightarrow> timeval list" where
  "times_between w w' = (if flush_count w' = flush_count w then [] else [hd (event_log w')])"

text \<open>The thread of a watch, with the times at which its events were logged, in order.\<close>

fun run_events :: "lw_env \<Rightarrow> log_item list \<Rightarrow> watch \<Rightarrow> ('w, failure + timeval list \<times> watch) op" where
  "run_events e [] w = ret (Inr ([], w))"
| "run_events e (li # lis) w = do {
     r \<leftarrow> process e li w;
     (case r of
        Inl err \<Rightarrow> ret (Inl err)
      | Inr (go, w') \<Rightarrow>
          if go then do {
            r \<leftarrow> run_events e lis w';
            ret (case r of Inl err \<Rightarrow> Inl err | Inr (ts, w'') \<Rightarrow> Inr (times_between w w' @ ts, w'')) }
          else ret (Inr (times_between w w', w'))) }"

definition spaced :: "nat \<Rightarrow> nat \<Rightarrow> timeval list \<Rightarrow> bool" where
  "spaced m d ts \<longleftrightarrow> (\<forall>i. i + m < length ts \<longrightarrow> tv_us (ts ! i) - tv_us (ts ! (i + m)) \<ge> int d * USEC_IN_SEC)"

text \<open>The log holds the last events, the newest first; \<open>ts\<close> are all of them.\<close>

definition log_inv :: "nat \<Rightarrow> nat \<Rightarrow> timeval list \<Rightarrow> watch \<Rightarrow> bool" where
  "log_inv m d ts w \<longleftrightarrow> max_event_count w = m \<and> max_event_interval w = d \<and>
     flush_count w = length ts mod 2 ^ 32 \<and> event_log w = take (Suc m) ts \<and>
     (accept_data w \<and> length ts < 2 ^ 32 \<longrightarrow> spaced m d ts)"

lemma log_inv_view: "limit_view w' = limit_view w \<Longrightarrow> log_inv m d ts w' = log_inv m d ts w"
  by (simp add: log_inv_def limit_view_def)

lemma spaced_Cons:
  "spaced m d ts \<Longrightarrow> (m < Suc (length ts) \<Longrightarrow> tv_us t - tv_us ((t # ts) ! m) \<ge> int d * USEC_IN_SEC) \<Longrightarrow>
   spaced m d (t # ts)"
  by (auto simp: spaced_def nth_Cons split: nat.split)

lemma logContinue_spaced:
  assumes "log_inv m d ts w" "0 < d" "Suc m < 2 ^ 32" "length ts < 2 ^ 32" "spaced m d (tl ts)" "ts \<noteq> []"
    and "logContinue w = Inr True"
  shows "spaced m d ts"
proof -
  obtain t ts' where ts: "ts = t # ts'" using assms(6) by (cases ts) auto
  show ?thesis
    unfolding ts
  proof (rule spaced_Cons)
    show "spaced m d ts'" using assms(5) ts by simp
    assume m: "m < Suc (length ts')"
    have l: "event_log w = take (Suc m) (t # ts')" "flush_count w = Suc (length ts')"
      using assms(1,4) ts by (simp_all add: log_inv_def)
    have "last (take (Suc m) (t # ts')) = (t # ts') ! m"
      using take_Suc_conv_app_nth [of m "t # ts'"] m by simp
    moreover have "tv_minus (hd (event_log w)) (last (event_log w)) \<ge> mk_timeval (int d) 0"
      using assms(1,2,7) l m by (auto simp: logContinue_def log_inv_def split: if_splits)
    ultimately show "tv_us t - tv_us ((t # ts') ! m) \<ge> int d * USEC_IN_SEC"
      using l(1) by (simp add: normal_less_eq)
  qed
qed

lemma butlast_take_Cons: "length ts > m \<Longrightarrow> butlast (t # take (Suc m) ts) = take (Suc m) (t # ts)"
proof -
  assume m: "length ts > m"
  then have "take (Suc m) ts \<noteq> []" by (cases ts) simp_all
  with m show ?thesis by (simp add: butlast_take)
qed

lemma logContinue_accept: "logContinue (w\<lparr>accept_data := b\<rparr>) = logContinue w"
  by (simp add: logContinue_def)

lemma logEvent_take:
  assumes "max_event_interval w \<noteq> 0" "Suc (max_event_count w) < 2 ^ 32"
    "event_log w = take (Suc (max_event_count w)) ts"
  shows "event_log (logEvent t w) = take (Suc (max_event_count w)) (t # ts)"
  using assms butlast_take_Cons [of "max_event_count w" ts t]
  by (auto simp: logEvent_def Let_def)

lemma Suc_mod_neq: "Suc n mod 4294967296 \<noteq> n mod 4294967296"
  by (simp add: mod_Suc)

lemma flush_log_inv:
  assumes "flush_log w0 = Inr w'" "log_inv m d ts w0" "0 < d" "Suc m < 2 ^ 32"
  shows "\<exists>t. log_inv m d (t # ts) w' \<and> times_between w0 w' = [t]"
proof -
  obtain r rs li lis where r: "records w0 = r # rs" "items r = li # lis"
    using assms(1) by (auto simp: flush_log_def Let_def split: list.splits)
  let ?t = "timestamp li"
  let ?w = "logEvent ?t (w0\<lparr>flush_count := (flush_count w0 + 1) mod 2 ^ 32\<rparr>)"
  have log: "event_log ?w = take (Suc m) (?t # ts)"
    using logEvent_take [of "w0\<lparr>flush_count := (flush_count w0 + 1) mod 2 ^ 32\<rparr>" ts ?t] assms(2-4)
    by (simp add: log_inv_def)
  have count: "flush_count ?w = length (?t # ts) mod 2 ^ 32"
    using assms(2) by (simp add: log_inv_def mod_simps)
  then have ne: "flush_count ?w \<noteq> flush_count w0"
    using assms(2) Suc_mod_neq [of "length ts"] by (simp add: log_inv_def)
  have view: "limit_view (w\<lparr>records := []\<rparr>) = limit_view w" for w by simp
  show ?thesis
  proof (cases "accept_data w0")
    case False
    then have w': "w' = ?w\<lparr>records := []\<rparr>" using assms(1) r by (simp add: flush_log_def Let_def)
    with False log count assms(2) have "log_inv m d (?t # ts) w'" by (simp add: log_inv_def)
    moreover have "times_between w0 w' = [?t]" using w' ne log by (simp add: times_between_def)
    ultimately show ?thesis by blast
  next
    case True
    then obtain go where go: "logContinue ?w = Inr go"
      and w': "w' = (if \<not> go then kill_watch ?w else ?w)\<lparr>records := []\<rparr>"
      using assms(1) r by (auto simp: flush_log_def Let_def split: sum.splits)
    have "spaced m d (?t # ts)" if "go" "length (?t # ts) < 2 ^ 32"
    proof (rule logContinue_spaced [of m d "?t # ts" "?w\<lparr>accept_data := False\<rparr>"])
      show "log_inv m d (?t # ts) (?w\<lparr>accept_data := False\<rparr>)"
        using log count assms(2) by (simp add: log_inv_def)
      show "spaced m d (tl (?t # ts))" using assms(2) True that(2) by (simp add: log_inv_def)
      show "logContinue (?w\<lparr>accept_data := False\<rparr>) = Inr True" using go that(1) by (simp add: logContinue_accept)
    qed (use assms(3,4) that in simp_all)
    then have "log_inv m d (?t # ts) w'"
      using w' log count assms(2) by (simp add: log_inv_def kill_watch_def)
    moreover have "times_between w0 w' = [?t]"
      using w' ne log by (simp add: times_between_def kill_watch_def)
    ultimately show ?thesis by blast
  qed
qed

lemma flush_inv:
  assumes "run_state (flush e w) s = (Inr w', t)" "log_inv m d ts w" "0 < d" "Suc m < 2 ^ 32"
  shows "\<exists>x. log_inv m d (x # ts) w' \<and> times_between w w' = [x]"
proof -
  obtain w1 where w1: "run_state (flush_files e w) s = (Inr w1, t)" "flush_log w1 = Inr w'"
    using assms(1) by (auto simp: flush_def split: prod.splits sum.splits)
  obtain sr fmts where "w1 = w\<lparr>suspend_records := sr, data_formats := fmts, suspend_records_count := 0\<rparr>"
    using flush_files_shape [OF w1(1)] by blast
  then have "log_inv m d ts w1" "times_between w w' = times_between w1 w'"
    using assms(2) by (simp_all add: log_inv_def times_between_def)
  with flush_log_inv [OF w1(2) _ assms(3,4)] show ?thesis by simp
qed

lemma emit_inv:
  assumes "run_state (emit e li w) s = (Inr w', t)" "log_inv m d ts w" "0 < d" "Suc m < 2 ^ 32"
  shows "log_inv m d (rev (times_between w w') @ ts) w'"
proof (cases "due li w")
  case True
  then obtain w1 where w1: "suspend_watch w = Inr w1" "run_state (flush e w1) s = (Inr w', t)"
    using assms(1) by (auto simp: emit_def split: sum.splits)
  then have "log_inv m d ts w1" "times_between w w' = times_between w1 w'"
    using assms(2) by (auto simp: suspend_watch_def log_inv_def times_between_def split: if_splits list.splits)
  moreover from flush_inv [OF w1(2) this(1) assms(3,4)]
  obtain x where "log_inv m d (x # ts) w'" "times_between w1 w' = [x]" by blast
  ultimately show ?thesis by simp
next
  case False
  show ?thesis
  proof (cases "records w = [] \<or> \<not> eof li")
    case True
    with False assms(1,2) show ?thesis
      by (auto simp: emit_def times_between_def log_inv_def split: if_splits)
  next
    case ne: False
    with False assms(1) obtain w1 where w1: "run_state (flush e w) s = (Inr w1, t)"
      "w' = w1\<lparr>suspend_records := []\<rparr>"
      by (auto simp: emit_def split: prod.splits sum.splits)
    with flush_inv [OF w1(1) assms(2-4)] show ?thesis by (auto simp: log_inv_def times_between_def)
  qed
qed

lemma process_inv:
  assumes "run_state (process e li w) s = (Inr (go, w'), t)" "log_inv m d ts w" "0 < d" "Suc m < 2 ^ 32"
  shows "log_inv m d (rev (times_between w w') @ ts) w'"
proof -
  obtain w1 where w1: "gather (rx e) li w = Inr w1" "run_state (emit e li w1) s = (Inr w', t)"
    using assms(1) by (auto simp: process_def split: sum.splits prod.splits)
  have v: "limit_view w1 = limit_view w" by (rule limit.gather_view [OF w1(1)])
  then have "log_inv m d ts w1" "times_between w w' = times_between w1 w'"
    using assms(2) log_inv_view [of w1 w m d ts] by (auto simp: times_between_def limit_view_def)
  with emit_inv [OF w1(2) _ assms(3,4)] show ?thesis by simp
qed

lemma run_events_inv:
  assumes "0 < d" "Suc m < 2 ^ 32"
  shows "run_state (run_events e lis w) s = (Inr (ts, w'), t) \<Longrightarrow> log_inv m d old w \<Longrightarrow>
    log_inv m d (rev ts @ old) w'"
proof (induction lis arbitrary: w s ts old)
  case (Cons li lis)
  obtain go w1 s1 where p: "run_state (process e li w) s = (Inr (go, w1), s1)"
    using Cons.prems(1) by (auto split: prod.splits sum.splits)
  have inv: "log_inv m d (rev (times_between w w1) @ old) w1"
    by (rule process_inv [OF p Cons.prems(2) assms])
  show ?case
  proof (cases go)
    case True
    with Cons.prems(1) p obtain ts1 where "run_state (run_events e lis w1) s1 = (Inr (ts1, w'), t)"
      "ts = times_between w w1 @ ts1" by (auto split: prod.splits sum.splits)
    with Cons.IH [OF _ inv] show ?thesis by simp
  next
    case False
    with Cons.prems(1) p have "ts = times_between w w1" "w' = w1" by auto
    with inv show ?thesis by simp
  qed
qed simp

text \<open>C10. The limit on events: as long as a watch accepts data, every event comes at least the configured
  interval after the event that was logged max_event_count events before it, whatever the items are; so no
  max_event_count + 1 events in a row lie closer together than the interval (the counter is good for
  2^32 events).\<close>

theorem events_keep_distance:
  assumes "run_state (run_events e lis w) s = (Inr (ts, w'), t)"
    and "event_log w = []" "flush_count w = 0"
    and "0 < max_event_interval w" "max_event_count w + 1 < 2 ^ 32"
    and "accept_data w'" "length ts < 2 ^ 32" "i + max_event_count w < length ts"
  shows "tv_us (ts ! (i + max_event_count w)) - tv_us (ts ! i) \<ge> int (max_event_interval w) * 1000000"
proof -
  let ?m = "max_event_count w" and ?d = "max_event_interval w"
  have "log_inv ?m ?d [] w" using assms(2,3) by (simp add: log_inv_def spaced_def)
  from run_events_inv [OF assms(4) _ assms(1) this] assms(5)
  have "log_inv ?m ?d (rev ts @ []) w'" by simp
  then have sp: "spaced ?m ?d (rev ts)" using assms(6,7) by (simp add: log_inv_def)
  let ?j = "length ts - Suc (i + ?m)"
  have "?j + ?m < length (rev ts)" using assms(8) by simp
  with sp have "tv_us (rev ts ! ?j) - tv_us (rev ts ! (?j + ?m)) \<ge> int ?d * USEC_IN_SEC"
    unfolding spaced_def by blast
  moreover have "rev ts ! ?j = ts ! (i + ?m)" "rev ts ! (?j + ?m) = ts ! i"
    using assms(8) by (simp_all add: rev_nth)
  ultimately show ?thesis by (simp add: USEC_IN_SEC_def)
qed

lemma flush_files_plain:
  assumes "attachments w = []" "data_formats w = []" "suspend_records_count w = 0"
  shows "\<exists>t. run_state (flush_files e w) s = (Inr w, t)"
proof -
  have f: "record_fields i n k rs [] ds = Inr ([], ds)" for i n k rs ds
    by (induction rs arbitrary: i) simp_all
  have "w\<lparr>data_formats := [], suspend_records_count := 0\<rparr> = w" using assms by simp
  with assms show ?thesis
    by (auto simp: flush_files_def finish_files_def write_suspend_def f Let_def split: prod.splits)
qed

definition quick_watch :: watch where
  "quick_watch = setMaxEvents 1 10 (setStartPattern word_regex ''err'' (new_watch (Some ''w'')))\<lparr>max_records := 1\<rparr>"

lemma quick_start: "start_pattern quick_watch = Some (new_pattern word_regex ''err'')"
  by (simp add: quick_watch_def setMaxEvents_def setStartPattern_def checked_pattern_def new_pattern_def
      countCaptures_def pattern_valid_def word_regex_def DEFAULT_MAX_COUNT_def DEFAULT_MAX_INTERVAL_def)

lemma quick_check:
  "match_count p = 1 \<Longrightarrow> pattern p = ''err'' \<Longrightarrow>
   check_pattern word_regex p ''err'' = (True, p\<lparr>last_error := False, pmatches := [(0, 3)], last_string := ''err''\<rparr>)"
  by (simp add: check_pattern_def regexec_def word_regex_def)

lemma quick_process:
  assumes "start_pattern w = Some p" "match_count p = 1" "pattern p = ''err''"
    and "valid_pattern w = None" "cur_record w = None" "records w = []" "max_items w = 1" "max_records w = 1"
    and "event_suspend_interval w = 0" "attachments w = []" "data_formats w = []" "suspend_records_count w = 0"
    and "accept_data w" "max_event_interval w = 10" "max_event_count w = 1" "flush_count w = length (event_log w)"
    and "event_log w = [] \<or> (\<exists>t'. event_log w = [mk_timeval t' 0] \<and> t' + 10 \<le> t)"
  shows "\<exists>u. run_state (process sample_env (sample_item t ''err'') w) s =
    (Inr (True, w\<lparr>start_pattern := Some (p\<lparr>last_error := False, pmatches := [(0, 3)], last_string := ''err''\<rparr>),
       flush_count := Suc (flush_count w), event_log := mk_timeval t 0 # event_log w\<rparr>), u)"
proof -
  let ?p = "p\<lparr>last_error := False, pmatches := [(0, 3)], last_string := ''err''\<rparr>"
  let ?r = "\<lparr>items = [sample_item t ''err''], captures = [''err''], valid = True\<rparr>"
  let ?w = "w\<lparr>start_pattern := Some ?p, records := [?r]\<rparr>"
  have li: "msg (sample_item t ''err'') = ''err''" "\<not> eof (sample_item t ''err'')"
    "timestamp (sample_item t ''err'') = mk_timeval t 0" by (simp_all add: sample_item_def new_item_def)
  have m: "getLastMatches ?p = Inr [''err'']" by (simp add: getLastMatches_def substr_def)
  have "w\<lparr>start_pattern := Some ?p, records := [?r], cur_record := None\<rparr> = ?w" using assms(5) by simp
  then have g: "gather word_regex (sample_item t ''err'') w = Inr ?w"
    using assms(1-9) li m quick_check [OF assms(2,3)]
    by (simp add: gather_def take_item_def start_record_def close_record_def full_record_def stale_record_def
        addRecord_def addItem_def new_record_def itemCount_def Let_def)
  obtain u where u: "run_state (flush_files sample_env ?w) s = (Inr ?w, u)"
    using flush_files_plain [of ?w sample_env s] assms(10-12) by auto
  have "flush_log ?w = Inr (w\<lparr>start_pattern := Some ?p, records := [], flush_count := Suc (flush_count w),
      event_log := mk_timeval t 0 # event_log w\<rparr>)"
    using assms(17)
  proof
    assume "event_log w = []"
    with assms(13-16) li show ?thesis by (simp add: flush_log_def logEvent_def logContinue_def Let_def)
  next
    assume "\<exists>t'. event_log w = [mk_timeval t' 0] \<and> t' + 10 \<le> t"
    then obtain t' where t': "event_log w = [mk_timeval t' 0]" "t' + 10 \<le> t" by blast
    then have "tv_minus (mk_timeval t 0) (mk_timeval t' 0) \<ge> mk_timeval 10 0"
      by (simp add: normal_less_eq USEC_IN_SEC_def)
    with t'(1) assms(13-16) li show ?thesis
      by (simp add: flush_log_def logEvent_def logContinue_def Let_def)
  qed
  moreover have "w\<lparr>start_pattern := Some ?p, records := [], flush_count := Suc (flush_count w),
      event_log := mk_timeval t 0 # event_log w\<rparr> = w\<lparr>start_pattern := Some ?p,
       flush_count := Suc (flush_count w), event_log := mk_timeval t 0 # event_log w\<rparr>"
    using assms(6) by simp
  ultimately have "flush_log ?w = Inr (w\<lparr>start_pattern := Some ?p,
       flush_count := Suc (flush_count w), event_log := mk_timeval t 0 # event_log w\<rparr>)" by simp
  then have "run_state (emit sample_env (sample_item t ''err'') ?w) s = (Inr (w\<lparr>start_pattern := Some ?p,
       flush_count := Suc (flush_count w), event_log := mk_timeval t 0 # event_log w\<rparr>), u)"
    using u assms(8,9) by (simp add: emit_def due_def suspend_watch_def flush_def)
  with g li show ?thesis by (simp add: process_def sample_env_def)
qed

lemma quick_run:
  "\<exists>w' t. run_state (run_events sample_env [sample_item 0 ''err'', sample_item 100 ''err''] quick_watch) (calm []) =
    (Inr ([mk_timeval 0 0, mk_timeval 100 0], w'), t) \<and> accept_data w'"
proof -
  have q: "valid_pattern quick_watch = None" "cur_record quick_watch = None" "records quick_watch = []"
    "max_items quick_watch = 1" "max_records quick_watch = 1" "event_suspend_interval quick_watch = 0"
    "attachments quick_watch = []" "data_formats quick_watch = []" "suspend_records_count quick_watch = 0"
    "accept_data quick_watch" "max_event_interval quick_watch = 10" "max_event_count quick_watch = 1"
    "flush_count quick_watch = 0" "event_log quick_watch = []"
    by (simp_all add: quick_watch_def setMaxEvents_def setStartPattern_def new_watch_def
        DEFAULT_MAX_COUNT_def DEFAULT_MAX_INTERVAL_def)
  let ?p = "(new_pattern word_regex ''err'')\<lparr>last_error := False, pmatches := [(0, 3)], last_string := ''err''\<rparr>"
  have p: "match_count (new_pattern word_regex ''err'') = 1" "pattern (new_pattern word_regex ''err'') = ''err''"
    by (simp_all add: new_pattern_def word_regex_def countCaptures_def)
  let ?w1 = "quick_watch\<lparr>start_pattern := Some ?p, flush_count := 1, event_log := [mk_timeval 0 0]\<rparr>"
  obtain u1 where u1: "run_state (process sample_env (sample_item 0 ''err'') quick_watch) (calm []) = (Inr (True, ?w1), u1)"
    using quick_process [OF quick_start p q(1-12), of 0 "calm []"] q(13,14) by auto
  have ago: "\<exists>t'. mk_timeval 0 0 = mk_timeval t' 0 \<and> t' \<le> 90" by (rule exI [of _ 0]) simp
  obtain u2 where u2: "run_state (process sample_env (sample_item 100 ''err'') ?w1) u1 =
      (Inr (True, ?w1\<lparr>start_pattern := Some ?p, flush_count := 2, event_log := [mk_timeval 100 0, mk_timeval 0 0]\<rparr>), u2)"
    using quick_process [of ?w1 ?p 100 u1] p q ago by (auto simp: numeral_2_eq_2)
  show ?thesis
    using u1 u2 q by (simp add: times_between_def)
qed

theorem events_keep_distance_witness:
  "\<exists>ts w' t. run_state (run_events sample_env [sample_item 0 ''err'', sample_item 100 ''err''] quick_watch) (calm []) =
      (Inr (ts, w'), t) \<and> length ts = 2 \<and> tv_us (ts ! 1) - tv_us (ts ! 0) \<ge> 10 * 1000000"
proof -
  obtain w' t where r: "run_state (run_events sample_env [sample_item 0 ''err'', sample_item 100 ''err''] quick_watch)
      (calm []) = (Inr ([mk_timeval 0 0, mk_timeval 100 0], w'), t)" and a: "accept_data w'"
    using quick_run by blast
  have q: "event_log quick_watch = []" "flush_count quick_watch = 0" "max_event_interval quick_watch = 10"
    "max_event_count quick_watch = 1"
    by (simp_all add: quick_watch_def setMaxEvents_def setStartPattern_def new_watch_def
        DEFAULT_MAX_COUNT_def DEFAULT_MAX_INTERVAL_def)
  have "tv_us ([mk_timeval 0 0, mk_timeval 100 0] ! (0 + 1)) - tv_us ([mk_timeval 0 0, mk_timeval 100 0] ! 0) \<ge> 10 * 1000000"
    using events_keep_distance [OF r q(1,2) _ _ a, of 0] q(3,4) by simp
  with r show ?thesis by auto
qed

text \<open>The check of the limit when it is set multiplies in 32 bits: a count beyond all bounds passes it.\<close>

theorem setMaxEvents_overflow:
  "max_event_count (setMaxEvents 42949673 60 w) = 42949673"
  by (simp add: setMaxEvents_def DEFAULT_MAX_COUNT_def DEFAULT_MAX_INTERVAL_def)

text \<open>Too many suspended records asked for limit the mailbox instead.\<close>

theorem setMaxSuspendRecords_mailbox:
  "n > 50 \<Longrightarrow> mailbox_max (setMaxSuspendRecords n w) = 50 \<and>
     max_suspend_records (setMaxSuspendRecords n w) = max_suspend_records w"
  by (simp add: setMaxSuspendRecords_def SUSPEND_RECORDS_MAX_LIMIT_def)

section \<open>No item is lost or counted twice\<close>

definition stored :: "watch \<Rightarrow> log_item list" where
  "stored w = concat (map items (records w)) @ (case cur_record w of None \<Rightarrow> [] | Some r \<Rightarrow> items r)"

definition hits :: "regex \<Rightarrow> log_item \<Rightarrow> item_pattern \<Rightarrow> bool" where
  "hits r li p \<longleftrightarrow> fst (check_pattern r p (msg li))"

definition kept_item :: "regex \<Rightarrow> log_item \<Rightarrow> watch \<Rightarrow> bool" where
  "kept_item r li w \<longleftrightarrow>
     (\<exists>p. start_pattern w = Some p \<and> hits r li p) \<or>
     (cur_record w \<noteq> None \<and>
      ((\<exists>p. end_pattern w = Some p \<and> hits r li p) \<or> body_patterns w = [] \<or> list_ex (hits r li) (body_patterns w)))"

text \<open>A watch that neither validates nor suspends records, with its record in hand valid.\<close>

definition plain_watch :: "watch \<Rightarrow> bool" where
  "plain_watch w \<longleftrightarrow> valid_pattern w = None \<and> event_suspend_interval w = 0 \<and>
     (\<forall>r. cur_record w = Some r \<longrightarrow> valid r)"

lemma plain_updates [simp]:
  "plain_watch (w\<lparr>start_pattern := p\<rparr>) = plain_watch w" "plain_watch (w\<lparr>end_pattern := p\<rparr>) = plain_watch w"
  "plain_watch (w\<lparr>body_patterns := ps\<rparr>) = plain_watch w"
  by (simp_all add: plain_watch_def)

lemma stored_updates [simp]:
  "stored (w\<lparr>start_pattern := p\<rparr>) = stored w" "stored (w\<lparr>end_pattern := p\<rparr>) = stored w"
  "stored (w\<lparr>body_patterns := ps\<rparr>) = stored w"
  by (simp_all add: stored_def)

lemma addRecord_plain: "event_suspend_interval w = 0 \<Longrightarrow> valid r \<Longrightarrow> addRecord r w = w\<lparr>records := records w @ [r]\<rparr>"
  by (simp add: addRecord_def)

lemma close_plain:
  "plain_watch w \<Longrightarrow> stored (close_record w) = stored w \<and> plain_watch (close_record w) \<and> cur_record (close_record w) = None"
  by (auto simp: close_record_def plain_watch_def addRecord_plain stored_def split: option.split)

lemma stale_plain: "plain_watch w \<Longrightarrow> stored (stale_record li w) = stored w \<and> plain_watch (stale_record li w)"
  by (simp add: stale_record_def close_plain split: option.split)

lemma full_plain: "plain_watch w \<Longrightarrow> stored (full_record t w) = stored w \<and> plain_watch (full_record t w)"
  by (simp add: full_record_def close_plain split: option.split)

lemma check_body_hit: "fst (check_body r (msg li) ps) \<longleftrightarrow> list_ex (hits r li) ps"
  by (induction ps) (auto simp: hits_def split: prod.split bool.split)

lemma body_plain:
  assumes "plain_watch w" "cur_record w = Some rec" "body_item r li rec w = (b, w')"
  shows "stored w' = stored w @ (if body_patterns w = [] \<or> list_ex (hits r li) (body_patterns w) then [li] else [])
    \<and> plain_watch w'"
  using assms check_body_hit [of r li "body_patterns w"]
  by (auto simp: body_item_def stored_def plain_watch_def addItem_def split: if_splits prod.splits bool.splits)

lemma continue_plain:
  assumes "plain_watch w" "continue_record r li w = Inr (b, w')"
  shows "stored w' = stored w @ (if cur_record w \<noteq> None \<and> ((\<exists>p. end_pattern w = Some p \<and> hits r li p) \<or>
      body_patterns w = [] \<or> list_ex (hits r li) (body_patterns w)) then [li] else []) \<and> plain_watch w'"
proof (cases "cur_record w")
  case None
  with assms show ?thesis by (auto simp: continue_record_def)
next
  case (Some rec)
  have v: "valid_item r li rec u = Inr (body_item r li rec u)" if "valid_pattern u = None" for u
    using that by (simp add: valid_item_def)
  show ?thesis
  proof (cases "end_pattern w")
    case None
    with assms Some show ?thesis
      using body_plain [OF assms(1) Some, of r li b w'] v [of w] by (auto simp: continue_record_def plain_watch_def)
  next
    case ep: (Some ep)
    obtain h ep' where c: "check_pattern r ep (msg li) = (h, ep')" by fastforce
    show ?thesis
    proof (cases h)
      case True
      with assms Some ep c have "w' = w\<lparr>end_pattern := Some ep', records := records w @ [addItem li rec], cur_record := None\<rparr>"
        by (auto simp: continue_record_def plain_watch_def addRecord_plain addItem_def)
      with assms(1) Some ep c True show ?thesis
        by (simp add: stored_def plain_watch_def addItem_def hits_def)
    next
      case False
      let ?w = "w\<lparr>end_pattern := Some ep'\<rparr>"
      have "body_item r li rec ?w = (b, w')"
        using assms Some ep c False v [of ?w] by (simp add: continue_record_def plain_watch_def)
      with body_plain [of ?w rec r li b w'] assms(1) Some ep c False show ?thesis
        by (simp add: hits_def)
    qed
  qed
qed

lemma start_plain:
  assumes "plain_watch w" "start_record li sp w = Inr w'"
  shows "stored w' = stored w @ [li] \<and> plain_watch w'"
proof -
  have "valid_pattern (close_record w) = None" using close_plain [OF assms(1)] by (simp add: plain_watch_def)
  with assms(2) obtain c where
    "w' = (close_record w)\<lparr>cur_record := Some ((addItem li new_record)\<lparr>captures := c, valid := True\<rparr>)\<rparr>"
    by (auto simp: start_record_def Let_def split: sum.splits)
  with close_plain [OF assms(1)] show ?thesis
    by (auto simp: stored_def plain_watch_def addItem_def new_record_def)
qed

lemma gather_plain:
  assumes "plain_watch w" "\<not> eof li" "gather r li w = Inr w'"
  shows "stored w' = stored w @ (if kept_item r li w then [li] else []) \<and> plain_watch w'"
proof -
  obtain b u where u: "take_item r li w = Inr (b, u)" "w' = stale_record li (full_record b u)"
    using assms(2,3) by (auto simp: gather_def split: sum.splits)
  have "stored u = stored w @ (if kept_item r li w then [li] else []) \<and> plain_watch u"
  proof (cases "start_pattern w")
    case None
    with u(1) continue_plain [OF assms(1), of r li b u] show ?thesis by (simp add: take_item_def kept_item_def)
  next
    case (Some sp)
    obtain h sp' where c: "check_pattern r sp (msg li) = (h, sp')" by fastforce
    let ?w = "w\<lparr>start_pattern := Some sp'\<rparr>"
    show ?thesis
    proof (cases h)
      case True
      with u(1) Some c have "start_record li sp' ?w = Inr u" by (auto simp: take_item_def split: sum.splits)
      with start_plain [of ?w li sp' u] assms(1) Some c True show ?thesis by (simp add: kept_item_def hits_def)
    next
      case False
      with u(1) Some c continue_plain [of ?w r li b u] assms(1) show ?thesis
        by (simp add: take_item_def kept_item_def hits_def)
    qed
  qed
  with u(2) stale_plain [of "full_record b u" li] full_plain [of u b] show ?thesis by simp
qed

text \<open>C15. Items are neither lost, doubled nor reordered while records are gathered: in a watch that does not
  validate or suspend records, the items held in its records and in the record in hand grow at the end by
  exactly the item, when it starts a record or belongs to the one in hand, and are the same otherwise.\<close>

theorem items_kept_in_order:
  assumes "valid_pattern w = None" "event_suspend_interval w = 0" "\<forall>rec. cur_record w = Some rec \<longrightarrow> valid rec"
    and "\<not> eof li" "gather r li w = Inr w'"
  shows "stored w' = stored w @ (if kept_item r li w then [li] else [])"
  using gather_plain [of w li r w'] assms by (simp add: plain_watch_def)

lemma quick_good: "good_watch word_regex quick_watch"
proof -
  have "full_groups word_regex ''err''"
    by (auto simp: full_groups_def word_regex_def countCaptures_def dest: prefix_length_le split: if_splits)
  then show ?thesis
    by (simp add: good_watch_def quick_start good_pattern_def new_pattern_def word_regex_def)
       (simp add: quick_watch_def setMaxEvents_def setStartPattern_def new_watch_def DEFAULT_MAX_COUNT_def
          DEFAULT_MAX_INTERVAL_def)
qed

theorem items_kept_in_order_witness:
  "\<exists>w'. gather word_regex (sample_item 0 ''err'') quick_watch = Inr w' \<and> stored w' = [sample_item 0 ''err'']"
proof -
  obtain w' where g: "gather word_regex (sample_item 0 ''err'') quick_watch = Inr w'"
    using good_gather [OF quick_good, of "sample_item 0 ''err''"] by (auto simp: sample_item_def)
  have q: "valid_pattern quick_watch = None" "event_suspend_interval quick_watch = 0" "cur_record quick_watch = None"
    "records quick_watch = []"
    by (simp_all add: quick_watch_def setMaxEvents_def setStartPattern_def new_watch_def DEFAULT_MAX_COUNT_def
        DEFAULT_MAX_INTERVAL_def)
  have "stored w' = stored quick_watch @ (if kept_item word_regex (sample_item 0 ''err'') quick_watch
      then [sample_item 0 ''err''] else [])"
    by (rule items_kept_in_order [OF q(1,2) _ _ g]) (simp_all add: q sample_item_def new_item_def)
  moreover have "kept_item word_regex (sample_item 0 ''err'') quick_watch"
    using quick_check [of "new_pattern word_regex ''err''"]
    by (simp add: kept_item_def hits_def quick_start sample_item_def new_pattern_def word_regex_def countCaptures_def)
  ultimately have "stored w' = [sample_item 0 ''err'']" using q by (simp add: stored_def)
  with g show ?thesis by blast
qed

end
