(* ===== verification/Lw_Threads.thy ===== *)
theory Lw_Threads
  imports Lw_Rate Transition
begin

text \<open>
  The reader of the log and the thread of a watch (EventWatch.cpp, \<open>feed\<close>, \<open>threadStart\<close> and
  \<open>threadLoop\<close>; logwatch.cpp, main). They share the mailbox, a semaphore and the flag that data are
  accepted. \<open>feed\<close> checks the item and the flag without the mutex and then enters the section under it,
  so it is two steps, between which the thread may run; the thread takes an item under the mutex in one
  step and processes it in another, whose only section under the mutex is the one that ends the watch.
\<close>

section \<open>The steps\<close>

record lw_sys =
  wt :: watch
  todo :: "log_item list"
  pending :: "log_item option"
  hand :: "log_item option"
  items_available :: nat
  broken :: "failure option"
  wld :: world

text \<open>What \<open>feed\<close> checks first; the item goes on with the watch that \<open>threadStart\<close> leaves.\<close>

definition feed_check :: "log_item \<Rightarrow> watch \<Rightarrow> watch option" where
  "feed_check li w =
    (if \<not> eof li \<and> (prio li > max_level w \<or> prio li < min_level w) then None
     else if \<not> accept_data w then None
     else (case thread_state w of
             STOPPED \<Rightarrow> None
           | READY \<Rightarrow> Some (w\<lparr>thread_state := RUNNING\<rparr>)
           | RUNNING \<Rightarrow> Some w))"

definition feed_put :: "log_item \<Rightarrow> watch \<Rightarrow> watch \<times> bool" where
  "feed_put li w =
    (if length (mailbox w) > mailbox_max w
     then (w\<lparr>kill_reason := LAZY, mailbox := [eof_item], accept_data := False\<rparr>, True)
     else if accept_data w then (w\<lparr>mailbox := mailbox w @ [li]\<rparr>, True)
     else (w, False))"

text \<open>main passes an item on unless it is empty.\<close>

definition offer :: "lw_sys \<Rightarrow> lw_sys" where
  "offer s =
    (case todo s of
       [] \<Rightarrow> s
     | li # lis \<Rightarrow>
        (if \<not> eof li \<and> is_empty li then s\<lparr>todo := lis\<rparr>
         else (case feed_check li (wt s) of
                 None \<Rightarrow> s\<lparr>todo := lis\<rparr>
               | Some w \<Rightarrow> s\<lparr>todo := lis, wt := w, pending := Some li\<rparr>)))"

definition deliver :: "log_item \<Rightarrow> lw_sys \<Rightarrow> lw_sys" where
  "deliver li s =
    (case feed_put li (wt s) of
       (w, post) \<Rightarrow> s\<lparr>wt := w, pending := None,
                     items_available := (if post then Suc (items_available s) else items_available s)\<rparr>)"

definition take_mail :: "lw_sys \<Rightarrow> lw_sys" where
  "take_mail s =
    (case mailbox (wt s) of
       [] \<Rightarrow> s\<lparr>items_available := items_available s - 1\<rparr>
     | li # m \<Rightarrow> s\<lparr>items_available := items_available s - 1, wt := (wt s)\<lparr>mailbox := m\<rparr>, hand := Some li\<rparr>)"

definition work :: "lw_env \<Rightarrow> log_item \<Rightarrow> lw_sys \<Rightarrow> lw_sys" where
  "work e li s =
    (case run_state (process e li (wt s)) (wld s) of
       (Inl err, t) \<Rightarrow> s\<lparr>hand := None, broken := Some err, wld := t\<rparr>
     | (Inr (go, w), t) \<Rightarrow>
         s\<lparr>hand := None, wld := t,
           items_available := (if accept_data (wt s) \<and> \<not> accept_data w then Suc (items_available s) else items_available s),
           wt := (if go then w else w\<lparr>thread_state := STOPPED\<rparr>)\<rparr>)"

inductive lw_step :: "lw_env \<Rightarrow> lw_sys \<Rightarrow> lw_sys \<Rightarrow> bool" for e where
  reader_offers: "broken s = None \<Longrightarrow> todo s \<noteq> [] \<Longrightarrow> pending s = None \<Longrightarrow> lw_step e s (offer s)"
| reader_delivers: "broken s = None \<Longrightarrow> pending s = Some li \<Longrightarrow> lw_step e s (deliver li s)"
| thread_takes: "broken s = None \<Longrightarrow> thread_state (wt s) = RUNNING \<Longrightarrow> hand s = None \<Longrightarrow>
    items_available s > 0 \<Longrightarrow> lw_step e s (take_mail s)"
| thread_works: "broken s = None \<Longrightarrow> thread_state (wt s) = RUNNING \<Longrightarrow> hand s = Some li \<Longrightarrow> lw_step e s (work e li s)"

inductive_cases lw_stepE: "lw_step e s t"

text \<open>A watch as it is configured, before the first item, and a log that ends once.\<close>

definition fresh :: "watch \<Rightarrow> bool" where
  "fresh w \<longleftrightarrow> mailbox w = [] \<and> thread_state w = READY \<and> accept_data w"

definition lw_start :: "watch \<Rightarrow> log_item list \<Rightarrow> world \<Rightarrow> lw_sys \<Rightarrow> bool" where
  "lw_start w lis v s \<longleftrightarrow> fresh w \<and> (\<forall>li \<in> set lis. \<not> eof li) \<and>
     s = \<lparr>wt = w, todo = lis @ [eof_item], pending = None, hand = None,
          items_available = 0, broken = None, wld = v\<rparr>"

section \<open>The mailbox is not looked at while an item is processed\<close>

definition shift :: "log_item list \<Rightarrow> thread_state \<Rightarrow> watch \<Rightarrow> watch" where
  "shift m ts w = w\<lparr>mailbox := m, thread_state := ts\<rparr>"

lemma shift_fields [simp]:
  "mailbox (shift m ts w) = m" "thread_state (shift m ts w) = ts" "accept_data (shift m ts w) = accept_data w"
  "records (shift m ts w) = records w" "cur_record (shift m ts w) = cur_record w"
  "start_pattern (shift m ts w) = start_pattern w" "end_pattern (shift m ts w) = end_pattern w"
  "valid_pattern (shift m ts w) = valid_pattern w" "body_patterns (shift m ts w) = body_patterns w"
  "max_items (shift m ts w) = max_items w" "max_records (shift m ts w) = max_records w"
  "flush_timeout (shift m ts w) = flush_timeout w" "event_suspend_interval (shift m ts w) = event_suspend_interval w"
  "keep_last (shift m ts w) = keep_last w" "flush_count (shift m ts w) = flush_count w"
  "name (shift m ts w) = name w" "attachments (shift m ts w) = attachments w"
  "data_formats (shift m ts w) = data_formats w" "event_level (shift m ts w) = event_level w"
  "suspend_records (shift m ts w) = suspend_records w" "suspend_until (shift m ts w) = suspend_until w"
  "suspend_records_count (shift m ts w) = suspend_records_count w"
  "max_suspend_records (shift m ts w) = max_suspend_records w"
  "event_log (shift m ts w) = event_log w" "max_event_count (shift m ts w) = max_event_count w"
  "max_event_interval (shift m ts w) = max_event_interval w" "mailbox_max (shift m ts w) = mailbox_max w"
  "max_level (shift m ts w) = max_level w" "min_level (shift m ts w) = min_level w"
  by (simp_all add: shift_def)

lemma shift_updates [simp]:
  "(shift m ts w)\<lparr>records := x1\<rparr> = shift m ts (w\<lparr>records := x1\<rparr>)"
  "(shift m ts w)\<lparr>suspend_records := x1\<rparr> = shift m ts (w\<lparr>suspend_records := x1\<rparr>)"
  "(shift m ts w)\<lparr>suspend_records_count := n\<rparr> = shift m ts (w\<lparr>suspend_records_count := n\<rparr>)"
  "(shift m ts w)\<lparr>suspend_until := t\<rparr> = shift m ts (w\<lparr>suspend_until := t\<rparr>)"
  "(shift m ts w)\<lparr>cur_record := x2\<rparr> = shift m ts (w\<lparr>cur_record := x2\<rparr>)"
  "(shift m ts w)\<lparr>start_pattern := x3\<rparr> = shift m ts (w\<lparr>start_pattern := x3\<rparr>)"
  "(shift m ts w)\<lparr>end_pattern := x3\<rparr> = shift m ts (w\<lparr>end_pattern := x3\<rparr>)"
  "(shift m ts w)\<lparr>valid_pattern := x3\<rparr> = shift m ts (w\<lparr>valid_pattern := x3\<rparr>)"
  "(shift m ts w)\<lparr>body_patterns := x4\<rparr> = shift m ts (w\<lparr>body_patterns := x4\<rparr>)"
  "(shift m ts w)\<lparr>data_formats := x5\<rparr> = shift m ts (w\<lparr>data_formats := x5\<rparr>)"
  "(shift m ts w)\<lparr>flush_count := n\<rparr> = shift m ts (w\<lparr>flush_count := n\<rparr>)"
  "(shift m ts w)\<lparr>event_log := x6\<rparr> = shift m ts (w\<lparr>event_log := x6\<rparr>)"
  by (simp_all add: shift_def)

lemma shift_addRecord [simp]: "addRecord r (shift m ts w) = shift m ts (addRecord r w)"
  by (simp add: addRecord_def Let_def)

lemma shift_close [simp]: "close_record (shift m ts w) = shift m ts (close_record w)"
  by (simp add: close_record_def split: option.split)

lemma shift_stale [simp]: "stale_record li (shift m ts w) = shift m ts (stale_record li w)"
  by (simp add: stale_record_def split: option.split)

lemma shift_full [simp]: "full_record t (shift m ts w) = shift m ts (full_record t w)"
  by (simp add: full_record_def split: option.split)

lemma shift_start: "start_record li sp (shift m ts w) = map_sum id (shift m ts) (start_record li sp w)"
  by (simp add: start_record_def Let_def split: sum.split)

lemma shift_body: "body_item r li rec (shift m ts w) = map_prod id (shift m ts) (body_item r li rec w)"
  by (simp add: body_item_def split: prod.split bool.split)

lemma shift_valid: "valid_item r li rec (shift m ts w) = map_sum id (map_prod id (shift m ts)) (valid_item r li rec w)"
  by (simp add: valid_item_def shift_body split: option.split prod.split bool.split sum.split)

lemma shift_continue:
  "continue_record r li (shift m ts w) = map_sum id (map_prod id (shift m ts)) (continue_record r li w)"
  by (simp add: continue_record_def shift_valid split: option.split prod.split bool.split)

lemma shift_take: "take_item r li (shift m ts w) = map_sum id (map_prod id (shift m ts)) (take_item r li w)"
  by (simp add: take_item_def shift_continue shift_start split: option.split prod.split bool.split sum.split)

lemma shift_gather: "gather r li (shift m ts w) = map_sum id (shift m ts) (gather r li w)"
  by (simp add: gather_def shift_take split: sum.split prod.split)

lemma shift_names [simp]:
  "getOutputDirName e (shift m ts w) i = getOutputDirName e w i"
  "setupOutputDir e (shift m ts w) p = setupOutputDir e w p"
  "suspend_text (shift m ts w) = suspend_text w"
  "submission_text e (shift m ts w) ds f = submission_text e w ds f"
  by (simp_all add: getOutputDirName_def setupOutputDir_def suspend_text_def submission_text_def cong: if_cong)

lemma shift_write_suspend:
  "run_state (write_suspend root (shift m ts w)) s = map_prod (map_prod id (shift m ts)) id (run_state (write_suspend root w) s)"
  by (simp add: write_suspend_def split: prod.split)

lemma shift_finish_files:
  "run_state (finish_files e root f (shift m ts w)) s =
    map_prod (map_sum id (shift m ts)) id (run_state (finish_files e root f w) s)"
  by (simp add: finish_files_def split: prod.split sum.split list.split)

lemma shift_flush_files:
  "run_state (flush_files e (shift m ts w)) s = map_prod (map_sum id (shift m ts)) id (run_state (flush_files e w) s)"
  by (simp add: flush_files_def shift_write_suspend shift_finish_files Let_def split: prod.split)

definition shift_alive :: "watch \<Rightarrow> log_item list \<Rightarrow> thread_state \<Rightarrow> watch \<Rightarrow> watch" where
  "shift_alive w0 m ts w = (if accept_data w0 \<and> \<not> accept_data w then w\<lparr>thread_state := ts\<rparr> else shift m ts w)"

lemma shift_logEvent: "logEvent t (shift m ts w) = shift m ts (logEvent t w)"
  by (simp add: logEvent_def Let_def)

lemma shift_logContinue: "logContinue (shift m ts w) = logContinue w"
  by (simp add: logContinue_def)

lemma shift_flush_log: "flush_log (shift m ts w) = map_sum id (shift_alive w m ts) (flush_log w)"
  by (simp add: flush_log_def shift_logEvent shift_logContinue shift_alive_def kill_watch_def Let_def
      split: list.split sum.split)

lemma flush_files_alive:
  "run_state (flush_files e w) s = (Inr w', t) \<Longrightarrow> accept_data w' = accept_data w"
  by (drule flush_files_shape) auto

lemma shift_flush:
  "run_state (flush e (shift m ts w)) s = map_prod (map_sum id (shift_alive w m ts)) id (run_state (flush e w) s)"
proof (cases "run_state (flush_files e w) s")
  case (Pair r t)
  show ?thesis
  proof (cases r)
    case (Inr w1)
    have "shift_alive w1 m ts = shift_alive w m ts"
      using flush_files_alive [of e w s w1 t] Pair Inr by (simp add: shift_alive_def fun_eq_iff)
    with Pair Inr show ?thesis by (simp add: flush_def shift_flush_files shift_flush_log)
  qed (use Pair in \<open>simp add: flush_def shift_flush_files\<close>)
qed

lemma shift_suspend_watch: "suspend_watch (shift m ts w) = map_sum id (shift m ts) (suspend_watch w)"
  by (simp add: suspend_watch_def split: list.split)

lemma suspend_watch_alive: "suspend_watch w = Inr w' \<Longrightarrow> accept_data w' = accept_data w"
  by (auto simp: suspend_watch_def split: if_splits list.splits)

lemma shift_alive_suspend: "(shift_alive w m ts w')\<lparr>suspend_records := x\<rparr> = shift_alive w m ts (w'\<lparr>suspend_records := x\<rparr>)"
  by (simp add: shift_alive_def)

lemma shift_due: "due li (shift m ts w) = due li w"
  by (simp add: due_def)

lemma shift_emit:
  "run_state (emit e li (shift m ts w)) s = map_prod (map_sum id (shift_alive w m ts)) id (run_state (emit e li w) s)"
proof (cases "due li w")
  case True
  show ?thesis
  proof (cases "suspend_watch w")
    case (Inr w1)
    then have "shift_alive w1 m ts = shift_alive w m ts"
      using suspend_watch_alive [OF Inr] by (simp add: shift_alive_def fun_eq_iff)
    with True Inr show ?thesis by (simp add: emit_def shift_due shift_suspend_watch shift_flush)
  qed (use True in \<open>simp add: emit_def shift_due shift_suspend_watch\<close>)
next
  case False
  have a: "shift_alive w m ts w = shift m ts w"
    "shift_alive w m ts (w\<lparr>suspend_records := []\<rparr>) = shift m ts (w\<lparr>suspend_records := []\<rparr>)"
    by (simp_all add: shift_alive_def)
  from False show ?thesis
    by (cases "run_state (flush e w) s")
       (simp add: emit_def shift_due shift_flush shift_alive_suspend a split: sum.split)
qed

text \<open>The end of a watch puts the end of the log in its mailbox; nothing else touches the mailbox.\<close>

definition alive_view :: "watch \<Rightarrow> bool \<times> log_item list \<times> thread_state \<times> nat \<times> nat \<times> nat" where
  "alive_view w = (accept_data w, mailbox w, thread_state w, mailbox_max w, max_level w, min_level w)"

definition same_setup :: "watch \<Rightarrow> watch \<Rightarrow> bool" where
  "same_setup w w' \<longleftrightarrow> mailbox_max w' = mailbox_max w \<and> max_level w' = max_level w \<and> min_level w' = min_level w"

interpretation alive: watch_view alive_view
  by unfold_locales (simp_all add: alive_view_def)

lemma shift_process:
  "run_state (process e li (shift m ts w)) s =
    map_prod (map_sum id (map_prod id (shift_alive w m ts))) id (run_state (process e li w) s)"
proof (cases "gather (rx e) li w")
  case (Inr w1)
  then have "shift_alive w1 m ts = shift_alive w m ts"
    using alive.gather_view [OF Inr] by (simp add: shift_alive_def alive_view_def fun_eq_iff)
  with Inr show ?thesis
    by (cases "run_state (emit e li w1) s") (simp add: process_def shift_gather shift_emit split: sum.split)
qed (simp add: process_def shift_gather)

lemma flush_log_alive:
  "flush_log w = Inr w' \<Longrightarrow> thread_state w' = thread_state w \<and> same_setup w w' \<and>
    (accept_data w' = accept_data w \<and> mailbox w' = mailbox w \<or>
     accept_data w \<and> \<not> accept_data w' \<and> mailbox w' = [eof_item])"
  by (auto simp: flush_log_def same_setup_def Let_def logEvent_def kill_watch_def
      split: list.splits if_splits sum.splits)

lemma process_alive:
  assumes "run_state (process e li w) s = (Inr (go, w'), t)"
  shows "go = (\<not> eof li) \<and> thread_state w' = thread_state w \<and> same_setup w w' \<and>
    (accept_data w' = accept_data w \<and> mailbox w' = mailbox w \<or>
     accept_data w \<and> \<not> accept_data w' \<and> mailbox w' = [eof_item])"
proof -
  obtain w1 where g: "gather (rx e) li w = Inr w1" and em: "run_state (emit e li w1) s = (Inr w', t)"
    and go: "go = (\<not> eof li)"
    using assms by (auto simp: process_def split: sum.splits prod.splits)
  have v: "alive_view w1 = alive_view w" by (rule alive.gather_view [OF g])
  have fl: "thread_state b = thread_state a \<and> same_setup a b \<and>
      (accept_data b = accept_data a \<and> mailbox b = mailbox a \<or>
       accept_data a \<and> \<not> accept_data b \<and> mailbox b = [eof_item])"
    if f: "run_state (flush e a) s = (Inr b, t)" for a b
  proof -
    obtain c where c: "run_state (flush_files e a) s = (Inr c, t)" "flush_log c = Inr b"
      using f by (auto simp: flush_def split: prod.splits sum.splits)
    from flush_files_shape [OF c(1)] flush_log_alive [OF c(2)] show ?thesis by (auto simp: same_setup_def)
  qed
  have "thread_state w' = thread_state w1 \<and> same_setup w1 w' \<and>
      (accept_data w' = accept_data w1 \<and> mailbox w' = mailbox w1 \<or>
       accept_data w1 \<and> \<not> accept_data w' \<and> mailbox w' = [eof_item])"
    using em fl
    by (auto simp: emit_def suspend_watch_def same_setup_def split: if_splits sum.splits prod.splits list.splits; force)
  with v go show ?thesis by (simp add: alive_view_def same_setup_def)
qed

section \<open>The mailbox is bounded\<close>

lemma run_process_cases:
  obtains (fails) err t where "run_state (process e li w) s = (Inl err, t)"
  | (goes) w' t where "run_state (process e li w) s = (Inr (\<not> eof li, w'), t)"
proof (cases "run_state (process e li w) s")
  case (Pair r t)
  show ?thesis
  proof (cases r)
    case (Inr p)
    obtain go w' where p: "p = (go, w')" by (cases p)
    with Pair Inr have "run_state (process e li w) s = (Inr (go, w'), t)" by simp
    from goes [of w' t] process_alive [OF this] this show ?thesis by simp
  qed (use Pair fails in auto)
qed

definition mail_inv :: "lw_sys \<Rightarrow> bool" where
  "mail_inv s \<longleftrightarrow> length (mailbox (wt s)) \<le> Suc (mailbox_max (wt s))"

lemma mail_inv_step: "mail_inv s \<Longrightarrow> lw_step e s t \<Longrightarrow> mail_inv t"
proof (erule lw_stepE)
  assume i: "mail_inv s"
  show "mail_inv t" if "t = offer s"
    using i that by (auto simp: mail_inv_def offer_def feed_check_def split: list.split option.split thread_state.split)
  show "mail_inv t" if "t = deliver li s" for li
    using i that by (auto simp: mail_inv_def deliver_def feed_put_def)
  show "mail_inv t" if "t = take_mail s"
    using i that by (auto simp: mail_inv_def take_mail_def split: list.split)
  show "mail_inv t" if t: "t = work e li s" for li
  proof (cases rule: run_process_cases [of e li "wt s" "wld s"])
    case (fails err u)
    with i t show ?thesis by (simp add: mail_inv_def work_def)
  next
    case (goes w' u)
    with i t process_alive [OF goes] show ?thesis by (auto simp: mail_inv_def work_def same_setup_def)
  qed
qed

interpretation mail: invariant "lw_start w lis v" "lw_step e" mail_inv for w lis v e
  by unfold_locales (auto simp: lw_start_def fresh_def intro: mail_inv_step, simp add: mail_inv_def)

section \<open>Any interleaving gives what one thread would give\<close>

definition acceptable :: "watch \<Rightarrow> log_item \<Rightarrow> bool" where
  "acceptable w li \<longleftrightarrow> eof li \<or> (\<not> is_empty li \<and> prio li \<le> max_level w \<and> min_level w \<le> prio li)"

definition opt :: "'a option \<Rightarrow> 'a list" where
  "opt x = (case x of None \<Rightarrow> [] | Some y \<Rightarrow> [y])"

lemma opt_simps [simp]: "opt None = []" "opt (Some y) = [y]"
  by (simp_all add: opt_def)

definition follows :: "lw_env \<Rightarrow> watch \<Rightarrow> world \<Rightarrow> log_item list \<Rightarrow> log_item list \<Rightarrow> lw_sys \<Rightarrow> bool" where
  "follows e w0 v0 passed dn s \<longleftrightarrow>
     filter (acceptable w0) passed = dn @ opt (hand s) @ mailbox (wt s) @ opt (pending s) \<and>
     (thread_state (wt s) = STOPPED \<longleftrightarrow> (\<exists>li \<in> set dn. eof li)) \<and>
     (\<exists>w. run_state (run_items e dn w0) v0 = (Inr w, wld s) \<and>
          wt s = shift (mailbox (wt s)) (thread_state (wt s)) w)"

definition sim_inv :: "lw_env \<Rightarrow> watch \<Rightarrow> world \<Rightarrow> log_item list \<Rightarrow> lw_sys \<Rightarrow> bool" where
  "sim_inv e w0 v0 lis s \<longleftrightarrow> same_setup w0 (wt s) \<and>
     (\<exists>passed dn. lis @ [eof_item] = passed @ todo s \<and>
        (broken s = None \<and> accept_data (wt s) \<longrightarrow> follows e w0 v0 passed dn s))"

lemma run_items_snoc:
  assumes "run_state (process e li w1) t = (Inr (go, w2), u)"
  shows "\<forall>x \<in> set xs. \<not> eof x \<Longrightarrow> run_state (run_items e xs w) s = (Inr w1, t) \<Longrightarrow>
    run_state (run_items e (xs @ [li]) w) s = (Inr w2, u)"
proof (induction xs arbitrary: w s)
  case Nil
  then show ?case using assms by simp
next
  case (Cons x xs)
  show ?case
  proof (cases rule: run_process_cases [of e x w s])
    case (fails err t')
    with Cons.prems show ?thesis by simp
  next
    case (goes w' t')
    with Cons show ?thesis by simp
  qed
qed

lemma follows_done_all:
  assumes "follows e w0 v0 passed dn s" "lis @ [eof_item] = passed @ td" "\<forall>li \<in> set lis. \<not> eof li"
    and "\<exists>li \<in> set dn. eof li"
  shows "td = [] \<and> passed = lis @ [eof_item] \<and> dn = filter (acceptable w0) passed"
proof -
  obtain x where x: "x \<in> set dn" "eof x" using assms(4) by blast
  then have xp: "x \<in> set passed" using assms(1) unfolding follows_def by (metis Un_iff filter_is_subset set_append subsetD)
  show ?thesis
  proof (cases td rule: rev_cases)
    case (snoc ys y)
    then have "lis = passed @ ys" using assms(2) by simp
    with xp x(2) assms(3) show ?thesis by simp
  next
    case Nil
    with assms(2) have p: "passed = lis @ [eof_item]" by simp
    have "acceptable w0 eof_item" by (simp add: acceptable_def)
    then have "filter (acceptable w0) lis @ [eof_item] = dn @ opt (hand s) @ mailbox (wt s) @ opt (pending s)"
      using assms(1) p by (simp add: follows_def)
    moreover have "opt (hand s) @ mailbox (wt s) @ opt (pending s) = []"
    proof (rule ccontr)
      assume "opt (hand s) @ mailbox (wt s) @ opt (pending s) \<noteq> []"
      then obtain zs z where "opt (hand s) @ mailbox (wt s) @ opt (pending s) = zs @ [z]"
        by (cases "opt (hand s) @ mailbox (wt s) @ opt (pending s)" rule: rev_cases) auto
      with calculation have "filter (acceptable w0) lis = dn @ zs" by (metis append.assoc butlast_snoc)
      then have "x \<in> set lis" using x(1) by (metis Un_iff filter_is_subset set_append subsetD)
      with x(2) assms(3) show False by blast
    qed
    ultimately show ?thesis using Nil p assms(1) by (simp add: follows_def)
  qed
qed

lemma shift_shift [simp]: "shift m ts (shift m' ts' w) = shift m ts w"
  by (simp add: shift_def)

lemma shift_self [simp]: "shift (mailbox w) (thread_state w) w = w"
  by (simp add: shift_def)

lemma follows_shifted:
  "wt s = shift (mailbox (wt s)) (thread_state (wt s)) w \<Longrightarrow> wt t = shift m ts (wt s) \<Longrightarrow>
   wt t = shift (mailbox (wt t)) (thread_state (wt t)) w"
  by (metis shift_fields(1,2) shift_shift)

lemma shift_keep: "w\<lparr>mailbox := m\<rparr> = shift m (thread_state w) w"
  by (simp add: shift_def)

lemma sim_invI:
  "same_setup w0 (wt s) \<Longrightarrow> broken s = None \<and> accept_data (wt s) \<longrightarrow> follows e w0 v0 passed dn s \<Longrightarrow>
   lis @ [eof_item] = passed @ todo s \<Longrightarrow> sim_inv e w0 v0 lis s"
  by (auto simp: sim_inv_def)

lemma sim_start: "lw_start w lis v s \<Longrightarrow> sim_inv e w v lis s"
proof -
  assume s: "lw_start w lis v s"
  have "wt s = shift (mailbox (wt s)) (thread_state (wt s)) w" using s by (simp add: lw_start_def)
  then have "follows e w v [] [] s" using s by (simp add: follows_def lw_start_def fresh_def)
  with s show "sim_inv e w v lis s"
    by (auto simp: sim_inv_def same_setup_def lw_start_def intro!: exI [of _ "[]"])
qed

lemma sim_offer:
  assumes i: "sim_inv e w0 v0 lis s" and b: "broken s = None" "todo s \<noteq> []" "pending s = None"
    and lis: "\<forall>li \<in> set lis. \<not> eof li"
  shows "sim_inv e w0 v0 lis (offer s)"
proof -
  obtain li td where td: "todo s = li # td" using b(2) by (cases "todo s") auto
  obtain passed dn where p: "lis @ [eof_item] = passed @ todo s" and st: "same_setup w0 (wt s)"
    and f: "broken s = None \<and> accept_data (wt s) \<longrightarrow> follows e w0 v0 passed dn s"
    using i unfolding sim_inv_def by blast
  have p': "lis @ [eof_item] = (passed @ [li]) @ td" using p td by simp
  have fields: "todo (offer s) = td" "broken (offer s) = broken s" "hand (offer s) = hand s"
    "mailbox (wt (offer s)) = mailbox (wt s)" "accept_data (wt (offer s)) = accept_data (wt s)"
    "same_setup w0 (wt (offer s))" "wld (offer s) = wld s"
    "wt (offer s) = shift (mailbox (wt s)) (thread_state (wt (offer s))) (wt s)"
    using td st by (auto simp: offer_def feed_check_def same_setup_def shift_def split: option.split thread_state.split)
  have "follows e w0 v0 (passed @ [li]) dn (offer s)" if a: "accept_data (wt s)"
  proof -
    have fs: "follows e w0 v0 passed dn s" using f b(1) a by simp
    have ns: "thread_state (wt s) \<noteq> STOPPED"
    proof
      assume "thread_state (wt s) = STOPPED"
      then have "\<exists>li \<in> set dn. eof li" using fs by (simp add: follows_def)
      with follows_done_all [OF fs p lis] td show False by simp
    qed
    have th: "thread_state (wt (offer s)) \<noteq> STOPPED"
      using ns td by (auto simp: offer_def feed_check_def split: option.split thread_state.split)
    have c1: "filter (acceptable w0) (passed @ [li]) = dn @ opt (hand s) @ mailbox (wt s) @ opt (pending (offer s))"
      using fs b(3) td a ns st
      by (auto simp: follows_def acceptable_def same_setup_def offer_def feed_check_def
          split: option.splits thread_state.splits if_splits)
    obtain w where c3: "run_state (run_items e dn w0) v0 = (Inr w, wld s)"
      "wt s = shift (mailbox (wt s)) (thread_state (wt s)) w" using fs by (auto simp: follows_def)
    have c2: "\<not> (\<exists>li \<in> set dn. eof li)" using fs ns by (simp add: follows_def)
    show ?thesis
      unfolding follows_def
    proof (intro conjI exI)
      show "filter (acceptable w0) (passed @ [li]) =
          dn @ opt (hand (offer s)) @ mailbox (wt (offer s)) @ opt (pending (offer s))"
        using c1 by (simp only: fields(3,4))
      show "(thread_state (wt (offer s)) = STOPPED) = (\<exists>li \<in> set dn. eof li)" using th c2 by simp
      show "run_state (run_items e dn w0) v0 = (Inr w, wld (offer s))" using c3(1) by (simp only: fields(7))
      show "wt (offer s) = shift (mailbox (wt (offer s))) (thread_state (wt (offer s))) w"
        by (rule follows_shifted [OF c3(2) fields(8)])
    qed
  qed
  then have "broken (offer s) = None \<and> accept_data (wt (offer s)) \<longrightarrow> follows e w0 v0 (passed @ [li]) dn (offer s)"
    unfolding fields(5) by blast
  moreover have "lis @ [eof_item] = (passed @ [li]) @ todo (offer s)" unfolding fields(1) by (rule p')
  ultimately show ?thesis by (rule sim_invI [OF fields(6)])
qed

lemma feed_put_goes: "accept_data (fst (feed_put li w)) \<Longrightarrow> feed_put li w = (shift (mailbox w @ [li]) (thread_state w) w, True) \<and> accept_data w"
proof -
  assume a: "accept_data (fst (feed_put li w))"
  then have n: "\<not> length (mailbox w) > mailbox_max w" by (auto simp: feed_put_def)
  with a have "accept_data w" by (simp add: feed_put_def split: if_splits)
  with n show ?thesis unfolding feed_put_def shift_keep by simp
qed

lemma sim_deliver:
  assumes i: "sim_inv e w0 v0 lis s" and b: "broken s = None" "pending s = Some li"
  shows "sim_inv e w0 v0 lis (deliver li s)"
proof -
  obtain passed dn where p: "lis @ [eof_item] = passed @ todo s" and st: "same_setup w0 (wt s)"
    and f: "broken s = None \<and> accept_data (wt s) \<longrightarrow> follows e w0 v0 passed dn s"
    using i unfolding sim_inv_def by blast
  have su: "same_setup w0 (wt (deliver li s))"
    using st by (simp add: deliver_def feed_put_def same_setup_def)
  have fields: "todo (deliver li s) = todo s" "hand (deliver li s) = hand s" "wld (deliver li s) = wld s"
    "pending (deliver li s) = None" "wt (deliver li s) = fst (feed_put li (wt s))"
    by (simp_all add: deliver_def split: prod.split)
  have "follows e w0 v0 passed dn (deliver li s)" if "accept_data (wt (deliver li s))"
  proof -
    have g: "wt (deliver li s) = shift (mailbox (wt s) @ [li]) (thread_state (wt s)) (wt s)" "accept_data (wt s)"
      using feed_put_goes [of li "wt s"] that fields(5) by simp_all
    then have fs: "follows e w0 v0 passed dn s" using f b(1) by simp
    then obtain w where w: "run_state (run_items e dn w0) v0 = (Inr w, wld s)"
      "wt s = shift (mailbox (wt s)) (thread_state (wt s)) w" by (auto simp: follows_def)
    have m: "mailbox (wt (deliver li s)) = mailbox (wt s) @ [li]" "thread_state (wt (deliver li s)) = thread_state (wt s)"
      unfolding g(1) by simp_all
    show ?thesis
      unfolding follows_def
    proof (intro conjI exI)
      show "wt (deliver li s) = shift (mailbox (wt (deliver li s))) (thread_state (wt (deliver li s))) w"
        by (rule follows_shifted [OF w(2) g(1)])
      show "run_state (run_items e dn w0) v0 = (Inr w, wld (deliver li s))" using w(1) by (simp only: fields(3))
      show "filter (acceptable w0) passed =
          dn @ opt (hand (deliver li s)) @ mailbox (wt (deliver li s)) @ opt (pending (deliver li s))"
        unfolding m fields(2,4) using fs b(2) by (simp add: follows_def)
      show "(thread_state (wt (deliver li s)) = STOPPED) = (\<exists>li \<in> set dn. eof li)"
        unfolding m using fs by (simp add: follows_def)
    qed
  qed
  then have "broken (deliver li s) = None \<and> accept_data (wt (deliver li s)) \<longrightarrow> follows e w0 v0 passed dn (deliver li s)"
    by blast
  moreover have "lis @ [eof_item] = passed @ todo (deliver li s)" unfolding fields(1) by (rule p)
  ultimately show ?thesis by (rule sim_invI [OF su])
qed

lemma sim_take:
  assumes i: "sim_inv e w0 v0 lis s" and b: "broken s = None" "hand s = None"
  shows "sim_inv e w0 v0 lis (take_mail s)"
proof -
  obtain passed dn where p: "lis @ [eof_item] = passed @ todo s" and st: "same_setup w0 (wt s)"
    and f: "broken s = None \<and> accept_data (wt s) \<longrightarrow> follows e w0 v0 passed dn s"
    using i unfolding sim_inv_def by blast
  have fields: "todo (take_mail s) = todo s" "same_setup w0 (wt (take_mail s))" "wld (take_mail s) = wld s"
    "pending (take_mail s) = pending s" "accept_data (wt (take_mail s)) = accept_data (wt s)"
    "opt (hand (take_mail s)) @ mailbox (wt (take_mail s)) = mailbox (wt s)"
    "thread_state (wt (take_mail s)) = thread_state (wt s)"
    using st b(2) by (simp_all add: take_mail_def same_setup_def split: list.split)
  have sh: "wt (take_mail s) = shift (mailbox (wt (take_mail s))) (thread_state (wt s)) (wt s)"
  proof (cases "mailbox (wt s)")
    case Nil
    then show ?thesis by (simp add: take_mail_def) (metis shift_self)
  qed (simp add: take_mail_def shift_keep)
  have "follows e w0 v0 passed dn (take_mail s)" if "accept_data (wt s)"
  proof -
    have fs: "follows e w0 v0 passed dn s" using f b(1) that by simp
    then obtain w where w: "run_state (run_items e dn w0) v0 = (Inr w, wld s)"
      "wt s = shift (mailbox (wt s)) (thread_state (wt s)) w" by (auto simp: follows_def)
    show ?thesis
      unfolding follows_def
    proof (intro conjI exI)
      show "wt (take_mail s) = shift (mailbox (wt (take_mail s))) (thread_state (wt (take_mail s))) w"
        by (rule follows_shifted [OF w(2) sh])
      show "run_state (run_items e dn w0) v0 = (Inr w, wld (take_mail s))" using w(1) by (simp only: fields(3))
      have "filter (acceptable w0) passed = dn @ mailbox (wt s) @ opt (pending s)"
        using fs b(2) by (simp add: follows_def)
      then show "filter (acceptable w0) passed =
          dn @ opt (hand (take_mail s)) @ mailbox (wt (take_mail s)) @ opt (pending (take_mail s))"
        unfolding fields(4) fields(6) [symmetric] by simp
      show "(thread_state (wt (take_mail s)) = STOPPED) = (\<exists>li \<in> set dn. eof li)"
        unfolding fields(7) using fs by (simp add: follows_def)
    qed
  qed
  then have "broken (take_mail s) = None \<and> accept_data (wt (take_mail s)) \<longrightarrow> follows e w0 v0 passed dn (take_mail s)"
    unfolding fields(5) by blast
  moreover have "lis @ [eof_item] = passed @ todo (take_mail s)" unfolding fields(1) by (rule p)
  ultimately show ?thesis by (rule sim_invI [OF fields(2)])
qed

lemma work_goes:
  assumes "run_state (process e li (wt s)) (wld s) = (Inr (\<not> eof li, w'), t)"
  shows "wt (work e li s) = (if eof li then w'\<lparr>thread_state := STOPPED\<rparr> else w')"
    "wld (work e li s) = t" "hand (work e li s) = None" "pending (work e li s) = pending s"
    "todo (work e li s) = todo s" "broken (work e li s) = broken s"
  using assms by (simp_all add: work_def)

lemma sim_work_follows:
  assumes fs: "follows e w0 v0 passed dn s" and h: "hand s = Some li" and r: "thread_state (wt s) = RUNNING"
    and pr: "run_state (process e li (wt s)) (wld s) = (Inr (\<not> eof li, w'), t)"
    and a: "accept_data (wt s)" "accept_data w'"
  shows "follows e w0 v0 passed (dn @ [li]) (work e li s)"
proof -
  note fields = work_goes [OF pr]
  obtain w where w: "run_state (run_items e dn w0) v0 = (Inr w, wld s)"
    "wt s = shift (mailbox (wt s)) (thread_state (wt s)) w" using fs by (auto simp: follows_def)
  have no: "\<forall>x \<in> set dn. \<not> eof x" using fs r by (auto simp: follows_def)
  have al: "mailbox w' = mailbox (wt s)" "thread_state w' = RUNNING" using process_alive [OF pr] a r by auto
  have aw: "accept_data w" using a(1) w(2) by (metis shift_fields(3))
  have "run_state (process e li (shift (mailbox (wt s)) RUNNING w)) (wld s) = (Inr (\<not> eof li, w'), t)"
    using pr w(2) r by simp
  then obtain w1 where w1: "run_state (process e li w) (wld s) = (Inr (\<not> eof li, w1), t)"
    "w' = shift_alive w (mailbox (wt s)) RUNNING w1"
    by (cases rule: run_process_cases [of e li w "wld s"]) (auto simp: shift_process)
  have "accept_data w1" using a(2) w1(2) aw by (auto simp: shift_alive_def split: if_splits)
  with w1(2) have w': "w' = shift (mailbox (wt s)) RUNNING w1" by (simp add: shift_alive_def)
  have sh: "wt (work e li s) = shift (mailbox (wt s)) (if eof li then STOPPED else RUNNING) w1"
    unfolding fields(1) w' by (simp add: shift_def)
  have run: "run_state (run_items e (dn @ [li]) w0) v0 = (Inr w1, t)"
    by (rule run_items_snoc [OF w1(1) no w(1)])
  have m: "mailbox (wt (work e li s)) = mailbox (wt s)"
    "thread_state (wt (work e li s)) = (if eof li then STOPPED else RUNNING)" unfolding sh by simp_all
  show ?thesis
    unfolding follows_def
  proof (intro conjI exI)
    show "wt (work e li s) = shift (mailbox (wt (work e li s))) (thread_state (wt (work e li s))) w1"
      unfolding m by (rule sh)
    show "run_state (run_items e (dn @ [li]) w0) v0 = (Inr w1, wld (work e li s))" unfolding fields(2) by (rule run)
    show "filter (acceptable w0) passed =
        (dn @ [li]) @ opt (hand (work e li s)) @ mailbox (wt (work e li s)) @ opt (pending (work e li s))"
      unfolding m fields(3,4) using fs h by (simp add: follows_def)
    show "(thread_state (wt (work e li s)) = STOPPED) = (\<exists>x \<in> set (dn @ [li]). eof x)"
      unfolding m using no by auto
  qed
qed

lemma sim_work:
  assumes i: "sim_inv e w0 v0 lis s" and b: "broken s = None" "hand s = Some li" and r: "thread_state (wt s) = RUNNING"
  shows "sim_inv e w0 v0 lis (work e li s)"
proof -
  obtain passed dn where p: "lis @ [eof_item] = passed @ todo s" and st: "same_setup w0 (wt s)"
    and f: "broken s = None \<and> accept_data (wt s) \<longrightarrow> follows e w0 v0 passed dn s"
    using i unfolding sim_inv_def by blast
  show ?thesis
  proof (cases rule: run_process_cases [of e li "wt s" "wld s"])
    case (fails err t)
    then show ?thesis using p st by (auto simp: sim_inv_def work_def)
  next
    case (goes w' t)
    note fields = work_goes [OF goes]
    have acc: "accept_data (wt (work e li s)) = accept_data w'" unfolding fields(1) by simp
    have "same_setup w0 w'" using process_alive [OF goes] st by (simp add: same_setup_def)
    then have su: "same_setup w0 (wt (work e li s))" unfolding fields(1) by (simp add: same_setup_def)
    have "follows e w0 v0 passed (dn @ [li]) (work e li s)" if a: "accept_data w'"
    proof (rule sim_work_follows [OF _ b(2) r goes _ a])
      show as: "accept_data (wt s)" using process_alive [OF goes] a by auto
      show "follows e w0 v0 passed dn s" using f b(1) as by simp
    qed
    then have "broken (work e li s) = None \<and> accept_data (wt (work e li s)) \<longrightarrow>
        follows e w0 v0 passed (dn @ [li]) (work e li s)" unfolding acc by blast
    moreover have "lis @ [eof_item] = passed @ todo (work e li s)" unfolding fields(5) by (rule p)
    ultimately show ?thesis by (rule sim_invI [OF su])
  qed
qed

definition clean_log :: "log_item list \<Rightarrow> bool" where
  "clean_log lis \<longleftrightarrow> (\<forall>li \<in> set lis. \<not> eof li)"

interpretation sim: invariant "lw_start w lis v" "lw_step e" "\<lambda>s. clean_log lis \<and> sim_inv e w v lis s" for w lis v e
proof
  show "clean_log lis \<and> sim_inv e w v lis s" if "lw_start w lis v s" for s
    using that sim_start by (auto simp: clean_log_def lw_start_def)
  show "clean_log lis \<and> sim_inv e w v lis t" if i: "clean_log lis \<and> sim_inv e w v lis s" and st: "lw_step e s t" for s t
    using st i by cases (auto simp: clean_log_def intro: sim_offer sim_deliver sim_take sim_work)
qed

lemma threads_sequential:
  assumes "reachable (lw_start w lis v) (lw_step e) s" "thread_state (wt s) = STOPPED" "accept_data (wt s)" "broken s = None"
  shows "\<exists>w'. run_state (run_items e (filter (acceptable w) (lis @ [eof_item])) w) v = (Inr w', wld s) \<and>
    wt s = shift [] STOPPED w'"
proof -
  have c: "\<forall>li \<in> set lis. \<not> eof li" and i: "sim_inv e w v lis s"
    using sim.reachable_inv [OF assms(1)] by (auto simp: clean_log_def)
  obtain passed dn where p: "lis @ [eof_item] = passed @ todo s" and fs: "follows e w v passed dn s"
    using i assms(3,4) unfolding sim_inv_def by blast
  have d: "passed = lis @ [eof_item]" "dn = filter (acceptable w) passed"
    using follows_done_all [OF fs p c] fs assms(2) by (auto simp: follows_def)
  then have "mailbox (wt s) = []" using fs by (simp add: follows_def)
  with d fs assms(2) show ?thesis unfolding follows_def by metis
qed

section \<open>Every run ends, with the thread stopped\<close>

definition lw_measure :: "lw_sys \<Rightarrow> nat" where
  "lw_measure s = 6 * length (todo s) + 5 * length (opt (pending s)) + 2 * length (mailbox (wt s)) +
     length (opt (hand s)) + items_available s + (if accept_data (wt s) then 10 else 0)"

definition live :: "lw_sys \<Rightarrow> bool" where
  "live s \<longleftrightarrow> length (mailbox (wt s)) \<le> items_available s \<and>
     (broken s = None \<longrightarrow>
       (thread_state (wt s) = READY \<longrightarrow> pending s = None \<and> hand s = None \<and> mailbox (wt s) = [] \<and>
          accept_data (wt s) \<and> (\<exists>li \<in> set (todo s). eof li)) \<and>
       (thread_state (wt s) = RUNNING \<longrightarrow>
          (\<exists>li \<in> set (opt (hand s) @ mailbox (wt s)). eof li) \<or>
          (accept_data (wt s) \<and> (\<exists>li \<in> set (opt (pending s) @ todo s). eof li))))"

lemma step_measure:
  assumes "lw_step e s t"
  shows "lw_measure t < lw_measure s"
  using assms
proof cases
  case reader_offers
  obtain li td where "todo s = li # td" using reader_offers by (cases "todo s") auto
  with reader_offers show ?thesis
    by (auto simp: lw_measure_def offer_def feed_check_def split: option.split thread_state.split)
next
  case (reader_delivers li)
  then show ?thesis by (auto simp: lw_measure_def deliver_def feed_put_def)
next
  case thread_takes
  then show ?thesis by (auto simp: lw_measure_def take_mail_def split: list.split)
next
  case (thread_works li)
  show ?thesis
  proof (cases rule: run_process_cases [of e li "wt s" "wld s"])
    case (fails err u)
    with thread_works show ?thesis by (simp add: lw_measure_def work_def)
  next
    case (goes w' u)
    with thread_works process_alive [OF goes] show ?thesis by (auto simp: lw_measure_def work_def)
  qed
qed

lemma live_offer: "live s \<Longrightarrow> broken s = None \<Longrightarrow> todo s \<noteq> [] \<Longrightarrow> pending s = None \<Longrightarrow> live (offer s)"
  by (cases "todo s"; cases "thread_state (wt s)")
     (auto simp: live_def offer_def feed_check_def split: option.split)

lemma live_deliver: "live s \<Longrightarrow> broken s = None \<Longrightarrow> pending s = Some li \<Longrightarrow> live (deliver li s)"
  by (cases "thread_state (wt s)") (auto simp: live_def deliver_def feed_put_def)

lemma live_take: "live s \<Longrightarrow> broken s = None \<Longrightarrow> hand s = None \<Longrightarrow> thread_state (wt s) = RUNNING \<Longrightarrow> live (take_mail s)"
  by (cases "mailbox (wt s)") (auto simp: live_def take_mail_def)

lemma live_work:
  assumes "live s" "broken s = None" "hand s = Some li" "thread_state (wt s) = RUNNING"
  shows "live (work e li s)"
proof (cases rule: run_process_cases [of e li "wt s" "wld s"])
  case (fails err u)
  with assms show ?thesis by (simp add: live_def work_def)
next
  case (goes w' u)
  with assms process_alive [OF goes] show ?thesis by (auto simp: live_def work_def)
qed

interpretation lively: invariant "lw_start w lis v" "lw_step e" live for w lis v e
proof
  show "live s" if "lw_start w lis v s" for s
    using that by (auto simp: lw_start_def live_def fresh_def)
  show "live t" if "live s" "lw_step e s t" for s t
    using that(2,1) by cases (auto intro: live_offer live_deliver live_take live_work)
qed

lemma live_progress:
  assumes "live s" "\<nexists>t. lw_step e s t" "broken s = None"
  shows "thread_state (wt s) = STOPPED \<and> todo s = [] \<and> pending s = None"
proof -
  have p: "pending s = None" using assms(2,3) lw_step.reader_delivers by (cases "pending s") blast+
  then have t: "todo s = []" using assms(2,3) lw_step.reader_offers by blast
  have "thread_state (wt s) \<noteq> RUNNING"
  proof
    assume r: "thread_state (wt s) = RUNNING"
    then have h: "hand s = None" using assms(2,3) lw_step.thread_works by (cases "hand s") blast+
    with r assms(1,3) p t have "mailbox (wt s) \<noteq> []" by (auto simp: live_def)
    with assms(1) have "items_available s > 0" by (cases "mailbox (wt s)") (auto simp: live_def)
    with r h assms(2,3) lw_step.thread_takes show False by blast
  qed
  moreover have "thread_state (wt s) \<noteq> READY" using assms(1,3) t by (auto simp: live_def)
  ultimately show ?thesis using p t by (cases "thread_state (wt s)") auto
qed

lemma run_measure: "(lw_step e ^^ n) s t \<Longrightarrow> lw_measure t + n \<le> lw_measure s"
proof (induction n arbitrary: t)
  case (Suc n)
  then obtain u where "(lw_step e ^^ n) s u" "lw_step e u t" by auto
  from Suc.IH [OF this(1)] step_measure [OF this(2)] show ?case by simp
qed simp

text \<open>C27. The reader and the thread of a watch come to an end under every interleaving: a run over a log
  of n items makes at most 6 n + 16 steps, and where no step is left, the whole log has been read and the
  thread has stopped, so that main's wait for it returns, unless an item has broken the watch.\<close>

theorem watch_run_ends:
  assumes "lw_start w lis v s0" and "(lw_step e ^^ n) s0 s"
  shows "n \<le> 6 * length lis + 16 \<and>
    ((\<nexists>t. lw_step e s t) \<longrightarrow>
      broken s \<noteq> None \<or> (thread_state (wt s) = STOPPED \<and> todo s = [] \<and> pending s = None))"
proof -
  have "lw_measure s0 = 6 * length lis + 16" using assms(1) by (auto simp: lw_start_def lw_measure_def fresh_def)
  moreover have "reachable (lw_start w lis v) (lw_step e) s"
    using reachable_run [OF relpowp_imp_rtranclp [OF assms(2)] reachable.start] assms(1) by metis
  then have "live s" by (rule lively.reachable_inv)
  ultimately show ?thesis using run_measure [OF assms(2)] live_progress [of s e] by auto
qed

text \<open>C28. Under every interleaving of the reader and the thread the mailbox never holds more than one item
  above its limit, the end of the log that is put there included.\<close>

theorem mailbox_bounded:
  assumes "reachable (lw_start w lis v) (lw_step e) s"
  shows "length (mailbox (wt s)) \<le> Suc (mailbox_max w)"
  using mail.reachable_inv [OF assms] sim.reachable_inv [OF assms]
  by (simp add: mail_inv_def sim_inv_def same_setup_def)

text \<open>C5. Threads do not change what a watch does: when the thread has stopped at the end of the log and
  the watch was never ended early, the watch and all its files are those of processing, one after
  another, the items of the log that are not empty and within its levels, whatever the interleaving was;
  no item is lost, doubled or handled out of order.\<close>

theorem threads_refine_sequential:
  assumes "reachable (lw_start w lis v) (lw_step e) s"
    and "thread_state (wt s) = STOPPED" "accept_data (wt s)" "broken s = None"
  shows "\<exists>w'. run_state (run_items e (filter (acceptable w) (lis @ [eof_item])) w) v = (Inr w', wld s) \<and>
    wt s = w'\<lparr>mailbox := [], thread_state := STOPPED\<rparr>"
  using threads_sequential [OF assms] unfolding shift_def .

lemma eof_process:
  assumes "cur_record w = None" "records w = []" "0 < max_records w" "suspend_records w = []"
  shows "run_state (process e eof_item w) s = (Inr (False, w), s)"
proof -
  have "gather (rx e) eof_item w = Inr w"
    using assms(1) by (simp add: gather_def close_record_def stale_record_def)
  moreover have "w\<lparr>suspend_records := []\<rparr> = w" using assms(4) by simp
  ultimately show ?thesis using assms(2,3) by (simp add: process_def emit_def due_def)
qed

text \<open>The run over the empty log and over a log of one item that is not of the levels.\<close>

definition quick_state :: "log_item list \<Rightarrow> lw_sys" where
  "quick_state lis = \<lparr>wt = quick_watch, todo = lis @ [eof_item], pending = None, hand = None,
     items_available = 0, broken = None, wld = calm []\<rparr>"

lemma quick_fields:
  "mailbox quick_watch = []" "thread_state quick_watch = READY" "accept_data quick_watch"
  "max_level quick_watch = 7" "min_level quick_watch = 0" "mailbox_max quick_watch = 5000"
  "cur_record quick_watch = None" "records quick_watch = []" "max_records quick_watch = 1"
  "suspend_records quick_watch = []"
  by (simp_all add: quick_watch_def setMaxEvents_def setStartPattern_def new_watch_def
      DEFAULT_MAX_COUNT_def DEFAULT_MAX_INTERVAL_def MAILBOX_MAX_LIMIT_def)

definition debug_item :: log_item where
  "debug_item = new_item\<lparr>prio := 9, msg := ''err''\<rparr>"

lemma quick_start_state: "lw_start quick_watch [debug_item] (calm []) (quick_state [debug_item])"
  by (simp add: lw_start_def quick_state_def fresh_def quick_fields debug_item_def new_item_def)

lemma quick_steps:
  "\<exists>s. (lw_step sample_env ^^ 5) (quick_state [debug_item]) s \<and> thread_state (wt s) = STOPPED \<and>
     accept_data (wt s) \<and> broken s = None \<and> todo s = [] \<and> pending s = None"
proof -
  let ?s0 = "quick_state [debug_item]"
  let ?s1 = "quick_state []"
  let ?w = "quick_watch\<lparr>thread_state := RUNNING\<rparr>"
  let ?s2 = "?s1\<lparr>todo := [], wt := ?w, pending := Some eof_item\<rparr>"
  let ?s3 = "?s2\<lparr>wt := ?w\<lparr>mailbox := [eof_item]\<rparr>, pending := None, items_available := 1\<rparr>"
  let ?s4 = "?s3\<lparr>items_available := 0, wt := ?w\<lparr>mailbox := []\<rparr>, hand := Some eof_item\<rparr>"
  let ?s5 = "?s4\<lparr>hand := None, wt := ?w\<lparr>mailbox := [], thread_state := STOPPED\<rparr>\<rparr>"
  have "offer ?s0 = ?s1"
    by (simp add: offer_def quick_state_def feed_check_def quick_fields debug_item_def new_item_def)
  then have 1: "lw_step sample_env ?s0 ?s1"
    using reader_offers [of ?s0 sample_env] by (simp add: quick_state_def)
  have "offer ?s1 = ?s2" by (simp add: offer_def quick_state_def feed_check_def quick_fields)
  then have 2: "lw_step sample_env ?s1 ?s2"
    using reader_offers [of ?s1 sample_env] by (simp add: quick_state_def)
  have "deliver eof_item ?s2 = ?s3" by (simp add: deliver_def quick_state_def feed_put_def quick_fields)
  then have 3: "lw_step sample_env ?s2 ?s3"
    using reader_delivers [of ?s2 eof_item sample_env] by (simp add: quick_state_def)
  have "take_mail ?s3 = ?s4" by (simp add: take_mail_def quick_state_def)
  then have 4: "lw_step sample_env ?s3 ?s4"
    using thread_takes [of ?s3 sample_env] by (simp add: quick_state_def)
  have "run_state (process sample_env eof_item (?w\<lparr>mailbox := []\<rparr>)) (calm []) = (Inr (False, ?w\<lparr>mailbox := []\<rparr>), calm [])"
    by (rule eof_process) (simp_all add: quick_fields)
  then have "work sample_env eof_item ?s4 = ?s5" by (simp add: work_def quick_state_def)
  then have 5: "lw_step sample_env ?s4 ?s5"
    using thread_works [of ?s4 eof_item sample_env] by (simp add: quick_state_def)
  have "(lw_step sample_env ^^ 5) ?s0 ?s5"
    using 1 2 3 4 5 by (simp add: eval_nat_numeral) blast
  then show ?thesis by (rule exI [of _ ?s5, OF conjI]) (simp add: quick_state_def quick_fields)
qed

lemma quick_reachable:
  "\<exists>s. reachable (lw_start quick_watch [debug_item] (calm [])) (lw_step sample_env) s \<and>
     thread_state (wt s) = STOPPED \<and> accept_data (wt s) \<and> broken s = None"
  using quick_steps reachable_run [OF relpowp_imp_rtranclp reachable.start] quick_start_state by metis

theorem watch_run_ends_witness:
  "\<exists>s. (lw_step sample_env ^^ 5) (quick_state [debug_item]) s \<and> 5 \<le> 6 * length [debug_item] + 16 \<and>
    ((\<nexists>t. lw_step sample_env s t) \<longrightarrow>
      broken s \<noteq> None \<or> (thread_state (wt s) = STOPPED \<and> todo s = [] \<and> pending s = None))"
  using quick_steps watch_run_ends [OF quick_start_state] by meson

theorem mailbox_bounded_witness:
  "\<exists>s. reachable (lw_start quick_watch [debug_item] (calm [])) (lw_step sample_env) s \<and>
     length (mailbox (wt s)) \<le> 5001"
proof -
  obtain s where "reachable (lw_start quick_watch [debug_item] (calm [])) (lw_step sample_env) s"
    using quick_reachable by blast
  with mailbox_bounded [OF this] quick_fields(6) show ?thesis by auto
qed

theorem threads_refine_sequential_witness:
  "\<exists>s w'. reachable (lw_start quick_watch [debug_item] (calm [])) (lw_step sample_env) s \<and>
     run_state (run_items sample_env [eof_item] quick_watch) (calm []) = (Inr w', wld s) \<and>
     wt s = w'\<lparr>mailbox := [], thread_state := STOPPED\<rparr>"
proof -
  obtain s where s: "reachable (lw_start quick_watch [debug_item] (calm [])) (lw_step sample_env) s"
    "thread_state (wt s) = STOPPED" "accept_data (wt s)" "broken s = None" using quick_reachable by blast
  have "filter (acceptable quick_watch) ([debug_item] @ [eof_item]) = [eof_item]"
    by (simp add: acceptable_def debug_item_def new_item_def quick_fields)
  with threads_refine_sequential [OF s] s(1) show ?thesis by metis
qed

end
