(* ===== verification/Lw_Config.thy ===== *)
theory Lw_Config
  imports Lw_Threads
begin

text \<open>
  The configuration of log-watch (LwConfig.cpp). The parser of configurations is a library outside the
  repository; the functions the code calls of it are the parameter \<open>ic\<close>.
\<close>

section \<open>Reading the configuration\<close>

record 'n iconfig =
  parse :: "string \<Rightarrow> 'n option"
  get_child :: "'n \<Rightarrow> string \<Rightarrow> 'n option"
  single_string :: "'n \<Rightarrow> string option"
  single_nodes :: "'n \<Rightarrow> 'n option"
  array :: "'n \<Rightarrow> 'n list option"
  is_nodes :: "'n \<Rightarrow> bool"
  value_string :: "'n \<Rightarrow> string option"
  get_child_string :: "'n \<Rightarrow> string \<Rightarrow> string option"
  get_child_integer :: "'n \<Rightarrow> string \<Rightarrow> int \<Rightarrow> int"

record lw_config =
  loaded_file :: string
  cfg_work_dir :: string
  cfg_instance_name :: string
  source_type :: string
  source_args :: string
  cfg_watcher_stats :: bool
  watchers :: "watch list"

definition new_config :: lw_config where
  "new_config = \<lparr>loaded_file = '''', cfg_work_dir = '''', cfg_instance_name = '''', source_type = '''',
     source_args = '''', cfg_watcher_stats = True, watchers = []\<rparr>"

definition apply_string :: "'n iconfig \<Rightarrow> 'n \<Rightarrow> string \<Rightarrow> (string \<Rightarrow> watch \<Rightarrow> watch) \<Rightarrow> watch \<Rightarrow> watch" where
  "apply_string ic n key f w = (case get_child_string ic n key of None \<Rightarrow> w | Some p \<Rightarrow> f p w)"

definition apply_positive :: "'n iconfig \<Rightarrow> 'n \<Rightarrow> string \<Rightarrow> (nat \<Rightarrow> watch \<Rightarrow> watch) \<Rightarrow> watch \<Rightarrow> watch" where
  "apply_positive ic n key f w =
    (let v = get_child_integer ic n key (-1) in if v > 0 then f (nat v) w else w)"

definition child_array :: "'n iconfig \<Rightarrow> 'n \<Rightarrow> string \<Rightarrow> 'n list" where
  "child_array ic n key =
    (case get_child ic n key of
       None \<Rightarrow> []
     | Some c \<Rightarrow> (case array ic c of None \<Rightarrow> [] | Some vs \<Rightarrow> vs))"

definition load_body :: "'n iconfig \<Rightarrow> regex \<Rightarrow> 'n \<Rightarrow> watch \<Rightarrow> watch" where
  "load_body ic r n w =
    fold (\<lambda>v w. case value_string ic v of None \<Rightarrow> w | Some p \<Rightarrow> addBodyPattern r p w) (child_array ic n ''body_pats'') w"

definition load_attachment :: "'n iconfig \<Rightarrow> 'n \<Rightarrow> watch \<Rightarrow> watch" where
  "load_attachment ic v w =
    (case get_child_string ic v ''src'' of
       None \<Rightarrow> w
     | Some s \<Rightarrow>
        let d = (case get_child_string ic v ''dst'' of None \<Rightarrow> '''' | Some d \<Rightarrow> d);
            exec = get_child_integer ic v ''exec'' 0 > 0;
            wait = nat (to_uint32 (to_int32 (get_child_integer ic v ''max_run'' 10 * 1000)))
        in w\<lparr>attachments := attachments w @ [new_attachment s d exec wait]\<rparr>)"

text \<open>A format that is missing is passed as a null pointer, of which no string can be made.\<close>

fun load_data :: "'n iconfig \<Rightarrow> nat \<Rightarrow> 'n list \<Rightarrow> watch \<Rightarrow> failure + watch" where
  "load_data ic i [] w = Inr w"
| "load_data ic i (v # vs) w =
    (if is_nodes ic v then
       (let k = to_uint32 (to_int32 (get_child_integer ic v ''id'' (int i)));
            rep = get_child_integer ic v ''repeat'' 0 > 0
        in case get_child_string ic v ''format'' of
             None \<Rightarrow> if k > 5 then load_data ic (Suc i) vs w else Inl Null_string
           | Some fmt \<Rightarrow> load_data ic (Suc i) vs (setDataFormats (nat k) fmt rep w))
     else load_data ic (Suc i) vs w)"

definition setLevels :: "'n iconfig \<Rightarrow> 'n \<Rightarrow> watch \<Rightarrow> watch" where
  "setLevels ic n w =
    (let w = apply_positive ic n ''min_level'' (\<lambda>v w. w\<lparr>min_level := v mod 256\<rparr>) w;
         w = apply_positive ic n ''max_level'' (\<lambda>v w. w\<lparr>max_level := v mod 256\<rparr>) w
     in setEventLevel (nat (get_child_integer ic n ''event_level'' 0 mod 256)) w)"

definition setSizes :: "'n iconfig \<Rightarrow> 'n \<Rightarrow> watch \<Rightarrow> watch" where
  "setSizes ic n w =
    (let w = apply_positive ic n ''max_items'' (\<lambda>v w. w\<lparr>max_items := v\<rparr>) w;
         w = apply_positive ic n ''max_records'' (\<lambda>v w. w\<lparr>max_records := v\<rparr>) w;
         w = apply_positive ic n ''max_suspend_records'' setMaxSuspendRecords w;
         w = apply_positive ic n ''flush_timeout'' (\<lambda>v w. w\<lparr>flush_timeout := v mod 2 ^ 32\<rparr>) w
     in apply_positive ic n ''mailbox_max'' (\<lambda>v w. setMailboxMax (v mod 2 ^ 32) w) w)"

definition setLimits :: "'n iconfig \<Rightarrow> 'n \<Rightarrow> watch \<Rightarrow> watch" where
  "setLimits ic n w =
    (let c = get_child_integer ic n ''max_event_count'' 10;
         ec = (if c > 0 then nat c mod 2 ^ 32 else 10);
         i = get_child_integer ic n ''max_event_interval'' 60;
         ei = (if i \<ge> 0 then nat i mod 2 ^ 32 else 60);
         w = setMaxEvents ec ei w;
         s = get_child_integer ic n ''event_suspend_interval'' (-1);
         w = (if s \<ge> 0 then w\<lparr>event_suspend_interval := nat s mod 2 ^ 32\<rparr> else w)
     in apply_positive ic n ''keep_last'' (\<lambda>v w. w\<lparr>keep_last := v mod 2 ^ 32\<rparr>) w)"

definition load_patterns :: "'n iconfig \<Rightarrow> regex \<Rightarrow> nat \<Rightarrow> 'n \<Rightarrow> watch" where
  "load_patterns ic r i n =
    (let nm = get_child_string ic n ''name'';
         w = new_watch (Some (case nm of None \<Rightarrow> show_nat i | Some s \<Rightarrow> s));
         w = apply_string ic n ''start_pattern'' (setStartPattern r) w;
         w = apply_string ic n ''validation_pattern'' (setValidPattern r) w;
         w = load_body ic r n w
     in apply_string ic n ''end_pattern'' (setEndPattern r) w)"

definition load_watch :: "'n iconfig \<Rightarrow> regex \<Rightarrow> nat \<Rightarrow> 'n \<Rightarrow> failure + watch" where
  "load_watch ic r i n =
    (let w = fold (load_attachment ic) (child_array ic n ''attachments'') (load_patterns ic r i n)
     in case load_data ic 0 (child_array ic n ''data'') w of
          Inl e \<Rightarrow> Inl e
        | Inr w \<Rightarrow> Inr (setLimits ic n (setSizes ic n (setLevels ic n w))))"

fun load_watchers :: "'n iconfig \<Rightarrow> regex \<Rightarrow> nat \<Rightarrow> 'n list \<Rightarrow> lw_config \<Rightarrow> failure + lw_config" where
  "load_watchers ic r i [] c = Inr c"
| "load_watchers ic r i (n # ns) c =
    (if \<not> is_nodes ic n then load_watchers ic r (Suc i) ns c
     else (case load_watch ic r i n of
             Inl e \<Rightarrow> Inl e
           | Inr w \<Rightarrow> load_watchers ic r (Suc i) ns
                        (if watch_valid w then c\<lparr>watchers := watchers c @ [w]\<rparr> else c)))"

definition load_root :: "'n iconfig \<Rightarrow> regex \<Rightarrow> 'n \<Rightarrow> lw_config \<Rightarrow> failure + bool \<times> lw_config" where
  "load_root ic r root c =
    (case Option.bind (get_child ic root ''root-workdir'') (single_string ic) of
       None \<Rightarrow> Inr (False, c)
     | Some wd \<Rightarrow>
       (let c = c\<lparr>cfg_work_dir := wd\<rparr> in
        case Option.bind (get_child ic root ''instance-name'') (single_string ic) of
          None \<Rightarrow> Inr (False, c)
        | Some nm \<Rightarrow>
          (let c = c\<lparr>cfg_instance_name := nm, cfg_work_dir := wd @ ''/'' @ nm,
                     cfg_watcher_stats := (get_child_integer ic root ''watcher-stats'' 1 \<noteq> 0)\<rparr> in
           case Option.bind (get_child ic root ''source'') (single_nodes ic) of
             None \<Rightarrow> Inr (False, c)
           | Some sn \<Rightarrow>
             (let c = c\<lparr>source_type := (case get_child_string ic sn ''type'' of None \<Rightarrow> '''' | Some s \<Rightarrow> s),
                        source_args := (case get_child_string ic sn ''arguments'' of None \<Rightarrow> '''' | Some s \<Rightarrow> s)\<rparr> in
              case Option.bind (get_child ic root ''watchers'') (array ic) of
                None \<Rightarrow> Inr (False, c)
              | Some ns \<Rightarrow>
                 (case load_watchers ic r 0 ns c of
                    Inl e \<Rightarrow> Inl e
                  | Inr c \<Rightarrow> Inr (watchers c \<noteq> [], c))))))"

definition load :: "'n iconfig \<Rightarrow> regex \<Rightarrow> string \<Rightarrow> lw_config \<Rightarrow> ('w, failure + bool \<times> lw_config) op" where
  "load ic r filename c =
    (if loaded_file c \<noteq> '''' then ret (Inr (False, c))
     else do {
       d \<leftarrow> open_read filename;
       let buffer = (case d of None \<Rightarrow> '''' | Some t \<Rightarrow> takeWhile (\<lambda>ch. ch \<noteq> CHR 0xFF) t);
       (if buffer = '''' then ret (Inr (False, c))
        else (case parse ic (cstr buffer) of
                None \<Rightarrow> ret (Inr (False, c))
              | Some root \<Rightarrow> ret (load_root ic r root c))) })"

section \<open>A watch that is loaded is ready\<close>

definition sound_pattern :: "regex \<Rightarrow> item_pattern \<Rightarrow> bool" where
  "sound_pattern r p \<longleftrightarrow> match_count p = countCaptures (pattern p) \<and> compiles r (pattern p)"

definition ready :: "regex \<Rightarrow> watch \<Rightarrow> bool" where
  "ready r w \<longleftrightarrow> fresh w \<and> records w = [] \<and> cur_record w = None \<and> event_log w = [] \<and> flush_count w = 0 \<and>
     0 < max_records w \<and> 0 < max_event_count w \<and> max_event_count w + 1 < 2 ^ 32 \<and>
     length (data_formats w) \<le> 6 \<and>
     (\<forall>f \<in> set (data_formats w). h_map f = (\<lambda>_. None) \<and> df_captures f = []) \<and>
     (\<forall>p. start_pattern w = Some p \<or> valid_pattern w = Some p \<longrightarrow> sound_pattern r p)"

lemma ready_new: "ready r (new_watch n)"
  by (simp add: ready_def new_watch_def fresh_def DEFAULT_MAX_COUNT_def)

lemma ready_updates [simp]:
  "ready r (w\<lparr>end_pattern := p\<rparr>) = ready r w" "ready r (w\<lparr>body_patterns := ps\<rparr>) = ready r w"
  "ready r (w\<lparr>attachments := as\<rparr>) = ready r w" "ready r (w\<lparr>min_level := n\<rparr>) = ready r w"
  "ready r (w\<lparr>max_level := n\<rparr>) = ready r w" "ready r (w\<lparr>event_level := n\<rparr>) = ready r w"
  "ready r (w\<lparr>max_items := n\<rparr>) = ready r w" "ready r (w\<lparr>max_suspend_records := n\<rparr>) = ready r w"
  "ready r (w\<lparr>flush_timeout := n\<rparr>) = ready r w" "ready r (w\<lparr>mailbox_max := n\<rparr>) = ready r w"
  "ready r (w\<lparr>keep_last := n\<rparr>) = ready r w" "ready r (w\<lparr>event_suspend_interval := n\<rparr>) = ready r w"
  by (simp_all add: ready_def fresh_def)

lemma ready_max_records: "ready r w \<Longrightarrow> 0 < n \<Longrightarrow> ready r (w\<lparr>max_records := n\<rparr>)"
  by (simp add: ready_def fresh_def)

lemma checked_sound: "checked_pattern r p = Some q \<Longrightarrow> sound_pattern r q"
  by (auto simp: checked_pattern_def new_pattern_def sound_pattern_def pattern_valid_def Let_def split: if_splits)

lemma ready_patterns:
  "ready r w \<Longrightarrow> ready r (setStartPattern r p w)" "ready r w \<Longrightarrow> ready r (setValidPattern r p w)"
  "ready r w \<Longrightarrow> ready r (setEndPattern r p w)" "ready r w \<Longrightarrow> ready r (addBodyPattern r p w)"
  using checked_sound
  by (auto simp: setStartPattern_def setValidPattern_def setEndPattern_def addBodyPattern_def ready_def fresh_def
      split: option.split)

lemma ready_apply_string: "ready r w \<Longrightarrow> (\<And>p w. ready r w \<Longrightarrow> ready r (f p w)) \<Longrightarrow> ready r (apply_string ic n key f w)"
  by (simp add: apply_string_def split: option.split)

lemma ready_apply_positive:
  "ready r w \<Longrightarrow> (\<And>v w. ready r w \<Longrightarrow> 0 < v \<Longrightarrow> ready r (f v w)) \<Longrightarrow> ready r (apply_positive ic n key f w)"
  by (simp add: apply_positive_def Let_def)

lemma ready_fold: "ready r w \<Longrightarrow> (\<And>v w. ready r w \<Longrightarrow> ready r (f v w)) \<Longrightarrow> ready r (fold f vs w)"
  by (induction vs arbitrary: w) simp_all

lemma ready_setDataFormats: "ready r w \<Longrightarrow> ready r (setDataFormats i fmt rep w)"
proof -
  assume r: "ready r w"
  let ?l = "data_formats w @ replicate (Suc i - length (data_formats w)) (new_format '''' False)"
  have "\<forall>f \<in> set (?l[i := new_format fmt rep]). h_map f = (\<lambda>_. None) \<and> df_captures f = []"
    using r by (auto simp: ready_def new_format_def dest!: set_update_subset_insert [THEN subsetD])
  moreover have "i \<le> 5 \<Longrightarrow> length (?l[i := new_format fmt rep]) \<le> 6" using r by (auto simp: ready_def)
  ultimately show ?thesis using r by (simp add: setDataFormats_def ready_def fresh_def)
qed

lemma ready_load_data: "ready r w \<Longrightarrow> load_data ic i vs w = Inr w' \<Longrightarrow> ready r w'"
  by (induction ic i vs w rule: load_data.induct)
     (auto simp: Let_def ready_setDataFormats split: if_splits option.splits)

lemma ready_setMaxEvents: "ready r w \<Longrightarrow> 0 < c \<Longrightarrow> c + 1 < 2 ^ 32 \<Longrightarrow> ready r (setMaxEvents c i w)"
  by (simp add: setMaxEvents_def ready_def fresh_def DEFAULT_MAX_COUNT_def)

lemma ready_load_patterns: "ready r (load_patterns ic r i n)"
  unfolding load_patterns_def load_body_def Let_def
  by (intro ready_apply_string ready_fold ready_new ready_patterns)
     (auto intro: ready_patterns split: option.split)

lemma ready_load_watch:
  assumes "load_watch ic r i n = Inr w" "get_child_integer ic n ''max_event_count'' 10 < 2 ^ 31"
  shows "ready r w"
proof -
  have a: "ready r (fold (load_attachment ic) (child_array ic n ''attachments'') (load_patterns ic r i n))"
    by (rule ready_fold [OF ready_load_patterns]) (simp add: load_attachment_def Let_def split: option.split)
  obtain w1 where w1': "load_data ic 0 (child_array ic n ''data'')
      (fold (load_attachment ic) (child_array ic n ''attachments'') (load_patterns ic r i n)) = Inr w1"
    and w: "w = setLimits ic n (setSizes ic n (setLevels ic n w1))"
    using assms(1) by (auto simp: load_watch_def Let_def split: sum.splits)
  have w1: "ready r w1" by (rule ready_load_data [OF a w1'])
  have "ready r (setLevels ic n w1)"
    unfolding setLevels_def Let_def setEventLevel_def ready_updates
    by (intro ready_apply_positive w1) simp_all
  then have "ready r (setSizes ic n (setLevels ic n w1))"
    unfolding setSizes_def Let_def
    by (intro ready_apply_positive) (simp_all add: ready_max_records setMaxSuspendRecords_def setMailboxMax_def)
  moreover have "ready r (setLimits ic n w2)" if "ready r w2" for w2
  proof -
    let ?c = "get_child_integer ic n ''max_event_count'' 10"
    let ?ec = "if ?c > 0 then nat ?c mod 2 ^ 32 else 10"
    have "0 < ?ec" "?ec + 1 < 2 ^ 32" using assms(2) by (auto simp: nat_less_iff)
    from ready_setMaxEvents [OF that this] show ?thesis
      unfolding setLimits_def Let_def by (intro ready_apply_positive) (simp_all split: if_split)
  qed
  ultimately show ?thesis using w by simp
qed

text \<open>C6. Configuration and thread together: a watch that the configuration gives (LwConfig.cpp),
  and whose start and validation patterns have no group that may be left out, never fails, whatever the
  other settings are: every log whose texts hold no percent sign is processed to its end, in any world.
  The numbers of the configuration are those of an int.\<close>

theorem configured_watch_never_fails:
  assumes "load_watch ic (rx e) i n = Inr w"
    and "get_child_integer ic n ''max_event_count'' 10 < 2 ^ 31"
    and "\<forall>p. start_pattern w = Some p \<or> valid_pattern w = Some p \<longrightarrow> full_groups (rx e) (pattern p)"
    and "\<forall>li \<in> set lis. PC \<notin> set (msg li)"
  shows "\<exists>w' t. run_state (run_items e lis w) s = (Inr w', t)"
proof -
  have "ready (rx e) w" by (rule ready_load_watch [OF assms(1,2)])
  with assms(3,4) show ?thesis
    by (intro watch_run_good) (auto simp: ready_def sound_pattern_def)
qed

definition sample_ic :: "nat iconfig" where
  "sample_ic = \<lparr>parse = (\<lambda>_. Some 0), get_child = (\<lambda>_ _. None), single_string = (\<lambda>_. None),
     single_nodes = (\<lambda>_. None), array = (\<lambda>_. None), is_nodes = (\<lambda>_. True), value_string = (\<lambda>_. None),
     get_child_string = (\<lambda>n k. if k = ''start_pattern'' then Some ''err'' else None),
     get_child_integer = (\<lambda>n k d. if k = ''max_records'' then 3 else d)\<rparr>"

definition err_regex :: regex where
  "err_regex = \<lparr>compiles = (\<lambda>p. p = ''err''),
     groups = (\<lambda>p s. if prefix p s then Some [(0, int (length p))] else None)\<rparr>"

theorem configured_watch_never_fails_witness:
  "\<exists>w w' t. load_watch sample_ic err_regex 0 0 = Inr w \<and>
     run_state (run_items (sample_env\<lparr>rx := err_regex\<rparr>) [sample_item 1 ''err: a'', sample_item 2 ''ok'', eof_item] w)
       (calm []) = (Inr w', t)"
proof -
  let ?e = "sample_env\<lparr>rx := err_regex\<rparr>"
  have l: "\<exists>w. load_watch sample_ic (rx ?e) 0 0 = Inr w"
    by (simp add: load_watch_def child_array_def sample_ic_def Let_def)
  then obtain w where w: "load_watch sample_ic (rx ?e) 0 0 = Inr w" by blast
  have "full_groups err_regex ''err''"
    by (auto simp: full_groups_def err_regex_def countCaptures_def dest: prefix_length_le split: if_splits)
  moreover have "ready (rx ?e) w" by (rule ready_load_watch [OF w]) (simp add: sample_ic_def)
  ultimately have f: "\<forall>p. start_pattern w = Some p \<or> valid_pattern w = Some p \<longrightarrow> full_groups (rx ?e) (pattern p)"
    by (auto simp: ready_def sound_pattern_def err_regex_def)
  have "\<exists>w' t. run_state (run_items ?e [sample_item 1 ''err: a'', sample_item 2 ''ok'', eof_item] w) (calm []) = (Inr w', t)"
    by (rule configured_watch_never_fails [OF w _ f])
       (simp_all add: sample_ic_def sample_item_def new_item_def eof_item_def)
  with w show ?thesis by auto
qed

end
