(* ===== verification/Lw_Reader.thy ===== *)
theory Lw_Reader
  imports Lw_Config
begin

text \<open>
  The sources of the log (KmsgReader.cpp, UeventReader.cpp, LogReader.cpp) and main (logwatch.cpp).
  What \<open>read\<close> and \<open>recvmsg\<close> give is an argument: bytes, or an error number. The reader of Android logs
  belongs to another build.
\<close>

section \<open>The kernel log\<close>

definition LOG_MAX_LEN :: nat where "LOG_MAX_LEN = 8192"
definition EPIPE :: int where "EPIPE = 32"
definition EINTR_kmsg :: int where "EINTR_kmsg = 4"

datatype io = Bytes string | Error int

record kmsg_reader =
  last_prio :: nat
  last_timestamp :: nat

definition strtoull :: "string \<Rightarrow> nat" where
  "strtoull s = min (read_nat 0 s) (2 ^ 64 - 1)"

text \<open>The buffer as the C string it holds once a terminator has been put in.\<close>

definition read_text :: "string \<Rightarrow> string" where
  "read_text d = cstr (if length d < LOG_MAX_LEN then d else take (LOG_MAX_LEN - 1) d)"

text \<open>\<open>sscanf\<close> with "%hhu,%*u,%lu,": the first and the third number.\<close>

definition kmsg_header :: "string \<Rightarrow> (nat \<times> nat) option" where
  "kmsg_header s =
    (case fst (scanf [SNum None, SLit (CHR '',''), SNum None, SLit (CHR '',''), SNum None, SLit (CHR '','')] s) of
       [p, _, t] \<Rightarrow> Some (strtoull p mod 256, strtoull t)
     | _ \<Rightarrow> None)"

definition kmsg_line :: "nat \<Rightarrow> nat \<Rightarrow> string \<Rightarrow> string" where
  "kmsg_line pri ts m =
    ''<'' @ show_nat pri @ ''> ['' @ pad_left (CHR '' '') 5 (show_nat (ts div 1000000)) @ ''.'' @
    pad_left (CHR ''0'') 6 (show_nat (ts mod 1000000)) @ ''] '' @ m"

definition kmsg_item :: "nat \<Rightarrow> nat \<Rightarrow> string \<Rightarrow> log_item" where
  "kmsg_item pri ts m =
    new_item\<lparr>timestamp := mk_timeval (int (ts div 1000000)) (int (ts mod 1000000)), prio := pri,
      msg := butlast (kmsg_line pri ts m)\<rparr>"

definition kmsg_get :: "bool \<Rightarrow> bool \<Rightarrow> io \<Rightarrow> kmsg_reader \<Rightarrow> log_item \<times> kmsg_reader" where
  "kmsg_get opened nonblock r k =
    (if \<not> opened then (eof_item, k)
     else (case r of
       Error e \<Rightarrow>
         if e \<in> {EPIPE, EINVAL, EFAULT, EINTR_kmsg} then (new_item\<lparr>is_empty := True\<rparr>, k) else (eof_item, k)
     | Bytes d \<Rightarrow>
         if d = [] then (if nonblock then eof_item else new_item\<lparr>is_empty := True\<rparr>, k)
         else (let s = read_text d in
           case strstr s '';'' of
             None \<Rightarrow> (kmsg_item (last_prio k) (last_timestamp k) s, k)
           | Some m \<Rightarrow>
              (case kmsg_header s of
                 Some (p, t) \<Rightarrow> (kmsg_item (p mod 8) t (tl m), k\<lparr>last_prio := p mod 8, last_timestamp := t\<rparr>)
               | None \<Rightarrow> (kmsg_item (last_prio k) (last_timestamp k) (tl m), k)))))"

section \<open>Events of the kernel\<close>

definition SRC_KERNEL :: nat where "SRC_KERNEL = 0"
definition SRC_USPACE :: nat where "SRC_USPACE = 1"
definition SRC_UNKNOWN :: nat where "SRC_UNKNOWN = 2"

text \<open>\<open>cred\<close>: the process that sent the message, when the kernel gives credentials; \<open>now\<close>: the clock.\<close>

definition uevent_get :: "bool \<Rightarrow> io \<Rightarrow> int option \<Rightarrow> timeval \<Rightarrow> log_item" where
  "uevent_get opened r cred now =
    (if \<not> opened then eof_item
     else (case r of
       Error _ \<Rightarrow> eof_item
     | Bytes d \<Rightarrow>
         if d = [] then eof_item
         else new_item\<lparr>
           prio := (case cred of None \<Rightarrow> SRC_UNKNOWN | Some pid \<Rightarrow> if pid \<noteq> 0 then SRC_USPACE else SRC_KERNEL),
           msg := butlast (map (\<lambda>c. if c = NUL then NL else c) (take 4096 d)), timestamp := now\<rparr>))"

datatype reader = KmsgReader bool | UeventReader bool

definition getReader :: "string \<Rightarrow> string \<Rightarrow> reader option" where
  "getReader type args =
    (if type = ''kmsg'' then Some (KmsgReader (args = ''nonblock''))
     else if type = ''uevent'' then Some (UeventReader (args = ''nonblock''))
     else None)"

section \<open>main\<close>

text \<open>The items main feeds: the first one whatever it is, then up to the end of the log.\<close>

fun main_feeds :: "log_item \<Rightarrow> log_item list \<Rightarrow> log_item list" where
  "main_feeds item [] = (if \<not> is_empty item then [item] else [])"
| "main_feeds item (x # xs) =
    (if \<not> is_empty item then [item] else []) @ (if eof x then [x] else main_feeds x xs)"

text \<open>Whether main comes to its loop, with the watches and the reader, or ends with \<open>EXIT_FAILURE\<close>.\<close>

definition lw_main :: "'n iconfig \<Rightarrow> regex \<Rightarrow> string list \<Rightarrow> ('w, failure + (reader \<times> lw_config) option) op" where
  "lw_main ic r argv =
    (if length argv < 2 then ret (Inr None)
     else do {
       l \<leftarrow> load ic r (last argv) new_config;
       ret (case l of
              Inl e \<Rightarrow> Inl e
            | Inr (ok, c) \<Rightarrow>
                Inr (if \<not> ok then None
                     else if watchers c = [] then None
                     else map_option (\<lambda>rd. (rd, c)) (getReader (source_type c) (source_args c)))) })"

section \<open>What the readers give\<close>

lemma show_nat_takeWhile:
  "\<not> isdigit c \<Longrightarrow> takeWhile isdigit (show_nat n @ c # s) = show_nat n"
  "\<not> isdigit c \<Longrightarrow> drop (length (show_nat n)) (show_nat n @ c # s) = c # s"
  using show_nat_digits [of n] by (simp_all add: takeWhile_append)

lemma show_nat_no_space: "dropWhile isspace (show_nat n @ s) = show_nat n @ s"
proof -
  obtain c cs where c: "show_nat n = c # cs" by (cases "show_nat n") simp_all
  with show_nat_digits [of n] have "\<not> isspace c" by (auto simp: isdigit_not_isspace)
  with c show ?thesis by simp
qed

lemma scanf_show_nat:
  "scanf (SNum None # SLit c # f) (show_nat n @ c # s) = (case scanf f s of (vs, e) \<Rightarrow> (show_nat n # vs, e))"
  if "\<not> isdigit c"
  using that by (simp add: show_nat_no_space show_nat_takeWhile upto_width_def Let_def)

lemma kmsg_header_show:
  "kmsg_header (show_nat p @ '','' @ show_nat q @ '','' @ show_nat t @ '','' @ s) = Some (strtoull (show_nat p) mod 256, strtoull (show_nat t))"
proof -
  have n: "\<not> isdigit (CHR '','')" by (simp add: isdigit_def)
  have "scanf [] u = ([], False)" for u by simp
  with scanf_show_nat [OF n] show ?thesis by (simp add: kmsg_header_def del: scanf.simps)
qed

lemma strstr_semicolon: "CHR '';'' \<notin> set a \<Longrightarrow> strstr (a @ '';'' @ b) '';'' = Some ('';'' @ b)"
  by (induction a) auto

text \<open>C33. A record of the kernel log, in the form the kernel writes it, is read back: the level is the low
  three bits of its first number, the time its third number in microseconds, the text is everything
  after the first semicolon without the line end, shown behind level and time; both numbers are kept
  for records that have none.\<close>

theorem kmsg_record_read:
  assumes "d = show_nat p @ '','' @ show_nat q @ '','' @ show_nat t @ '','' @ flags @ '';'' @ text @ [NL]"
    and "length d < 8192" "NUL \<notin> set flags \<union> set text" "CHR '';'' \<notin> set flags" "p < 2 ^ 64" "t < 2 ^ 64"
  shows "kmsg_get True b (Bytes d) k =
    (new_item\<lparr>timestamp := TimeVal (int (t div 1000000)) (int (t mod 1000000)), prio := p mod 8,
        msg := kmsg_line (p mod 8) t text\<rparr>, k\<lparr>last_prio := p mod 8, last_timestamp := t\<rparr>)"
proof -
  let ?h = "show_nat p @ '','' @ show_nat q @ '','' @ show_nat t @ '','' @ flags"
  have dig: "c \<in> set (show_nat n) \<Longrightarrow> c \<noteq> NUL \<and> c \<noteq> CHR '';''" for c n
    using show_nat_digits [of n] by (auto simp: isdigit_def)
  have "NUL \<notin> set d" using assms(1,3) dig by auto
  then have s: "read_text d = d" using assms(2) by (simp add: read_text_def LOG_MAX_LEN_def)
  have "CHR '';'' \<notin> set ?h" using assms(4) dig by auto
  from strstr_semicolon [OF this, of "text @ [NL]"]
  have m: "strstr d '';'' = Some ('';'' @ text @ [NL])" using assms(1) by simp
  have h: "kmsg_header d = Some (p mod 256, t)"
    using assms(1,5,6) kmsg_header_show [of p q t "flags @ '';'' @ text @ [NL]"] by (simp add: strtoull_def)
  have "d \<noteq> []" using assms(1) by simp
  moreover have "p mod 256 mod 8 = p mod 8" by (simp add: mod_mod_cancel)
  moreover have "butlast (kmsg_line (p mod 8) t (text @ [NL])) = kmsg_line (p mod 8) t text"
    by (simp add: kmsg_line_def butlast_append)
  moreover have "mk_timeval (int (t div 1000000)) (int (t mod 1000000)) =
      TimeVal (int (t div 1000000)) (int (t mod 1000000))"
    by (simp add: mk_timeval_def redist_div_mod tv_us_def USEC_IN_SEC_def)
  ultimately show ?thesis using s m h by (simp add: kmsg_get_def kmsg_item_def)
qed

lemma main_feeds_clean:
  "\<forall>li \<in> set (x # xs). \<not> eof li \<Longrightarrow> main_feeds x (xs @ [eof_item]) = filter (\<lambda>li. \<not> is_empty li) (x # xs) @ [eof_item]"
  by (induction xs arbitrary: x) auto

theorem kmsg_record_read_witness:
  "kmsg_get True False (Bytes (''14,7,2500000,-;usb: new device'' @ [NL])) \<lparr>last_prio = 0, last_timestamp = 0\<rparr> =
    (new_item\<lparr>timestamp := TimeVal 2 500000, prio := 6, msg := ''<6> [    2.500000] usb: new device''\<rparr>,
     \<lparr>last_prio = 6, last_timestamp = 2500000\<rparr>)"
proof -
  have n: "show_nat 14 = ''14''" "show_nat 7 = ''7''" "show_nat 2500000 = ''2500000''" "show_nat 6 = ''6''"
    "show_nat 2 = ''2''" "show_nat 500000 = ''500000''"
    by (simp_all add: show_nat.simps digit_def char_of_def bit_0)
  have r4: "replicate 4 (CHR '' '') = ''    ''" by (simp add: numeral_eq_Suc)
  show ?thesis
    using kmsg_record_read [of "''14,7,2500000,-;usb: new device'' @ [NL]" 14 7 2500000 "''-''" "''usb: new device''" False
        "\<lparr>last_prio = 0, last_timestamp = 0\<rparr>"]
    by (simp add: n r4 kmsg_line_def pad_left_def)
qed

text \<open>The last byte is cut whatever it is: a record that fills the buffer loses a byte of its text.\<close>

theorem kmsg_cuts_last_byte:
  "NUL \<notin> set d \<Longrightarrow> CHR '';'' \<notin> set d \<Longrightarrow> d \<noteq> [] \<Longrightarrow> length d < 8192 \<Longrightarrow>
   msg (fst (kmsg_get True b (Bytes d) k)) = kmsg_line (last_prio k) (last_timestamp k) (butlast d)"
proof -
  assume d: "NUL \<notin> set d" "CHR '';'' \<notin> set d" "d \<noteq> []" "length d < 8192"
  then have s: "read_text d = d" by (simp add: read_text_def LOG_MAX_LEN_def)
  have "strstr d '';'' = None" using d(2) by (induction d) auto
  with d s show ?thesis by (simp add: kmsg_get_def kmsg_item_def kmsg_line_def butlast_append)
qed

end
