(* ===== verification/Lw_Event.thy ===== *)
theory Lw_Event
  imports Lw_Reader
begin

text \<open>
  What an event of a watch leaves on a file system on which no call fails: its own directory with the
  text of its records, and no more events than are to be kept (EventWatch.cpp, \<open>flush\<close>).
\<close>

section \<open>Names of event directories\<close>

definition event_id :: "nat \<Rightarrow> string" where
  "event_id i = pad_left (CHR ''0'') 3 (show_nat i)"

definition watch_dir :: "lw_env \<Rightarrow> watch \<Rightarrow> string" where
  "watch_dir e w = getWorkDir e @ ''/'' @ name w"

lemma read_nat_padding: "read_nat 0 (replicate k (CHR ''0'') @ s) = read_nat 0 s"
  by (induction k) (simp_all add: digit_val_def)

lemma event_id_inj: "event_id i = event_id j \<Longrightarrow> i = j"
proof -
  assume "event_id i = event_id j"
  then have "read_nat 0 (event_id i) = read_nat 0 (event_id j)" by simp
  then show "i = j" by (simp add: event_id_def pad_left_def read_nat_padding)
qed

lemma event_id_name: "event_id i \<noteq> []" "CHR ''/'' \<notin> set (event_id i)"
  using show_nat_digits [of i] by (auto simp: event_id_def pad_left_def isdigit_def)

definition named :: "lw_env \<Rightarrow> watch \<Rightarrow> bool" where
  "named e w \<longleftrightarrow> name w \<noteq> [] \<and> CHR ''/'' \<notin> set (name w) \<and>
     (\<forall>i \<le> flush_count w. length (watch_dir e w @ ''/'' @ event_id i) < PATH_MAX)"

lemma event_dir:
  "named e w \<Longrightarrow> i \<le> flush_count w \<Longrightarrow> getOutputDirName e w i = watch_dir e w @ ''/'' @ event_id i"
  by (simp add: named_def getOutputDirName_def watch_dir_def event_id_def)

lemma event_dir_comps:
  "named e w \<Longrightarrow> i \<le> flush_count w \<Longrightarrow> comps (getOutputDirName e w i) = comps (watch_dir e w) @ [event_id i]"
  by (simp only: event_dir) (simp add: event_id_name)

lemma watch_dir_comps: "named e w \<Longrightarrow> comps (watch_dir e w) = comps (getWorkDir e) @ [name w]"
  unfolding watch_dir_def named_def by simp

section \<open>The directory is made\<close>

text \<open>The directory of an event, new and empty.\<close>

definition new_dir :: "string \<Rightarrow> 'w world_scheme \<Rightarrow> bool" where
  "new_dir p s \<longleftrightarrow> reliable s \<and> node_at s p = Some Dir \<and> (\<forall>x. map_of (fs s) (comps p @ [x]) = None)"

lemma key_map_of: "k \<in> fst ` set t \<longleftrightarrow> map_of t k \<noteq> None"
  by (simp add: map_of_eq_None_iff)

lemma wf_child_parent: "wf_tree t \<Longrightarrow> map_of t (k @ [x]) \<noteq> None \<Longrightarrow> is_dir t k"
proof -
  assume t: "wf_tree t" and "map_of t (k @ [x]) \<noteq> None"
  then have "k @ [x] \<in> fst ` set t" by (simp only: key_map_of simp_thms)
  with t have "is_dir t (butlast (k @ [x]))" unfolding wf_tree_def by blast
  then show "is_dir t k" by simp
qed

lemma make_or_empty_new:
  assumes "reliable s" "wf_tree (fs s)" "comps p = k @ [x]" "is_dir (fs s) k" "node_at s p = None \<or> node_at s p = Some Dir"
  shows "\<exists>t. run_state (make_or_empty p) s = (True, t) \<and> new_dir p t \<and>
    (\<forall>j. \<not> prefix (comps p) j \<longrightarrow> map_of (fs t) j = map_of (fs s) j)"
proof (cases "node_at s p")
  case None
  have "map_of (fs s) (comps p @ [y]) = None" for y
  proof (rule ccontr)
    assume "map_of (fs s) (comps p @ [y]) \<noteq> None"
    from wf_child_parent [OF assms(2) this] None assms(3) show False by (simp add: is_dir_def node_at_def)
  qed
  with None assms show ?thesis
    by (auto simp: make_or_empty_def isDir_def directory_exists_def is_dir_def node_at_def sys_mkdir_def new_dir_def
        put_def update_conv')
next
  case (Some nd)
  with assms(5) have d: "node_at s p = Some Dir" by simp
  obtain k' where "run_state (rmRec p False) s = (True, s\<lparr>fs := emptied (comps p) (fs s), calls := k'\<rparr>)"
    using rmRec_reliable(2) [OF assms(1,2) _ _ d] assms(3) d by auto
  with d assms(1) show ?thesis
    by (auto simp: make_or_empty_def isDir_def directory_exists_def is_dir_def new_dir_def node_at_def strict_prefix_def)
qed

lemma wf_emptied: "wf_tree t \<Longrightarrow> wf_tree (emptied k t)"
proof -
  assume t: "wf_tree t"
  have "is_dir (emptied k t) (butlast j)" if "j \<in> fst ` set t" "\<not> strict_prefix k j" for j
  proof -
    have "is_dir t (butlast j)" using that(1) t by (auto simp: wf_tree_def)
    moreover have "\<not> strict_prefix k (butlast j)"
      using that(2) prefixeq_butlast [of j] by (meson prefix_order.less_le_trans)
    ultimately show ?thesis by (auto simp: is_dir_def)
  qed
  moreover have "fst ` set (emptied k t) \<subseteq> fst ` set t" "\<And>j. j \<in> fst ` set (emptied k t) \<Longrightarrow> \<not> strict_prefix k j"
    by (auto simp: emptied_def)
  moreover have "distinct (map fst (emptied k t))"
    using t by (simp add: wf_tree_def emptied_def distinct_map_filter)
  moreover have "j \<noteq> [] \<and> (\<forall>n \<in> set j. n \<noteq> [] \<and> CHR ''/'' \<notin> set n)" if "j \<in> fst ` set t" for j
    using t that by (auto simp only: wf_tree_def)
  ultimately show ?thesis unfolding wf_tree_def by (meson subsetD)
qed

lemma setup_first:
  assumes "reliable s" "wf_tree (fs s)" "named e w" "isDir (getWorkDir e) s" "node_at s (watch_dir e w) = Some Dir"
    and True: "flush_count w = 0"
  shows "\<exists>t. run_state (setupOutputDir e w (getOutputDirName e w (flush_count w))) s = (True, t) \<and>
    new_dir (getOutputDirName e w (flush_count w)) t"
proof -
  let ?p = "getOutputDirName e w (flush_count w)"
  let ?k = "comps (watch_dir e w)"
  have cp: "comps ?p = ?k @ [event_id (flush_count w)]" using event_dir_comps [OF assms(3)] by simp
  have wk: "?k \<noteq> []" using watch_dir_comps [OF assms(3)] by simp
    obtain k' where rm: "run_state (rmRec (watch_dir e w) False) s =
        (True, s\<lparr>fs := emptied ?k (fs s), calls := k'\<rparr>)"
      using rmRec_reliable(2) [OF assms(1,2) wk _ assms(5)] assms(5) by auto
    let ?s = "s\<lparr>fs := emptied ?k (fs s), calls := k'\<rparr>"
    have "strict_prefix ?k (?k @ [event_id (flush_count w)])" by (simp add: strict_prefix_def)
    then have n: "node_at ?s ?p = None" unfolding node_at_def cp by simp
    have d: "is_dir (fs ?s) ?k" using assms(5) by (simp add: is_dir_def node_at_def)
    have wf: "reliable ?s" "wf_tree (fs ?s)" using assms(1) wf_emptied [OF assms(2)] by simp_all
    obtain t where t: "run_state (make_or_empty ?p) ?s = (True, t)" "new_dir ?p t"
      using make_or_empty_new [OF wf cp d] n by blast
    have "run_state (make_or_empty (watch_dir e w)) s = (True, ?s)"
      using rm assms(5) wk by (simp add: make_or_empty_def isDir_def directory_exists_def is_dir_def node_at_def)
    with t assms(4) True show ?thesis by (simp add: setupOutputDir_def watch_dir_def)
qed

lemma setup_later:
  assumes "reliable s" "wf_tree (fs s)" "named e w" "node_at s (watch_dir e w) = Some Dir"
    and "\<nexists>d. node_at s (getOutputDirName e w (flush_count w)) = Some (File d)" "flush_count w > 0"
  shows "\<exists>t. run_state (setupOutputDir e w (getOutputDirName e w (flush_count w))) s = (True, t) \<and>
    new_dir (getOutputDirName e w (flush_count w)) t \<and>
    (\<forall>j. \<not> prefix (comps (getOutputDirName e w (flush_count w))) j \<longrightarrow> map_of (fs t) j = map_of (fs s) j)"
proof -
  let ?p = "getOutputDirName e w (flush_count w)"
  have cp: "comps ?p = comps (watch_dir e w) @ [event_id (flush_count w)]" using event_dir_comps [OF assms(3)] by simp
  have node: "node_at s ?p = None \<or> node_at s ?p = Some Dir"
    using assms(5) by (cases "node_at s ?p") (auto, metis node.exhaust)
  have "is_dir (fs s) (comps (watch_dir e w))" using assms(4) by (simp add: is_dir_def node_at_def)
  from make_or_empty_new [OF assms(1,2) cp this node] assms(6) show ?thesis
    by (auto simp: setupOutputDir_def)
qed

section \<open>The files are written\<close>

text \<open>The directory of an event, with files only.\<close>

definition made :: "string \<Rightarrow> 'w world_scheme \<Rightarrow> bool" where
  "made p s \<longleftrightarrow> reliable s \<and> node_at s p = Some Dir \<and> (\<forall>x. map_of (fs s) (comps p @ [x]) \<noteq> Some Dir)"

lemma write_file_made:
  assumes "made p s" "x \<noteq> []" "CHR ''/'' \<notin> set x"
  shows "\<exists>t. run_state (write_file (p @ ''/'' @ x) text) s = ((), t) \<and> made p t \<and>
    content t (p @ ''/'' @ x) = text \<and> (\<forall>j. j \<noteq> comps p @ [x] \<longrightarrow> map_of (fs t) j = map_of (fs s) j)"
proof -
  have c: "comps (p @ ''/'' @ x) = comps p @ [x]" using assms(2,3) by simp
  have n: "node_at s (p @ ''/'' @ x) \<noteq> Some Dir" unfolding node_at_def c using assms(1) by (auto simp: made_def)
  have d: "is_dir (fs s) (comps p)" using assms(1) by (simp add: made_def is_dir_def node_at_def)
  have r: "reliable s" using assms(1) by (simp add: made_def)
  obtain k where w: "run_state (write_file (p @ ''/'' @ x) text) s =
      ((), (put (p @ ''/'' @ x) (File text) s)\<lparr>calls := k\<rparr>)"
    using r n d c
    by (auto simp: write_file_def open_trunc_def write_end_def write_at_def put_calls_out put_twice simp del: append_Cons)
  let ?t = "(put (p @ ''/'' @ x) (File text) s)\<lparr>calls := k\<rparr>"
  have m: "map_of (fs ?t) j = (if j = comps p @ [x] then Some (File text) else map_of (fs s) j)" for j
    by (simp add: put_def c update_conv' del: append_Cons)
  have "made p ?t"
    unfolding made_def node_at_def m using assms(1) by (auto simp: made_def node_at_def)
  moreover have "content ?t (p @ ''/'' @ x) = text" by simp
  ultimately show ?thesis using w m by auto
qed

lemma new_made: "new_dir p s \<Longrightarrow> made p s"
  by (simp add: new_dir_def made_def)

lemma map_of_put_file: "j \<noteq> comps q \<Longrightarrow> map_of (fs (put q n s)) j = map_of (fs s) j"
  by (simp add: put_def update_conv')

text \<open>The rest of \<open>flush\<close>, when there are no attachments.\<close>

lemma finish_made:
  assumes "made p s" "attachments w = []" "run_state (finish_files e p f w) s = (Inr w', t)"
  shows "\<forall>j. j \<noteq> comps p @ [''event_submission.txt''] \<longrightarrow> map_of (fs t) j = map_of (fs s) j"
proof -
  obtain fmts texts where "record_fields 0 (length (records w)) (suspend_records_count w) (records w) (data_formats w)
      (replicate 6 '''') = Inr (fmts, texts)"
    using assms(3) by (auto simp: finish_files_def split: sum.splits)
  moreover obtain t' where "run_state (write_file (p @ ''/'' @ ''event_submission.txt'')
      (submission_text e w texts f)) s = ((), t')"
    "\<forall>j. j \<noteq> comps p @ [''event_submission.txt''] \<longrightarrow> map_of (fs t') j = map_of (fs s) j"
    using write_file_made [OF assms(1), of "''event_submission.txt''" "submission_text e w texts f"] by auto
  ultimately show ?thesis using assms(2,3) by (simp add: finish_files_def)
qed

lemma suspend_made:
  assumes "made p s" "run_state (write_suspend p w) s = ((x, w1), t)"
  shows "made p t \<and> (\<forall>j. j \<noteq> comps p @ [''suspend.txt''] \<longrightarrow> map_of (fs t) j = map_of (fs s) j) \<and>
    (\<exists>sr. w1 = w\<lparr>suspend_records := sr\<rparr>)"
proof (cases "suspend_records_count w \<noteq> 0 \<and> max_suspend_records w \<noteq> 0")
  case True
  obtain u where u: "run_state (write_file (p @ ''/'' @ ''suspend.txt'') (suspend_text w)) s = ((), u)"
    "made p u"
    "\<forall>j. j \<noteq> comps p @ [''suspend.txt''] \<longrightarrow> map_of (fs u) j = map_of (fs s) j"
    using write_file_made [OF assms(1), of "''suspend.txt''" "suspend_text w"] by auto
  with True assms(2) have "t = u" "w1 = w\<lparr>suspend_records := []\<rparr>" by (simp_all add: write_suspend_def)
  with u show ?thesis by blast
next
  case False
  then have "t = s" "w1 = w" using assms(2) by (auto simp: write_suspend_def)
  moreover have "w = w\<lparr>suspend_records := suspend_records w\<rparr>" by simp
  ultimately show ?thesis using assms(1) by metis
qed

text \<open>The event that is too old is removed first.\<close>

lemma remove_old:
  assumes "reliable s" "wf_tree (fs s)" "comps p \<noteq> []"
  shows "\<exists>t b. run_state (rmRec p True) s = (b, t) \<and> reliable t \<and> wf_tree (fs t) \<and>
    (\<forall>j. map_of (fs t) j = (if prefix (comps p) j then None else map_of (fs s) j))"
proof (cases "node_at s p = None")
  case False
  obtain k where "run_state (rmRec p True) s = (True, s\<lparr>fs := without (comps p) (fs s), calls := k\<rparr>)"
    using rmRec_reliable(1) [OF assms False] by blast
  with assms wf_tree_without [OF assms(2)] show ?thesis by auto
next
  case True
  obtain k e where r: "run_state (rmRec p True) s = (False, s\<lparr>calls := k, errno := e\<rparr>)"
    using rmRec_missing [OF assms(1,3) True] by blast
  have "map_of (fs s) j = None" if "prefix (comps p) j" for j
  proof (rule ccontr)
    assume m: "map_of (fs s) j \<noteq> None"
    with True that have "strict_prefix (comps p) j" by (auto simp: node_at_def strict_prefix_def)
    moreover have "j \<in> fst ` set (fs s)" using m by (simp only: key_map_of simp_thms)
    ultimately show False using wf_tree_parent [OF assms(2)] assms(3) True by (auto simp: node_at_def)
  qed
  with r assms show ?thesis by auto
qed

lemma flush_files_written:
  assumes s: "reliable s" "wf_tree (fs s)" and nm: "named e w" and dirs: "isDir (getWorkDir e) s"
    "node_at s (watch_dir e w) = Some Dir" "\<nexists>d. node_at s (getOutputDirName e w (flush_count w)) = Some (File d)"
    and a: "attachments w = []" and kl: "0 < keep_last w"
    and f: "run_state (flush_files e w) s = (Inr w', t)"
  shows "content t (getOutputDirName e w (flush_count w) @ ''/summary.txt'') = records_text 0 (records w)"
    and "keep_last w \<le> flush_count w \<Longrightarrow> node_at t (getOutputDirName e w (flush_count w - keep_last w)) = None"
proof -
  let ?p = "getOutputDirName e w (flush_count w)"
  let ?o = "getOutputDirName e w (flush_count w - keep_last w)"
  let ?k = "comps (watch_dir e w)"
  have cp: "comps ?p = ?k @ [event_id (flush_count w)]" and co: "comps ?o = ?k @ [event_id (flush_count w - keep_last w)]"
    using event_dir_comps [OF nm] by simp_all
  have old: "event_id (flush_count w) \<noteq> event_id (flush_count w - keep_last w)" if "keep_last w \<le> flush_count w"
    using event_id_inj [of "flush_count w" "flush_count w - keep_last w"] kl that by auto
  obtain b s1 where s1: "run_state (if flush_count w \<ge> keep_last w then rmRec ?o True else ret True) s = (b, s1)"
      "reliable s1" "wf_tree (fs s1)"
    and m1: "\<And>j. map_of (fs s1) j = (if flush_count w \<ge> keep_last w \<and> prefix (comps ?o) j then None else map_of (fs s) j)"
    using remove_old [OF s, of ?o] co s by (cases "flush_count w \<ge> keep_last w") auto
  have wd: "isDir (getWorkDir e) s1" if "flush_count w = 0"
    using dirs(1) m1 [of "comps (getWorkDir e)"] that kl
    by (simp add: isDir_def directory_exists_def is_dir_def)
  have kd: "node_at s1 (watch_dir e w) = Some Dir"
    using dirs(2) m1 [of ?k] co by (auto simp: node_at_def dest: prefix_length_le)
  have np: "\<nexists>d. node_at s1 ?p = Some (File d)" using dirs(3) m1 [of "comps ?p"] by (auto simp: node_at_def)
  obtain s2 where s2: "run_state (setupOutputDir e w ?p) s1 = (True, s2)" "new_dir ?p s2"
    and m2: "flush_count w > 0 \<Longrightarrow> (\<forall>j. \<not> prefix (comps ?p) j \<longrightarrow> map_of (fs s2) j = map_of (fs s1) j)"
    using setup_first [OF s1(2,3) nm wd kd] setup_later [OF s1(2,3) nm kd np] by (cases "flush_count w = 0") auto
  obtain s3 where s3: "run_state (write_file (?p @ ''/'' @ ''summary.txt'') (records_text 0 (records w))) s2 = ((), s3)"
      "made ?p s3" "content s3 (?p @ ''/'' @ ''summary.txt'') = records_text 0 (records w)"
    and m3: "\<forall>j. j \<noteq> comps ?p @ [''summary.txt''] \<longrightarrow> map_of (fs s3) j = map_of (fs s2) j"
    using write_file_made [OF new_made [OF s2(2)], of "''summary.txt''" "records_text 0 (records w)"] by auto
  obtain x w1 s4 where s4: "run_state (write_suspend ?p w) s3 = ((x, w1), s4)"
    by (cases "run_state (write_suspend ?p w) s3") auto
  note su = suspend_made [OF s3(2) s4]
  have fin: "run_state (finish_files e ?p (?p @ ''/summary.txt'' @ x) w1) s4 = (Inr w', t)"
    using f s1(1) s2(1) s3(1) s4 by (simp add: flush_files_def Let_def)
  have a1: "attachments w1 = []" using su a by auto
  have m5: "\<forall>j. j \<noteq> comps ?p @ [''event_submission.txt''] \<longrightarrow> map_of (fs t) j = map_of (fs s4) j"
    using finish_made [OF _ a1 fin] su by blast
  have "map_of (fs t) (comps ?p @ [''summary.txt'']) = map_of (fs s3) (comps ?p @ [''summary.txt''])"
    using su m5 by simp
  then show "content t (?p @ ''/summary.txt'') = records_text 0 (records w)"
    using s3(3) by (simp add: content_def node_at_def)
  assume ge: "keep_last w \<le> flush_count w"
  have ne: "comps ?o \<noteq> comps ?p @ [y]" "\<not> prefix (comps ?p) (comps ?o)" for y
    using cp co old [OF ge] by auto
  have "map_of (fs t) (comps ?o) = map_of (fs s2) (comps ?o)" using su m5 m3 ne by simp
  also have "\<dots> = map_of (fs s1) (comps ?o)" using m2 ne kl ge by simp
  finally show "node_at t ?o = None" using m1 [of "comps ?o"] ge by (simp add: node_at_def)
qed

text \<open>The text of the records, as one list of lines.\<close>

lemma records_text_lines:
  "records_text i rs = concat (map (\<lambda>(n, r).
     ''Record '' @ show_nat n @ '':'' @ [NL] @ concat (map (\<lambda>li. msg li @ [NL]) (items r)) @ [NL]) (enumerate i rs))"
  by (induction rs arbitrary: i) (simp_all add: record_text_def)

text \<open>C11. An event on disk: when no call fails, flushing a watch without attachments leaves in the event's own
  directory a summary that holds, for every record in order, a line with its number, the message of each of
  its items in order, one to a line, and an empty line; and the event that is keep_last events older is gone
  with everything in it.\<close>

theorem event_written:
  assumes "reliable s" "wf_tree (fs s)" "named e w" "isDir (getWorkDir e) s" "node_at s (watch_dir e w) = Some Dir"
    and "\<nexists>d. node_at s (getOutputDirName e w (flush_count w)) = Some (File d)"
    and "attachments w = []" "0 < keep_last w" "run_state (flush e w) s = (Inr w', t)"
  shows "content t (getOutputDirName e w (flush_count w) @ ''/summary.txt'') =
      concat (map (\<lambda>(n, r). ''Record '' @ show_nat n @ '':'' @ [NL] @
        concat (map (\<lambda>li. msg li @ [NL]) (items r)) @ [NL]) (enumerate 0 (records w))) \<and>
    (keep_last w \<le> flush_count w \<longrightarrow> node_at t (getOutputDirName e w (flush_count w - keep_last w)) = None)"
proof -
  obtain w1 where "run_state (flush_files e w) s = (Inr w1, t)"
    using assms(9) by (auto simp: flush_def split: prod.splits sum.splits)
  from flush_files_written [OF assms(1-8) this] show ?thesis unfolding records_text_lines by blast
qed

definition old_event_tree :: tree where
  "old_event_tree = [([''logs''], Dir), ([''logs'', ''w''], Dir), ([''logs'', ''w'', ''000''], Dir),
     ([''logs'', ''w'', ''000'', ''summary.txt''], File ''x'')]"

definition second_event :: watch where
  "second_event = quick_watch\<lparr>keep_last := 1, flush_count := 1,
     records := [\<lparr>items = [sample_item 0 ''err: a'', sample_item 1 ''b''], captures = [''err''], valid = True\<rparr>]\<rparr>"

lemma second_event_good: "good_watch (rx sample_env) second_event"
  using quick_good by (simp add: good_watch_def second_event_def sample_env_def good_record_def)

theorem event_written_witness:
  "\<exists>w' t. run_state (flush sample_env second_event) (calm old_event_tree) = (Inr w', t) \<and>
     content t ''/logs/w/001/summary.txt'' = ''Record 0:'' @ [NL] @ ''err: a'' @ [NL] @ ''b'' @ [NL, NL] \<and>
     node_at t ''/logs/w/000'' = None"
proof -
  have q: "name second_event = ''w''" "flush_count second_event = 1" "keep_last second_event = 1"
    "attachments second_event = []" "records second_event \<noteq> []"
    by (simp_all add: second_event_def quick_watch_def setMaxEvents_def setStartPattern_def new_watch_def
        DEFAULT_MAX_COUNT_def DEFAULT_MAX_INTERVAL_def)
  have n: "show_nat 0 = ''0''" "show_nat 1 = ''1''" by code_simp+
  have i: "event_id 0 = ''000''" "event_id 1 = ''001''"
    using n by (simp_all add: event_id_def pad_left_def numeral_eq_Suc)
  have wd: "getWorkDir sample_env = ''/logs''" by (simp add: getWorkDir_def sample_env_def)
  have nm: "named sample_env second_event"
    using q i wd by (auto simp: named_def watch_dir_def PATH_MAX_def le_Suc_eq)
  have d: "getOutputDirName sample_env second_event 1 = ''/logs/w/001''"
    "getOutputDirName sample_env second_event 0 = ''/logs/w/000''"
    using event_dir [OF nm] q i wd by (simp_all add: watch_dir_def)
  have c: "comps ''/logs'' = [''logs'']" "comps ''/logs/w'' = [''logs'', ''w'']" "comps ''/logs/w/001'' = [''logs'', ''w'', ''001'']"
    by (simp_all add: comps_def)
  have s: "reliable (calm old_event_tree)" "wf_tree (fs (calm old_event_tree))"
    by simp (simp add: calm_def old_event_tree_def wf_tree_def is_dir_def)
  obtain w' t where f: "run_state (flush sample_env second_event) (calm old_event_tree) = (Inr w', t)"
    using good_flush [OF second_event_good q(5)] by blast
  have W: "content t ''/logs/w/001/summary.txt'' =
      concat (map (\<lambda>(n, r). ''Record '' @ show_nat n @ '':'' @ [NL] @
        concat (map (\<lambda>li. msg li @ [NL]) (items r)) @ [NL]) (enumerate 0 (records second_event))) \<and>
    (1 \<le> (1::nat) \<longrightarrow> node_at t ''/logs/w/000'' = None)"
    using event_written [OF s nm _ _ _ q(4) _ f] q d wd c
    by (simp add: calm_def old_event_tree_def isDir_def directory_exists_def is_dir_def node_at_def watch_dir_def)
  have "records second_event = [\<lparr>items = [sample_item 0 ''err: a'', sample_item 1 ''b''], captures = [''err''], valid = True\<rparr>]"
    by (simp add: second_event_def)
  with W f n(1) show ?thesis by (simp add: sample_item_def)
qed

end
