(* ===== verification/Spec2Isabelle.thy ===== *)
theory Spec2Isabelle
  imports Ring Crashdir_Fresh Notify Monitor Vmmtrap Lw_Event
begin

text \<open>
  A verification library for crashlogd, the crash logging daemon of the repository (src/crashlog/), and
  for log-watch (src/log-watch/), which watches a log for events.

  \<^bold>\<open>The program.\<close> crashlogd starts by sorting out why the system was started and which crashes the
  last run left behind (main.c, startupreason.c, panic.c), then waits on inotify watches
  (inotify_handler.c) and calls a handler for each event: crashes of applications (usercrash.c),
  applications that do not answer (anruiwdt.c), dumps in the dropbox (dropbox.c), requests for
  logs and statistics (trigger.c), recovery (recovery.c). For each crash it reserves one of a fixed
  number of numbered directories (fsutils.c), copies the logs there, writes a short crash file,
  computes a key, appends a record to the history of events (history.c), and tells the crash report
  application (crashutils.c). Configuration files (config.c, config_handler.c) and lists of software
  versions (ingredients.c) describe what to collect; a watchdog thread (watchdog.c) ends the daemon
  when its loop is stuck.

  log-watch is a program of its own. It reads a log item by item (KmsgReader.cpp, UeventReader.cpp) and
  feeds each item to its watches (EventWatch.cpp), as the configuration describes them (LwConfig.cpp).
  A watch has a thread, which takes the items from a mailbox, gathers those that match its patterns
  (ItemPattern.cpp) in records and records in events. An event is a directory with a summary,
  attachments (EventAttachment.cpp) and data fields (DataFormat.cpp); a watch that makes too many of
  them ends itself.

  \<^bold>\<open>The build.\<close> The model is of the default build for Linux, with LOGS_DIR /logs: FULL_REPORT,
  CONFIG_APLOG, CONFIG_BTDUMP, CONFIG_DUMP_BINDER, CONFIG_SOFIA and CONFIG_DMI are not defined, and in the
  model of the daemon the optional modules of intel_specific/ are replaced by the empty functions of
  the headers in inc/, memory errors (intel_ecc_handler.c) apart. Those modules whose sources are in
  the repository are modelled on their own, in the theories of the optional modules below; the loop
  of the daemon does not call them. Where a choice changes the logic it is an argument: the
  three boot variants, early logs and memory dumps are fields of \<open>build_options\<close>, and the SD card,
  core dumps, FULL_REPORT in the table of callbacks and the number of modems are parameters. What the
  programs run by the daemon write is the parameter \<open>child\<close>, and \<open>strerror\<close> is a parameter.

  \<^bold>\<open>The world.\<close> \<open>Posix\<close> models the parts of the C library and the kernel that the sources call: a tree
  of files and directories, properties, the clock, \<open>errno\<close>. Every call that may fail asks an oracle of
  the world (\<open>fault\<close>), a function of the number of calls made so far, that is universally quantified
  in the theorems; a world is \<open>reliable\<close> when the oracle lets every call succeed. Operations are
  in the state monad. Undefined behaviour of C is kept visible as an effect of the log \<open>effects\<close>
  (\<open>NullDeref\<close>, \<open>BadRead\<close>, \<open>BadWrite\<close>, \<open>DivByZero\<close>), as are commands that are run, notifications that
  are sent and the end of the process. Records are extended by the static variables of a C file:
  \<open>hist\<close> those of history.c, \<open>daemon\<close> those of crashutils.c, fsutils.c and main.c, \<open>runtime\<close> those of the
  event sources.

  \<^bold>\<open>The theories of the library.\<close>

  \<^item> \<open>Prelude\<close>: C strings, printf and scanf conversions, 32-bit conversions, list lemmas.
  \<^item> \<open>Posix\<close>: the world, its calls, and the frame calculus: \<open>keeps\<close> states that an operation leaves a
    view of the state alone, the locale \<open>frame\<close> and its extensions in \<open>Frames\<close> (\<open>hist_frame\<close>,
    \<open>daemon_frame\<close>) derive the frame of every operation of a component once from the view's laws,
    and are interpreted for the views the properties need.
  \<^item> \<open>Fsutils_Text\<close>: reading lines and searching text files (fsutils.c 236-510, 1810-1864).
  \<^item> \<open>Ring_Sort\<close>, \<open>Ring\<close>, \<open>Fsutils_Cache\<close>: the quicksort that straightens a ring of pointers, an abstract
    bounded queue (the locale of \<open>Ring\<close>), and \<open>cache_file\<close>, \<open>append_file\<close>, \<open>overwrite_file\<close>
    (fsutils.c 1337-1556).
  \<^item> \<open>Fsutils_Perm\<close>, \<open>Fsutils_Small\<close>: owners and modes, removal of trees, small files (fsutils.c).
  \<^item> \<open>Config\<close>: the configuration files of config.c; allocation is taken to succeed.
  \<^item> \<open>History\<close>, \<open>History_Inv\<close>, \<open>History_Log\<close>, \<open>History_Delete\<close>: the history of events of history.c with
    its cache, its invariant under any faults, its refinement to a bounded log, and the removal of
    records.
  \<^item> \<open>Daemon_State\<close>: the static variables of the daemon, commands (utils.c), property lists
    (getbulkprops.c). \<open>Ingredients\<close>: ingredients.c.
  \<^item> \<open>Ctext\<close>: \<open>strtok\<close> and \<open>strtoul\<close> of the C library, which several components call.
  \<^item> \<open>Crashutils\<close>, \<open>Raise\<close>, \<open>Raise_Log\<close>: keys, crash files and raising events (crashutils.c); that raising
    ends, whom it tells and what it records.
  \<^item> \<open>Crashdir\<close>, \<open>Crashdir_Fresh\<close>, \<open>Copy\<close>: numbered crash directories, the check of quota and free space,
    and copying logs (fsutils.c).
  \<^item> \<open>Transition\<close>, \<open>Notify\<close>: a locale of transition systems with invariants and progress, and its
    interpretation on the threads of \<open>notify_crashreport\<close> (crashutils.c), a step relation over the
    variables they share: how many threads sleep, when an event is followed by a broadcast, and when it is
    not.
  \<^item> \<open>Runtime\<close>, \<open>Watchdog\<close>: application and baseband logs, the SD card, and the watchdog (watchdog.c).
  \<^item> \<open>Config_Handler\<close>, \<open>Infoevent\<close>, \<open>Watch\<close>: the daemon's own configuration (config_handler.c), the rest
    of crashutils.c (last messages, info events, uptime), the table of watched paths.

  \<^bold>\<open>The theories of the event sources.\<close>

  \<^item> \<open>Dropbox\<close>, \<open>Usercrash\<close>, \<open>Trigger\<close>: handlers of inotify events (dropbox.c; usercrash.c, anruiwdt.c
    and recovery.c; trigger.c).
  \<^item> \<open>Inotify\<close>, \<open>Inotify_Loop\<close>: the watches and the reading of events (inotify_handler.c), with the
    handlers as a parameter: events are handled in order and once, and which event the test for a
    truncated one may lose.
  \<^item> \<open>Startupreason\<close>, \<open>Panic\<close>, \<open>Ecc\<close>, \<open>Boot\<close>: why the system was started, panics of the kernel,
    memory errors, and the checks made once at start.
  \<^item> \<open>Daemon_Main\<close>: main.c, from the arguments to the loop over the file descriptors.
  \<^item> \<open>Runtime_Frames\<close>, \<open>Monitor\<close>: the locale \<open>keeper\<close> derives what every handler leaves alone from what
    the calls leave alone, \<open>monitor_keeper\<close> extends it to the loop, and its interpretation on the table
    of watches and callbacks shows that the loop keeps calling the handlers the table names.

  \<^bold>\<open>The theories of the optional modules.\<close>

  \<^item> \<open>Ct_Packet\<close>: the client library of the log capture tool (liblogcapture): how an event with its
    parameters and attachments is laid out in a packet, and that the receiver's walk over the packet
    finds what the sender put there.
  \<^item> \<open>Ct_Event\<close>: the daemon's side (lct_link.c, ct_utils.c, ct_eventintegrity.c): receiving
    packets, writing data files, binary files as text. Its record \<open>link\<close> extends \<open>ecc\<close>.
  \<^item> \<open>Partition\<close>: checksums of files and directories and the check of mounted partitions (checksum.c,
    check_partition.c). Its record \<open>platform\<close> extends \<open>link\<close>. SHA-1 is the parameter \<open>sha\<close>, a record
    of functions with the documented law \<open>streaming\<close>; changes of the mount table are an argument.
  \<^item> \<open>Firmware\<close>: fabric errors, firmware crashes and updates, the identity of the platform, modem
    dumps, the last log of the virtual machine monitor (fabric.c, intelfwcrash.c, fw_update.c, spid.c,
    iptrak.c, modem_crash.c, last_vmm_log.c); the build for Sofia is an argument.
  \<^item> \<open>Vmmtrap\<close>: traps of the virtual machine monitor (vmmtrap.c).

  \<^bold>\<open>The theories of log-watch.\<close>

  \<^item> \<open>Lw_Items\<close>: times, items, patterns and records (TimeVal.cpp, LogItem.cpp, ItemPattern.cpp,
    EventRecord.cpp). \<open>timeval\<close> is an instance of \<open>linorder\<close>, with the order of the code. The type
    \<open>failure\<close> lists how C++ leaves the path of the code: \<open>Out_of_range\<close> (an exception), \<open>Never_returns\<close>,
    \<open>Empty_front\<close> (the front of an empty list), \<open>Null_string\<close>.
  \<^item> \<open>Lw_Format\<close>: texts from formats and captures (DataFormat.cpp). The loops are partial functions, whose
    value is None when they do not end: when they equal one pass from left to right, and when they never end.
  \<^item> \<open>Lw_Files\<close>: files and attachments (utils.cpp, EventAttachment.cpp).
  \<^item> \<open>Lw_Watch\<close>, \<open>Lw_Flush\<close>: the state of a watch, the gathering of records, the files of an event and the limit
    on events (EventWatch.cpp), with every failure as a value.
  \<^item> \<open>Lw_Limits\<close>: which watches and items fail, and that the others do not.
  \<^item> \<open>Lw_Rate\<close>: the locale \<open>watch_view\<close> derives what \<open>process\<close> leaves alone up to the flush; its interpretation
    on the counters of events gives the distance of events. Items are kept once and in order.
  \<^item> \<open>Lw_Threads\<close>: the reader and the thread of a watch as the step relation \<open>lw_step\<close>, whose steps are the
    sections of the code under its mutex; three interpretations of the locale \<open>invariant\<close> of \<open>Transition\<close> show
    that the mailbox is bounded, that the steps refine the processing of the log in sequence, and that
    both sides end.
  \<^item> \<open>Lw_Config\<close>: the configuration (LwConfig.cpp); a watch that it gives is ready for a log.
  \<^item> \<open>Lw_Reader\<close>: the readers and main (KmsgReader.cpp, UeventReader.cpp, LogReader.cpp, logwatch.cpp).
  \<^item> \<open>Lw_Event\<close>: an event on disk.

  The model of log-watch is of its build for a host, where an event is written to event_submission.txt
  instead of being sent to the log capture tool. Regular expressions (\<open>regex\<close>: whether a pattern
  compiles and where its groups match), the programs that attachments run (\<open>programs\<close>) and the parser
  of configurations, libintelconfig (\<open>iconfig\<close>), are parameters. A watch works alone: watches share no
  state beside the log.

  Bytes of memory that no code has written, which \<open>malloc\<close> and \<open>realloc\<close> return, are parameters of
  the definitions of these theories that read them.

  \<^bold>\<open>Fuel.\<close> Loops that read a file have one more than the bytes of the file as fuel: each turn reads at
  least one byte; so have \<open>receive_loop\<close>, \<open>version_lines\<close> and \<open>command_lines\<close> with the bytes they are
  given. \<open>rmfr_specific\<close> and \<open>get_ecc_path\<close> have the height of the tree plus one, as has
  \<open>rmRec_fuel\<close>. \<open>load_loop\<close> has the number
  of sections plus one, which \<open>load_config_by_pattern_ends\<close> shows to be enough. \<open>priv_raise\<close> has two:
  theorem \<open>priv_raise_fuel\<close> shows that no event is raised below the second level. \<open>circular_loop\<close> has
  the number of files plus one, which \<open>circular_loop_terminates\<close> shows to be enough. \<open>feed_file\<close>,
  \<open>mounts_loop\<close>, \<open>trap_lines\<close> and \<open>find_mount\<close> have the bytes of their file plus one, the walks of
  checksum.c the height of the tree plus one, and the receiving of a packet one turn for each
  interruption of the call. The loop of the
  daemon never ends on its own: \<open>monitor\<close> is given the number of turns that are looked at.

  \<^bold>\<open>Not modelled.\<close> The modem manager and its telephony wrapper (mmgr_source.c, tcs_wrapper.c) and
  kernel netlink (kct_netlink.c), which only translate the messages of libraries outside the
  repository; the branches of the builds not chosen above, the reader of Android logs of log-watch
  (LogdReader.cpp) among them; log output; the scripts; and the other programs of the repository
  (backtrace, logcatext, the Java binding).
\<close>

end
